(* ===== verification/Linker_Prelude.thy ===== *)
theory Linker_Prelude imports Main "HOL-Library.Word" begin

text \<open>
  Shared vocabulary of the development: the byte type, the opaque Holochain hash types as
  wrappers over their raw bytes (the code only ever compares them), the standard library's
  \<open>HashMap\<close> as an association list with distinct keys, fallible state transformers, and the
  generic lemmas and collections the component theories use.

  A \<open>HashMap\<close> iterates in an unspecified order, so the list order stands for whatever order
  the run has; no component theorem depends on where an insertion lands.
\<close>

named_theorems hm_simps \<open>characteristic equations of the hash map operations\<close>
named_theorems hm_wf_intros \<open>well-formedness of hash maps is kept by every operation\<close>

section \<open>Bytes and hashes\<close>

type_synonym byte = "8 word"
type_synonym bytes = "byte list"

datatype dna_hash = DnaHash bytes
datatype agent_pubkey = AgentPubKey bytes

text \<open>
  The text form of a hash is produced and parsed by the \<open>holo_hash\<close> crate, a parameter of the
  model: \<open>holo_hash_ok\<close> is its documented round trip (a printed hash parses back to itself).
  A failed parse carries the debug text of the error, which the handlers put in their message.
\<close>

record holo_hash_api =
  dna_try_from :: "string \<Rightarrow> string + dna_hash"
  dna_to_string :: "dna_hash \<Rightarrow> string"
  agent_try_from :: "string \<Rightarrow> string + agent_pubkey"
  agent_to_string :: "agent_pubkey \<Rightarrow> string"

definition holo_hash_ok :: "holo_hash_api \<Rightarrow> bool" where
  "holo_hash_ok h \<longleftrightarrow> (\<forall>d. dna_try_from h (dna_to_string h d) = Inr d) \<and>
     (\<forall>a. agent_try_from h (agent_to_string h a) = Inr a)"

lemma agent_round_trip [simp]: "holo_hash_ok h \<Longrightarrow> agent_try_from h (agent_to_string h a) = Inr a"
  by (simp add: holo_hash_ok_def)

lemma dna_round_trip [simp]: "holo_hash_ok h \<Longrightarrow> dna_try_from h (dna_to_string h d) = Inr d"
  by (simp add: holo_hash_ok_def)

lemma agent_to_string_eq [simp]:
  "holo_hash_ok h \<Longrightarrow> agent_to_string h a = agent_to_string h b \<longleftrightarrow> a = b"
  by (metis agent_round_trip sum.inject(2))

lemma dna_to_string_eq [simp]:
  "holo_hash_ok h \<Longrightarrow> dna_to_string h a = dna_to_string h b \<longleftrightarrow> a = b"
  by (metis dna_round_trip sum.inject(2))

text \<open>A concrete text form, on which the closed instances of the theorems are evaluated.\<close>

definition text_of_bytes :: "bytes \<Rightarrow> string" where
  "text_of_bytes bs = map (\<lambda>b. char_of (unat b)) bs"

definition bytes_of_text :: "string \<Rightarrow> bytes" where
  "bytes_of_text s = map (\<lambda>c. word_of_nat (of_char c)) s"

lemma unat_byte_mod [simp]: "unat (b :: byte) mod 256 = unat b"
proof -
  have "unat b < 2 ^ LENGTH(8)" by (rule unsigned_less)
  then show ?thesis by simp
qed

lemma bytes_of_text_of_bytes [simp]: "bytes_of_text (text_of_bytes bs) = bs"
  by (induction bs) (auto simp: text_of_bytes_def bytes_of_text_def)

definition plain_holo_hash :: holo_hash_api where
  "plain_holo_hash = \<lparr>
     dna_try_from = (\<lambda>s. if take 1 s = ''d'' then Inr (DnaHash (bytes_of_text (drop 1 s))) else Inl ''BadPrefix''),
     dna_to_string = (\<lambda>d. case d of DnaHash bs \<Rightarrow> ''d'' @ text_of_bytes bs),
     agent_try_from = (\<lambda>s. if take 1 s = ''a'' then Inr (AgentPubKey (bytes_of_text (drop 1 s))) else Inl ''BadPrefix''),
     agent_to_string = (\<lambda>a. case a of AgentPubKey bs \<Rightarrow> ''a'' @ text_of_bytes bs)\<rparr>"

lemma plain_holo_hash_ok: "holo_hash_ok plain_holo_hash"
  by (auto simp: holo_hash_ok_def plain_holo_hash_def split: dna_hash.splits agent_pubkey.splits)

section \<open>The standard library's hash map\<close>

type_synonym ('k, 'v) hashmap = "('k \<times> 'v) list"

definition hm_get :: "('k, 'v) hashmap \<Rightarrow> 'k \<Rightarrow> 'v option" where
  "hm_get m k = map_of m k"

definition hm_remove :: "'k \<Rightarrow> ('k, 'v) hashmap \<Rightarrow> ('k, 'v) hashmap" where
  "hm_remove k m = filter (\<lambda>e. fst e \<noteq> k) m"

definition hm_insert :: "'k \<Rightarrow> 'v \<Rightarrow> ('k, 'v) hashmap \<Rightarrow> ('k, 'v) hashmap" where
  "hm_insert k v m = (k, v) # hm_remove k m"

definition hm_retain :: "('k \<Rightarrow> 'v \<Rightarrow> bool) \<Rightarrow> ('k, 'v) hashmap \<Rightarrow> ('k, 'v) hashmap" where
  "hm_retain P m = filter (\<lambda>e. P (fst e) (snd e)) m"

definition hm_update_values :: "('k \<Rightarrow> 'v \<Rightarrow> 'v) \<Rightarrow> ('k, 'v) hashmap \<Rightarrow> ('k, 'v) hashmap" where
  "hm_update_values f m = map (\<lambda>e. (fst e, f (fst e) (snd e))) m"

definition hm_contains :: "('k, 'v) hashmap \<Rightarrow> 'k \<Rightarrow> bool" where
  "hm_contains m k \<longleftrightarrow> hm_get m k \<noteq> None"

definition hm_wf :: "('k, 'v) hashmap \<Rightarrow> bool" where
  "hm_wf m \<longleftrightarrow> distinct (map fst m)"

text \<open>The retained part of a map, on the map view.\<close>

definition map_retain :: "('k \<Rightarrow> 'v \<Rightarrow> bool) \<Rightarrow> ('k \<rightharpoonup> 'v) \<Rightarrow> ('k \<rightharpoonup> 'v)" where
  "map_retain P m = (\<lambda>k. case m k of None \<Rightarrow> None | Some v \<Rightarrow> if P k v then Some v else None)"

definition map_update_values :: "('k \<Rightarrow> 'v \<Rightarrow> 'v) \<Rightarrow> ('k \<rightharpoonup> 'v) \<Rightarrow> ('k \<rightharpoonup> 'v)" where
  "map_update_values f m = (\<lambda>k. map_option (f k) (m k))"

subsection \<open>Characteristic equations\<close>

lemma hm_get_Nil [simp, hm_simps]: "hm_get [] k = None"
  by (simp add: hm_get_def)

lemma hm_get_Cons: "hm_get ((k', v) # m) k = (if k = k' then Some v else hm_get m k)"
  by (simp add: hm_get_def)

lemma hm_get_remove [simp, hm_simps]: "hm_get (hm_remove k m) = (hm_get m)(k := None)"
  by (induction m) (auto simp: hm_get_def hm_remove_def fun_eq_iff)

lemma hm_get_insert [simp, hm_simps]: "hm_get (hm_insert k v m) = (hm_get m)(k \<mapsto> v)"
  by (auto simp: hm_insert_def hm_get_Cons fun_eq_iff)

lemma fst_mem_hm_get: "hm_get m k = Some v \<Longrightarrow> (k, v) \<in> set m"
  by (simp add: hm_get_def map_of_SomeD)

lemma hm_get_iff_mem: "hm_wf m \<Longrightarrow> hm_get m k = Some v \<longleftrightarrow> (k, v) \<in> set m"
  by (simp add: hm_wf_def hm_get_def)

lemma hm_get_None_iff: "hm_get m k = None \<longleftrightarrow> k \<notin> fst ` set m"
  by (simp add: hm_get_def map_of_eq_None_iff)

lemma hm_get_retain [hm_simps]:
  assumes "hm_wf m"
  shows "hm_get (hm_retain P m) = map_retain P (hm_get m)"
proof
  fix k
  show "hm_get (hm_retain P m) k = map_retain P (hm_get m) k"
    using assms
  proof (induction m)
    case Nil
    then show ?case by (simp add: hm_retain_def map_retain_def)
  next
    case (Cons e m)
    then have wf: "hm_wf m" and new: "fst e \<notin> fst ` set m"
      by (auto simp: hm_wf_def)
    obtain a b where e: "e = (a, b)" by (cases e)
    have "hm_get (hm_retain P m) a = None"
      using new by (auto simp: hm_get_None_iff hm_retain_def e)
    with Cons.IH [OF wf] new show ?case
      by (auto simp: e hm_retain_def hm_get_Cons map_retain_def)
  qed
qed

lemma hm_get_update_values [simp, hm_simps]:
  "hm_get (hm_update_values f m) = map_update_values f (hm_get m)"
proof
  fix k
  show "hm_get (hm_update_values f m) k = map_update_values f (hm_get m) k"
    by (induction m) (auto simp: hm_update_values_def map_update_values_def hm_get_def)
qed

lemma hm_contains_iff [simp]: "hm_contains m k \<longleftrightarrow> hm_get m k \<noteq> None"
  by (simp add: hm_contains_def)

lemma dom_hm_get: "dom (hm_get m) = fst ` set m"
  by (simp add: hm_get_def dom_map_of_conv_image_fst [symmetric] fun_eq_iff dom_def hm_get_def)

lemma hm_length_card: "hm_wf m \<Longrightarrow> length m = card (dom (hm_get m))"
  by (metis distinct_card dom_hm_get hm_wf_def length_map list.set_map)

lemma ran_hm_get: "hm_wf m \<Longrightarrow> snd ` set m = ran (hm_get m)"
  by (force simp: ran_def hm_get_iff_mem image_def)

subsection \<open>Well-formedness\<close>

lemma hm_wf_Nil [simp, hm_wf_intros]: "hm_wf []"
  by (simp add: hm_wf_def)

lemma hm_wf_filter: "hm_wf m \<Longrightarrow> hm_wf (filter P m)"
  by (simp add: hm_wf_def distinct_map_filter)

lemma hm_wf_remove [simp, hm_wf_intros]: "hm_wf m \<Longrightarrow> hm_wf (hm_remove k m)"
  by (simp add: hm_remove_def hm_wf_filter)

lemma hm_wf_retain [simp, hm_wf_intros]: "hm_wf m \<Longrightarrow> hm_wf (hm_retain P m)"
  by (simp add: hm_retain_def hm_wf_filter)

lemma hm_wf_insert [simp, hm_wf_intros]: "hm_wf m \<Longrightarrow> hm_wf (hm_insert k v m)"
  using hm_wf_remove [of m k] by (auto simp: hm_insert_def hm_wf_def hm_remove_def)

lemma hm_wf_update_values [simp, hm_wf_intros]: "hm_wf m \<Longrightarrow> hm_wf (hm_update_values f m)"
  by (simp add: hm_wf_def hm_update_values_def comp_def)

subsection \<open>Retained maps\<close>

lemma map_retain_Some [simp]: "map_retain P m k = Some v \<longleftrightarrow> m k = Some v \<and> P k v"
  by (auto simp: map_retain_def split: option.splits if_splits)

lemma map_retain_None: "map_retain P m k = None \<longleftrightarrow> (\<forall>v. m k = Some v \<longrightarrow> \<not> P k v)"
  by (auto simp: map_retain_def split: option.splits)

lemma map_retain_apply [simp]:
  "m k = Some v \<Longrightarrow> map_retain P m k = (if P k v then Some v else None)"
  "m k = None \<Longrightarrow> map_retain P m k = None"
  by (simp_all add: map_retain_def)

lemma map_retain_le: "map_retain P m \<subseteq>\<^sub>m m"
  by (auto simp: map_le_def dom_def)

lemma map_retain_idem: "(\<And>k v. m k = Some v \<Longrightarrow> P k v) \<Longrightarrow> map_retain P m = m"
  by (auto simp: map_retain_def fun_eq_iff split: option.splits)

lemma map_update_values_Some [simp]:
  "map_update_values f m k = Some v \<longleftrightarrow> (\<exists>w. m k = Some w \<and> v = f k w)"
  by (auto simp: map_update_values_def)

lemma map_update_values_None [simp]: "map_update_values f m k = None \<longleftrightarrow> m k = None"
  by (simp add: map_update_values_def)

lemma hm_removed_count:
  assumes "hm_wf m"
  shows "length m - length (hm_retain (\<lambda>_ i. f i \<noteq> k) m) =
         card {t. \<exists>i. hm_get m t = Some i \<and> f i = k}"
proof -
  have "{t. \<exists>i. hm_get m t = Some i \<and> f i = k} = fst ` set (filter (\<lambda>e. f (snd e) = k) m)"
    using assms by (force simp: hm_get_iff_mem)
  then have "card {t. \<exists>i. hm_get m t = Some i \<and> f i = k} = length (filter (\<lambda>e. f (snd e) = k) m)"
    using hm_wf_filter [OF assms, of "\<lambda>e. f (snd e) = k"]
    by (metis (no_types, lifting) distinct_card hm_wf_def length_map list.set_map)
  moreover have "length (filter (\<lambda>e. f (snd e) = k) m) + length (filter (\<lambda>e. f (snd e) \<noteq> k) m) = length m"
    by (rule sum_length_filter_compl)
  ultimately show ?thesis by (simp add: hm_retain_def)
qed

section \<open>Fallible state transformers\<close>

text \<open>
  A method that may fail returns the state it leaves behind together with an error
  (\<open>Inl\<close>) or its value (\<open>Inr\<close>); \<open>and_then\<close> is the \<open>?\<close> operator on two steps.
\<close>

type_synonym ('s, 'e, 'a) fallible = "'s \<Rightarrow> 's \<times> ('e + 'a)"

definition returns :: "'a \<Rightarrow> ('s, 'e, 'a) fallible" where
  "returns x s = (s, Inr x)"

definition and_then :: "('s, 'e, 'a) fallible \<Rightarrow> ('a \<Rightarrow> ('s, 'e, 'b) fallible) \<Rightarrow> ('s, 'e, 'b) fallible" where
  "and_then f g s = (case f s of (s', Inl e) \<Rightarrow> (s', Inl e) | (s', Inr x) \<Rightarrow> g x s')"

lemma returns_simps [simp]: "returns x s = (s, Inr x)"
  by (simp add: returns_def)

lemma and_then_Inr:
  "and_then f g s = (t, Inr y) \<longleftrightarrow> (\<exists>s' x. f s = (s', Inr x) \<and> g x s' = (t, Inr y))"
  by (auto simp: and_then_def split: prod.splits sum.splits)

lemma and_then_Inl:
  "and_then f g s = (t, Inl e) \<longleftrightarrow>
     f s = (t, Inl e) \<or> (\<exists>s' x. f s = (s', Inr x) \<and> g x s' = (t, Inl e))"
  by (auto simp: and_then_def split: prod.splits sum.splits)

text \<open>\<open>unwrap_or\<close> on a result, as the callers that log and go on use it.\<close>

definition unwrap_or :: "'a \<Rightarrow> 'e + 'a \<Rightarrow> 'a" where
  "unwrap_or d r = (case r of Inl _ \<Rightarrow> d | Inr x \<Rightarrow> x)"

lemma unwrap_or_simps [simp]: "unwrap_or d (Inl e) = d" "unwrap_or d (Inr x) = x"
  by (simp_all add: unwrap_or_def)

end
