(* ===== verification/Auth_Types.thy ===== *)
theory Auth_Types imports Linker_Prelude begin

text \<open>
  The data of \<open>src/auth/types.rs\<close> and the error type of \<open>src/auth/session_store.rs\<close>:
  capabilities, allowed agents, sessions and the authentication context that the middleware
  attaches to a request. A \<open>HashSet\<close> is a set; a session token is the hex string.
\<close>

datatype capability = DhtRead | DhtWrite | K2

text \<open>
  A linear order on capabilities lets a capability set be written out as a list, as the
  handlers do when they turn the \<open>HashSet\<close> into a \<open>Vec\<close>.
\<close>

fun capability_rank :: "capability \<Rightarrow> nat" where
  "capability_rank DhtRead = 0"
| "capability_rank DhtWrite = 1"
| "capability_rank K2 = 2"

lemma capability_rank_inj: "capability_rank a = capability_rank b \<Longrightarrow> a = b"
  by (cases a; cases b) simp_all

instantiation capability :: linorder begin

definition less_eq_capability :: "capability \<Rightarrow> capability \<Rightarrow> bool" where
  "less_eq_capability a b \<longleftrightarrow> capability_rank a \<le> capability_rank b"

definition less_capability :: "capability \<Rightarrow> capability \<Rightarrow> bool" where
  "less_capability a b \<longleftrightarrow> capability_rank a < capability_rank b"

instance
  by standard (auto simp: less_eq_capability_def less_capability_def intro: capability_rank_inj)

end

record allowed_agent =
  aa_agent_pubkey :: agent_pubkey
  aa_capabilities :: "capability set"
  aa_label :: "string option"

type_synonym session_token = string

record session_info =
  si_agent_pubkey :: agent_pubkey
  si_capabilities :: "capability set"
  si_registered_dnas :: "dna_hash set"

definition si_has_capability :: "session_info \<Rightarrow> capability \<Rightarrow> bool" where
  "si_has_capability s cap \<longleftrightarrow> cap \<in> si_capabilities s"

definition si_has_dna :: "session_info \<Rightarrow> dna_hash \<Rightarrow> bool" where
  "si_has_dna s dna \<longleftrightarrow> dna \<in> si_registered_dnas s"

record auth_context =
  ac_agent_pubkey :: agent_pubkey
  ac_capabilities :: "capability set"
  ac_registered_dnas :: "dna_hash set"

definition ac_has_dna :: "auth_context \<Rightarrow> dna_hash \<Rightarrow> bool" where
  "ac_has_dna c dna \<longleftrightarrow> dna \<in> ac_registered_dnas c"

datatype session_store_error = Database string

end
