(* ===== verification/Http.thy ===== *)
theory Http imports Auth_Types begin

text \<open>
  Requests and responses as the handlers see them, the JSON values they answer, and the error type
  of \<open>src/error.rs\<close> with its mapping to a status and a JSON body. What axum, hyper and serde do
  around a handler (framing, extraction, rendering) is not modelled: a request is already parsed
  and a response is a status with a body.
\<close>

section \<open>JSON values\<close>

datatype json =
    JNull
  | JBool bool
  | JNumber int
  | JString string
  | JArray "json list"
  | JObject "(string \<times> json) list"

definition json_option :: "('a \<Rightarrow> json) \<Rightarrow> 'a option \<Rightarrow> json" where
  "json_option f v = (case v of None \<Rightarrow> JNull | Some x \<Rightarrow> f x)"

section \<open>Requests and responses\<close>

datatype http_method = GET | HEAD | POST | DELETE | OtherMethod string

record 'b request =
  rq_method :: http_method
  rq_path :: "string list"
  rq_headers :: "(string \<times> string) list"
  rq_params :: "(string \<times> string) list"
  rq_context :: "auth_context option"
  rq_body :: 'b

text \<open>A body is plain text, a JSON document, or the text of a JSON document.\<close>

datatype body = EmptyBody | TextBody string | JsonBody json | JsonTextBody json

record response =
  rs_status :: nat
  rs_body :: body

abbreviation reply :: "nat \<Rightarrow> body \<Rightarrow> response" where
  "reply s b \<equiv> \<lparr>rs_status = s, rs_body = b\<rparr>"

abbreviation (input) NO_CONTENT :: nat where "NO_CONTENT \<equiv> 204"
abbreviation (input) BAD_REQUEST :: nat where "BAD_REQUEST \<equiv> 400"
abbreviation (input) UNAUTHORIZED :: nat where "UNAUTHORIZED \<equiv> 401"
abbreviation (input) FORBIDDEN :: nat where "FORBIDDEN \<equiv> 403"
abbreviation (input) NOT_FOUND :: nat where "NOT_FOUND \<equiv> 404"
abbreviation (input) METHOD_NOT_ALLOWED :: nat where "METHOD_NOT_ALLOWED \<equiv> 405"
abbreviation (input) INTERNAL_SERVER_ERROR :: nat where "INTERNAL_SERVER_ERROR \<equiv> 500"
abbreviation (input) BAD_GATEWAY :: nat where "BAD_GATEWAY \<equiv> 502"
abbreviation (input) SERVICE_UNAVAILABLE :: nat where "SERVICE_UNAVAILABLE \<equiv> 503"

text \<open>\<open>HeaderValue::to_str\<close> fails on anything but visible ASCII and tabs.\<close>

definition visible_ascii :: "char \<Rightarrow> bool" where
  "visible_ascii c \<longleftrightarrow> (32 \<le> (of_char c :: nat) \<and> (of_char c :: nat) < 127) \<or> (of_char c :: nat) = 9"

definition header_str :: "'b request \<Rightarrow> string \<Rightarrow> string option" where
  "header_str rq name = (case map_of (rq_headers rq) name of
     None \<Rightarrow> None
   | Some v \<Rightarrow> if list_all visible_ascii v then Some v else None)"

definition strip_prefix :: "string \<Rightarrow> string \<Rightarrow> string option" where
  "strip_prefix p s = (if take (length p) s = p then Some (drop (length p) s) else None)"

lemma strip_prefix_Some: "strip_prefix p s = Some t \<longleftrightarrow> s = p @ t"
  by (auto simp: strip_prefix_def) (metis append_take_drop_id)

section \<open>Errors\<close>

datatype linker_error =
    Config string
  | Network string
  | Serialization string
  | NotFound string
  | InvalidRequest string
  | Internal string
  | HolochainError string
  | UpstreamUnavailable
  | AuthenticationFailed string
  | Forbidden string
  | RequestMalformed string

type_synonym 'a linker_result = "linker_error + 'a"

text \<open>\<open>Display\<close>, for the errors that are put into another message.\<close>

definition error_to_string :: "linker_error \<Rightarrow> string" where
  "error_to_string err = (case err of
     Config msg \<Rightarrow> ''Configuration error: '' @ msg
   | Network msg \<Rightarrow> ''Network error: '' @ msg
   | Serialization msg \<Rightarrow> ''Serialization error: '' @ msg
   | NotFound msg \<Rightarrow> ''Not found: '' @ msg
   | InvalidRequest msg \<Rightarrow> ''Invalid request: '' @ msg
   | Internal msg \<Rightarrow> ''Internal error: '' @ msg
   | HolochainError e \<Rightarrow> ''Holochain error: '' @ e
   | UpstreamUnavailable \<Rightarrow> ''Upstream unavailable''
   | AuthenticationFailed msg \<Rightarrow> ''Authentication failed: '' @ msg
   | Forbidden msg \<Rightarrow> ''Forbidden: '' @ msg
   | RequestMalformed msg \<Rightarrow> ''Request malformed: '' @ msg)"

definition error_status_message :: "linker_error \<Rightarrow> nat \<times> string" where
  "error_status_message err = (case err of
     Config msg \<Rightarrow> (BAD_REQUEST, msg)
   | Network msg \<Rightarrow> (BAD_GATEWAY, msg)
   | Serialization msg \<Rightarrow> (BAD_REQUEST, msg)
   | NotFound msg \<Rightarrow> (NOT_FOUND, msg)
   | InvalidRequest msg \<Rightarrow> (BAD_REQUEST, msg)
   | Internal msg \<Rightarrow> (INTERNAL_SERVER_ERROR, msg)
   | HolochainError e \<Rightarrow> (BAD_GATEWAY, ''Holochain error: '' @ e)
   | UpstreamUnavailable \<Rightarrow> (SERVICE_UNAVAILABLE, ''Upstream unavailable'')
   | AuthenticationFailed msg \<Rightarrow> (UNAUTHORIZED, msg)
   | Forbidden msg \<Rightarrow> (FORBIDDEN, msg)
   | RequestMalformed msg \<Rightarrow> (BAD_REQUEST, msg))"

definition error_into_response :: "linker_error \<Rightarrow> response" where
  "error_into_response err = (case error_status_message err of
     (status, message) \<Rightarrow> reply status
       (JsonTextBody (JObject [(''error'', JString message), (''code'', JNumber (int status))])))"

definition result_into_response :: "('a \<Rightarrow> response) \<Rightarrow> 'a linker_result \<Rightarrow> response" where
  "result_into_response ok r = (case r of Inl e \<Rightarrow> error_into_response e | Inr x \<Rightarrow> ok x)"

text \<open>A fallible computation that keeps the state, and its sequencing.\<close>

definition bind_result :: "'e + 'a \<Rightarrow> ('a \<Rightarrow> 'e + 'b) \<Rightarrow> 'e + 'b" where
  "bind_result r f = (case r of Inl e \<Rightarrow> Inl e | Inr x \<Rightarrow> f x)"

lemma bind_result_simps [simp]: "bind_result (Inl e) f = Inl e" "bind_result (Inr x) f = f x"
  by (simp_all add: bind_result_def)

lemma bind_result_Inr: "bind_result r f = Inr y \<longleftrightarrow> (\<exists>x. r = Inr x \<and> f x = Inr y)"
  by (auto simp: bind_result_def split: sum.splits)

lemma bind_result_Inl: "bind_result r f = Inl e \<longleftrightarrow> r = Inl e \<or> (\<exists>x. r = Inr x \<and> f x = Inl e)"
  by (auto simp: bind_result_def split: sum.splits)

definition map_error :: "('e \<Rightarrow> 'f) \<Rightarrow> 'e + 'a \<Rightarrow> 'f + 'a" where
  "map_error g r = (case r of Inl e \<Rightarrow> Inl (g e) | Inr x \<Rightarrow> Inr x)"

lemma map_error_simps [simp]: "map_error g (Inl e) = Inl (g e)" "map_error g (Inr x) = Inr x"
  by (simp_all add: map_error_def)

definition ok_or :: "'e \<Rightarrow> 'a option \<Rightarrow> 'e + 'a" where
  "ok_or e v = (case v of None \<Rightarrow> Inl e | Some x \<Rightarrow> Inr x)"

lemma ok_or_simps [simp]: "ok_or e None = Inl e" "ok_or e (Some x) = Inr x"
  by (simp_all add: ok_or_def)

text \<open>An error answers in the failure range, with its own status code in the body.\<close>

lemma error_response_shape:
  "400 \<le> rs_status (error_into_response e) \<and> rs_status (error_into_response e) \<le> 503 \<and>
   (\<exists>msg. rs_body (error_into_response e) = JsonTextBody (JObject
      [(''error'', JString msg), (''code'', JNumber (int (rs_status (error_into_response e))))]))"
  by (cases e) (simp_all add: error_into_response_def error_status_message_def)

end
