(* ===== verification/Session_Store.thy ===== *)
theory Session_Store imports Auth_Types begin

text \<open>
  The contract of the \<open>SessionStore\<close> trait (\<open>src/auth/session_store.rs\<close>): an abstract store
  (who is allowed, which sessions are live), what each trait method does to it, and the
  locale \<open>session_store\<close> that a backend has to meet. A method that fails may lose access but
  never grants any: this is \<open>degrades\<close>. The clients' lemmas are proved once, in the locale.
\<close>

named_theorems store_specs \<open>the abstract operations of the session store contract\<close>

section \<open>The abstract store\<close>

record abs_store =
  ab_allowed :: "agent_pubkey \<rightharpoonup> allowed_agent"
  ab_sessions :: "session_token \<rightharpoonup> session_info"

definition abs_empty :: abs_store where
  "abs_empty = \<lparr>ab_allowed = Map.empty, ab_sessions = Map.empty\<rparr>"

text \<open>Every live session belongs to an agent of the allow list, stored under its own key.\<close>

definition abs_ok :: "abs_store \<Rightarrow> bool" where
  "abs_ok a \<longleftrightarrow>
     (\<forall>k g. ab_allowed a k = Some g \<longrightarrow> aa_agent_pubkey g = k) \<and>
     (\<forall>t i. ab_sessions a t = Some i \<longrightarrow> ab_allowed a (si_agent_pubkey i) \<noteq> None)"

definition session_le :: "session_info \<Rightarrow> session_info \<Rightarrow> bool" where
  "session_le i j \<longleftrightarrow> si_agent_pubkey i = si_agent_pubkey j \<and> si_capabilities i = si_capabilities j
     \<and> si_registered_dnas i \<subseteq> si_registered_dnas j"

definition degrades :: "abs_store \<Rightarrow> abs_store \<Rightarrow> bool" where
  "degrades a b \<longleftrightarrow> ab_allowed b = ab_allowed a \<and>
     (\<forall>t i. ab_sessions b t = Some i \<longrightarrow> (\<exists>j. ab_sessions a t = Some j \<and> session_le i j))"

section \<open>The abstract operations\<close>

definition spec_add_agent :: "allowed_agent \<Rightarrow> abs_store \<Rightarrow> unit \<Rightarrow> abs_store \<Rightarrow> bool" where
  [store_specs]: "spec_add_agent g a _ b \<longleftrightarrow>
     b = a\<lparr>ab_allowed := (ab_allowed a)(aa_agent_pubkey g \<mapsto> g)\<rparr>"

definition spec_remove_agent :: "agent_pubkey \<Rightarrow> abs_store \<Rightarrow> bool \<Rightarrow> abs_store \<Rightarrow> bool" where
  [store_specs]: "spec_remove_agent k a r b \<longleftrightarrow> r = (ab_allowed a k \<noteq> None) \<and>
     b = \<lparr>ab_allowed = (ab_allowed a)(k := None),
          ab_sessions = map_retain (\<lambda>_ i. si_agent_pubkey i \<noteq> k) (ab_sessions a)\<rparr>"

definition spec_list_agents :: "abs_store \<Rightarrow> allowed_agent list \<Rightarrow> abs_store \<Rightarrow> bool" where
  [store_specs]: "spec_list_agents a r b \<longleftrightarrow> b = a \<and> set r = ran (ab_allowed a)"

definition spec_is_agent_allowed :: "agent_pubkey \<Rightarrow> abs_store \<Rightarrow> bool \<Rightarrow> abs_store \<Rightarrow> bool" where
  [store_specs]: "spec_is_agent_allowed k a r b \<longleftrightarrow> b = a \<and> r = (ab_allowed a k \<noteq> None)"

definition spec_get_agent ::
    "agent_pubkey \<Rightarrow> abs_store \<Rightarrow> allowed_agent option \<Rightarrow> abs_store \<Rightarrow> bool" where
  [store_specs]: "spec_get_agent k a r b \<longleftrightarrow> b = a \<and> r = ab_allowed a k"

definition spec_create_session ::
    "session_token \<Rightarrow> agent_pubkey \<Rightarrow> abs_store \<Rightarrow> session_token option \<Rightarrow> abs_store \<Rightarrow> bool" where
  [store_specs]: "spec_create_session tok k a r b \<longleftrightarrow>
     (case ab_allowed a k of
        None \<Rightarrow> r = None \<and> b = a
      | Some g \<Rightarrow> r = Some tok \<and>
          b = a\<lparr>ab_sessions := (ab_sessions a)(tok \<mapsto>
                 \<lparr>si_agent_pubkey = k, si_capabilities = aa_capabilities g, si_registered_dnas = {}\<rparr>)\<rparr>)"

definition spec_validate_session ::
    "session_token \<Rightarrow> abs_store \<Rightarrow> session_info option \<Rightarrow> abs_store \<Rightarrow> bool" where
  [store_specs]: "spec_validate_session tok a r b \<longleftrightarrow> b = a \<and>
     (case r of
        None \<Rightarrow> ab_sessions a tok = None
      | Some i \<Rightarrow> \<exists>j. ab_sessions a tok = Some j \<and> session_le i j)"

definition spec_revoke_session :: "session_token \<Rightarrow> abs_store \<Rightarrow> bool \<Rightarrow> abs_store \<Rightarrow> bool" where
  [store_specs]: "spec_revoke_session tok a r b \<longleftrightarrow> r = (ab_sessions a tok \<noteq> None) \<and>
     b = a\<lparr>ab_sessions := (ab_sessions a)(tok := None)\<rparr>"

definition register_in_session :: "agent_pubkey \<Rightarrow> dna_hash \<Rightarrow> session_info \<Rightarrow> session_info" where
  "register_in_session k d i =
     (if si_agent_pubkey i = k then i\<lparr>si_registered_dnas := insert d (si_registered_dnas i)\<rparr> else i)"

definition spec_register_dna ::
    "agent_pubkey \<Rightarrow> dna_hash \<Rightarrow> abs_store \<Rightarrow> unit \<Rightarrow> abs_store \<Rightarrow> bool" where
  [store_specs]: "spec_register_dna k d a _ b \<longleftrightarrow>
     b = a\<lparr>ab_sessions := map_update_values (\<lambda>_. register_in_session k d) (ab_sessions a)\<rparr>"

definition spec_revoke_sessions_for_agent ::
    "agent_pubkey \<Rightarrow> abs_store \<Rightarrow> nat \<Rightarrow> abs_store \<Rightarrow> bool" where
  [store_specs]: "spec_revoke_sessions_for_agent k a r b \<longleftrightarrow>
     r = card {t. \<exists>i. ab_sessions a t = Some i \<and> si_agent_pubkey i = k} \<and>
     b = a\<lparr>ab_sessions := map_retain (\<lambda>_ i. si_agent_pubkey i \<noteq> k) (ab_sessions a)\<rparr>"

definition spec_session_count :: "abs_store \<Rightarrow> nat \<Rightarrow> abs_store \<Rightarrow> bool" where
  [store_specs]: "spec_session_count a r b \<longleftrightarrow> b = a \<and> r = card (dom (ab_sessions a))"

section \<open>What it means for a backend method to implement its contract\<close>

definition implements ::
    "('s \<Rightarrow> bool) \<Rightarrow> ('s \<Rightarrow> abs_store) \<Rightarrow> ('s, 'e, 'a) fallible \<Rightarrow>
     (abs_store \<Rightarrow> 'a \<Rightarrow> abs_store \<Rightarrow> bool) \<Rightarrow> bool" where
  "implements invar absf f spec \<longleftrightarrow>
     (\<forall>s s' r. invar s \<longrightarrow> f s = (s', r) \<longrightarrow> invar s' \<and>
        (case r of Inl _ \<Rightarrow> degrades (absf s) (absf s') | Inr x \<Rightarrow> spec (absf s) x (absf s')))"

lemma implementsI:
  assumes "\<And>s s' e. invar s \<Longrightarrow> f s = (s', Inl e) \<Longrightarrow> invar s' \<and> degrades (absf s) (absf s')"
    and "\<And>s s' x. invar s \<Longrightarrow> f s = (s', Inr x) \<Longrightarrow> invar s' \<and> spec (absf s) x (absf s')"
  shows "implements invar absf f spec"
  using assms unfolding implements_def by (metis (no_types, lifting) sum.case_eq_if sum.collapse)

lemma implements_invar: "implements invar absf f spec \<Longrightarrow> invar s \<Longrightarrow> f s = (s', r) \<Longrightarrow> invar s'"
  by (auto simp: implements_def)

lemma implements_ok:
  "implements invar absf f spec \<Longrightarrow> invar s \<Longrightarrow> f s = (s', Inr x) \<Longrightarrow> spec (absf s) x (absf s')"
  by (force simp: implements_def)

lemma implements_err:
  "implements invar absf f spec \<Longrightarrow> invar s \<Longrightarrow> f s = (s', Inl e) \<Longrightarrow> degrades (absf s) (absf s')"
  by (force simp: implements_def)

lemma session_le_refl [simp]: "session_le i i"
  by (simp add: session_le_def)

lemma session_le_trans: "session_le i j \<Longrightarrow> session_le j k \<Longrightarrow> session_le i k"
  by (auto simp: session_le_def)

lemma degrades_refl [simp]: "degrades a a"
  by (simp add: degrades_def)

lemma degradesD:
  "degrades a b \<Longrightarrow> ab_sessions b t = Some i \<Longrightarrow> \<exists>j. ab_sessions a t = Some j \<and> session_le i j"
  by (simp add: degrades_def)

lemma degrades_trans:
  assumes ab: "degrades a b" and bc: "degrades b c"
  shows "degrades a c"
proof -
  have "\<exists>j. ab_sessions a t = Some j \<and> session_le i j" if c: "ab_sessions c t = Some i" for t i
    using degradesD [OF bc c] degradesD [OF ab] session_le_trans by blast
  with ab bc show ?thesis by (simp add: degrades_def)
qed

section \<open>Every abstract operation keeps \<open>abs_ok\<close>\<close>

named_theorems abs_ok_specs \<open>abstract operations keep the abstract invariant\<close>

lemma abs_okD: "abs_ok a \<Longrightarrow> ab_allowed a k = Some g \<Longrightarrow> aa_agent_pubkey g = k"
  by (simp add: abs_ok_def)

lemma abs_ok_session:
  "abs_ok a \<Longrightarrow> ab_sessions a t = Some i \<Longrightarrow> \<exists>g. ab_allowed a (si_agent_pubkey i) = Some g"
  by (auto simp: abs_ok_def)

lemma degrades_abs_ok: "degrades a b \<Longrightarrow> abs_ok a \<Longrightarrow> abs_ok b"
  by (fastforce simp: abs_ok_def degrades_def session_le_def)

lemma spec_add_agent_ok [abs_ok_specs]: "spec_add_agent g a u b \<Longrightarrow> abs_ok a \<Longrightarrow> abs_ok b"
  by (auto simp: abs_ok_def store_specs split: if_splits)

lemma spec_remove_agent_ok [abs_ok_specs]: "spec_remove_agent k a r b \<Longrightarrow> abs_ok a \<Longrightarrow> abs_ok b"
  by (auto simp: abs_ok_def store_specs split: if_splits)

lemma spec_create_session_ok [abs_ok_specs]:
  "spec_create_session tok k a r b \<Longrightarrow> abs_ok a \<Longrightarrow> abs_ok b"
  by (auto simp: abs_ok_def store_specs split: if_splits option.splits)

lemma spec_revoke_session_ok [abs_ok_specs]: "spec_revoke_session tok a r b \<Longrightarrow> abs_ok a \<Longrightarrow> abs_ok b"
  by (auto simp: abs_ok_def store_specs split: if_splits)

lemma spec_register_dna_ok [abs_ok_specs]: "spec_register_dna k d a u b \<Longrightarrow> abs_ok a \<Longrightarrow> abs_ok b"
  by (fastforce simp: abs_ok_def store_specs register_in_session_def split: if_splits)

lemma spec_revoke_sessions_ok [abs_ok_specs]:
  "spec_revoke_sessions_for_agent k a r b \<Longrightarrow> abs_ok a \<Longrightarrow> abs_ok b"
  by (auto simp: abs_ok_def store_specs)

lemma spec_reads_ok [abs_ok_specs]:
  "spec_list_agents a l b \<Longrightarrow> abs_ok a \<Longrightarrow> abs_ok b"
  "spec_is_agent_allowed k a r b \<Longrightarrow> abs_ok a \<Longrightarrow> abs_ok b"
  "spec_get_agent k a g b \<Longrightarrow> abs_ok a \<Longrightarrow> abs_ok b"
  "spec_validate_session tok a v b \<Longrightarrow> abs_ok a \<Longrightarrow> abs_ok b"
  "spec_session_count a n b \<Longrightarrow> abs_ok a \<Longrightarrow> abs_ok b"
  by (simp_all add: store_specs)

text \<open>
  A backend whose invariant is a representation invariant plus \<open>abs_ok\<close> owes the
  representation invariant and the abstract effect only.
\<close>

lemma implements_repI:
  assumes inv: "\<And>s. invar s \<longleftrightarrow> rep s \<and> abs_ok (absf s)"
    and keep: "\<And>a x b. spec a x b \<Longrightarrow> abs_ok a \<Longrightarrow> abs_ok b"
    and err: "\<And>s s' e. rep s \<Longrightarrow> abs_ok (absf s) \<Longrightarrow> f s = (s', Inl e) \<Longrightarrow>
                rep s' \<and> degrades (absf s) (absf s')"
    and ok: "\<And>s s' x. rep s \<Longrightarrow> abs_ok (absf s) \<Longrightarrow> f s = (s', Inr x) \<Longrightarrow>
                rep s' \<and> spec (absf s) x (absf s')"
  shows "implements invar absf f spec"
proof (rule implementsI)
  fix s s' e assume "invar s" and run: "f s = (s', Inl e)"
  then have a: "rep s" "abs_ok (absf s)" by (simp_all add: inv)
  then show "invar s' \<and> degrades (absf s) (absf s')"
    using err [OF a run] by (simp add: inv degrades_abs_ok [OF _ a(2)])
next
  fix s s' x assume "invar s" and run: "f s = (s', Inr x)"
  then have a: "rep s" "abs_ok (absf s)" by (simp_all add: inv)
  then show "invar s' \<and> spec (absf s) x (absf s')"
    using ok [OF a run] keep [of "absf s" x "absf s'"] a(2) by (simp add: inv)
qed

section \<open>The interface\<close>

locale session_store =
  fixes invar :: "'s \<Rightarrow> bool"
    and absf :: "'s \<Rightarrow> abs_store"
    and add_agent :: "allowed_agent \<Rightarrow> ('s, session_store_error, unit) fallible"
    and remove_agent :: "agent_pubkey \<Rightarrow> ('s, session_store_error, bool) fallible"
    and list_agents :: "('s, session_store_error, allowed_agent list) fallible"
    and is_agent_allowed :: "agent_pubkey \<Rightarrow> ('s, session_store_error, bool) fallible"
    and get_agent :: "agent_pubkey \<Rightarrow> ('s, session_store_error, allowed_agent option) fallible"
    and create_session ::
      "session_token \<Rightarrow> agent_pubkey \<Rightarrow> ('s, session_store_error, session_token option) fallible"
    and validate_session ::
      "session_token \<Rightarrow> ('s, session_store_error, session_info option) fallible"
    and revoke_session :: "session_token \<Rightarrow> ('s, session_store_error, bool) fallible"
    and register_dna :: "agent_pubkey \<Rightarrow> dna_hash \<Rightarrow> ('s, session_store_error, unit) fallible"
    and revoke_sessions_for_agent :: "agent_pubkey \<Rightarrow> ('s, session_store_error, nat) fallible"
    and session_count :: "('s, session_store_error, nat) fallible"
  assumes invar_abs_ok: "invar s \<Longrightarrow> abs_ok (absf s)"
    and add_agent: "implements invar absf (add_agent g) (spec_add_agent g)"
    and remove_agent: "implements invar absf (remove_agent k) (spec_remove_agent k)"
    and list_agents: "implements invar absf list_agents spec_list_agents"
    and is_agent_allowed: "implements invar absf (is_agent_allowed k) (spec_is_agent_allowed k)"
    and get_agent: "implements invar absf (get_agent k) (spec_get_agent k)"
    and create_session: "implements invar absf (create_session tok k) (spec_create_session tok k)"
    and validate_session:
      "implements invar absf (validate_session tok) (spec_validate_session tok)"
    and revoke_session: "implements invar absf (revoke_session tok) (spec_revoke_session tok)"
    and register_dna: "implements invar absf (register_dna k d) (spec_register_dna k d)"
    and revoke_sessions_for_agent:
      "implements invar absf (revoke_sessions_for_agent k) (spec_revoke_sessions_for_agent k)"
    and session_count: "implements invar absf session_count spec_session_count"
begin

lemmas all_laws = add_agent remove_agent list_agents is_agent_allowed get_agent create_session
  validate_session revoke_session register_dna revoke_sessions_for_agent session_count

lemma validate_sound:
  assumes "invar s" and "validate_session tok s = (s', Inr (Some i))"
  shows "\<exists>j. ab_sessions (absf s) tok = Some j \<and> session_le i j"
  using implements_ok [OF validate_session assms] by (simp add: store_specs)

lemma validate_abs:
  assumes "invar s" and "validate_session tok s = (s', Inr r)"
  shows "absf s' = absf s"
  using implements_ok [OF validate_session assms] by (simp add: store_specs)

lemma validated_agent_allowed:
  assumes "invar s" and "validate_session tok s = (s', Inr (Some i))"
  shows "ab_allowed (absf s) (si_agent_pubkey i) \<noteq> None"
proof -
  obtain j where j: "ab_sessions (absf s) tok = Some j" "session_le i j"
    using validate_sound [OF assms] by blast
  then show ?thesis
    using invar_abs_ok [OF assms(1)] by (auto simp: abs_ok_def session_le_def)
qed

lemma removed_agent_never_validates:
  assumes "invar s" and "remove_agent k s = (s1, Inr r)"
    and "validate_session tok s1 = (s2, Inr (Some i))"
  shows "si_agent_pubkey i \<noteq> k"
proof -
  have s1: "invar s1" using implements_invar [OF remove_agent assms(1,2)] .
  have "ab_allowed (absf s1) k = None"
    using implements_ok [OF remove_agent assms(1,2)] by (simp add: store_specs)
  with validated_agent_allowed [OF s1 assms(3)] show ?thesis by auto
qed

lemma created_session_validates:
  assumes "invar s" and "create_session tok k s = (s1, Inr (Some t))"
    and "validate_session t s1 = (s2, Inr r)"
  shows "\<exists>g i. t = tok \<and> ab_allowed (absf s) k = Some g \<and> r = Some i \<and> si_agent_pubkey i = k \<and>
           si_capabilities i = aa_capabilities g \<and> si_registered_dnas i = {}"
proof -
  have s1: "invar s1" using implements_invar [OF create_session assms(1,2)] .
  obtain g where g: "ab_allowed (absf s) k = Some g" "t = tok"
      "ab_sessions (absf s1) tok = Some \<lparr>si_agent_pubkey = k,
         si_capabilities = aa_capabilities g, si_registered_dnas = {}\<rparr>"
    using implements_ok [OF create_session assms(1,2)]
    by (auto simp: store_specs split: option.splits)
  with implements_ok [OF validate_session s1 assms(3)] show ?thesis
    by (auto simp: store_specs session_le_def split: option.splits)
qed

lemma create_needs_allowed:
  assumes "invar s" and "ab_allowed (absf s) k = None" and "create_session tok k s = (s1, r)"
  shows "r = Inr None \<or> (\<exists>e. r = Inl e)"
  using implements_ok [OF create_session assms(1)] assms(2,3)
  by (cases r) (fastforce simp: store_specs split: option.splits)+

lemma registered_dna_stays_in_agent:
  assumes "invar s" and "register_dna k d s = (s1, Inr u)"
    and "validate_session tok s1 = (s2, Inr (Some i))" and "si_agent_pubkey i \<noteq> k"
  shows "\<exists>j. ab_sessions (absf s) tok = Some j \<and> session_le i j"
proof -
  have s1: "invar s1" using implements_invar [OF register_dna assms(1,2)] .
  from validate_sound [OF s1 assms(3)] implements_ok [OF register_dna assms(1,2)] assms(4)
  show ?thesis by (auto simp: store_specs register_in_session_def session_le_def split: if_splits)
qed

end

end
