(* ===== verification/Memory_Store.thy ===== *)
theory Memory_Store imports Session_Store begin

text \<open>
  The in-memory backend (\<open>src/auth/memory_store.rs\<close>): two hash maps behind one lock. Every
  method takes the lock once, but \<open>create_session\<close>, which reads the allow list under the read
  lock, drops it, and inserts the session under the write lock: its two critical sections are
  \<open>mem_create_session_read\<close> and \<open>mem_create_session_write\<close>, and \<open>mem_create_session\<close> runs them
  with nothing in between. No method of this backend fails.
\<close>

record memory_store =
  ms_allowed_agents :: "(agent_pubkey, allowed_agent) hashmap"
  ms_sessions :: "(session_token, session_info) hashmap"

definition mem_new :: memory_store where
  "mem_new = \<lparr>ms_allowed_agents = [], ms_sessions = []\<rparr>"

definition mem_add_agent ::
    "allowed_agent \<Rightarrow> (memory_store, session_store_error, unit) fallible" where
  "mem_add_agent agent s =
     (s\<lparr>ms_allowed_agents := hm_insert (aa_agent_pubkey agent) agent (ms_allowed_agents s)\<rparr>, Inr ())"

definition mem_remove_agent ::
    "agent_pubkey \<Rightarrow> (memory_store, session_store_error, bool) fallible" where
  "mem_remove_agent k s =
     (let removed = (hm_get (ms_allowed_agents s) k \<noteq> None);
          s1 = s\<lparr>ms_allowed_agents := hm_remove k (ms_allowed_agents s)\<rparr>
      in if removed
         then (s1\<lparr>ms_sessions := hm_retain (\<lambda>_ i. si_agent_pubkey i \<noteq> k) (ms_sessions s1)\<rparr>, Inr True)
         else (s1, Inr False))"

definition mem_list_agents :: "(memory_store, session_store_error, allowed_agent list) fallible" where
  "mem_list_agents s = (s, Inr (map snd (ms_allowed_agents s)))"

definition mem_is_agent_allowed ::
    "agent_pubkey \<Rightarrow> (memory_store, session_store_error, bool) fallible" where
  "mem_is_agent_allowed k s = (s, Inr (hm_contains (ms_allowed_agents s) k))"

definition mem_get_agent ::
    "agent_pubkey \<Rightarrow> (memory_store, session_store_error, allowed_agent option) fallible" where
  "mem_get_agent k s = (s, Inr (hm_get (ms_allowed_agents s) k))"

definition mem_create_session_read :: "agent_pubkey \<Rightarrow> memory_store \<Rightarrow> capability set option" where
  "mem_create_session_read k s = map_option aa_capabilities (hm_get (ms_allowed_agents s) k)"

definition mem_create_session_write ::
    "session_token \<Rightarrow> agent_pubkey \<Rightarrow> capability set \<Rightarrow> memory_store \<Rightarrow> memory_store" where
  "mem_create_session_write tok k caps s =
     s\<lparr>ms_sessions := hm_insert tok
          \<lparr>si_agent_pubkey = k, si_capabilities = caps, si_registered_dnas = {}\<rparr> (ms_sessions s)\<rparr>"

definition mem_create_session ::
    "session_token \<Rightarrow> agent_pubkey \<Rightarrow> (memory_store, session_store_error, session_token option) fallible" where
  "mem_create_session tok k s =
     (case mem_create_session_read k s of
        None \<Rightarrow> (s, Inr None)
      | Some caps \<Rightarrow> (mem_create_session_write tok k caps s, Inr (Some tok)))"

definition mem_validate_session ::
    "session_token \<Rightarrow> (memory_store, session_store_error, session_info option) fallible" where
  "mem_validate_session tok s = (s, Inr (hm_get (ms_sessions s) tok))"

definition mem_revoke_session ::
    "session_token \<Rightarrow> (memory_store, session_store_error, bool) fallible" where
  "mem_revoke_session tok s =
     (s\<lparr>ms_sessions := hm_remove tok (ms_sessions s)\<rparr>, Inr (hm_get (ms_sessions s) tok \<noteq> None))"

definition mem_register_dna ::
    "agent_pubkey \<Rightarrow> dna_hash \<Rightarrow> (memory_store, session_store_error, unit) fallible" where
  "mem_register_dna k dna s =
     (s\<lparr>ms_sessions := hm_update_values
          (\<lambda>_ i. if si_agent_pubkey i = k
                 then i\<lparr>si_registered_dnas := insert dna (si_registered_dnas i)\<rparr> else i)
          (ms_sessions s)\<rparr>, Inr ())"

definition mem_revoke_sessions_for_agent ::
    "agent_pubkey \<Rightarrow> (memory_store, session_store_error, nat) fallible" where
  "mem_revoke_sessions_for_agent k s =
     (let before = length (ms_sessions s);
          kept = hm_retain (\<lambda>_ i. si_agent_pubkey i \<noteq> k) (ms_sessions s)
      in (s\<lparr>ms_sessions := kept\<rparr>, Inr (before - length kept)))"

definition mem_session_count :: "(memory_store, session_store_error, nat) fallible" where
  "mem_session_count s = (s, Inr (length (ms_sessions s)))"

lemmas mem_defs = mem_add_agent_def mem_remove_agent_def mem_list_agents_def
  mem_is_agent_allowed_def mem_get_agent_def mem_create_session_def mem_create_session_read_def
  mem_create_session_write_def mem_validate_session_def mem_revoke_session_def
  mem_register_dna_def mem_revoke_sessions_for_agent_def mem_session_count_def

section \<open>Abstraction and invariant\<close>

definition mem_abs :: "memory_store \<Rightarrow> abs_store" where
  "mem_abs s = \<lparr>ab_allowed = hm_get (ms_allowed_agents s), ab_sessions = hm_get (ms_sessions s)\<rparr>"

definition mem_wf :: "memory_store \<Rightarrow> bool" where
  "mem_wf s \<longleftrightarrow> hm_wf (ms_allowed_agents s) \<and> hm_wf (ms_sessions s)"

definition mem_invar :: "memory_store \<Rightarrow> bool" where
  "mem_invar s \<longleftrightarrow> mem_wf s \<and> abs_ok (mem_abs s)"

lemma mem_new_invar: "mem_invar mem_new" and mem_new_abs: "mem_abs mem_new = abs_empty"
  by (simp_all add: mem_invar_def mem_wf_def mem_new_def mem_abs_def abs_ok_def abs_empty_def
    fun_eq_iff)

lemma mem_retain_other_sessions:
  assumes "abs_ok (mem_abs s)" and "hm_get (ms_allowed_agents s) k = None"
  shows "map_retain (\<lambda>_ i. si_agent_pubkey i \<noteq> k) (hm_get (ms_sessions s)) = hm_get (ms_sessions s)"
  using assms by (intro map_retain_idem) (fastforce simp: abs_ok_def mem_abs_def)

lemmas mem_rep = mem_defs store_specs mem_wf_def mem_abs_def

lemmas mem_implementsI = implements_repI [of mem_invar mem_wf mem_abs, OF mem_invar_def]

lemma mem_remove_agent_total: "mem_remove_agent k s \<noteq> (s', Inl e)"
  by (simp add: mem_remove_agent_def Let_def)

lemma mem_remove_agent_ok:
  assumes "mem_wf s" and "abs_ok (mem_abs s)" and "mem_remove_agent k s = (s', Inr x)"
  shows "mem_wf s' \<and> spec_remove_agent k (mem_abs s) x (mem_abs s')"
proof (cases "hm_get (ms_allowed_agents s) k")
  case None
  with assms mem_retain_other_sessions [of s k] show ?thesis by (auto simp: mem_rep)
next
  case (Some g)
  with assms show ?thesis by (auto simp: mem_rep hm_get_retain)
qed

interpretation mem: session_store mem_invar mem_abs mem_add_agent mem_remove_agent mem_list_agents
    mem_is_agent_allowed mem_get_agent mem_create_session mem_validate_session mem_revoke_session
    mem_register_dna mem_revoke_sessions_for_agent mem_session_count
proof
  show "abs_ok (mem_abs s)" if "mem_invar s" for s
    using that by (simp add: mem_invar_def)
  show "implements mem_invar mem_abs (mem_add_agent g) (spec_add_agent g)" for g
    by (rule mem_implementsI [OF spec_add_agent_ok]) (auto simp: mem_rep)
  show "implements mem_invar mem_abs (mem_remove_agent k) (spec_remove_agent k)" for k
    by (rule mem_implementsI [OF spec_remove_agent_ok])
      (simp_all add: mem_remove_agent_total mem_remove_agent_ok)
  show "implements mem_invar mem_abs mem_list_agents spec_list_agents"
    by (rule mem_implementsI [OF spec_reads_ok(1)]) (auto simp: mem_rep ran_hm_get)
  show "implements mem_invar mem_abs (mem_is_agent_allowed k) (spec_is_agent_allowed k)" for k
    by (rule mem_implementsI [OF spec_reads_ok(2)]) (auto simp: mem_rep)
  show "implements mem_invar mem_abs (mem_get_agent k) (spec_get_agent k)" for k
    by (rule mem_implementsI [OF spec_reads_ok(3)]) (auto simp: mem_rep)
  show "implements mem_invar mem_abs (mem_create_session tok k) (spec_create_session tok k)" for tok k
    by (rule mem_implementsI [OF spec_create_session_ok]) (auto simp: mem_rep split: option.splits)
  show "implements mem_invar mem_abs (mem_validate_session tok) (spec_validate_session tok)" for tok
    by (rule mem_implementsI [OF spec_reads_ok(4)]) (auto simp: mem_rep split: option.splits)
  show "implements mem_invar mem_abs (mem_revoke_session tok) (spec_revoke_session tok)" for tok
    by (rule mem_implementsI [OF spec_revoke_session_ok]) (auto simp: mem_rep)
  show "implements mem_invar mem_abs (mem_register_dna k d) (spec_register_dna k d)" for k d
    by (rule mem_implementsI [OF spec_register_dna_ok])
      (auto simp: mem_rep register_in_session_def [abs_def])
  show "implements mem_invar mem_abs (mem_revoke_sessions_for_agent k)
      (spec_revoke_sessions_for_agent k)" for k
    by (rule mem_implementsI [OF spec_revoke_sessions_ok])
      (auto simp: mem_rep Let_def hm_get_retain hm_removed_count)
  show "implements mem_invar mem_abs mem_session_count spec_session_count"
    by (rule mem_implementsI [OF spec_reads_ok(5)]) (auto simp: mem_rep hm_length_card)
qed

end
