(* ===== verification/Sqlite_Store.thy ===== *)
theory Sqlite_Store imports Session_Store begin

text \<open>
  The SQLite backend (\<open>src/auth/sqlite_store.rs\<close>). A table with a primary key is a hash map from
  the key to the remaining columns; each SQL text of the source is one \<open>sql_\<close> definition (its
  effect on the tables, the cascade of the foreign key and the primary-key check included), and
  each method runs its statements in order through \<open>sq_statement\<close>. A statement either takes
  effect as a whole or fails and changes nothing; which executions fail is the environment's
  choice, the list \<open>sq_faults\<close> consumed one entry per execution, so every early return of a
  method (there is no transaction around its statements) is a run of the model. The crates that
  print and parse hashes and capability sets are the parameters \<open>sq_hash\<close> and \<open>sq_serde\<close>.
\<close>

section \<open>Tables and the connection\<close>

record sq_agent_row =
  ar_capabilities :: string
  ar_label :: "string option"

record sq_session_row =
  sr_agent_pubkey :: string
  sr_capabilities :: string

record database =
  db_allowed_agents :: "(string, sq_agent_row) hashmap"
  db_sessions :: "(string, sq_session_row) hashmap"
  db_session_dnas :: "(string \<times> string, string) hashmap"

record caps_serde =
  caps_to_json :: "capability set \<Rightarrow> string"
  caps_parse :: "string \<Rightarrow> string + capability set"

record sqlite_store =
  sq_conn :: database
  sq_faults :: "string option list"
  sq_hash :: holo_hash_api
  sq_serde :: caps_serde

type_synonym 'a sq = "(sqlite_store, session_store_error, 'a) fallible"

definition caps_serde_ok :: "caps_serde \<Rightarrow> bool" where
  "caps_serde_ok c \<longleftrightarrow> (\<forall>s. caps_parse c (caps_to_json c s) = Inr s)"

definition caps_from_json :: "caps_serde \<Rightarrow> string \<Rightarrow> capability set" where
  "caps_from_json c json = unwrap_or {} (caps_parse c json)"

definition sq_empty_db :: database where
  "sq_empty_db = \<lparr>db_allowed_agents = [], db_sessions = [], db_session_dnas = []\<rparr>"

definition sq_new :: "string option list \<Rightarrow> holo_hash_api \<Rightarrow> caps_serde \<Rightarrow> sqlite_store" where
  "sq_new faults h c = \<lparr>sq_conn = sq_empty_db, sq_faults = faults, sq_hash = h, sq_serde = c\<rparr>"

section \<open>Statements\<close>

definition sq_statement :: "(database \<Rightarrow> string + database \<times> 'a) \<Rightarrow> 'a sq" where
  "sq_statement stmt s =
     (let s1 = s\<lparr>sq_faults := tl (sq_faults s)\<rparr> in
      case sq_faults s of
        Some e # _ \<Rightarrow> (s1, Inl (Database e))
      | _ \<Rightarrow> (case stmt (sq_conn s) of
                 Inl e \<Rightarrow> (s1, Inl (Database e))
               | Inr (db, x) \<Rightarrow> (s1\<lparr>sq_conn := db\<rparr>, Inr x)))"

definition sql_upsert_agent :: "string \<Rightarrow> string \<Rightarrow> string option \<Rightarrow> database \<Rightarrow> string + database \<times> unit" where
  "sql_upsert_agent pk caps label db =
     Inr (db\<lparr>db_allowed_agents :=
       hm_insert pk \<lparr>ar_capabilities = caps, ar_label = label\<rparr> (db_allowed_agents db)\<rparr>, ())"

definition sql_delete_agent_dnas :: "string \<Rightarrow> database \<Rightarrow> string + database \<times> unit" where
  "sql_delete_agent_dnas pk db =
     Inr (db\<lparr>db_session_dnas := hm_retain (\<lambda>_ p. p \<noteq> pk) (db_session_dnas db)\<rparr>, ())"

definition sql_delete_agent_sessions :: "string \<Rightarrow> database \<Rightarrow> string + database \<times> nat" where
  "sql_delete_agent_sessions pk db =
     (let kept = hm_retain (\<lambda>_ r. sr_agent_pubkey r \<noteq> pk) (db_sessions db)
      in Inr (db\<lparr>db_sessions := kept,
                 db_session_dnas := hm_retain (\<lambda>k _. hm_contains kept (fst k)) (db_session_dnas db)\<rparr>,
              length (db_sessions db) - length kept))"

definition sql_delete_agent :: "string \<Rightarrow> database \<Rightarrow> string + database \<times> nat" where
  "sql_delete_agent pk db =
     Inr (db\<lparr>db_allowed_agents := hm_remove pk (db_allowed_agents db)\<rparr>,
          if hm_contains (db_allowed_agents db) pk then 1 else 0)"

definition sql_select_agents :: "database \<Rightarrow> string + database \<times> (string \<times> sq_agent_row) list" where
  "sql_select_agents db = Inr (db, db_allowed_agents db)"

definition sql_select_agent :: "string \<Rightarrow> database \<Rightarrow> string + database \<times> sq_agent_row option" where
  "sql_select_agent pk db = Inr (db, hm_get (db_allowed_agents db) pk)"

definition sql_count_agent :: "string \<Rightarrow> database \<Rightarrow> string + database \<times> nat" where
  "sql_count_agent pk db = Inr (db, if hm_contains (db_allowed_agents db) pk then 1 else 0)"

definition sql_insert_session :: "string \<Rightarrow> string \<Rightarrow> string \<Rightarrow> database \<Rightarrow> string + database \<times> unit" where
  "sql_insert_session tok pk caps db =
     (if hm_contains (db_sessions db) tok
      then Inl ''UNIQUE constraint failed: sessions.token''
      else Inr (db\<lparr>db_sessions :=
        hm_insert tok \<lparr>sr_agent_pubkey = pk, sr_capabilities = caps\<rparr> (db_sessions db)\<rparr>, ()))"

definition sql_select_session :: "string \<Rightarrow> database \<Rightarrow> string + database \<times> sq_session_row option" where
  "sql_select_session tok db = Inr (db, hm_get (db_sessions db) tok)"

definition sql_select_dnas :: "string \<Rightarrow> database \<Rightarrow> string + database \<times> string list" where
  "sql_select_dnas tok db =
     Inr (db, map (snd \<circ> fst) (filter (\<lambda>e. fst (fst e) = tok) (db_session_dnas db)))"

definition sql_delete_session :: "string \<Rightarrow> database \<Rightarrow> string + database \<times> nat" where
  "sql_delete_session tok db =
     Inr (db\<lparr>db_sessions := hm_remove tok (db_sessions db),
             db_session_dnas := hm_retain (\<lambda>k _. fst k \<noteq> tok) (db_session_dnas db)\<rparr>,
          if hm_contains (db_sessions db) tok then 1 else 0)"

definition sql_insert_dna :: "string \<Rightarrow> string \<Rightarrow> string \<Rightarrow>
    (string \<times> string, string) hashmap \<Rightarrow> (string \<times> string, string) hashmap" where
  "sql_insert_dna dna pk tok m = (if hm_contains m (tok, dna) then m else hm_insert (tok, dna) pk m)"

definition sql_insert_dnas :: "string \<Rightarrow> string \<Rightarrow> database \<Rightarrow> string + database \<times> unit" where
  "sql_insert_dnas dna pk db =
     Inr (db\<lparr>db_session_dnas :=
       fold (sql_insert_dna dna pk)
         (map fst (filter (\<lambda>e. sr_agent_pubkey (snd e) = pk) (db_sessions db)))
         (db_session_dnas db)\<rparr>, ())"

definition sql_count_sessions :: "database \<Rightarrow> string + database \<times> nat" where
  "sql_count_sessions db = Inr (db, length (db_sessions db))"

section \<open>Fetching rows\<close>

text \<open>Fetching a row may fail: \<open>row?\<close> gives up, \<open>flatten\<close> skips the row.\<close>

definition sq_fetch :: "unit sq" where
  "sq_fetch = sq_statement (\<lambda>db. Inr (db, ()))"

fun sq_rows :: "'r list \<Rightarrow> 'r list sq" where
  "sq_rows [] s = (s, Inr [])"
| "sq_rows (r # rs) s =
     (case sq_fetch s of
        (s1, Inl e) \<Rightarrow> (s1, Inl e)
      | (s1, Inr _) \<Rightarrow> (case sq_rows rs s1 of
            (s2, Inl e) \<Rightarrow> (s2, Inl e)
          | (s2, Inr xs) \<Rightarrow> (s2, Inr (r # xs))))"

fun sq_rows_flatten :: "'r list \<Rightarrow> sqlite_store \<Rightarrow> sqlite_store \<times> 'r list" where
  "sq_rows_flatten [] s = (s, [])"
| "sq_rows_flatten (r # rs) s =
     (case sq_fetch s of
        (s1, f) \<Rightarrow> (case sq_rows_flatten rs s1 of
            (s2, xs) \<Rightarrow> (s2, case f of Inl _ \<Rightarrow> xs | Inr _ \<Rightarrow> r # xs)))"

section \<open>The methods\<close>

definition sq_add_agent :: "allowed_agent \<Rightarrow> unit sq" where
  "sq_add_agent agent s =
     sq_statement (sql_upsert_agent (agent_to_string (sq_hash s) (aa_agent_pubkey agent))
       (caps_to_json (sq_serde s) (aa_capabilities agent)) (aa_label agent)) s"

definition sq_remove_agent :: "agent_pubkey \<Rightarrow> bool sq" where
  "sq_remove_agent k s =
     (let pk = agent_to_string (sq_hash s) k
      in and_then (sq_statement (sql_delete_agent_dnas pk)) (\<lambda>_.
         and_then (sq_statement (sql_delete_agent_sessions pk)) (\<lambda>_.
         and_then (sq_statement (sql_delete_agent pk)) (\<lambda>rows.
         returns (rows > 0)))) s)"

definition sq_decode_agents ::
    "sqlite_store \<Rightarrow> (string \<times> sq_agent_row) list \<Rightarrow> allowed_agent list" where
  "sq_decode_agents s rows = List.map_filter (\<lambda>(pk, r).
     case agent_try_from (sq_hash s) pk of
       Inl _ \<Rightarrow> None
     | Inr a \<Rightarrow> Some \<lparr>aa_agent_pubkey = a,
                  aa_capabilities = caps_from_json (sq_serde s) (ar_capabilities r),
                  aa_label = ar_label r\<rparr>) rows"

definition sq_list_agents :: "allowed_agent list sq" where
  "sq_list_agents s =
     and_then sq_fetch (\<lambda>_.
     and_then (sq_statement sql_select_agents) (\<lambda>rows.
     and_then (sq_rows rows) (\<lambda>got.
     returns (sq_decode_agents s got)))) s"

definition sq_is_agent_allowed :: "agent_pubkey \<Rightarrow> bool sq" where
  "sq_is_agent_allowed k s =
     and_then (sq_statement (sql_count_agent (agent_to_string (sq_hash s) k)))
       (\<lambda>count. returns (count > 0)) s"

definition sq_get_agent :: "agent_pubkey \<Rightarrow> allowed_agent option sq" where
  "sq_get_agent k s =
     and_then (sq_statement (sql_select_agent (agent_to_string (sq_hash s) k)))
       (\<lambda>row. returns (map_option (\<lambda>r. \<lparr>aa_agent_pubkey = k,
            aa_capabilities = caps_from_json (sq_serde s) (ar_capabilities r),
            aa_label = ar_label r\<rparr>) row)) s"

definition sq_create_session :: "session_token \<Rightarrow> agent_pubkey \<Rightarrow> session_token option sq" where
  "sq_create_session tok k s =
     (let pk = agent_to_string (sq_hash s) k
      in and_then (sq_statement (sql_select_agent pk)) (\<lambda>row.
         case row of
           None \<Rightarrow> returns None
         | Some r \<Rightarrow> and_then (sq_statement (sql_insert_session tok pk (ar_capabilities r)))
                       (\<lambda>_. returns (Some tok))) s)"

definition sq_decode_dnas :: "sqlite_store \<Rightarrow> string list \<Rightarrow> dna_hash set" where
  "sq_decode_dnas s ds =
     set (List.map_filter (\<lambda>x. case dna_try_from (sq_hash s) x of Inl _ \<Rightarrow> None | Inr d \<Rightarrow> Some d) ds)"

definition sq_validate_session :: "session_token \<Rightarrow> session_info option sq" where
  "sq_validate_session tok s =
     and_then (sq_statement (sql_select_session tok)) (\<lambda>row.
       case row of
         None \<Rightarrow> returns None
       | Some r \<Rightarrow> (case agent_try_from (sq_hash s) (sr_agent_pubkey r) of
             Inl _ \<Rightarrow> returns None
           | Inr a \<Rightarrow>
               and_then sq_fetch (\<lambda>_.
               and_then (sq_statement (sql_select_dnas tok)) (\<lambda>rows s1.
                 case sq_rows_flatten rows s1 of
                   (s2, ds) \<Rightarrow> (s2, Inr (Some \<lparr>si_agent_pubkey = a,
                      si_capabilities = caps_from_json (sq_serde s) (sr_capabilities r),
                      si_registered_dnas = sq_decode_dnas s ds\<rparr>)))))) s"

definition sq_revoke_session :: "session_token \<Rightarrow> bool sq" where
  "sq_revoke_session tok =
     and_then (sq_statement (sql_delete_session tok)) (\<lambda>rows. returns (rows > 0))"

definition sq_register_dna :: "agent_pubkey \<Rightarrow> dna_hash \<Rightarrow> unit sq" where
  "sq_register_dna k dna s =
     sq_statement (sql_insert_dnas (dna_to_string (sq_hash s) dna) (agent_to_string (sq_hash s) k)) s"

definition sq_revoke_sessions_for_agent :: "agent_pubkey \<Rightarrow> nat sq" where
  "sq_revoke_sessions_for_agent k s =
     sq_statement (sql_delete_agent_sessions (agent_to_string (sq_hash s) k)) s"

definition sq_session_count :: "nat sq" where
  "sq_session_count = sq_statement sql_count_sessions"

end
