(* ===== verification/Sqlite_Refinement.thy ===== *)
theory Sqlite_Refinement imports Sqlite_Store begin

text \<open>
  The SQLite backend implements the session store contract. The tables are read through the
  hash and capability codecs (\<open>sq_abs\<close>); \<open>db_wf\<close> is what the methods keep of the tables:
  primary keys, the foreign key from \<open>session_dnas\<close> to \<open>sessions\<close>, and that every hash column
  holds a printed hash.
\<close>

section \<open>Abstraction and representation invariant\<close>

definition session_of_row :: "holo_hash_api \<Rightarrow> caps_serde \<Rightarrow> (string \<times> string \<rightharpoonup> string) \<Rightarrow>
    string \<Rightarrow> sq_session_row \<Rightarrow> session_info option" where
  "session_of_row h c dnas tok r =
     (case agent_try_from h (sr_agent_pubkey r) of
        Inl _ \<Rightarrow> None
      | Inr a \<Rightarrow> Some \<lparr>si_agent_pubkey = a, si_capabilities = caps_from_json c (sr_capabilities r),
          si_registered_dnas = {d. \<exists>x p. dnas (tok, x) = Some p \<and> dna_try_from h x = Inr d}\<rparr>)"

definition agent_of_row ::
    "holo_hash_api \<Rightarrow> caps_serde \<Rightarrow> agent_pubkey \<Rightarrow> sq_agent_row \<Rightarrow> allowed_agent" where
  "agent_of_row h c a r = \<lparr>aa_agent_pubkey = a,
     aa_capabilities = caps_from_json c (ar_capabilities r), aa_label = ar_label r\<rparr>"

definition db_abs :: "holo_hash_api \<Rightarrow> caps_serde \<Rightarrow> database \<Rightarrow> abs_store" where
  "db_abs h c db = \<lparr>
     ab_allowed = (\<lambda>a. map_option (agent_of_row h c a)
       (hm_get (db_allowed_agents db) (agent_to_string h a))),
     ab_sessions = (\<lambda>tok. Option.bind (hm_get (db_sessions db) tok)
       (session_of_row h c (hm_get (db_session_dnas db)) tok))\<rparr>"

definition sq_abs :: "sqlite_store \<Rightarrow> abs_store" where
  "sq_abs s = db_abs (sq_hash s) (sq_serde s) (sq_conn s)"

definition db_wf :: "holo_hash_api \<Rightarrow> database \<Rightarrow> bool" where
  "db_wf h db \<longleftrightarrow> hm_wf (db_allowed_agents db) \<and> hm_wf (db_sessions db) \<and> hm_wf (db_session_dnas db) \<and>
     (\<forall>pk r. hm_get (db_allowed_agents db) pk = Some r \<longrightarrow> (\<exists>a. pk = agent_to_string h a)) \<and>
     (\<forall>tok r. hm_get (db_sessions db) tok = Some r \<longrightarrow> (\<exists>a. sr_agent_pubkey r = agent_to_string h a)) \<and>
     (\<forall>tok x pk. hm_get (db_session_dnas db) (tok, x) = Some pk \<longrightarrow>
        (\<exists>r. hm_get (db_sessions db) tok = Some r \<and> sr_agent_pubkey r = pk))"

definition sq_wf :: "sqlite_store \<Rightarrow> bool" where
  "sq_wf s \<longleftrightarrow> db_wf (sq_hash s) (sq_conn s) \<and> holo_hash_ok (sq_hash s) \<and> caps_serde_ok (sq_serde s)"

definition sq_invar :: "sqlite_store \<Rightarrow> bool" where
  "sq_invar s \<longleftrightarrow> sq_wf s \<and> abs_ok (sq_abs s)"

lemma caps_round_trip [simp]: "caps_serde_ok c \<Longrightarrow> caps_from_json c (caps_to_json c caps) = caps"
  by (simp add: caps_serde_ok_def caps_from_json_def)

lemma sq_new_invar:
  "holo_hash_ok h \<Longrightarrow> caps_serde_ok c \<Longrightarrow> sq_invar (sq_new faults h c)"
  by (simp add: sq_invar_def sq_wf_def sq_new_def sq_empty_db_def db_wf_def sq_abs_def db_abs_def
    abs_ok_def)

lemma sq_new_abs: "sq_abs (sq_new faults h c) = abs_empty"
  by (simp add: sq_new_def sq_empty_db_def sq_abs_def db_abs_def abs_empty_def fun_eq_iff)

lemma db_wfD:
  assumes "db_wf h db"
  shows "hm_wf (db_allowed_agents db)" "hm_wf (db_sessions db)" "hm_wf (db_session_dnas db)"
    and "hm_get (db_sessions db) tok = Some r \<Longrightarrow> \<exists>a. sr_agent_pubkey r = agent_to_string h a"
    and "hm_get (db_session_dnas db) (tok, x) = Some pk \<Longrightarrow>
           \<exists>r. hm_get (db_sessions db) tok = Some r \<and> sr_agent_pubkey r = pk"
    and "hm_get (db_allowed_agents db) pk = Some g \<Longrightarrow> \<exists>a. pk = agent_to_string h a"
  using assms by (simp_all add: db_wf_def)

text \<open>Under the invariant a session row always parses.\<close>

lemma session_of_row_wf:
  assumes "db_wf h db" and "holo_hash_ok h" and "hm_get (db_sessions db) tok = Some r"
  shows "\<exists>a. sr_agent_pubkey r = agent_to_string h a \<and> agent_try_from h (sr_agent_pubkey r) = Inr a"
  using db_wfD(4) [OF assms(1,3)] assms(2) by auto

lemma ab_sessions_None:
  assumes "db_wf h db" and "holo_hash_ok h"
  shows "ab_sessions (db_abs h c db) tok = None \<longleftrightarrow> hm_get (db_sessions db) tok = None"
  using session_of_row_wf [OF assms]
  by (fastforce simp: db_abs_def session_of_row_def split: bind_splits sum.splits)

section \<open>One statement\<close>

lemma sq_statementD:
  assumes "sq_statement stmt s = (s', r)"
  shows "sq_hash s' = sq_hash s" and "sq_serde s' = sq_serde s"
    and "r = Inl e \<Longrightarrow> sq_conn s' = sq_conn s"
    and "r = Inr x \<Longrightarrow> stmt (sq_conn s) = Inr (sq_conn s', x)"
  using assms
  by (auto simp: sq_statement_def Let_def split: list.splits option.splits sum.splits prod.splits)

lemma sq_statement_Inl:
  assumes "sq_statement stmt s = (s', Inl e)"
  shows "sq_abs s' = sq_abs s" and "sq_wf s' \<longleftrightarrow> sq_wf s"
  using sq_statementD(1,2) [OF assms] sq_statementD(3) [OF assms refl]
  by (simp_all add: sq_abs_def sq_wf_def)

lemma sq_statement_frame:
  "sq_statement stmt s = (s', r) \<Longrightarrow> sq_hash s' = sq_hash s \<and> sq_serde s' = sq_serde s"
  using sq_statementD(1,2) by blast

text \<open>A statement that succeeds moves the store to the tables the SQL text computes.\<close>

lemma sq_statement_Inr:
  assumes "sq_statement stmt s = (s', Inr x)" and "sq_wf s"
    and "stmt (sq_conn s) = Inr (db, y)"
    and "db_wf (sq_hash s) db"
  shows "sq_wf s' \<and> sq_abs s' = db_abs (sq_hash s) (sq_serde s) db \<and> x = y"
  using sq_statementD(1,2,4) [OF assms(1)] assms(2-4) by (simp add: sq_wf_def sq_abs_def)

lemma sq_fetch_frame:
  "sq_fetch s = (s', r) \<Longrightarrow> sq_conn s' = sq_conn s \<and> sq_hash s' = sq_hash s \<and> sq_serde s' = sq_serde s"
  by (auto simp: sq_fetch_def sq_statement_def Let_def split: list.splits option.splits)

lemma sq_rows_frame:
  "sq_rows rs s = (s', r) \<Longrightarrow> sq_conn s' = sq_conn s \<and> sq_hash s' = sq_hash s \<and>
     sq_serde s' = sq_serde s \<and> (\<forall>xs. r = Inr xs \<longrightarrow> xs = rs)"
proof (induction rs arbitrary: s s' r)
  case (Cons x rs)
  then show ?case
    by (fastforce dest: sq_fetch_frame split: prod.splits sum.splits)
qed simp

lemma sq_rows_flatten_frame:
  "sq_rows_flatten rs s = (s', xs) \<Longrightarrow> sq_conn s' = sq_conn s \<and> sq_hash s' = sq_hash s \<and>
     sq_serde s' = sq_serde s \<and> set xs \<subseteq> set rs"
proof (induction rs arbitrary: s s' xs)
  case (Cons x rs)
  then show ?case
    by (fastforce dest: sq_fetch_frame split: prod.splits sum.splits)
qed simp

lemma sq_frame_abs:
  "sq_conn s' = sq_conn s \<Longrightarrow> sq_hash s' = sq_hash s \<Longrightarrow> sq_serde s' = sq_serde s \<Longrightarrow>
     sq_abs s' = sq_abs s \<and> (sq_wf s' \<longleftrightarrow> sq_wf s)"
  by (simp add: sq_abs_def sq_wf_def)

section \<open>The SQL texts on the tables\<close>

lemma sql_upsert_agent_abs:
  assumes "db_wf h db" and "holo_hash_ok h"
    and "sql_upsert_agent (agent_to_string h a) json label db = Inr (db', u)"
  shows "db_wf h db' \<and> db_abs h c db' = (db_abs h c db)\<lparr>ab_allowed := (ab_allowed (db_abs h c db))(a \<mapsto>
     \<lparr>aa_agent_pubkey = a, aa_capabilities = caps_from_json c json, aa_label = label\<rparr>)\<rparr>"
  using assms
  by (auto simp: sql_upsert_agent_def db_wf_def db_abs_def agent_of_row_def fun_eq_iff split: if_splits)

lemma session_of_row_mono:
  assumes "session_of_row h c dnas' tok r = Some i"
    and "\<And>k p. dnas' k = Some p \<Longrightarrow> dnas k = Some p"
  shows "\<exists>j. session_of_row h c dnas tok r = Some j \<and> session_le i j"
  using assms by (fastforce simp: session_of_row_def session_le_def split: sum.splits)

lemma session_of_row_cong:
  "(\<And>x. dnas' (tok, x) = dnas (tok, x)) \<Longrightarrow> session_of_row h c dnas' tok r = session_of_row h c dnas tok r"
  by (simp add: session_of_row_def split: sum.split)

lemma db_shrink_degrades:
  assumes agents: "db_allowed_agents db' = db_allowed_agents db"
    and sess: "\<And>tok r. hm_get (db_sessions db') tok = Some r \<Longrightarrow> hm_get (db_sessions db) tok = Some r"
    and dnas: "\<And>k p. hm_get (db_session_dnas db') k = Some p \<Longrightarrow> hm_get (db_session_dnas db) k = Some p"
  shows "degrades (db_abs h c db) (db_abs h c db')"
proof -
  have "\<exists>j. ab_sessions (db_abs h c db) t = Some j \<and> session_le i j"
    if "ab_sessions (db_abs h c db') t = Some i" for t i
  proof -
    from that obtain r where r: "hm_get (db_sessions db') t = Some r"
        "session_of_row h c (hm_get (db_session_dnas db')) t r = Some i"
      by (auto simp: db_abs_def bind_eq_Some_conv)
    from session_of_row_mono [OF r(2) dnas] sess [OF r(1)] show ?thesis
      by (auto simp: db_abs_def)
  qed
  then show ?thesis by (simp add: degrades_def db_abs_def agents)
qed

lemma sql_delete_agent_dnas_abs:
  assumes "db_wf h db" and "sql_delete_agent_dnas pk db = Inr (db', u)"
  shows "db_wf h db' \<and> degrades (db_abs h c db) (db_abs h c db')"
  using assms db_wfD(3) [OF assms(1)]
  by (auto simp: sql_delete_agent_dnas_def db_wf_def hm_get_retain intro!: db_shrink_degrades)

text \<open>Deleting an agent's DNA rows leaves the sessions of the other agents as they are.\<close>

lemma sql_delete_agent_dnas_others:
  assumes wf: "db_wf h db" and h: "holo_hash_ok h"
    and run: "sql_delete_agent_dnas (agent_to_string h a) db = Inr (db', u)"
  shows "map_retain (\<lambda>_ i. si_agent_pubkey i \<noteq> a) (ab_sessions (db_abs h c db')) =
    map_retain (\<lambda>_ i. si_agent_pubkey i \<noteq> a) (ab_sessions (db_abs h c db))"
proof
  fix tok
  let ?pk = "agent_to_string h a"
  note get = hm_get_retain [OF db_wfD(3) [OF wf]]
  from run have db': "db' = db\<lparr>db_session_dnas := hm_retain (\<lambda>_ p. p \<noteq> ?pk) (db_session_dnas db)\<rparr>"
    by (simp add: sql_delete_agent_dnas_def)
  show "map_retain (\<lambda>_ i. si_agent_pubkey i \<noteq> a) (ab_sessions (db_abs h c db')) tok =
    map_retain (\<lambda>_ i. si_agent_pubkey i \<noteq> a) (ab_sessions (db_abs h c db)) tok"
  proof (cases "hm_get (db_sessions db) tok")
    case None
    then show ?thesis by (simp add: db' db_abs_def map_retain_def)
  next
    case (Some r)
    then obtain b where b: "sr_agent_pubkey r = agent_to_string h b" using db_wfD(4) [OF wf] by blast
    have "session_of_row h c (map_retain (\<lambda>_ p. p \<noteq> ?pk) (hm_get (db_session_dnas db))) tok r =
      session_of_row h c (hm_get (db_session_dnas db)) tok r" if ne: "b \<noteq> a"
    proof (rule session_of_row_cong)
      fix x
      show "map_retain (\<lambda>_ p. p \<noteq> ?pk) (hm_get (db_session_dnas db)) (tok, x) = hm_get (db_session_dnas db) (tok, x)"
        using db_wfD(5) [OF wf, of tok x] Some b h ne by (cases "hm_get (db_session_dnas db) (tok, x)") auto
    qed
    with Some b h show ?thesis
      by (cases "b = a") (simp_all add: db' db_abs_def get map_retain_def [of _ "\<lambda>tok. Option.bind _ _"]
        session_of_row_def)
  qed
qed

lemma sql_delete_agent_sessions_abs:
  assumes wf: "db_wf h db" and h: "holo_hash_ok h"
    and run: "sql_delete_agent_sessions (agent_to_string h a) db = Inr (db', n)"
  shows "db_wf h db' \<and> db_abs h c db' = (db_abs h c db)\<lparr>ab_sessions :=
     map_retain (\<lambda>_ i. si_agent_pubkey i \<noteq> a) (ab_sessions (db_abs h c db))\<rparr>"
proof -
  let ?pk = "agent_to_string h a"
  note get = hm_get_retain [OF db_wfD(2) [OF wf]] hm_get_retain [OF db_wfD(3) [OF wf]]
  from run have db': "db' = db\<lparr>
      db_sessions := hm_retain (\<lambda>_ r. sr_agent_pubkey r \<noteq> ?pk) (db_sessions db),
      db_session_dnas := hm_retain (\<lambda>k _. hm_contains
         (hm_retain (\<lambda>_ r. sr_agent_pubkey r \<noteq> ?pk) (db_sessions db)) (fst k)) (db_session_dnas db)\<rparr>"
    by (simp add: sql_delete_agent_sessions_def Let_def)
  have "db_wf h db'"
    using wf by (fastforce simp: db' db_wf_def get map_retain_None)
  moreover have "ab_sessions (db_abs h c db') tok =
      map_retain (\<lambda>_ i. si_agent_pubkey i \<noteq> a) (ab_sessions (db_abs h c db)) tok" for tok
  proof (cases "hm_get (db_sessions db) tok")
    case None
    then show ?thesis by (simp add: db' db_abs_def get map_retain_def)
  next
    case (Some r)
    then obtain b where b: "sr_agent_pubkey r = agent_to_string h b" using db_wfD(4) [OF wf] by blast
    have "session_of_row h c (map_retain (\<lambda>k _. \<exists>v. map_retain (\<lambda>_ r. sr_agent_pubkey r \<noteq> ?pk)
        (hm_get (db_sessions db)) (fst k) = Some v) (hm_get (db_session_dnas db))) tok r =
      session_of_row h c (hm_get (db_session_dnas db)) tok r" if "b \<noteq> a"
      using Some that b h by (intro session_of_row_cong) (simp add: map_retain_def split: option.splits)
    with Some b h show ?thesis
      by (cases "b = a") (auto simp: db' db_abs_def get map_retain_def [of _ "\<lambda>tok. Option.bind _ _"]
        session_of_row_def)
  qed
  ultimately show ?thesis by (auto simp: db' db_abs_def)
qed

lemma sql_delete_agent_abs:
  assumes "db_wf h db" and "holo_hash_ok h" and "sql_delete_agent (agent_to_string h a) db = Inr (db', n)"
  shows "db_wf h db' \<and> db_abs h c db' =
      (db_abs h c db)\<lparr>ab_allowed := (ab_allowed (db_abs h c db))(a := None)\<rparr> \<and>
    (n > 0) = (ab_allowed (db_abs h c db) a \<noteq> None)"
  using assms
  by (auto simp: sql_delete_agent_def db_wf_def db_abs_def agent_of_row_def fun_eq_iff split: if_splits)

lemma sql_insert_session_abs:
  assumes wf: "db_wf h db" and h: "holo_hash_ok h"
    and run: "sql_insert_session tok (agent_to_string h a) json db = Inr (db', u)"
  shows "db_wf h db' \<and> db_abs h c db' = (db_abs h c db)\<lparr>ab_sessions := (ab_sessions (db_abs h c db))(tok \<mapsto>
     \<lparr>si_agent_pubkey = a, si_capabilities = caps_from_json c json, si_registered_dnas = {}\<rparr>)\<rparr>"
proof -
  from run have new: "hm_get (db_sessions db) tok = None"
    and db': "db' = db\<lparr>db_sessions := hm_insert tok
         \<lparr>sr_agent_pubkey = agent_to_string h a, sr_capabilities = json\<rparr> (db_sessions db)\<rparr>"
    by (auto simp: sql_insert_session_def split: if_splits)
  have none: "hm_get (db_session_dnas db) (tok, x) = None" for x
    using db_wfD(5) [OF wf, of tok x] new by (cases "hm_get (db_session_dnas db) (tok, x)") auto
  have "db_wf h db'"
    using wf new none by (auto simp: db' db_wf_def)
  with none h show ?thesis
    by (auto simp: db' db_abs_def session_of_row_def fun_eq_iff split: if_splits)
qed

lemma sql_delete_session_abs:
  assumes wf: "db_wf h db" and h: "holo_hash_ok h" and run: "sql_delete_session tok db = Inr (db', n)"
  shows "db_wf h db' \<and> db_abs h c db' = (db_abs h c db)\<lparr>ab_sessions := (ab_sessions (db_abs h c db))(tok := None)\<rparr> \<and>
     (n > 0) = (ab_sessions (db_abs h c db) tok \<noteq> None)"
proof -
  note get = hm_get_retain [OF db_wfD(3) [OF wf]]
  from run have db': "db' = db\<lparr>db_sessions := hm_remove tok (db_sessions db),
       db_session_dnas := hm_retain (\<lambda>k _. fst k \<noteq> tok) (db_session_dnas db)\<rparr>"
    and n: "n = (if hm_contains (db_sessions db) tok then 1 else 0)"
    by (auto simp: sql_delete_session_def)
  have "db_wf h db'" using wf by (auto simp: db' db_wf_def get)
  moreover have "(n > 0) = (ab_sessions (db_abs h c db) tok \<noteq> None)"
    using ab_sessions_None [OF wf h] by (simp add: n)
  moreover have "session_of_row h c (map_retain (\<lambda>k _. fst k \<noteq> tok) (hm_get (db_session_dnas db))) t r =
      session_of_row h c (hm_get (db_session_dnas db)) t r" if "t \<noteq> tok" for t r
    using that by (intro session_of_row_cong) (simp add: map_retain_def split: option.splits)
  ultimately show ?thesis
    by (auto simp: db' db_abs_def get fun_eq_iff split: bind_split)
qed

lemma hm_get_insert_dnas:
  "hm_get (fold (sql_insert_dna x pk) toks m) k =
     (if snd k = x \<and> fst k \<in> set toks \<and> hm_get m k = None then Some pk else hm_get m k)"
  by (induction toks arbitrary: m) (auto simp: sql_insert_dna_def)

lemma hm_wf_insert_dnas: "hm_wf m \<Longrightarrow> hm_wf (fold (sql_insert_dna x pk) toks m)"
  by (induction toks arbitrary: m) (auto simp: sql_insert_dna_def)

lemma inserted_dnas:
  assumes "tok \<in> set toks" and "holo_hash_ok h"
  shows "{e. \<exists>y p. hm_get (fold (sql_insert_dna (dna_to_string h d) pk) toks m) (tok, y) = Some p \<and> dna_try_from h y = Inr e} =
    insert d {e. \<exists>y p. hm_get m (tok, y) = Some p \<and> dna_try_from h y = Inr e}"
proof -
  have "(\<exists>p. hm_get (fold (sql_insert_dna (dna_to_string h d) pk) toks m) (tok, y) = Some p) \<longleftrightarrow>
      y = dna_to_string h d \<or> (\<exists>p. hm_get m (tok, y) = Some p)" for y
    using assms(1) by (cases "hm_get m (tok, y)") (auto simp: hm_get_insert_dnas split: if_splits)
  then show ?thesis using assms(2) by auto
qed

lemma sql_insert_dnas_abs:
  assumes wf: "db_wf h db" and h: "holo_hash_ok h"
    and run: "sql_insert_dnas (dna_to_string h d) (agent_to_string h a) db = Inr (db', u)"
  shows "db_wf h db' \<and> db_abs h c db' = (db_abs h c db)\<lparr>ab_sessions :=
     map_update_values (\<lambda>_. register_in_session a d) (ab_sessions (db_abs h c db))\<rparr>"
proof -
  let ?pk = "agent_to_string h a" and ?x = "dna_to_string h d"
  let ?toks = "map fst (filter (\<lambda>e. sr_agent_pubkey (snd e) = ?pk) (db_sessions db))"
  from run have db': "db' = db\<lparr>db_session_dnas := fold (sql_insert_dna ?x ?pk) ?toks (db_session_dnas db)\<rparr>"
    by (simp add: sql_insert_dnas_def)
  have toks: "tok \<in> set ?toks \<longleftrightarrow> (\<exists>r. hm_get (db_sessions db) tok = Some r \<and> sr_agent_pubkey r = ?pk)" for tok
    using hm_get_iff_mem [OF db_wfD(2) [OF wf]] by force
  have "db_wf h db'"
    using wf toks by (auto simp: db' db_wf_def hm_get_insert_dnas hm_wf_insert_dnas split: if_splits)
  moreover have "session_of_row h c (hm_get (fold (sql_insert_dna ?x ?pk) ?toks (db_session_dnas db))) tok r =
      map_option (register_in_session a d) (session_of_row h c (hm_get (db_session_dnas db)) tok r)"
    if r: "hm_get (db_sessions db) tok = Some r" for tok r
  proof -
    obtain b where b: "sr_agent_pubkey r = agent_to_string h b" using db_wfD(4) [OF wf r] by blast
    show ?thesis
    proof (cases "b = a")
      case True
      with r b toks [of tok] have tok: "tok \<in> set ?toks" by simp
      note dnas = inserted_dnas [OF tok h, of d ?pk "db_session_dnas db"]
      with True b h show ?thesis
        by (simp add: session_of_row_def register_in_session_def dnas)
    next
      case False
      with r b toks [of tok] h have "tok \<notin> set ?toks" by auto
      then have "session_of_row h c (hm_get (fold (sql_insert_dna ?x ?pk) ?toks (db_session_dnas db))) tok r =
          session_of_row h c (hm_get (db_session_dnas db)) tok r"
        by (intro session_of_row_cong) (simp add: hm_get_insert_dnas)
      with False b h show ?thesis
        by (simp add: session_of_row_def register_in_session_def)
    qed
  qed
  ultimately show ?thesis
    by (auto simp: db' db_abs_def fun_eq_iff map_update_values_def split: bind_split)
qed

lemma sql_agent_sessions_count:
  assumes wf: "db_wf h db" and h: "holo_hash_ok h"
    and run: "sql_delete_agent_sessions (agent_to_string h a) db = Inr (db', n)"
  shows "n = card {t. \<exists>i. ab_sessions (db_abs h c db) t = Some i \<and> si_agent_pubkey i = a}"
proof -
  have "(\<exists>r. hm_get (db_sessions db) t = Some r \<and> sr_agent_pubkey r = agent_to_string h a) \<longleftrightarrow>
      (\<exists>i. ab_sessions (db_abs h c db) t = Some i \<and> si_agent_pubkey i = a)" for t
  proof (cases "hm_get (db_sessions db) t")
    case None
    then show ?thesis by (simp add: db_abs_def)
  next
    case (Some r)
    from db_wfD(4) [OF wf Some] obtain b where "sr_agent_pubkey r = agent_to_string h b" by blast
    with Some h show ?thesis by (auto simp: db_abs_def session_of_row_def)
  qed
  with run hm_removed_count [OF db_wfD(2) [OF wf], of sr_agent_pubkey "agent_to_string h a"]
  show ?thesis by (auto simp: sql_delete_agent_sessions_def Let_def)
qed

lemma sql_sessions_count:
  assumes wf: "db_wf h db" and h: "holo_hash_ok h"
  shows "length (db_sessions db) = card (dom (ab_sessions (db_abs h c db)))"
proof -
  have "dom (ab_sessions (db_abs h c db)) = dom (hm_get (db_sessions db))"
    using ab_sessions_None [OF wf h] by (auto simp: dom_def)
  then show ?thesis using hm_length_card [OF db_wfD(2) [OF wf]] by simp
qed

lemma db_abs_allowed:
  "ab_allowed (db_abs h c db) a = map_option (agent_of_row h c a) (hm_get (db_allowed_agents db) (agent_to_string h a))"
  by (simp add: db_abs_def)

lemma db_decode_agents:
  assumes wf: "db_wf h db" and h: "holo_hash_ok h"
    and s: "sq_hash s = h" "sq_serde s = c"
  shows "set (sq_decode_agents s (db_allowed_agents db)) = ran (ab_allowed (db_abs h c db))"
proof -
  have mem: "(pk, r) \<in> set (db_allowed_agents db) \<longleftrightarrow> hm_get (db_allowed_agents db) pk = Some r" for pk r
    using hm_get_iff_mem [OF db_wfD(1) [OF wf]] by simp
  show ?thesis
  proof (intro set_eqI iffI)
    fix g assume "g \<in> set (sq_decode_agents s (db_allowed_agents db))"
    then obtain pk r a where "(pk, r) \<in> set (db_allowed_agents db)" "agent_try_from h pk = Inr a"
        "g = agent_of_row h c a r"
      by (auto simp: sq_decode_agents_def List.map_filter_def s agent_of_row_def split: sum.splits)
    with mem db_wfD(6) [OF wf] h have "ab_allowed (db_abs h c db) a = Some g"
      by (fastforce simp: db_abs_allowed)
    then show "g \<in> ran (ab_allowed (db_abs h c db))" by (rule ranI)
  next
    fix g assume "g \<in> ran (ab_allowed (db_abs h c db))"
    then obtain a r where "hm_get (db_allowed_agents db) (agent_to_string h a) = Some r"
        "g = agent_of_row h c a r"
      by (auto simp: ran_def db_abs_allowed)
    with mem h show "g \<in> set (sq_decode_agents s (db_allowed_agents db))"
      by (force simp: sq_decode_agents_def List.map_filter_def s agent_of_row_def image_iff)
  qed
qed

section \<open>The methods implement the contract\<close>

text \<open>
  Hoare triples over the tables, for fixed codecs: \<open>Q\<close> holds when the steps succeed, \<open>E\<close> when
  one of them fails.
\<close>

definition sq_triple :: "holo_hash_api \<Rightarrow> caps_serde \<Rightarrow> (database \<Rightarrow> bool) \<Rightarrow> 'a sq \<Rightarrow>
    ('a \<Rightarrow> database \<Rightarrow> bool) \<Rightarrow> (database \<Rightarrow> bool) \<Rightarrow> bool" where
  "sq_triple h c P f Q E \<longleftrightarrow> (\<forall>s s' r.
     sq_hash s = h \<and> sq_serde s = c \<and> P (sq_conn s) \<and> f s = (s', r) \<longrightarrow>
     sq_hash s' = h \<and> sq_serde s' = c \<and>
     (case r of Inl _ \<Rightarrow> E (sq_conn s') | Inr x \<Rightarrow> Q x (sq_conn s')))"

named_theorems sq_triples

lemma sq_triple_statement:
  assumes "\<And>db. P db \<Longrightarrow> E db"
    and "\<And>db db' x. P db \<Longrightarrow> stmt db = Inr (db', x) \<Longrightarrow> Q x db'"
  shows "sq_triple h c P (sq_statement stmt) Q E"
  unfolding sq_triple_def
proof (intro allI impI)
  fix s s' r
  assume a: "sq_hash s = h \<and> sq_serde s = c \<and> P (sq_conn s) \<and> sq_statement stmt s = (s', r)"
  show "sq_hash s' = h \<and> sq_serde s' = c \<and> (case r of Inl _ \<Rightarrow> E (sq_conn s') | Inr x \<Rightarrow> Q x (sq_conn s'))"
    using a assms(1) [of "sq_conn s"] assms(2) [of "sq_conn s" "sq_conn s'"]
      sq_statementD [of stmt s s' r] by (cases r) simp_all
qed

lemma sq_triple_returns [sq_triples]: "(\<And>db. P db \<Longrightarrow> Q x db) \<Longrightarrow> sq_triple h c P (returns x) Q E"
  by (simp add: sq_triple_def)

lemma sq_triple_and_then:
  assumes "sq_triple h c P f M E" and "\<And>x. sq_triple h c (M x) (g x) Q E"
  shows "sq_triple h c P (and_then f g) Q E"
  unfolding sq_triple_def
proof (intro allI impI)
  fix s s' r
  assume a: "sq_hash s = h \<and> sq_serde s = c \<and> P (sq_conn s) \<and> and_then f g s = (s', r)"
  obtain s1 r1 where f: "f s = (s1, r1)" by fastforce
  have one: "sq_hash s1 = h \<and> sq_serde s1 = c \<and>
      (case r1 of Inl _ \<Rightarrow> E (sq_conn s1) | Inr x \<Rightarrow> M x (sq_conn s1))"
    using assms(1) a f unfolding sq_triple_def by blast
  show "sq_hash s' = h \<and> sq_serde s' = c \<and> (case r of Inl _ \<Rightarrow> E (sq_conn s') | Inr x \<Rightarrow> Q x (sq_conn s'))"
  proof (cases r1)
    case (Inl e)
    with one a f show ?thesis by (auto simp: and_then_def)
  next
    case (Inr x)
    with a f have "g x s1 = (s', r)" by (simp add: and_then_def)
    with assms(2) [of x] one Inr show ?thesis unfolding sq_triple_def by (metis sum.simps(6))
  qed
qed

lemma sq_triple_fetch:
  assumes "\<And>db. P db \<Longrightarrow> E db"
  shows "sq_triple h c P sq_fetch (\<lambda>_. P) E"
  unfolding sq_fetch_def by (rule sq_triple_statement) (use assms in auto)

lemma sq_triple_rows:
  assumes "\<And>db. P db \<Longrightarrow> E db"
  shows "sq_triple h c P (sq_rows rs) (\<lambda>xs db. xs = rs \<and> P db) E"
  unfolding sq_triple_def
proof (intro allI impI)
  fix s s' r
  assume a: "sq_hash s = h \<and> sq_serde s = c \<and> P (sq_conn s) \<and> sq_rows rs s = (s', r)"
  then show "sq_hash s' = h \<and> sq_serde s' = c \<and>
      (case r of Inl _ \<Rightarrow> E (sq_conn s') | Inr x \<Rightarrow> x = rs \<and> P (sq_conn s'))"
    using sq_rows_frame [of rs s s' r] assms [of "sq_conn s"] by (cases r) simp_all
qed

lemma sq_tripleD:
  assumes "sq_triple h c P f Q E" and "sq_hash s = h" and "sq_serde s = c" and "P (sq_conn s)"
    and "f s = (s', r)"
  shows "sq_hash s' = h" and "sq_serde s' = c"
    and "r = Inl e \<Longrightarrow> E (sq_conn s')" and "r = Inr x \<Longrightarrow> Q x (sq_conn s')"
proof -
  from assms have "sq_hash s' = h \<and> sq_serde s' = c \<and>
      (case r of Inl _ \<Rightarrow> E (sq_conn s') | Inr x \<Rightarrow> Q x (sq_conn s'))"
    unfolding sq_triple_def by blast
  then show "sq_hash s' = h" and "sq_serde s' = c"
    and "r = Inl e \<Longrightarrow> E (sq_conn s')" and "r = Inr x \<Longrightarrow> Q x (sq_conn s')" by auto
qed

text \<open>A method is a chain of steps chosen from its arguments and the codecs.\<close>

lemma sq_triple_implements:
  assumes keep: "\<And>a x b. spec a x b \<Longrightarrow> abs_ok a \<Longrightarrow> abs_ok b"
    and f: "\<And>s. f s = g (sq_hash s) (sq_serde s) s"
    and triple: "\<And>h c a. holo_hash_ok h \<Longrightarrow> caps_serde_ok c \<Longrightarrow> abs_ok a \<Longrightarrow>
      sq_triple h c (\<lambda>db. db_wf h db \<and> db_abs h c db = a) (g h c)
        (\<lambda>x db. db_wf h db \<and> spec a x (db_abs h c db)) (\<lambda>db. db_wf h db \<and> degrades a (db_abs h c db))"
  shows "implements sq_invar sq_abs f spec"
proof (rule implements_repI [of sq_invar sq_wf sq_abs, OF sq_invar_def keep])
  fix s s' :: sqlite_store and e
  assume wf: "sq_wf s" and ok: "abs_ok (sq_abs s)" and run: "f s = (s', Inl e)"
  note t = triple [of "sq_hash s" "sq_serde s" "sq_abs s"]
  have hc: "holo_hash_ok (sq_hash s)" "caps_serde_ok (sq_serde s)"
    and pre: "db_wf (sq_hash s) (sq_conn s) \<and> db_abs (sq_hash s) (sq_serde s) (sq_conn s) = sq_abs s"
    using wf by (simp_all add: sq_wf_def sq_abs_def)
  note post = sq_tripleD [OF t [OF hc ok] refl refl pre run [unfolded f]]
  show "sq_wf s' \<and> degrades (sq_abs s) (sq_abs s')"
    using post(1,2) post(3) [OF refl] hc by (simp add: sq_wf_def sq_abs_def [of s'])
next
  fix s s' :: sqlite_store and x
  assume wf: "sq_wf s" and ok: "abs_ok (sq_abs s)" and run: "f s = (s', Inr x)"
  note t = triple [of "sq_hash s" "sq_serde s" "sq_abs s"]
  have hc: "holo_hash_ok (sq_hash s)" "caps_serde_ok (sq_serde s)"
    and pre: "db_wf (sq_hash s) (sq_conn s) \<and> db_abs (sq_hash s) (sq_serde s) (sq_conn s) = sq_abs s"
    using wf by (simp_all add: sq_wf_def sq_abs_def)
  note post = sq_tripleD [OF t [OF hc ok] refl refl pre run [unfolded f]]
  show "sq_wf s' \<and> spec (sq_abs s) x (sq_abs s')"
    using post(1,2) post(4) [OF refl] hc by (simp add: sq_wf_def sq_abs_def [of s'])
qed

lemma degrades_drop_agent_sessions:
  "degrades a (a\<lparr>ab_sessions := map_retain P (ab_sessions a)\<rparr>)"
  by (auto simp: degrades_def)

lemma sq_add_agent_laws: "implements sq_invar sq_abs (sq_add_agent g) (spec_add_agent g)"
proof (rule sq_triple_implements [where g = "\<lambda>h c. sq_statement (sql_upsert_agent
        (agent_to_string h (aa_agent_pubkey g)) (caps_to_json c (aa_capabilities g)) (aa_label g))"],
      erule (1) spec_add_agent_ok, simp add: sq_add_agent_def, rule sq_triple_statement, simp)
  fix h c a db db' and x :: unit
  assume h: "holo_hash_ok h" and c: "caps_serde_ok c" and db: "db_wf h db \<and> db_abs h c db = a"
    and run: "sql_upsert_agent (agent_to_string h (aa_agent_pubkey g))
      (caps_to_json c (aa_capabilities g)) (aa_label g) db = Inr (db', x)"
  show "db_wf h db' \<and> spec_add_agent g a x (db_abs h c db')"
    using sql_upsert_agent_abs [OF conjunct1 [OF db] h run, of c] db c
    by (cases g) (simp add: store_specs)
qed

lemma sq_register_dna_laws: "implements sq_invar sq_abs (sq_register_dna k d) (spec_register_dna k d)"
  by (rule sq_triple_implements [where g = "\<lambda>h c. sq_statement (sql_insert_dnas
        (dna_to_string h d) (agent_to_string h k))"],
      erule (1) spec_register_dna_ok, simp add: sq_register_dna_def, rule sq_triple_statement,
      simp, drule sql_insert_dnas_abs [rotated 2], auto simp: store_specs)

lemma sq_revoke_sessions_laws:
  "implements sq_invar sq_abs (sq_revoke_sessions_for_agent k) (spec_revoke_sessions_for_agent k)"
proof (rule sq_triple_implements [where g = "\<lambda>h c. sq_statement (sql_delete_agent_sessions
        (agent_to_string h k))"], erule (1) spec_revoke_sessions_ok, simp add: sq_revoke_sessions_for_agent_def,
      rule sq_triple_statement, simp)
  fix h c a db db' x
  assume h: "holo_hash_ok h" and db: "db_wf h db \<and> db_abs h c db = a"
    and run: "sql_delete_agent_sessions (agent_to_string h k) db = Inr (db', x)"
  show "db_wf h db' \<and> spec_revoke_sessions_for_agent k a x (db_abs h c db')"
    using sql_delete_agent_sessions_abs [OF conjunct1 [OF db] h run, of c] sql_agent_sessions_count
      [OF conjunct1 [OF db] h run, of c] db by (simp add: store_specs)
qed

lemma sq_revoke_session_laws: "implements sq_invar sq_abs (sq_revoke_session tok) (spec_revoke_session tok)"
proof (rule sq_triple_implements [where g = "\<lambda>h c. sq_revoke_session tok"],
    erule (1) spec_revoke_session_ok, rule refl, unfold sq_revoke_session_def,
    rule sq_triple_and_then, rule sq_triple_statement)
  fix h c a db db' and x :: nat
  assume h: "holo_hash_ok h" and db: "db_wf h db \<and> db_abs h c db = a"
    and run: "sql_delete_session tok db = Inr (db', x)"
  show "db_wf h db' \<and> spec_revoke_session tok a (x > 0) (db_abs h c db')"
    using sql_delete_session_abs [OF conjunct1 [OF db] h run, of c] db by (simp add: store_specs)
qed (auto intro: sq_triples)

lemma sq_session_count_laws: "implements sq_invar sq_abs sq_session_count spec_session_count"
  by (rule sq_triple_implements [where g = "\<lambda>h c. sq_session_count"], erule (1) spec_reads_ok(5), rule refl,
      unfold sq_session_count_def, rule sq_triple_statement, simp)
    (auto simp: store_specs sql_count_sessions_def sql_sessions_count)

lemma sq_get_agent_laws: "implements sq_invar sq_abs (sq_get_agent k) (spec_get_agent k)"
  by (rule sq_triple_implements [where g = "\<lambda>h c. and_then
        (sq_statement (sql_select_agent (agent_to_string h k)))
        (\<lambda>row. returns (map_option (agent_of_row h c k) row))"], erule (1) spec_reads_ok(3),
      simp add: sq_get_agent_def agent_of_row_def [abs_def], rule sq_triple_and_then
        [where M = "\<lambda>row db. db_wf h db \<and> db_abs h c db = a \<and> hm_get (db_allowed_agents db) (agent_to_string h k) = row" for h c a],
      rule sq_triple_statement, simp)
    (auto simp: store_specs sql_select_agent_def db_abs_allowed intro: sq_triples)

lemma sq_is_agent_allowed_laws:
  "implements sq_invar sq_abs (sq_is_agent_allowed k) (spec_is_agent_allowed k)"
  by (rule sq_triple_implements [where g = "\<lambda>h c. and_then
        (sq_statement (sql_count_agent (agent_to_string h k))) (\<lambda>n. returns (n > 0))"],
      erule (1) spec_reads_ok(2), simp add: sq_is_agent_allowed_def, rule sq_triple_and_then
        [where M = "\<lambda>n db. db_wf h db \<and> db_abs h c db = a \<and> (n > 0) = hm_contains (db_allowed_agents db) (agent_to_string h k)" for h c a],
      rule sq_triple_statement, simp)
    (auto simp: store_specs sql_count_agent_def db_abs_allowed intro!: sq_triples split: if_splits)

lemma sq_remove_agent_laws: "implements sq_invar sq_abs (sq_remove_agent k) (spec_remove_agent k)"
proof (rule sq_triple_implements [where g = "\<lambda>h c. let pk = agent_to_string h k
      in and_then (sq_statement (sql_delete_agent_dnas pk)) (\<lambda>_.
         and_then (sq_statement (sql_delete_agent_sessions pk)) (\<lambda>_.
         and_then (sq_statement (sql_delete_agent pk)) (\<lambda>rows.
         returns (rows > 0))))"], erule (1) spec_remove_agent_ok, simp only: sq_remove_agent_def Let_def, unfold Let_def)
  fix h c a
  assume h: "holo_hash_ok h"
  let ?pk = "agent_to_string h k"
  let ?S = "\<lambda>m. map_retain (\<lambda>_ i. si_agent_pubkey i \<noteq> k) m"
  show "sq_triple h c (\<lambda>db. db_wf h db \<and> db_abs h c db = a)
      (and_then (sq_statement (sql_delete_agent_dnas ?pk)) (\<lambda>_.
       and_then (sq_statement (sql_delete_agent_sessions ?pk)) (\<lambda>_.
       and_then (sq_statement (sql_delete_agent ?pk)) (\<lambda>rows. returns (rows > 0)))))
      (\<lambda>x db. db_wf h db \<and> spec_remove_agent k a x (db_abs h c db))
      (\<lambda>db. db_wf h db \<and> degrades a (db_abs h c db))"
  proof (rule sq_triple_and_then [where M = "\<lambda>_ db. db_wf h db \<and> degrades a (db_abs h c db) \<and>
        ?S (ab_sessions (db_abs h c db)) = ?S (ab_sessions a)"], rule sq_triple_statement, simp)
    fix db db' and x :: unit
    assume db: "db_wf h db \<and> db_abs h c db = a" and run: "sql_delete_agent_dnas ?pk db = Inr (db', x)"
    show "db_wf h db' \<and> degrades a (db_abs h c db') \<and> ?S (ab_sessions (db_abs h c db')) = ?S (ab_sessions a)"
      using sql_delete_agent_dnas_abs [OF conjunct1 [OF db] run, of c]
        sql_delete_agent_dnas_others [OF conjunct1 [OF db] h run, of c] db by simp
  next
    show "sq_triple h c (\<lambda>db. db_wf h db \<and> degrades a (db_abs h c db) \<and> ?S (ab_sessions (db_abs h c db)) = ?S (ab_sessions a))
       (and_then (sq_statement (sql_delete_agent_sessions ?pk)) (\<lambda>_.
        and_then (sq_statement (sql_delete_agent ?pk)) (\<lambda>rows. returns (rows > 0))))
      (\<lambda>x db. db_wf h db \<and> spec_remove_agent k a x (db_abs h c db))
      (\<lambda>db. db_wf h db \<and> degrades a (db_abs h c db))" for u
    proof (rule sq_triple_and_then [where M = "\<lambda>_ db. db_wf h db \<and>
          db_abs h c db = a\<lparr>ab_sessions := ?S (ab_sessions a)\<rparr>"], rule sq_triple_statement, simp)
      fix db db' and x :: nat
      assume db: "db_wf h db \<and> degrades a (db_abs h c db) \<and> ?S (ab_sessions (db_abs h c db)) = ?S (ab_sessions a)"
        and run: "sql_delete_agent_sessions ?pk db = Inr (db', x)"
      show "db_wf h db' \<and> db_abs h c db' = a\<lparr>ab_sessions := ?S (ab_sessions a)\<rparr>"
        using sql_delete_agent_sessions_abs [OF conjunct1 [OF db] h run, of c] db
        by (simp add: degrades_def)
    next
      show "sq_triple h c (\<lambda>db. db_wf h db \<and> db_abs h c db = a\<lparr>ab_sessions := ?S (ab_sessions a)\<rparr>)
         (and_then (sq_statement (sql_delete_agent ?pk)) (\<lambda>rows. returns (rows > 0)))
        (\<lambda>x db. db_wf h db \<and> spec_remove_agent k a x (db_abs h c db))
        (\<lambda>db. db_wf h db \<and> degrades a (db_abs h c db))" for u
      proof (rule sq_triple_and_then [where M = "\<lambda>n db. db_wf h db \<and> spec_remove_agent k a (n > 0) (db_abs h c db)"],
          rule sq_triple_statement, simp add: degrades_drop_agent_sessions)
        fix db db' and x :: nat
        assume db: "db_wf h db \<and> db_abs h c db = a\<lparr>ab_sessions := ?S (ab_sessions a)\<rparr>"
          and run: "sql_delete_agent ?pk db = Inr (db', x)"
        show "db_wf h db' \<and> spec_remove_agent k a (x > 0) (db_abs h c db')"
          using sql_delete_agent_abs [OF conjunct1 [OF db] h run, of c] db by (simp add: store_specs)
      qed (auto intro: sq_triples)
    qed
  qed
qed

definition list_agents_chain :: "holo_hash_api \<Rightarrow> caps_serde \<Rightarrow> allowed_agent list sq" where
  "list_agents_chain h c =
     and_then sq_fetch (\<lambda>_.
     and_then (sq_statement sql_select_agents) (\<lambda>rows.
     and_then (sq_rows rows) (\<lambda>got.
     returns (sq_decode_agents (sq_new [] h c) got))))"

lemma sq_new_sel: "sq_hash (sq_new f h c) = h" "sq_serde (sq_new f h c) = c"
  by (simp_all add: sq_new_def)

lemma sq_decode_agents_codecs:
  "sq_decode_agents s rows = sq_decode_agents (sq_new [] (sq_hash s) (sq_serde s)) rows"
  unfolding sq_decode_agents_def sq_new_sel ..

lemma sq_list_agents_laws: "implements sq_invar sq_abs sq_list_agents spec_list_agents"
proof (rule sq_triple_implements [where g = list_agents_chain], erule (1) spec_reads_ok(1),
    simp only: sq_list_agents_def list_agents_chain_def sq_decode_agents_codecs [symmetric])
  fix h c a
  assume h: "holo_hash_ok h"
  let ?I = "\<lambda>db. db_wf h db \<and> db_abs h c db = a"
  have rows: "sq_triple h c (\<lambda>db. ?I db \<and> rows = db_allowed_agents db)
      (and_then (sq_rows rows) (\<lambda>got. returns (sq_decode_agents (sq_new [] h c) got)))
      (\<lambda>x db. db_wf h db \<and> spec_list_agents a x (db_abs h c db)) (\<lambda>db. db_wf h db \<and> degrades a (db_abs h c db))" for rows
    by (rule sq_triple_and_then, rule sq_triple_rows, simp, rule sq_triple_returns)
      (use h in \<open>auto simp: store_specs db_decode_agents [OF _ _ sq_new_sel]\<close>)
  show "sq_triple h c ?I (list_agents_chain h c)
      (\<lambda>x db. db_wf h db \<and> spec_list_agents a x (db_abs h c db)) (\<lambda>db. db_wf h db \<and> degrades a (db_abs h c db))"
    unfolding list_agents_chain_def
    by (rule sq_triple_and_then, rule sq_triple_fetch, simp, rule sq_triple_and_then [OF _ rows],
        rule sq_triple_statement, simp) (simp add: sql_select_agents_def)
qed

definition create_session_chain ::
    "session_token \<Rightarrow> agent_pubkey \<Rightarrow> holo_hash_api \<Rightarrow> session_token option sq" where
  "create_session_chain tok k h =
     and_then (sq_statement (sql_select_agent (agent_to_string h k))) (\<lambda>row.
       case row of
         None \<Rightarrow> returns None
       | Some r \<Rightarrow> and_then (sq_statement (sql_insert_session tok (agent_to_string h k) (ar_capabilities r)))
                     (\<lambda>_. returns (Some tok)))"

lemma sq_create_session_laws:
  "implements sq_invar sq_abs (sq_create_session tok k) (spec_create_session tok k)"
proof (rule sq_triple_implements [where g = "\<lambda>h c. create_session_chain tok k h"],
    erule (1) spec_create_session_ok, simp only: sq_create_session_def create_session_chain_def Let_def)
  fix h c a
  assume h: "holo_hash_ok h"
  let ?pk = "agent_to_string h k"
  let ?I = "\<lambda>db. db_wf h db \<and> db_abs h c db = a"
  have insert: "sq_triple h c (\<lambda>db. ?I db \<and> hm_get (db_allowed_agents db) ?pk = Some r)
      (and_then (sq_statement (sql_insert_session tok ?pk (ar_capabilities r))) (\<lambda>_. returns (Some tok)))
      (\<lambda>x db. db_wf h db \<and> spec_create_session tok k a x (db_abs h c db))
      (\<lambda>db. db_wf h db \<and> degrades a (db_abs h c db))" for r
  proof (rule sq_triple_and_then [where M = "\<lambda>_ db. db_wf h db \<and> spec_create_session tok k a (Some tok) (db_abs h c db)"],
      rule sq_triple_statement, simp)
    fix db db' and x :: unit
    assume db: "?I db \<and> hm_get (db_allowed_agents db) ?pk = Some r"
      and run: "sql_insert_session tok ?pk (ar_capabilities r) db = Inr (db', x)"
    have "ab_allowed a k = Some (agent_of_row h c k r)" using db db_abs_allowed [of h c db k] by simp
    then show "db_wf h db' \<and> spec_create_session tok k a (Some tok) (db_abs h c db')"
      using sql_insert_session_abs [OF _ h run, of c] db by (simp add: store_specs agent_of_row_def)
  qed (auto intro: sq_triples)
  show "sq_triple h c ?I (create_session_chain tok k h)
      (\<lambda>x db. db_wf h db \<and> spec_create_session tok k a x (db_abs h c db))
      (\<lambda>db. db_wf h db \<and> degrades a (db_abs h c db))"
    unfolding create_session_chain_def
  proof (rule sq_triple_and_then [where M = "\<lambda>row db. ?I db \<and> hm_get (db_allowed_agents db) ?pk = row"],
      rule sq_triple_statement, simp, simp add: sql_select_agent_def)
    fix row
    show "sq_triple h c (\<lambda>db. ?I db \<and> hm_get (db_allowed_agents db) ?pk = row)
      (case row of None \<Rightarrow> returns None
       | Some r \<Rightarrow> and_then (sq_statement (sql_insert_session tok ?pk (ar_capabilities r))) (\<lambda>_. returns (Some tok)))
      (\<lambda>x db. db_wf h db \<and> spec_create_session tok k a x (db_abs h c db))
      (\<lambda>db. db_wf h db \<and> degrades a (db_abs h c db))"
      using insert by (cases row) (auto simp: store_specs db_abs_allowed intro!: sq_triple_returns)
  qed
qed

definition validate_session_read ::
    "session_token \<Rightarrow> holo_hash_api \<Rightarrow> caps_serde \<Rightarrow> sq_session_row \<Rightarrow> agent_pubkey \<Rightarrow> session_info option sq" where
  "validate_session_read tok h c r a =
     and_then sq_fetch (\<lambda>_.
     and_then (sq_statement (sql_select_dnas tok)) (\<lambda>rows s1.
       case sq_rows_flatten rows s1 of
         (s2, ds) \<Rightarrow> (s2, Inr (Some \<lparr>si_agent_pubkey = a,
            si_capabilities = caps_from_json c (sr_capabilities r),
            si_registered_dnas = sq_decode_dnas (sq_new [] h c) ds\<rparr>))))"

definition validate_session_chain ::
    "session_token \<Rightarrow> holo_hash_api \<Rightarrow> caps_serde \<Rightarrow> session_info option sq" where
  "validate_session_chain tok h c =
     and_then (sq_statement (sql_select_session tok)) (\<lambda>row.
       case row of
         None \<Rightarrow> returns None
       | Some r \<Rightarrow> (case agent_try_from h (sr_agent_pubkey r) of
             Inl _ \<Rightarrow> returns None
           | Inr a \<Rightarrow> validate_session_read tok h c r a))"

lemma sq_decode_dnas_codecs: "sq_decode_dnas s ds = sq_decode_dnas (sq_new [] (sq_hash s) (sq_serde s)) ds"
  unfolding sq_decode_dnas_def sq_new_sel ..

lemma decoded_dnas_registered:
  assumes "set ds \<subseteq> set rows" and "sql_select_dnas tok db = Inr (db', rows)"
    and "agent_try_from h (sr_agent_pubkey r) = Inr k" and "hm_get (db_sessions db) tok = Some r"
    and wf: "db_wf h db"
  shows "\<exists>j. ab_sessions (db_abs h c db) tok = Some j \<and>
     session_le \<lparr>si_agent_pubkey = k, si_capabilities = caps_from_json c (sr_capabilities r),
        si_registered_dnas = sq_decode_dnas (sq_new [] h c) ds\<rparr> j"
proof -
  have "x \<in> set rows \<longleftrightarrow> (\<exists>p. hm_get (db_session_dnas db) (tok, x) = Some p)" for x
    using assms(2) hm_get_iff_mem [OF db_wfD(3) [OF wf]] by (force simp: sql_select_dnas_def)
  then have "sq_decode_dnas (sq_new [] h c) ds \<subseteq>
      {d. \<exists>x p. hm_get (db_session_dnas db) (tok, x) = Some p \<and> dna_try_from h x = Inr d}"
    using assms(1) by (fastforce simp: sq_decode_dnas_def sq_new_sel List.map_filter_def split: sum.splits)
  with assms(3,4) show ?thesis by (simp add: db_abs_def session_of_row_def session_le_def)
qed

lemma validate_session_read_triple:
  assumes a: "agent_try_from h (sr_agent_pubkey r) = Inr k"
  shows "sq_triple h c (\<lambda>db. db_wf h db \<and> db_abs h c db = a \<and> hm_get (db_sessions db) tok = Some r)
     (validate_session_read tok h c r k)
     (\<lambda>x db. db_wf h db \<and> spec_validate_session tok a x (db_abs h c db))
     (\<lambda>db. db_wf h db \<and> degrades a (db_abs h c db))"
  unfolding validate_session_read_def
proof (rule sq_triple_and_then, rule sq_triple_fetch, simp,
    rule sq_triple_and_then [where M = "\<lambda>rows db. db_wf h db \<and> db_abs h c db = a \<and>
      hm_get (db_sessions db) tok = Some r \<and> sql_select_dnas tok db = Inr (db, rows)"],
    rule sq_triple_statement, simp, simp add: sql_select_dnas_def)
  fix rows
  show "sq_triple h c (\<lambda>db. db_wf h db \<and> db_abs h c db = a \<and> hm_get (db_sessions db) tok = Some r \<and>
        sql_select_dnas tok db = Inr (db, rows))
     (\<lambda>s1. case sq_rows_flatten rows s1 of
         (s2, ds) \<Rightarrow> (s2, Inr (Some \<lparr>si_agent_pubkey = k, si_capabilities = caps_from_json c (sr_capabilities r),
            si_registered_dnas = sq_decode_dnas (sq_new [] h c) ds\<rparr>)))
     (\<lambda>x db. db_wf h db \<and> spec_validate_session tok a x (db_abs h c db))
     (\<lambda>db. db_wf h db \<and> degrades a (db_abs h c db))"
    unfolding sq_triple_def
  proof (intro allI impI, elim conjE)
    fix s s' x
    assume s: "sq_hash s = h" "sq_serde s = c" "db_wf h (sq_conn s)" "db_abs h c (sq_conn s) = a"
      "hm_get (db_sessions (sq_conn s)) tok = Some r" "sql_select_dnas tok (sq_conn s) = Inr (sq_conn s, rows)"
      and run: "(case sq_rows_flatten rows s of
         (s2, ds) \<Rightarrow> (s2, Inr (Some \<lparr>si_agent_pubkey = k, si_capabilities = caps_from_json c (sr_capabilities r),
            si_registered_dnas = sq_decode_dnas (sq_new [] h c) ds\<rparr>))) = (s', x)"
    obtain ds where ds: "sq_rows_flatten rows s = (s', ds)"
      and x: "x = Inr (Some \<lparr>si_agent_pubkey = k, si_capabilities = caps_from_json c (sr_capabilities r),
            si_registered_dnas = sq_decode_dnas (sq_new [] h c) ds\<rparr>)"
      using run by (auto split: prod.splits)
    have f: "sq_conn s' = sq_conn s" "sq_hash s' = h" "sq_serde s' = c" "set ds \<subseteq> set rows"
      using sq_rows_flatten_frame [OF ds] s by simp_all
    show "sq_hash s' = h \<and> sq_serde s' = c \<and> (case x of
        Inl _ \<Rightarrow> db_wf h (sq_conn s') \<and> degrades a (db_abs h c (sq_conn s'))
      | Inr x \<Rightarrow> db_wf h (sq_conn s') \<and> spec_validate_session tok a x (db_abs h c (sq_conn s')))"
      using decoded_dnas_registered [OF f(4) s(6) assms s(5,3), of c] s(3,4)
      by (simp add: f(1-3) x store_specs)
  qed
qed

lemma sq_validate_session_laws:
  "implements sq_invar sq_abs (sq_validate_session tok) (spec_validate_session tok)"
proof (rule sq_triple_implements [where g = "validate_session_chain tok"], erule (1) spec_reads_ok(4),
    simp only: sq_validate_session_def validate_session_chain_def validate_session_read_def
      sq_decode_dnas_codecs [symmetric])
  fix h c a
  assume h: "holo_hash_ok h"
  let ?I = "\<lambda>db. db_wf h db \<and> db_abs h c db = a"
  let ?Q = "\<lambda>x db. db_wf h db \<and> spec_validate_session tok a x (db_abs h c db)"
  show "sq_triple h c ?I (validate_session_chain tok h c) ?Q (\<lambda>db. db_wf h db \<and> degrades a (db_abs h c db))"
    unfolding validate_session_chain_def
  proof (rule sq_triple_and_then [where M = "\<lambda>row db. ?I db \<and> hm_get (db_sessions db) tok = row"],
      rule sq_triple_statement, simp, simp add: sql_select_session_def)
    fix row
    show "sq_triple h c (\<lambda>db. ?I db \<and> hm_get (db_sessions db) tok = row)
       (case row of None \<Rightarrow> returns None
        | Some r \<Rightarrow> (case agent_try_from h (sr_agent_pubkey r) of
             Inl _ \<Rightarrow> returns None
           | Inr a \<Rightarrow> validate_session_read tok h c r a)) ?Q (\<lambda>db. db_wf h db \<and> degrades a (db_abs h c db))"
    proof (cases row)
      case None
      then show ?thesis
        using h by (auto simp: store_specs ab_sessions_None intro!: sq_triple_returns)
    next
      case (Some r)
      show ?thesis
      proof (cases "agent_try_from h (sr_agent_pubkey r)")
        case (Inl e)
        with Some h session_of_row_wf [OF _ h, of _ tok r] show ?thesis
          by (fastforce simp: sq_triple_def)
      next
        case (Inr k)
        with Some validate_session_read_triple [OF Inr] show ?thesis by simp
      qed
    qed
  qed
qed

interpretation sq: session_store sq_invar sq_abs sq_add_agent sq_remove_agent sq_list_agents
    sq_is_agent_allowed sq_get_agent sq_create_session sq_validate_session sq_revoke_session
    sq_register_dna sq_revoke_sessions_for_agent sq_session_count
  by unfold_locales (simp_all add: sq_invar_def sq_add_agent_laws sq_remove_agent_laws sq_list_agents_laws
    sq_is_agent_allowed_laws sq_get_agent_laws sq_create_session_laws sq_validate_session_laws
    sq_revoke_session_laws sq_register_dna_laws sq_revoke_sessions_laws sq_session_count_laws)

end
