(* ===== verification/Auth_Store.thy ===== *)
theory Auth_Store imports Memory_Store Sqlite_Refinement begin

text \<open>
  The authentication store (\<open>src/auth/store.rs\<close>): a session store backend behind a trait object
  and the run-time table of WebSocket senders per agent. Every method logs a backend error and
  answers the denying default. A command is one call on the store; \<open>auth_run\<close> is a sequence of
  calls, in the order their locks were taken, each with nothing in between its locks (what can come in
  between the two locks of the memory backend's \<open>create_session\<close> is shown at the end).
\<close>

section \<open>The backend behind the trait object\<close>

datatype backend = MemoryBackend memory_store | SqliteBackend sqlite_store

definition dispatch :: "(memory_store, session_store_error, 'a) fallible \<Rightarrow>
    (sqlite_store, session_store_error, 'a) fallible \<Rightarrow> (backend, session_store_error, 'a) fallible" where
  "dispatch fm fs b = (case b of
     MemoryBackend m \<Rightarrow> (case fm m of (m', r) \<Rightarrow> (MemoryBackend m', r))
   | SqliteBackend s \<Rightarrow> (case fs s of (s', r) \<Rightarrow> (SqliteBackend s', r)))"

definition be_invar :: "backend \<Rightarrow> bool" where
  "be_invar b = (case b of MemoryBackend m \<Rightarrow> mem_invar m | SqliteBackend s \<Rightarrow> sq_invar s)"

definition be_abs :: "backend \<Rightarrow> abs_store" where
  "be_abs b = (case b of MemoryBackend m \<Rightarrow> mem_abs m | SqliteBackend s \<Rightarrow> sq_abs s)"

lemma be_simps [simp]:
  "be_invar (MemoryBackend m) = mem_invar m" "be_invar (SqliteBackend q) = sq_invar q"
  "be_abs (MemoryBackend m) = mem_abs m" "be_abs (SqliteBackend q) = sq_abs q"
  by (simp_all add: be_invar_def be_abs_def)

definition be_add_agent :: "allowed_agent \<Rightarrow> (backend, session_store_error, unit) fallible" where
  "be_add_agent g = dispatch (mem_add_agent g) (sq_add_agent g)"
definition be_remove_agent :: "agent_pubkey \<Rightarrow> (backend, session_store_error, bool) fallible" where
  "be_remove_agent k = dispatch (mem_remove_agent k) (sq_remove_agent k)"
definition be_list_agents :: "(backend, session_store_error, allowed_agent list) fallible" where
  "be_list_agents = dispatch mem_list_agents sq_list_agents"
definition be_is_agent_allowed :: "agent_pubkey \<Rightarrow> (backend, session_store_error, bool) fallible" where
  "be_is_agent_allowed k = dispatch (mem_is_agent_allowed k) (sq_is_agent_allowed k)"
definition be_get_agent :: "agent_pubkey \<Rightarrow> (backend, session_store_error, allowed_agent option) fallible" where
  "be_get_agent k = dispatch (mem_get_agent k) (sq_get_agent k)"
definition be_create_session ::
    "session_token \<Rightarrow> agent_pubkey \<Rightarrow> (backend, session_store_error, session_token option) fallible" where
  "be_create_session tok k = dispatch (mem_create_session tok k) (sq_create_session tok k)"
definition be_validate_session ::
    "session_token \<Rightarrow> (backend, session_store_error, session_info option) fallible" where
  "be_validate_session tok = dispatch (mem_validate_session tok) (sq_validate_session tok)"
definition be_revoke_session :: "session_token \<Rightarrow> (backend, session_store_error, bool) fallible" where
  "be_revoke_session tok = dispatch (mem_revoke_session tok) (sq_revoke_session tok)"
definition be_register_dna :: "agent_pubkey \<Rightarrow> dna_hash \<Rightarrow> (backend, session_store_error, unit) fallible" where
  "be_register_dna k d = dispatch (mem_register_dna k d) (sq_register_dna k d)"
definition be_revoke_sessions_for_agent ::
    "agent_pubkey \<Rightarrow> (backend, session_store_error, nat) fallible" where
  "be_revoke_sessions_for_agent k =
     dispatch (mem_revoke_sessions_for_agent k) (sq_revoke_sessions_for_agent k)"
definition be_session_count :: "(backend, session_store_error, nat) fallible" where
  "be_session_count = dispatch mem_session_count sq_session_count"

lemmas be_defs = be_add_agent_def be_remove_agent_def be_list_agents_def be_is_agent_allowed_def
  be_get_agent_def be_create_session_def be_validate_session_def be_revoke_session_def
  be_register_dna_def be_revoke_sessions_for_agent_def be_session_count_def

lemma dispatch_implements:
  assumes "implements mem_invar mem_abs fm spec" and "implements sq_invar sq_abs fs spec"
  shows "implements be_invar be_abs (dispatch fm fs) spec"
  unfolding implements_def
proof (intro allI impI)
  fix b b' r assume inv: "be_invar b" and run: "dispatch fm fs b = (b', r)"
  show "be_invar b' \<and> (case r of Inl _ \<Rightarrow> degrades (be_abs b) (be_abs b') | Inr x \<Rightarrow> spec (be_abs b) x (be_abs b'))"
  proof (cases b)
    case (MemoryBackend m)
    then obtain m' where m: "fm m = (m', r)" "b' = MemoryBackend m'"
      using run by (auto simp: dispatch_def split: prod.splits)
    have m0: "mem_invar m" using MemoryBackend inv by simp
    show ?thesis
      using MemoryBackend m implements_invar [OF assms(1) m0 m(1)]
        implements_ok [OF assms(1) m0, of m'] implements_err [OF assms(1) m0, of m']
      by (cases r) simp_all
  next
    case (SqliteBackend s)
    then obtain s' where s: "fs s = (s', r)" "b' = SqliteBackend s'"
      using run by (auto simp: dispatch_def split: prod.splits)
    have s0: "sq_invar s" using SqliteBackend inv by simp
    show ?thesis
      using SqliteBackend s implements_invar [OF assms(2) s0 s(1)]
        implements_ok [OF assms(2) s0, of s'] implements_err [OF assms(2) s0, of s']
      by (cases r) simp_all
  qed
qed

interpretation be: session_store be_invar be_abs be_add_agent be_remove_agent be_list_agents
    be_is_agent_allowed be_get_agent be_create_session be_validate_session be_revoke_session
    be_register_dna be_revoke_sessions_for_agent be_session_count
proof
  show "abs_ok (be_abs b)" if "be_invar b" for b
    using that mem.invar_abs_ok sq.invar_abs_ok
    by (cases b) (simp_all add: be_invar_def be_abs_def)
qed (simp_all add: be_defs dispatch_implements mem.all_laws sq.all_laws)

section \<open>The store\<close>

datatype ws_sender = WsSender nat

definition same_channel :: "ws_sender \<Rightarrow> ws_sender \<Rightarrow> bool" where
  "same_channel a b \<longleftrightarrow> a = b"

record auth_store =
  au_store :: backend
  au_ws_senders :: "(agent_pubkey, ws_sender list) hashmap"

definition auth_with_store :: "backend \<Rightarrow> auth_store" where
  "auth_with_store b = \<lparr>au_store = b, au_ws_senders = []\<rparr>"

definition auth_new :: auth_store where
  "auth_new = auth_with_store (MemoryBackend mem_new)"

text \<open>A delegated call: the default replaces an error.\<close>

definition delegate :: "'a \<Rightarrow> (backend, session_store_error, 'a) fallible \<Rightarrow> auth_store \<Rightarrow> auth_store \<times> 'a" where
  "delegate d f s = (case f (au_store s) of (b, r) \<Rightarrow> (s\<lparr>au_store := b\<rparr>, unwrap_or d r))"

definition auth_add_agent :: "allowed_agent \<Rightarrow> auth_store \<Rightarrow> auth_store" where
  "auth_add_agent g s = fst (delegate () (be_add_agent g) s)"

definition auth_remove_agent :: "agent_pubkey \<Rightarrow> auth_store \<Rightarrow> auth_store \<times> bool" where
  "auth_remove_agent k s =
     (case be_remove_agent k (au_store s) of
        (b, Inr removed) \<Rightarrow>
          (if removed then s\<lparr>au_store := b, au_ws_senders := hm_remove k (au_ws_senders s)\<rparr>
           else s\<lparr>au_store := b\<rparr>, removed)
      | (b, Inl _) \<Rightarrow> (s\<lparr>au_store := b\<rparr>, False))"

definition auth_list_agents :: "auth_store \<Rightarrow> auth_store \<times> allowed_agent list" where
  "auth_list_agents = delegate [] be_list_agents"

definition auth_is_agent_allowed :: "agent_pubkey \<Rightarrow> auth_store \<Rightarrow> auth_store \<times> bool" where
  "auth_is_agent_allowed k = delegate False (be_is_agent_allowed k)"

definition auth_get_agent :: "agent_pubkey \<Rightarrow> auth_store \<Rightarrow> auth_store \<times> allowed_agent option" where
  "auth_get_agent k = delegate None (be_get_agent k)"

definition auth_create_session ::
    "session_token \<Rightarrow> agent_pubkey \<Rightarrow> auth_store \<Rightarrow> auth_store \<times> session_token option" where
  "auth_create_session tok k = delegate None (be_create_session tok k)"

definition auth_validate_session :: "session_token \<Rightarrow> auth_store \<Rightarrow> auth_store \<times> session_info option" where
  "auth_validate_session tok = delegate None (be_validate_session tok)"

definition auth_revoke_session :: "session_token \<Rightarrow> auth_store \<Rightarrow> auth_store \<times> bool" where
  "auth_revoke_session tok = delegate False (be_revoke_session tok)"

definition auth_register_dna_for_agent :: "agent_pubkey \<Rightarrow> dna_hash \<Rightarrow> auth_store \<Rightarrow> auth_store" where
  "auth_register_dna_for_agent k d s = fst (delegate () (be_register_dna k d) s)"

definition auth_revoke_sessions_for_agent :: "agent_pubkey \<Rightarrow> auth_store \<Rightarrow> auth_store \<times> nat" where
  "auth_revoke_sessions_for_agent k = delegate 0 (be_revoke_sessions_for_agent k)"

definition auth_session_count :: "auth_store \<Rightarrow> auth_store \<times> nat" where
  "auth_session_count = delegate 0 be_session_count"

definition auth_register_ws_sender :: "agent_pubkey \<Rightarrow> ws_sender \<Rightarrow> auth_store \<Rightarrow> auth_store" where
  "auth_register_ws_sender k w s = s\<lparr>au_ws_senders :=
     hm_insert k ((case hm_get (au_ws_senders s) k of None \<Rightarrow> [] | Some l \<Rightarrow> l) @ [w]) (au_ws_senders s)\<rparr>"

definition auth_unregister_ws_sender :: "agent_pubkey \<Rightarrow> ws_sender \<Rightarrow> auth_store \<Rightarrow> auth_store" where
  "auth_unregister_ws_sender k w s =
     (case hm_get (au_ws_senders s) k of
        None \<Rightarrow> s
      | Some l \<Rightarrow> (let l' = filter (\<lambda>x. \<not> same_channel x w) l
                  in s\<lparr>au_ws_senders := if l' = [] then hm_remove k (au_ws_senders s)
                                        else hm_insert k l' (au_ws_senders s)\<rparr>))"

definition auth_ws_connection_count :: "agent_pubkey \<Rightarrow> auth_store \<Rightarrow> nat" where
  "auth_ws_connection_count k s = (case hm_get (au_ws_senders s) k of None \<Rightarrow> 0 | Some l \<Rightarrow> length l)"

section \<open>Runs of calls\<close>

datatype auth_command =
    CmdAddAgent allowed_agent
  | CmdRemoveAgent agent_pubkey
  | CmdListAgents
  | CmdIsAgentAllowed agent_pubkey
  | CmdGetAgent agent_pubkey
  | CmdCreateSession session_token agent_pubkey
  | CmdValidateSession session_token
  | CmdRevokeSession session_token
  | CmdRegisterDna agent_pubkey dna_hash
  | CmdRevokeSessionsFor agent_pubkey
  | CmdSessionCount
  | CmdRegisterWs agent_pubkey ws_sender
  | CmdUnregisterWs agent_pubkey ws_sender

fun auth_step :: "auth_command \<Rightarrow> auth_store \<Rightarrow> auth_store" where
  "auth_step (CmdAddAgent g) s = auth_add_agent g s"
| "auth_step (CmdRemoveAgent k) s = fst (auth_remove_agent k s)"
| "auth_step CmdListAgents s = fst (auth_list_agents s)"
| "auth_step (CmdIsAgentAllowed k) s = fst (auth_is_agent_allowed k s)"
| "auth_step (CmdGetAgent k) s = fst (auth_get_agent k s)"
| "auth_step (CmdCreateSession tok k) s = fst (auth_create_session tok k s)"
| "auth_step (CmdValidateSession tok) s = fst (auth_validate_session tok s)"
| "auth_step (CmdRevokeSession tok) s = fst (auth_revoke_session tok s)"
| "auth_step (CmdRegisterDna k d) s = auth_register_dna_for_agent k d s"
| "auth_step (CmdRevokeSessionsFor k) s = fst (auth_revoke_sessions_for_agent k s)"
| "auth_step CmdSessionCount s = fst (auth_session_count s)"
| "auth_step (CmdRegisterWs k w) s = auth_register_ws_sender k w s"
| "auth_step (CmdUnregisterWs k w) s = auth_unregister_ws_sender k w s"

definition auth_run :: "auth_command list \<Rightarrow> auth_store \<Rightarrow> auth_store" where
  "auth_run cs s = fold auth_step cs s"

section \<open>The invariant\<close>

definition auth_invar :: "auth_store \<Rightarrow> bool" where
  "auth_invar s \<longleftrightarrow> be_invar (au_store s) \<and> hm_wf (au_ws_senders s) \<and>
     (\<forall>k l. hm_get (au_ws_senders s) k = Some l \<longrightarrow> l \<noteq> [])"

abbreviation auth_abs :: "auth_store \<Rightarrow> abs_store" where
  "auth_abs s \<equiv> be_abs (au_store s)"

lemma auth_new_invar: "auth_invar auth_new"
  using mem_new_invar by (simp add: auth_invar_def auth_new_def auth_with_store_def be_invar_def)

lemma auth_sqlite_invar:
  "holo_hash_ok h \<Longrightarrow> caps_serde_ok c \<Longrightarrow> auth_invar (auth_with_store (SqliteBackend (sq_new faults h c)))"
  by (simp add: auth_invar_def auth_with_store_def be_invar_def sq_new_invar)

lemma delegate_invar:
  assumes "implements be_invar be_abs f spec" and "auth_invar s"
  shows "auth_invar (fst (delegate d f s))"
  using assms implements_invar [OF assms(1)]
  by (auto simp: delegate_def auth_invar_def split: prod.split)

text \<open>What a delegated call does: its contract, or a loss of access and the default.\<close>

lemma delegate_cases:
  assumes "implements be_invar be_abs f spec" and "auth_invar s" and "delegate d f s = (s', r)"
  obtains (ok) "spec (auth_abs s) r (auth_abs s')"
  | (err) "r = d" and "degrades (auth_abs s) (auth_abs s')"
proof -
  have inv: "be_invar (au_store s)" using assms(2) by (simp add: auth_invar_def)
  obtain b q where f: "f (au_store s) = (b, q)" by fastforce
  show ?thesis
  proof (cases q)
    case (Inl e)
    with f assms(3) implements_err [OF assms(1) inv, of b e] err show ?thesis
      by (auto simp: delegate_def)
  next
    case (Inr x)
    with f assms(3) implements_ok [OF assms(1) inv, of b x] ok show ?thesis
      by (auto simp: delegate_def)
  qed
qed

lemma auth_remove_agent_invar:
  assumes "auth_invar s"
  shows "auth_invar (fst (auth_remove_agent k s))"
proof -
  have inv: "be_invar (au_store s)" using assms by (simp add: auth_invar_def)
  obtain b r where "be_remove_agent k (au_store s) = (b, r)" by fastforce
  with implements_invar [OF be.remove_agent inv this] assms show ?thesis
    by (cases r) (auto simp: auth_remove_agent_def auth_invar_def split: if_splits)
qed

lemma auth_ws_invar:
  assumes "auth_invar s"
  shows "auth_invar (auth_register_ws_sender k w s)" and "auth_invar (auth_unregister_ws_sender k w s)"
  using assms
  by (auto simp: auth_invar_def auth_register_ws_sender_def auth_unregister_ws_sender_def Let_def
    split: option.splits if_splits)

lemma auth_step_invar: "auth_invar s \<Longrightarrow> auth_invar (auth_step c s)"
  by (cases c) (simp_all add: auth_add_agent_def auth_list_agents_def auth_is_agent_allowed_def
    auth_get_agent_def auth_create_session_def auth_validate_session_def auth_revoke_session_def
    auth_register_dna_for_agent_def auth_revoke_sessions_for_agent_def auth_session_count_def
    delegate_invar [OF be.add_agent] delegate_invar [OF be.list_agents]
    delegate_invar [OF be.is_agent_allowed] delegate_invar [OF be.get_agent]
    delegate_invar [OF be.create_session] delegate_invar [OF be.validate_session]
    delegate_invar [OF be.revoke_session] delegate_invar [OF be.register_dna]
    delegate_invar [OF be.revoke_sessions_for_agent] delegate_invar [OF be.session_count]
    auth_remove_agent_invar auth_ws_invar)

lemma auth_run_invariant: "auth_invar s \<Longrightarrow> auth_invar (auth_run cs s)"
  by (induction cs arbitrary: s) (simp_all add: auth_run_def auth_step_invar)

section \<open>What a call does to the abstract store\<close>

fun command_effect :: "auth_command \<Rightarrow> abs_store \<Rightarrow> abs_store \<Rightarrow> bool" where
  "command_effect (CmdAddAgent g) a b \<longleftrightarrow> spec_add_agent g a () b"
| "command_effect (CmdRemoveAgent k) a b \<longleftrightarrow> (\<exists>r. spec_remove_agent k a r b)"
| "command_effect (CmdCreateSession tok k) a b \<longleftrightarrow> (\<exists>r. spec_create_session tok k a r b)"
| "command_effect (CmdRevokeSession tok) a b \<longleftrightarrow> (\<exists>r. spec_revoke_session tok a r b)"
| "command_effect (CmdRegisterDna k d) a b \<longleftrightarrow> spec_register_dna k d a () b"
| "command_effect (CmdRevokeSessionsFor k) a b \<longleftrightarrow> (\<exists>r. spec_revoke_sessions_for_agent k a r b)"
| "command_effect _ a b \<longleftrightarrow> b = a"

lemma delegate_fst_cases:
  assumes "implements be_invar be_abs f spec" and "auth_invar s"
  shows "(\<exists>r. spec (auth_abs s) r (auth_abs (fst (delegate d f s)))) \<or>
     degrades (auth_abs s) (auth_abs (fst (delegate d f s)))"
proof (cases "delegate d f s")
  case (Pair s' r)
  with delegate_cases [OF assms Pair] show ?thesis by auto
qed

lemma delegate_read_cases:
  assumes "implements be_invar be_abs f spec" and "auth_invar s" and "\<And>a r b. spec a r b \<Longrightarrow> b = a"
  shows "auth_abs (fst (delegate d f s)) = auth_abs s \<or>
     degrades (auth_abs s) (auth_abs (fst (delegate d f s)))"
  using delegate_fst_cases [OF assms(1,2), of d] assms(3) by blast

lemma auth_remove_agent_cases:
  assumes "auth_invar s" and "auth_remove_agent k s = (s', r)"
  shows "spec_remove_agent k (auth_abs s) r (auth_abs s') \<or> (\<not> r \<and> degrades (auth_abs s) (auth_abs s'))"
proof -
  have inv: "be_invar (au_store s)" using assms(1) by (simp add: auth_invar_def)
  obtain b q where f: "be_remove_agent k (au_store s) = (b, q)" by fastforce
  show ?thesis
  proof (cases q)
    case (Inl e)
    with f assms(2) implements_err [OF be.remove_agent inv, of k b e] show ?thesis
      by (auto simp: auth_remove_agent_def)
  next
    case (Inr x)
    with f assms(2) implements_ok [OF be.remove_agent inv, of k b x] show ?thesis
      by (auto simp: auth_remove_agent_def split: if_splits)
  qed
qed

lemma auth_step_effect:
  assumes "auth_invar s"
  shows "command_effect c (auth_abs s) (auth_abs (auth_step c s)) \<or>
     degrades (auth_abs s) (auth_abs (auth_step c s))"
proof (cases c)
  case (CmdRemoveAgent k)
  obtain s' r where "auth_remove_agent k s = (s', r)" by fastforce
  with auth_remove_agent_cases [OF assms this] CmdRemoveAgent show ?thesis by auto
next
  case (CmdRegisterWs k w)
  then show ?thesis by (simp add: auth_register_ws_sender_def)
next
  case (CmdUnregisterWs k w)
  then show ?thesis by (simp add: auth_unregister_ws_sender_def Let_def split: option.split)
qed (use delegate_fst_cases [OF be.add_agent assms] delegate_read_cases [OF be.list_agents assms]
    delegate_read_cases [OF be.is_agent_allowed assms] delegate_read_cases [OF be.get_agent assms]
    delegate_fst_cases [OF be.create_session assms] delegate_read_cases [OF be.validate_session assms]
    delegate_fst_cases [OF be.revoke_session assms] delegate_fst_cases [OF be.register_dna assms]
    delegate_fst_cases [OF be.revoke_sessions_for_agent assms] delegate_read_cases [OF be.session_count assms]
    in \<open>auto simp: auth_add_agent_def auth_list_agents_def auth_is_agent_allowed_def auth_get_agent_def
      auth_create_session_def auth_validate_session_def auth_revoke_session_def
      auth_register_dna_for_agent_def auth_revoke_sessions_for_agent_def auth_session_count_def
      spec_list_agents_def spec_is_agent_allowed_def spec_get_agent_def spec_validate_session_def
      spec_session_count_def\<close>)

text \<open>A property of the abstract store that every effect and every loss keeps, holds after a run.\<close>

lemma auth_run_abs_induct:
  assumes "auth_invar s" and "P [] (auth_abs s)"
    and effect: "\<And>cs c a b. P cs a \<Longrightarrow> c \<in> set all \<Longrightarrow> command_effect c a b \<Longrightarrow> P (cs @ [c]) b"
    and loss: "\<And>cs c a b. P cs a \<Longrightarrow> degrades a b \<Longrightarrow> P (cs @ [c]) b"
    and sub: "set cs \<subseteq> set all"
  shows "P cs (auth_abs (auth_run cs s))"
  using sub
proof (induction cs rule: rev_induct)
  case Nil
  then show ?case using assms(2) by (simp add: auth_run_def)
next
  case (snoc c cs)
  then have IH: "P cs (auth_abs (auth_run cs s))" and c: "c \<in> set all" by simp_all
  have "auth_run (cs @ [c]) s = auth_step c (auth_run cs s)" by (simp add: auth_run_def)
  with auth_step_effect [OF auth_run_invariant [OF assms(1)], of c cs] effect [OF IH c] loss [OF IH]
  show ?case by auto
qed

lemma auth_validate_cases:
  assumes "auth_invar s" and "auth_validate_session tok s = (s', Some i)"
  shows "\<exists>j. ab_sessions (auth_abs s) tok = Some j \<and> session_le i j"
    and "ab_allowed (auth_abs s) (si_agent_pubkey i) \<noteq> None"
proof -
  have inv: "be_invar (au_store s)" using assms(1) by (simp add: auth_invar_def)
  obtain b where v: "be_validate_session tok (au_store s) = (b, Inr (Some i))"
    using assms(2) by (auto simp: auth_validate_session_def delegate_def unwrap_or_def
      split: prod.splits sum.splits)
  show "\<exists>j. ab_sessions (auth_abs s) tok = Some j \<and> session_le i j"
    using be.validate_sound [OF inv v] .
  show "ab_allowed (auth_abs s) (si_agent_pubkey i) \<noteq> None"
    using be.validated_agent_allowed [OF inv v] .
qed

section \<open>Properties\<close>

definition provenance :: "auth_command list \<Rightarrow> abs_store \<Rightarrow> bool" where
  "provenance cs a \<longleftrightarrow>
     (\<forall>k g. ab_allowed a k = Some g \<longrightarrow> CmdAddAgent g \<in> set cs \<and> aa_agent_pubkey g = k) \<and>
     (\<forall>tok i. ab_sessions a tok = Some i \<longrightarrow>
        CmdCreateSession tok (si_agent_pubkey i) \<in> set cs \<and>
        (\<exists>g. CmdAddAgent g \<in> set cs \<and> aa_agent_pubkey g = si_agent_pubkey i \<and>
             aa_capabilities g = si_capabilities i) \<and>
        (\<forall>d\<in>si_registered_dnas i. CmdRegisterDna (si_agent_pubkey i) d \<in> set cs))"

lemma provenanceD:
  assumes "provenance cs a" and "ab_sessions a tok = Some i"
  shows "CmdCreateSession tok (si_agent_pubkey i) \<in> set cs"
    and "\<exists>g. CmdAddAgent g \<in> set cs \<and> aa_agent_pubkey g = si_agent_pubkey i \<and>
             aa_capabilities g = si_capabilities i"
    and "d \<in> si_registered_dnas i \<Longrightarrow> CmdRegisterDna (si_agent_pubkey i) d \<in> set cs"
  using assms unfolding provenance_def by blast+

lemma provenance_subset: "provenance cs a \<Longrightarrow> set cs \<subseteq> set ds \<Longrightarrow> provenance ds a"
  unfolding provenance_def by (intro conjI allI impI ballI; (blast | meson subsetD))

lemma provenance_mono: "provenance cs a \<Longrightarrow> provenance (cs @ xs) a"
  by (erule provenance_subset) simp

lemma provenance_loss:
  assumes p: "provenance cs a" and d: "degrades a b"
  shows "provenance (cs @ xs) b"
proof -
  have "CmdCreateSession tok (si_agent_pubkey i) \<in> set cs \<and>
        (\<exists>g. CmdAddAgent g \<in> set cs \<and> aa_agent_pubkey g = si_agent_pubkey i \<and>
             aa_capabilities g = si_capabilities i) \<and>
        (\<forall>d\<in>si_registered_dnas i. CmdRegisterDna (si_agent_pubkey i) d \<in> set cs)"
    if i: "ab_sessions b tok = Some i" for tok i
  proof -
    obtain j where j: "ab_sessions a tok = Some j" "session_le i j" using degradesD [OF d i] by blast
    with provenanceD [OF p j(1)] show ?thesis by (auto simp: session_le_def)
  qed
  moreover have "ab_allowed b = ab_allowed a" using d by (simp add: degrades_def)
  ultimately have "provenance cs b" using p unfolding provenance_def by simp
  then show ?thesis by (rule provenance_mono)
qed

lemma provenance_register:
  assumes "provenance cs a"
  shows "provenance (cs @ [CmdRegisterDna k d])
    (a\<lparr>ab_sessions := map_update_values (\<lambda>_. register_in_session k d) (ab_sessions a)\<rparr>)" (is "provenance ?cs ?b")
proof -
  have pm: "provenance ?cs a" by (rule provenance_mono [OF assms])
  have "CmdCreateSession tok (si_agent_pubkey i) \<in> set ?cs \<and>
        (\<exists>g. CmdAddAgent g \<in> set ?cs \<and> aa_agent_pubkey g = si_agent_pubkey i \<and>
             aa_capabilities g = si_capabilities i) \<and>
        (\<forall>d\<in>si_registered_dnas i. CmdRegisterDna (si_agent_pubkey i) d \<in> set ?cs)"
    if i: "ab_sessions ?b tok = Some i" for tok i
  proof -
    obtain j where j: "ab_sessions a tok = Some j" "i = register_in_session k d j" using i by auto
    with provenanceD [OF pm j(1)] show ?thesis by (auto simp: register_in_session_def split: if_splits)
  qed
  then show ?thesis using pm unfolding provenance_def by simp
qed

lemma provenance_effect:
  assumes p: "provenance cs a" and e: "command_effect c a b"
  shows "provenance (cs @ [c]) b"
  using e
proof (cases c)
  case (CmdAddAgent g)
  with e have "b = a\<lparr>ab_allowed := (ab_allowed a)(aa_agent_pubkey g \<mapsto> g)\<rparr>" by (simp add: store_specs)
  with provenance_mono [OF p, of "[c]"] CmdAddAgent show ?thesis by (auto simp: provenance_def)
next
  case (CmdRemoveAgent k)
  with e provenance_mono [OF p, of "[c]"] show ?thesis by (auto simp: provenance_def store_specs)
next
  case (CmdCreateSession tok k)
  have pm: "provenance (cs @ [c]) a" by (rule provenance_mono [OF p])
  from e CmdCreateSession consider "b = a" | g where "ab_allowed a k = Some g"
      "b = a\<lparr>ab_sessions := (ab_sessions a)(tok \<mapsto> \<lparr>si_agent_pubkey = k,
         si_capabilities = aa_capabilities g, si_registered_dnas = {}\<rparr>)\<rparr>"
    by (auto simp: store_specs split: option.splits)
  then show ?thesis
  proof cases
    case (2 g)
    with pm have "CmdAddAgent g \<in> set (cs @ [c]) \<and> aa_agent_pubkey g = k"
      unfolding provenance_def by blast
    with pm 2 CmdCreateSession show ?thesis unfolding provenance_def by auto
  qed (use pm in simp)
next
  case (CmdRevokeSession tok)
  with e provenance_mono [OF p, of "[c]"] show ?thesis by (auto simp: provenance_def store_specs)
next
  case (CmdRegisterDna k d)
  with provenance_register [OF p] e show ?thesis by (simp add: store_specs)
next
  case (CmdRevokeSessionsFor k)
  with e provenance_mono [OF p, of "[c]"] show ?thesis by (auto simp: provenance_def store_specs)
qed (use provenance_mono [OF p, of "[c]"] in simp_all)

lemma run_provenance:
  assumes "auth_invar s" and "auth_abs s = abs_empty"
  shows "provenance cs (auth_abs (auth_run cs s))"
  by (rule auth_run_abs_induct [where P = provenance and all = cs])
    (use assms in \<open>auto simp: provenance_effect provenance_loss\<close>, simp add: provenance_def abs_empty_def)

text \<open>C11. Provenance of a session: whatever sequence of calls an empty store of either backend
  has seen, failing calls included, a token that validates was created for that very agent, its
  capabilities are those an \<open>add_agent\<close> call gave that agent, and each of its DNAs was registered
  by that agent.\<close>

theorem session_provenance:
  assumes "auth_invar s" and "auth_abs s = abs_empty"
    and "auth_validate_session tok (auth_run cs s) = (s', Some i)"
  shows "CmdCreateSession tok (si_agent_pubkey i) \<in> set cs \<and>
    (\<exists>g. CmdAddAgent g \<in> set cs \<and> aa_agent_pubkey g = si_agent_pubkey i \<and>
         aa_capabilities g = si_capabilities i) \<and>
    (\<forall>d\<in>si_registered_dnas i. CmdRegisterDna (si_agent_pubkey i) d \<in> set cs)"
proof -
  have prov: "provenance cs (auth_abs (auth_run cs s))" by (rule run_provenance [OF assms(1,2)])
  obtain j where j: "ab_sessions (auth_abs (auth_run cs s)) tok = Some j" "session_le i j"
    using auth_validate_cases(1) [OF auth_run_invariant [OF assms(1)] assms(3)] by blast
  with provenanceD [OF prov j(1)] show ?thesis by (auto simp: session_le_def)
qed

definition agent_a :: agent_pubkey where "agent_a = AgentPubKey [1]"
definition agent_b :: agent_pubkey where "agent_b = AgentPubKey [2]"
definition dna_a :: dna_hash where "dna_a = DnaHash [7]"
definition grant_a :: allowed_agent where
  "grant_a = \<lparr>aa_agent_pubkey = agent_a, aa_capabilities = {DhtRead}, aa_label = None\<rparr>"
definition login_run :: "auth_command list" where
  "login_run = [CmdAddAgent grant_a, CmdCreateSession ''t'' agent_a, CmdRegisterDna agent_a dna_a]"

lemmas auth_run_eval = auth_run_def auth_new_def auth_with_store_def auth_add_agent_def
  auth_create_session_def auth_register_dna_for_agent_def auth_validate_session_def
  auth_remove_agent_def delegate_def be_defs dispatch_def mem_defs mem_new_def unwrap_or_def
  hm_insert_def hm_remove_def hm_get_def hm_update_values_def hm_retain_def hm_contains_def

definition login_info :: session_info where
  "login_info = \<lparr>si_agent_pubkey = agent_a, si_capabilities = {DhtRead}, si_registered_dnas = {dna_a}\<rparr>"

lemma login_run_validates:
  "auth_validate_session ''t'' (auth_run login_run auth_new) = (auth_run login_run auth_new, Some login_info)"
  by (simp add: auth_run_eval login_run_def grant_a_def login_info_def)

lemma auth_new_abs: "auth_abs auth_new = abs_empty"
  by (simp add: auth_new_def auth_with_store_def mem_new_abs)

lemma session_provenance_witness:
  "CmdCreateSession ''t'' agent_a \<in> set login_run \<and> CmdRegisterDna agent_a dna_a \<in> set login_run"
  using session_provenance [OF auth_new_invar auth_new_abs login_run_validates]
  by (auto simp: login_info_def)

text \<open>C12. Revocation is final: once \<open>remove_agent\<close> has answered true, no later sequence of calls
  (on either backend, failing calls included) makes a token of that agent validate, as long as the
  agent is not added again.\<close>

theorem removed_agent_stays_out:
  assumes "auth_invar s" and "auth_remove_agent k s = (s1, True)"
    and "\<forall>g. CmdAddAgent g \<in> set cs \<longrightarrow> aa_agent_pubkey g \<noteq> k"
    and "auth_validate_session tok (auth_run cs s1) = (s2, Some i)"
  shows "si_agent_pubkey i \<noteq> k"
proof -
  have inv: "auth_invar s1" using auth_remove_agent_invar [OF assms(1), of k] assms(2) by simp
  have gone: "ab_allowed (auth_abs s1) k = None"
    using auth_remove_agent_cases [OF assms(1,2)] by (simp add: store_specs)
  have "ab_allowed (auth_abs (auth_run cs s1)) k = None"
  proof (rule auth_run_abs_induct [where P = "\<lambda>_ a. ab_allowed a k = None" and all = cs, OF inv gone])
    fix cs' c a b
    assume "ab_allowed a k = None" and "c \<in> set cs" and "command_effect c a b"
    with assms(3) show "ab_allowed b k = None"
      by (cases c) (auto simp: store_specs split: option.splits)
  qed (auto simp: degrades_def)
  with auth_validate_cases(2) [OF auth_run_invariant [OF inv] assms(4)] show ?thesis by auto
qed

definition two_agents :: auth_store where
  "two_agents = auth_run [CmdAddAgent grant_a, CmdAddAgent (grant_a\<lparr>aa_agent_pubkey := agent_b\<rparr>),
     CmdCreateSession ''t'' agent_a, CmdCreateSession ''u'' agent_b] auth_new"

lemma two_agents_invar: "auth_invar two_agents"
  by (simp add: two_agents_def auth_run_invariant auth_new_invar)

lemma two_agents_remove:
  "auth_remove_agent agent_a two_agents = (fst (auth_remove_agent agent_a two_agents), True)"
  by (simp add: auth_run_eval two_agents_def grant_a_def agent_a_def agent_b_def)

lemma two_agents_validate:
  "auth_validate_session ''u'' (auth_run [CmdCreateSession ''v'' agent_a] (fst (auth_remove_agent agent_a two_agents))) =
     (auth_run [CmdCreateSession ''v'' agent_a] (fst (auth_remove_agent agent_a two_agents)),
      Some \<lparr>si_agent_pubkey = agent_b, si_capabilities = {DhtRead}, si_registered_dnas = {}\<rparr>)"
  by (simp add: auth_run_eval two_agents_def grant_a_def agent_a_def agent_b_def)

lemma removed_agent_stays_out_witness:
  "snd (auth_remove_agent agent_a two_agents) \<and> agent_b \<noteq> agent_a"
proof -
  have readd: "\<forall>g. CmdAddAgent g \<in> set [CmdCreateSession ''v'' agent_a] \<longrightarrow> aa_agent_pubkey g \<noteq> agent_a"
    by simp
  from removed_agent_stays_out [OF two_agents_invar two_agents_remove readd two_agents_validate]
  show ?thesis using two_agents_remove by (simp add: prod_eq_iff)
qed

text \<open>A session is usable as created: when \<open>create_session\<close> answers a token, validating it
  next either fails with the backend or yields the agent, the capabilities of its allow-list entry
  and no DNA.\<close>

lemma created_session_is_valid:
  assumes "auth_invar s" and "auth_create_session tok k s = (s1, Some t)"
    and "auth_validate_session t s1 = (s2, r)"
  shows "t = tok \<and> (r = None \<or> (\<exists>g. ab_allowed (auth_abs s) k = Some g \<and>
     r = Some \<lparr>si_agent_pubkey = k, si_capabilities = aa_capabilities g, si_registered_dnas = {}\<rparr>))"
proof -
  have inv: "be_invar (au_store s)" using assms(1) by (simp add: auth_invar_def)
  obtain b where b: "be_create_session tok k (au_store s) = (b, Inr (Some t))" "s1 = s\<lparr>au_store := b\<rparr>"
    using assms(2) by (auto simp: auth_create_session_def delegate_def unwrap_or_def
      split: prod.splits sum.splits)
  have t: "t = tok"
    using implements_ok [OF be.create_session inv b(1)] by (auto simp: store_specs split: option.splits)
  obtain b2 q where q: "be_validate_session t b = (b2, q)" by fastforce
  show ?thesis
  proof (cases q)
    case (Inl e)
    with q assms(3) b t show ?thesis by (simp add: auth_validate_session_def delegate_def)
  next
    case (Inr v)
    obtain g i where "ab_allowed (auth_abs s) k = Some g" "v = Some i" "si_agent_pubkey i = k"
        "si_capabilities i = aa_capabilities g" "si_registered_dnas i = {}"
      using be.created_session_validates [OF inv b(1) q [unfolded Inr]] by blast
    with q Inr assms(3) b t show ?thesis by (cases i) (simp add: auth_validate_session_def delegate_def)
  qed
qed

lemma created_session_is_valid_example:
  "snd (auth_validate_session ''w'' (fst (auth_create_session ''w'' agent_b two_agents))) =
     Some \<lparr>si_agent_pubkey = agent_b, si_capabilities = {DhtRead}, si_registered_dnas = {}\<rparr>"
proof -
  have create: "auth_create_session ''w'' agent_b two_agents =
      (fst (auth_create_session ''w'' agent_b two_agents), Some ''w'')"
    by (simp add: auth_run_eval two_agents_def grant_a_def agent_a_def agent_b_def)
  have valid: "snd (auth_validate_session ''w'' (fst (auth_create_session ''w'' agent_b two_agents))) \<noteq> None"
    by (simp add: auth_run_eval two_agents_def grant_a_def agent_a_def agent_b_def)
  have grant: "ab_allowed (auth_abs two_agents) agent_b = Some (grant_a\<lparr>aa_agent_pubkey := agent_b\<rparr>)"
    by (simp add: auth_run_eval two_agents_def grant_a_def agent_a_def agent_b_def mem_abs_def)
  show ?thesis
    using created_session_is_valid [OF two_agents_invar create prod.collapse [symmetric]] valid grant
    by (auto simp: grant_a_def)
qed

text \<open>C40. The two critical sections of the in-memory \<open>create_session\<close>: when the agent is removed
  between them, the removal answers true and the session that is then written validates for an
  agent that is no longer allowed; removing the agent once more answers false and leaves the
  session alive.\<close>

theorem create_session_race:
  assumes "mem_create_session_read k s = Some caps"
  shows "snd (mem_remove_agent k s) = Inr True \<and>
    (let raced = mem_create_session_write tok k caps (fst (mem_remove_agent k s));
         again = fst (mem_remove_agent k raced);
         live = \<lparr>si_agent_pubkey = k, si_capabilities = caps, si_registered_dnas = {}\<rparr>
     in snd (mem_is_agent_allowed k raced) = Inr False \<and>
        snd (mem_validate_session tok raced) = Inr (Some live) \<and>
        snd (mem_remove_agent k raced) = Inr False \<and>
        snd (mem_validate_session tok again) = Inr (Some live))"
  using assms by (auto simp: mem_defs Let_def)

lemma create_session_race_witness:
  "mem_create_session_read agent_a (fst (mem_add_agent grant_a mem_new)) = Some {DhtRead} \<and>
   snd (mem_validate_session ''t'' (mem_create_session_write ''t'' agent_a {DhtRead}
     (fst (mem_remove_agent agent_a (fst (mem_add_agent grant_a mem_new)))))) =
     Inr (Some \<lparr>si_agent_pubkey = agent_a, si_capabilities = {DhtRead}, si_registered_dnas = {}\<rparr>)"
proof -
  have read: "mem_create_session_read agent_a (fst (mem_add_agent grant_a mem_new)) = Some {DhtRead}"
    by (simp add: mem_defs grant_a_def mem_new_def)
  show ?thesis using create_session_race [OF read, of "''t''"] read by (simp add: Let_def)
qed

end
