(* ===== verification/Auth_Gate.thy ===== *)
theory Auth_Gate imports Http Auth_Store begin

text \<open>
  The authentication middleware and the admin handlers (\<open>src/auth/middleware.rs\<close>,
  \<open>src/auth/admin.rs\<close>). A handler maps a request and the application state to the state it leaves
  and its response; a middleware takes the rest of the chain as the argument \<open>next\<close>, and not
  calling it is what refusing a request means.
\<close>

section \<open>State and handlers\<close>

record app_state =
  st_admin_secret :: "string option"
  st_auth_store :: "auth_store option"

type_synonym ('b, 'm) handler = "'b request \<Rightarrow> 'm app_state_scheme \<Rightarrow> 'm app_state_scheme \<times> response"

section \<open>Middleware\<close>

definition extract_bearer_token :: "'b request \<Rightarrow> string option" where
  "extract_bearer_token rq = Option.bind (header_str rq ''authorization'') (strip_prefix ''Bearer '')"

definition check_capability :: "capability \<Rightarrow> ('b, 'm) handler \<Rightarrow> ('b, 'm) handler" where
  "check_capability required next rq st =
     (case st_auth_store st of
        None \<Rightarrow> (st, reply INTERNAL_SERVER_ERROR (TextBody ''Auth not configured''))
      | Some store \<Rightarrow>
     (case extract_bearer_token rq of
        None \<Rightarrow> (st, reply UNAUTHORIZED (TextBody ''Missing Authorization header''))
      | Some token \<Rightarrow>
     (case auth_validate_session token store of
        (store', None) \<Rightarrow> (st\<lparr>st_auth_store := Some store'\<rparr>,
           reply UNAUTHORIZED (TextBody ''Invalid or expired session token''))
      | (store', Some session) \<Rightarrow>
          (if \<not> si_has_capability session required
           then (st\<lparr>st_auth_store := Some store'\<rparr>,
             reply FORBIDDEN (TextBody ''Insufficient capabilities for this endpoint''))
           else next (rq\<lparr>rq_context := Some \<lparr>ac_agent_pubkey = si_agent_pubkey session,
                      ac_capabilities = si_capabilities session,
                      ac_registered_dnas = si_registered_dnas session\<rparr>\<rparr>)
                  (st\<lparr>st_auth_store := Some store'\<rparr>)))))"

definition require_dht_read :: "('b, 'm) handler \<Rightarrow> ('b, 'm) handler" where
  "require_dht_read next = check_capability DhtRead next"

definition require_dht_write :: "('b, 'm) handler \<Rightarrow> ('b, 'm) handler" where
  "require_dht_write next = check_capability DhtWrite next"

definition require_k2 :: "('b, 'm) handler \<Rightarrow> ('b, 'm) handler" where
  "require_k2 next = check_capability K2 next"

definition require_admin_secret :: "('b, 'm) handler \<Rightarrow> ('b, 'm) handler" where
  "require_admin_secret next rq st =
     (case extract_bearer_token rq of
        None \<Rightarrow> (st, reply UNAUTHORIZED (TextBody ''Missing Authorization header''))
      | Some token \<Rightarrow>
     (case st_admin_secret st of
        None \<Rightarrow> (st, reply INTERNAL_SERVER_ERROR (TextBody ''Auth not configured''))
      | Some secret \<Rightarrow>
          (if token \<noteq> secret then (st, reply UNAUTHORIZED (TextBody ''Invalid admin secret''))
           else next rq st)))"

text \<open>Strings are byte strings; the dash of one message is its three UTF-8 bytes.\<close>

definition em_dash :: string where
  "em_dash = map char_of [0xE2 :: nat, 0x80, 0x94]"

definition require_dna_scope :: "holo_hash_api \<Rightarrow> ('b, 'm) handler \<Rightarrow> ('b, 'm) handler" where
  "require_dna_scope h next rq st =
     (case rq_context rq of
        None \<Rightarrow> (st, reply INTERNAL_SERVER_ERROR
          (TextBody (''AuthContext not found '' @ em_dash @ '' ensure capability middleware runs first'')))
      | Some ctx \<Rightarrow>
     (case map_of (rq_params rq) ''dna_hash'' of
        None \<Rightarrow> (st, reply BAD_REQUEST (TextBody ''Missing DNA hash in path''))
      | Some s \<Rightarrow>
     (case dna_try_from h s of
        Inl _ \<Rightarrow> (st, reply BAD_REQUEST (TextBody ''Invalid DNA hash in path''))
      | Inr dna \<Rightarrow>
          (if \<not> ac_has_dna ctx dna
           then (st, reply FORBIDDEN (TextBody ''Session not authorized for this DNA''))
           else next rq st))))"

section \<open>Admin handlers\<close>

record add_agent_request =
  ar_agent_pubkey :: string
  ar_capability_list :: "capability list"
  ar_agent_label :: "string option"

definition invalid_agent :: "string \<Rightarrow> response" where
  "invalid_agent e = reply BAD_REQUEST (TextBody (''Invalid agent_pubkey: '' @ e))"

definition admin_add_agent ::
    "holo_hash_api \<Rightarrow> add_agent_request \<Rightarrow> 'm app_state_scheme \<Rightarrow> 'm app_state_scheme \<times> response" where
  "admin_add_agent h body st =
     (case st_auth_store st of
        None \<Rightarrow> (st, reply INTERNAL_SERVER_ERROR (TextBody ''Auth not configured''))
      | Some store \<Rightarrow>
     (case agent_try_from h (ar_agent_pubkey body) of
        Inl e \<Rightarrow> (st, invalid_agent e)
      | Inr k \<Rightarrow> (st\<lparr>st_auth_store := Some (auth_add_agent \<lparr>aa_agent_pubkey = k,
                   aa_capabilities = set (ar_capability_list body), aa_label = ar_agent_label body\<rparr> store)\<rparr>,
                  reply NO_CONTENT EmptyBody)))"

definition admin_remove_agent ::
    "holo_hash_api \<Rightarrow> string \<Rightarrow> 'm app_state_scheme \<Rightarrow> 'm app_state_scheme \<times> response" where
  "admin_remove_agent h agent_pubkey st =
     (case st_auth_store st of
        None \<Rightarrow> (st, reply INTERNAL_SERVER_ERROR (TextBody ''Auth not configured''))
      | Some store \<Rightarrow>
     (case agent_try_from h agent_pubkey of
        Inl e \<Rightarrow> (st, invalid_agent e)
      | Inr k \<Rightarrow> (case auth_remove_agent k store of
            (store', removed) \<Rightarrow> (st\<lparr>st_auth_store := Some store'\<rparr>,
               if removed then reply NO_CONTENT EmptyBody
               else reply NOT_FOUND (TextBody ''Agent not found'')))))"

definition capability_json :: "capability \<Rightarrow> json" where
  "capability_json c = JString (case c of DhtRead \<Rightarrow> ''dht_read'' | DhtWrite \<Rightarrow> ''dht_write'' | K2 \<Rightarrow> ''k2'')"

definition agent_response_json :: "holo_hash_api \<Rightarrow> allowed_agent \<Rightarrow> json" where
  "agent_response_json h g = JObject
     ([(''agent_pubkey'', JString (agent_to_string h (aa_agent_pubkey g))),
       (''capabilities'', JArray (map capability_json (sorted_list_of_set (aa_capabilities g))))] @
      (case aa_label g of None \<Rightarrow> [] | Some l \<Rightarrow> [(''label'', JString l)]))"

definition admin_list_agents ::
    "holo_hash_api \<Rightarrow> 'm app_state_scheme \<Rightarrow> 'm app_state_scheme \<times> response" where
  "admin_list_agents h st =
     (case st_auth_store st of
        None \<Rightarrow> (st, reply INTERNAL_SERVER_ERROR (TextBody ''Auth not configured''))
      | Some store \<Rightarrow> (case auth_list_agents store of
          (store', agents) \<Rightarrow> (st\<lparr>st_auth_store := Some store'\<rparr>,
            reply 200 (JsonBody (JObject [(''agents'', JArray (map (agent_response_json h) agents))])))))"

section \<open>What a gate lets through\<close>

text \<open>The session behind a request, as the abstract store has it.\<close>

definition session_of_request :: "'m app_state_scheme \<Rightarrow> 'b request \<Rightarrow> session_info option" where
  "session_of_request st rq = (case st_auth_store st of
     None \<Rightarrow> None
   | Some store \<Rightarrow> Option.bind (extract_bearer_token rq) (ab_sessions (auth_abs store)))"

definition capable :: "capability \<Rightarrow> 'm app_state_scheme \<Rightarrow> 'b request \<Rightarrow> bool" where
  "capable required st rq \<longleftrightarrow>
     (case session_of_request st rq of None \<Rightarrow> False | Some j \<Rightarrow> required \<in> si_capabilities j)"

definition in_dna_scope :: "holo_hash_api \<Rightarrow> 'm app_state_scheme \<Rightarrow> 'b request \<Rightarrow> bool" where
  "in_dna_scope h st rq \<longleftrightarrow> (case session_of_request st rq of
     None \<Rightarrow> False
   | Some j \<Rightarrow> \<exists>s d. map_of (rq_params rq) ''dna_hash'' = Some s \<and> dna_try_from h s = Inr d \<and>
       d \<in> si_registered_dnas j)"

definition app_invar :: "'m app_state_scheme \<Rightarrow> bool" where
  "app_invar st \<longleftrightarrow> (\<forall>store. st_auth_store st = Some store \<longrightarrow> auth_invar store)"

text \<open>A capability gate either refuses on its own or passes the request on with the context of a
  live session that has the capability.\<close>

lemma check_capability_cases:
  assumes inv: "app_invar st"
  obtains (refused) st' status msg where "status \<in> {UNAUTHORIZED, FORBIDDEN, INTERNAL_SERVER_ERROR}"
      and "\<And>next. check_capability required next rq st = (st', reply status (TextBody msg))"
  | (passed) j ctx st' where "session_of_request st rq = Some j" and "required \<in> si_capabilities j"
      and "ac_agent_pubkey ctx = si_agent_pubkey j" and "ac_capabilities ctx = si_capabilities j"
      and "ac_registered_dnas ctx \<subseteq> si_registered_dnas j"
      and "\<And>next. check_capability required next rq st = next (rq\<lparr>rq_context := Some ctx\<rparr>) st'"
proof (cases "st_auth_store st")
  case None
  show thesis by (rule refused [of INTERNAL_SERVER_ERROR]) (simp_all add: check_capability_def None)
next
  case store: (Some store)
  then have sinv: "auth_invar store" using inv by (simp add: app_invar_def)
  show thesis
  proof (cases "extract_bearer_token rq")
    case None
    show thesis by (rule refused [of UNAUTHORIZED]) (simp_all add: check_capability_def None store)
  next
    case token: (Some token)
    obtain store' v where v: "auth_validate_session token store = (store', v)" by fastforce
    show thesis
    proof (cases v)
      case None
      show thesis
        by (rule refused [of UNAUTHORIZED]) (simp_all add: check_capability_def store token v None)
    next
      case (Some i)
      obtain j where j: "ab_sessions (auth_abs store) token = Some j" "session_le i j"
        using auth_validate_cases(1) [OF sinv v [unfolded Some]] by blast
      show thesis
      proof (cases "required \<in> si_capabilities i")
        case False
        show thesis
          by (rule refused [of FORBIDDEN])
            (simp_all add: check_capability_def store token v Some si_has_capability_def False)
      next
        case True
        show thesis
          by (rule passed [of j "\<lparr>ac_agent_pubkey = si_agent_pubkey i, ac_capabilities = si_capabilities i,
                ac_registered_dnas = si_registered_dnas i\<rparr>"])
            (use True j in \<open>simp_all add: check_capability_def store token v Some
               si_has_capability_def session_of_request_def session_le_def\<close>)
      qed
    qed
  qed
qed

text \<open>Without the capability the rest of the chain is never called: the answer does not depend on it.\<close>

lemma incapable_refused:
  assumes "app_invar st" and "\<not> capable required st rq"
  shows "check_capability required next1 rq st = check_capability required next2 rq st"
proof (rule check_capability_cases [OF assms(1), of required rq])
  fix j assume "session_of_request st rq = Some j" and "required \<in> si_capabilities j"
  with assms(2) show ?thesis by (simp add: capable_def)
qed simp

lemma out_of_scope_refused:
  assumes inv: "app_invar st" and scope: "\<not> in_dna_scope h st rq"
  shows "check_capability required (require_dna_scope h next1) rq st =
         check_capability required (require_dna_scope h next2) rq st"
proof (rule check_capability_cases [OF inv, of required rq])
  fix j ctx st'
  assume "session_of_request st rq = Some j" and "ac_registered_dnas ctx \<subseteq> si_registered_dnas j"
    and run: "\<And>next. check_capability required next rq st = next (rq\<lparr>rq_context := Some ctx\<rparr>) st'"
  then have "require_dna_scope h n1 (rq\<lparr>rq_context := Some ctx\<rparr>) st' =
      require_dna_scope h n2 (rq\<lparr>rq_context := Some ctx\<rparr>) st'" for n1 n2
    using scope by (auto simp: require_dna_scope_def in_dna_scope_def ac_has_dna_def
      split: option.splits sum.splits)
  then show ?thesis by (simp add: run)
qed simp

lemma wrong_secret_refused:
  assumes "st_admin_secret st = None \<or> extract_bearer_token rq \<noteq> st_admin_secret st"
  shows "require_admin_secret next1 rq st = require_admin_secret next2 rq st"
  using assms by (auto simp: require_admin_secret_def split: option.splits)

end
