(* ===== verification/Router.thy ===== *)
theory Router imports Auth_Gate begin

text \<open>
  The routing table and its gates (\<open>src/router.rs\<close>): which handler a method and a path reach, in the
  open and in the authenticated router, and through which middleware. The handlers are a table
  \<open>route \<Rightarrow> handler\<close>, so a statement about the gates holds whatever the handlers do. The CORS and
  body limit layers are axum's and are not modelled.
\<close>

section \<open>Routes\<close>

datatype route =
    RHealth | RWs | RTestSignal | RZomeCall
  | RDhtRecord | RDhtDetails | RDhtLinks | RDhtCountLinks | RDhtAgentActivity
  | RDhtMustGetAgentActivity | RDhtPublish
  | RK2Status | RK2Peers | RK2SpaceStatus | RK2SpacePeers | RK2LocalAgents | RK2TransportStats
  | RAdminAdd | RAdminRemove | RAdminList

type_synonym params = "(string \<times> string) list"
type_synonym endpoints = "((http_method \<times> route) list \<times> params) option"

text \<open>A path parameter matches one non-empty segment.\<close>

definition dht_routes :: "string list \<Rightarrow> endpoints" where
  "dht_routes path = (case path of
     [a, d, b] \<Rightarrow>
       if a \<noteq> ''dht'' \<or> d = '''' then None
       else if b = ''links'' then Some ([(GET, RDhtLinks)], [(''dna_hash'', d)])
       else if b = ''count_links'' then Some ([(GET, RDhtCountLinks)], [(''dna_hash'', d)])
       else if b = ''must_get_agent_activity''
         then Some ([(POST, RDhtMustGetAgentActivity)], [(''dna_hash'', d)])
       else None
   | [a, d, b, x] \<Rightarrow>
       if a \<noteq> ''dht'' \<or> d = '''' \<or> x = '''' then None
       else if b = ''record'' then Some ([(GET, RDhtRecord)], [(''dna_hash'', d), (''hash'', x)])
       else if b = ''details'' then Some ([(GET, RDhtDetails)], [(''dna_hash'', d), (''hash'', x)])
       else if b = ''agent_activity''
         then Some ([(GET, RDhtAgentActivity)], [(''dna_hash'', d), (''agent_hash'', x)])
       else None
   | _ \<Rightarrow> None)"

definition dht_publish_route :: "string list \<Rightarrow> endpoints" where
  "dht_publish_route path = (case path of
     [a, d, b] \<Rightarrow> if a = ''dht'' \<and> d \<noteq> '''' \<and> b = ''publish''
       then Some ([(POST, RDhtPublish)], [(''dna_hash'', d)]) else None
   | _ \<Rightarrow> None)"

definition kitsune_routes :: "string list \<Rightarrow> endpoints" where
  "kitsune_routes path = (case path of
     [k, a] \<Rightarrow> if k \<noteq> ''k2'' then None
       else if a = ''status'' then Some ([(GET, RK2Status)], [])
       else if a = ''peers'' then Some ([(GET, RK2Peers)], [])
       else None
   | [k, a, b] \<Rightarrow> if k = ''k2'' \<and> a = ''transport'' \<and> b = ''stats''
       then Some ([(GET, RK2TransportStats)], []) else None
   | [k, a, s, b] \<Rightarrow> if k \<noteq> ''k2'' \<or> a \<noteq> ''space'' \<or> s = '''' then None
       else if b = ''status'' then Some ([(GET, RK2SpaceStatus)], [(''space_id'', s)])
       else if b = ''peers'' then Some ([(GET, RK2SpacePeers)], [(''space_id'', s)])
       else if b = ''local-agents'' then Some ([(GET, RK2LocalAgents)], [(''space_id'', s)])
       else None
   | _ \<Rightarrow> None)"

definition admin_routes :: "string list \<Rightarrow> endpoints" where
  "admin_routes path = (if path = [''admin'', ''agents'']
     then Some ([(POST, RAdminAdd), (DELETE, RAdminRemove), (GET, RAdminList)], []) else None)"

definition common_routes :: "string list \<Rightarrow> endpoints" where
  "common_routes path = (case path of
     [a] \<Rightarrow> if a = ''health'' then Some ([(GET, RHealth)], [])
       else if a = ''ws'' then Some ([(GET, RWs)], []) else None
   | [a, b] \<Rightarrow> if a = ''test'' \<and> b = ''signal'' then Some ([(POST, RTestSignal)], []) else None
   | [a, d, z, f] \<Rightarrow> if a = ''api'' \<and> d \<noteq> '''' \<and> z \<noteq> '''' \<and> f \<noteq> ''''
       then Some ([(GET, RZomeCall)], [(''dna_hash'', d), (''zome_name'', z), (''fn_name'', f)]) else None
   | _ \<Rightarrow> None)"

definition or_else :: "'a option \<Rightarrow> 'a option \<Rightarrow> 'a option" where
  "or_else a b = (case a of None \<Rightarrow> b | Some x \<Rightarrow> Some x)"

definition find_endpoints :: "bool \<Rightarrow> string list \<Rightarrow> endpoints" where
  "find_endpoints authenticated path =
     or_else (common_routes path) (or_else (dht_routes path) (or_else (dht_publish_route path)
       (or_else (kitsune_routes path) (if authenticated then admin_routes path else None))))"

text \<open>axum's \<open>get\<close> also answers HEAD.\<close>

definition method_serves :: "http_method \<Rightarrow> http_method \<Rightarrow> bool" where
  "method_serves declared asked \<longleftrightarrow> declared = asked \<or> (declared = GET \<and> asked = HEAD)"

section \<open>Gates\<close>

datatype gate = Open | DnaGate capability | CapGate capability | AdminGate

definition gate_of :: "route \<Rightarrow> gate" where
  "gate_of r = (case r of
     RHealth \<Rightarrow> Open | RWs \<Rightarrow> Open | RTestSignal \<Rightarrow> Open | RZomeCall \<Rightarrow> Open
   | RDhtRecord \<Rightarrow> DnaGate DhtRead | RDhtDetails \<Rightarrow> DnaGate DhtRead | RDhtLinks \<Rightarrow> DnaGate DhtRead
   | RDhtCountLinks \<Rightarrow> DnaGate DhtRead | RDhtAgentActivity \<Rightarrow> DnaGate DhtRead
   | RDhtMustGetAgentActivity \<Rightarrow> DnaGate DhtRead
   | RDhtPublish \<Rightarrow> DnaGate DhtWrite
   | RK2Status \<Rightarrow> CapGate K2 | RK2Peers \<Rightarrow> CapGate K2 | RK2SpaceStatus \<Rightarrow> CapGate K2
   | RK2SpacePeers \<Rightarrow> CapGate K2 | RK2LocalAgents \<Rightarrow> CapGate K2 | RK2TransportStats \<Rightarrow> CapGate K2
   | RAdminAdd \<Rightarrow> AdminGate | RAdminRemove \<Rightarrow> AdminGate | RAdminList \<Rightarrow> AdminGate)"

definition guard :: "holo_hash_api \<Rightarrow> route \<Rightarrow> ('b, 'm) handler \<Rightarrow> ('b, 'm) handler" where
  "guard h r handler = (case gate_of r of
     Open \<Rightarrow> handler
   | DnaGate DhtRead \<Rightarrow> require_dht_read (require_dna_scope h handler)
   | DnaGate DhtWrite \<Rightarrow> require_dht_write (require_dna_scope h handler)
   | DnaGate K2 \<Rightarrow> require_k2 (require_dna_scope h handler)
   | CapGate DhtRead \<Rightarrow> require_dht_read handler
   | CapGate DhtWrite \<Rightarrow> require_dht_write handler
   | CapGate K2 \<Rightarrow> require_k2 handler
   | AdminGate \<Rightarrow> require_admin_secret handler)"

definition dispatch_route :: "(route \<Rightarrow> ('b, 'm) handler) \<Rightarrow> bool \<Rightarrow> ('b, 'm) handler" where
  "dispatch_route table authenticated rq st =
     (case find_endpoints authenticated (rq_path rq) of
        None \<Rightarrow> (st, reply NOT_FOUND EmptyBody)
      | Some (endpoints, params) \<Rightarrow>
     (case find (\<lambda>e. method_serves (fst e) (rq_method rq)) endpoints of
        None \<Rightarrow> (st, reply METHOD_NOT_ALLOWED EmptyBody)
      | Some (_, r) \<Rightarrow> table r (rq\<lparr>rq_params := params\<rparr>) st))"

definition open_router :: "(route \<Rightarrow> ('b, 'm) handler) \<Rightarrow> ('b, 'm) handler" where
  "open_router table = dispatch_route table False"

definition authenticated_router :: "holo_hash_api \<Rightarrow> (route \<Rightarrow> ('b, 'm) handler) \<Rightarrow> ('b, 'm) handler" where
  "authenticated_router h table = dispatch_route (\<lambda>r. guard h r (table r)) True"

definition create_router :: "holo_hash_api \<Rightarrow> (route \<Rightarrow> ('b, 'm) handler) \<Rightarrow>
    'm app_state_scheme \<Rightarrow> ('b, 'm) handler" where
  "create_router h table st0 =
     (if st_auth_store st0 \<noteq> None then authenticated_router h table else open_router table)"

section \<open>Properties\<close>

text \<open>What a request has to prove before the handler of a route may run.\<close>

definition authorised :: "holo_hash_api \<Rightarrow> route \<Rightarrow> 'm app_state_scheme \<Rightarrow> 'b request \<Rightarrow> bool" where
  "authorised h r st rq \<longleftrightarrow> (case gate_of r of
     Open \<Rightarrow> True
   | DnaGate cap \<Rightarrow> capable cap st rq \<and> in_dna_scope h st rq
   | CapGate cap \<Rightarrow> capable cap st rq
   | AdminGate \<Rightarrow> st_admin_secret st \<noteq> None \<and> extract_bearer_token rq = st_admin_secret st)"

lemma guard_unauthorised:
  assumes "app_invar st" and "\<not> authorised h r st rq"
  shows "guard h r h1 rq st = guard h r h2 rq st"
  using assms incapable_refused [OF assms(1)] out_of_scope_refused [OF assms(1), of h rq]
    wrong_secret_refused [of st rq]
  unfolding guard_def authorised_def require_dht_read_def require_dht_write_def require_k2_def
  by (cases "gate_of r") (auto split: capability.split)

text \<open>The route a request reaches.\<close>

definition route_of :: "bool \<Rightarrow> 'b request \<Rightarrow> (route \<times> params) option" where
  "route_of authenticated rq = (case find_endpoints authenticated (rq_path rq) of
     None \<Rightarrow> None
   | Some (endpoints, params) \<Rightarrow>
       map_option (\<lambda>e. (snd e, params)) (find (\<lambda>e. method_serves (fst e) (rq_method rq)) endpoints))"

lemma dispatch_route_of:
  "dispatch_route table b rq st = (case route_of b rq of
     None \<Rightarrow> (st, reply (if find_endpoints b (rq_path rq) = None then NOT_FOUND else METHOD_NOT_ALLOWED) EmptyBody)
   | Some (r, params) \<Rightarrow> table r (rq\<lparr>rq_params := params\<rparr>) st)"
  by (auto simp: dispatch_route_def route_of_def split: option.split prod.split)

text \<open>C9. With authentication on, a request that has not proved what its route asks for (for a DHT
  route a live session of the store with the capability and with the DNA of the path registered,
  for the K2 routes the capability, for the admin routes the secret) is answered without its
  handler: the outcome is the same whatever the handlers are.\<close>

theorem unauthorised_never_reaches_handler:
  assumes "app_invar st" and "st_auth_store st \<noteq> None"
    and "route_of True rq = Some (r, params)"
    and "\<not> authorised h r st (rq\<lparr>rq_params := params\<rparr>)"
  shows "create_router h table1 st rq st = create_router h table2 st rq st"
  using assms(2,3) guard_unauthorised [OF assms(1,4)]
  by (simp add: create_router_def authenticated_router_def dispatch_route_of)

definition record_request :: "string \<Rightarrow> unit request" where
  "record_request tok = \<lparr>rq_method = GET, rq_path = [''dht'', ''dx'', ''record'', ''hash''],
     rq_headers = [(''authorization'', ''Bearer '' @ tok)], rq_params = [], rq_context = None, rq_body = ()\<rparr>"

definition logged_in :: app_state where
  "logged_in = \<lparr>st_admin_secret = Some ''s'', st_auth_store = Some (auth_run login_run auth_new)\<rparr>"

lemma logged_in_invar: "app_invar logged_in"
  by (simp add: app_invar_def logged_in_def auth_run_invariant auth_new_invar)

lemmas request_eval = record_request_def route_of_def find_endpoints_def common_routes_def
  dht_routes_def or_else_def method_serves_def extract_bearer_token_def header_str_def
  visible_ascii_def strip_prefix_def

lemma record_request_route:
  "route_of True (record_request tok) = Some (RDhtRecord, [(''dna_hash'', ''dx''), (''hash'', ''hash'')])"
  by (simp add: request_eval)

lemma bad_token_unauthorised:
  "\<not> authorised h RDhtRecord logged_in ((record_request ''u'')\<lparr>rq_params := ps\<rparr>)"
  by (simp add: authorised_def gate_of_def capable_def session_of_request_def logged_in_def request_eval
    auth_run_eval login_run_def mem_abs_def grant_a_def)

lemma unauthorised_never_reaches_handler_witness:
  "\<forall>h table1 table2. create_router h table1 logged_in (record_request ''u'') logged_in =
   create_router h table2 logged_in (record_request ''u'') logged_in"
proof (intro allI)
  fix h table1 table2
  have auth: "st_auth_store logged_in \<noteq> None" by (simp add: logged_in_def)
  show "create_router h table1 logged_in (record_request ''u'') logged_in =
      create_router h table2 logged_in (record_request ''u'') logged_in"
    by (rule unauthorised_never_reaches_handler [OF logged_in_invar auth record_request_route bad_token_unauthorised])
qed

lemma find_SomeD: "find P xs = Some x \<Longrightarrow> x \<in> set xs \<and> P x"
  by (induction xs) (auto split: if_splits)

text \<open>The gates cover the paths: in the authenticated router every \<open>/dht\<close> path goes through a
  capability and the DNA scope of its own path segment, only POST reaches the write capability,
  every \<open>/k2\<close> path needs the K2 capability and every \<open>/admin\<close> path the secret.\<close>

lemma gates_cover_paths:
  assumes "route_of True rq = Some (r, params)"
  shows "(hd (rq_path rq) = ''dht'' \<longrightarrow>
           (\<exists>cap. gate_of r = DnaGate cap \<and> (cap = DhtWrite \<or> cap = DhtRead) \<and>
              (cap = DhtWrite \<longrightarrow> rq_method rq = POST)) \<and>
           map_of params ''dna_hash'' = Some (rq_path rq ! 1)) \<and>
         (hd (rq_path rq) = ''k2'' \<longrightarrow> gate_of r = CapGate K2) \<and>
         (hd (rq_path rq) = ''admin'' \<longrightarrow> gate_of r = AdminGate)"
proof -
  obtain eps m where eps: "find_endpoints True (rq_path rq) = Some (eps, params)"
    and mr: "(m, r) \<in> set eps" "method_serves m (rq_method rq)"
    using assms by (auto simp: route_of_def split: option.splits dest!: find_SomeD)
  from eps mr show ?thesis
    by (auto simp: find_endpoints_def or_else_def common_routes_def dht_routes_def dht_publish_route_def
      kitsune_routes_def admin_routes_def gate_of_def method_serves_def
      split: option.splits list.splits if_splits)
qed

lemma gates_cover_paths_example:
  "\<exists>cap. gate_of RDhtRecord = DnaGate cap \<and> (cap = DhtWrite \<or> cap = DhtRead)"
  using gates_cover_paths [OF record_request_route [where tok = "''t''"]] by (auto simp: record_request_def)

text \<open>The capability a gate asks for, and the context a request gets with it.\<close>

definition needed_capability :: "route \<Rightarrow> capability option" where
  "needed_capability r = (case gate_of r of DnaGate cap \<Rightarrow> Some cap | CapGate cap \<Rightarrow> Some cap | _ \<Rightarrow> None)"

definition context_of :: "session_info \<Rightarrow> auth_context" where
  "context_of j = \<lparr>ac_agent_pubkey = si_agent_pubkey j, ac_capabilities = si_capabilities j,
     ac_registered_dnas = si_registered_dnas j\<rparr>"

lemma capable_passes:
  assumes "st_auth_store st = Some store" and "au_store store = MemoryBackend m" and "capable cap st rq"
  shows "\<exists>j. session_of_request st rq = Some j \<and> cap \<in> si_capabilities j \<and>
    (\<forall>next. check_capability cap next rq st = next (rq\<lparr>rq_context := Some (context_of j)\<rparr>) st)"
proof -
  obtain tok j where tok: "extract_bearer_token rq = Some tok" and j: "hm_get (ms_sessions m) tok = Some j" "cap \<in> si_capabilities j"
    and sess: "session_of_request st rq = Some j"
    using assms by (auto simp: capable_def session_of_request_def mem_abs_def split: option.splits bind_splits)
  have validate: "auth_validate_session tok store = (store, Some j)"
    using assms(2) j by (simp add: auth_validate_session_def delegate_def be_validate_session_def dispatch_def mem_validate_session_def)
  have same: "st\<lparr>st_auth_store := Some store\<rparr> = st" using assms(1) [symmetric] by simp
  show ?thesis
    using j sess by (auto simp: check_capability_def assms(1) tok validate si_has_capability_def same context_of_def)
qed

lemma in_scope_passes:
  assumes "in_dna_scope h st rq" and "session_of_request st rq = Some j"
  shows "require_dna_scope h next (rq\<lparr>rq_context := Some (context_of j)\<rparr>) st = next (rq\<lparr>rq_context := Some (context_of j)\<rparr>) st"
  using assms by (auto simp: in_dna_scope_def require_dna_scope_def ac_has_dna_def context_of_def)

lemma session_of_params [simp]: "session_of_request st (rq\<lparr>rq_params := ps\<rparr>) = session_of_request st rq"
  by (simp add: session_of_request_def extract_bearer_token_def header_str_def split: option.split)

lemma guard_capability:
  "gate_of r = CapGate cap \<Longrightarrow> guard h r nxt = check_capability cap nxt"
  "gate_of r = DnaGate cap \<Longrightarrow> guard h r nxt = check_capability cap (require_dna_scope h nxt)"
  by (cases cap; simp add: guard_def require_dht_read_def require_dht_write_def require_k2_def fun_eq_iff)+

text \<open>C36. On the in-memory store an authorised request does reach its handler, on an unchanged store,
  whichever route it names: at a gate that asks for a capability (the DHT and the K2 routes) with the
  session's agent, capabilities and DNAs as its context, at the admin's gate and on the open routes as it is.\<close>

theorem authorised_reaches_handler:
  assumes "st_auth_store st = Some store" and "au_store store = MemoryBackend m"
    and "route_of True rq = Some (r, params)" and "authorised h r st (rq\<lparr>rq_params := params\<rparr>)"
  shows "case needed_capability r of
      None \<Rightarrow> create_router h table st rq st = table r (rq\<lparr>rq_params := params\<rparr>) st
    | Some cap \<Rightarrow> \<exists>j. session_of_request st rq = Some j \<and> cap \<in> si_capabilities j \<and>
        create_router h table st rq st = table r (rq\<lparr>rq_params := params, rq_context := Some (context_of j)\<rparr>) st"
proof -
  let ?rq = "rq\<lparr>rq_params := params\<rparr>"
  have run: "create_router h table st rq st = guard h r (table r) ?rq st"
    using assms(1,3) by (simp add: create_router_def authenticated_router_def dispatch_route_of)
  show ?thesis
  proof (cases "gate_of r")
    case Open
    then show ?thesis by (simp add: needed_capability_def run guard_def)
  next
    case AdminGate
    with assms(4) show ?thesis by (auto simp: needed_capability_def run guard_def authorised_def require_admin_secret_def)
  next
    case (CapGate cap)
    with assms(4) capable_passes [OF assms(1,2), of cap ?rq] show ?thesis
      by (auto simp: needed_capability_def run guard_capability authorised_def)
  next
    case (DnaGate cap)
    with assms(4) have "capable cap st ?rq" and scope: "in_dna_scope h st ?rq" by (simp_all add: authorised_def)
    from capable_passes [OF assms(1,2) this(1)] obtain j where j: "session_of_request st ?rq = Some j" "cap \<in> si_capabilities j"
      and pass: "\<And>next. check_capability cap next ?rq st = next (?rq\<lparr>rq_context := Some (context_of j)\<rparr>) st" by blast
    have "create_router h table st rq st = table r (?rq\<lparr>rq_context := Some (context_of j)\<rparr>) st"
      unfolding run guard_capability(2) [OF DnaGate] pass using in_scope_passes [OF scope j(1)] by simp
    with j DnaGate show ?thesis by (auto simp: needed_capability_def)
  qed
qed

definition own_record_request :: "unit request" where
  "own_record_request = (record_request ''t'')\<lparr>rq_path :=
     [''dht'', dna_to_string plain_holo_hash dna_a, ''record'', ''hash'']\<rparr>"

lemma dna_a_text: "dna_to_string plain_holo_hash dna_a = ''d'' @ [char_of (7 :: nat)]"
  by (simp add: plain_holo_hash_def dna_a_def text_of_bytes_def)

lemma own_record_request_route: "route_of True own_record_request =
    Some (RDhtRecord, [(''dna_hash'', dna_to_string plain_holo_hash dna_a), (''hash'', ''hash'')])"
  by (simp add: own_record_request_def request_eval dna_a_text)

lemma own_record_request_authorised:
  "authorised plain_holo_hash RDhtRecord logged_in (own_record_request\<lparr>rq_params :=
     [(''dna_hash'', dna_to_string plain_holo_hash dna_a), (''hash'', ''hash'')]\<rparr>)"
  by (simp add: authorised_def gate_of_def capable_def in_dna_scope_def session_of_request_def
    logged_in_def own_record_request_def request_eval auth_run_eval login_run_def mem_abs_def grant_a_def
    plain_holo_hash_ok)

lemma authorised_reaches_handler_witness:
  "\<exists>j. session_of_request logged_in own_record_request = Some j \<and> DhtRead \<in> si_capabilities j"
proof -
  obtain m where m: "au_store (auth_run login_run auth_new) = MemoryBackend m"
    by (simp add: auth_run_eval login_run_def grant_a_def)
  have store: "st_auth_store logged_in = Some (auth_run login_run auth_new)"
    by (simp add: logged_in_def)
  show ?thesis
    using authorised_reaches_handler [OF store m own_record_request_route own_record_request_authorised]
    by (auto simp: needed_capability_def gate_of_def)
qed

end
