(* ===== verification/One_Shot.thy ===== *)
theory One_Shot imports Linker_Prelude begin

text \<open>
  One-shot requests: a key is enrolled with a fresh reply channel, the first event on that key
  afterwards (a delivery or a withdrawal) decides the channel, and every later event on it is
  without effect. Both request tables of the gateway work this way: the pending signatures of
  \<open>src/agent_proxy.rs\<close> and the pending DHT responses of \<open>src/dht_query.rs\<close>. The locale
  \<open>one_shot\<close> is that contract and its lemma \<open>first_event_decides\<close> what a waiting task can rely on.

  A tokio \<open>oneshot\<close> channel is a cell of a heap: \<open>Pending\<close> until its sender is used or dropped.
  Whether the receiver still listens only shows in the log, so it has no state here.
\<close>

section \<open>Channels\<close>

datatype 'r oneshot = Pending | Sent 'r | Cancelled

definition os_send :: "'r \<Rightarrow> 'r oneshot \<Rightarrow> 'r oneshot" where
  "os_send r c = (case c of Pending \<Rightarrow> Sent r | Sent x \<Rightarrow> Sent x | Cancelled \<Rightarrow> Cancelled)"

definition os_drop :: "'r oneshot \<Rightarrow> 'r oneshot" where
  "os_drop c = (case c of Pending \<Rightarrow> Cancelled | Sent x \<Rightarrow> Sent x | Cancelled \<Rightarrow> Cancelled)"

lemma os_simps [simp]: "os_send r Pending = Sent r" "os_send r (Sent x) = Sent x"
  "os_send r Cancelled = Cancelled" "os_drop Pending = Cancelled" "os_drop (Sent x) = Sent x"
  "os_drop Cancelled = Cancelled"
  by (simp_all add: os_send_def os_drop_def)

text \<open>The channels created so far; a new one gets the next number.\<close>

type_synonym 'r heap = "'r oneshot list"

definition os_state :: "'r heap \<Rightarrow> nat \<Rightarrow> 'r oneshot" where
  "os_state h c = (if c < length h then h ! c else Cancelled)"

definition os_update :: "nat \<Rightarrow> ('r oneshot \<Rightarrow> 'r oneshot) \<Rightarrow> 'r heap \<Rightarrow> 'r heap" where
  "os_update c f h = (if c < length h then h[c := f (h ! c)] else h)"

text \<open>A \<open>HashMap\<close> from keys to senders: inserting over a key, or removing one, drops its sender.\<close>

definition drop_sender :: "'k \<Rightarrow> ('k, nat) hashmap \<Rightarrow> 'r heap \<Rightarrow> 'r heap" where
  "drop_sender k m h = (case hm_get m k of None \<Rightarrow> h | Some c \<Rightarrow> os_update c os_drop h)"

definition senders_ok :: "('k, nat) hashmap \<Rightarrow> 'r heap \<Rightarrow> bool" where
  "senders_ok m h \<longleftrightarrow> hm_wf m \<and> (\<forall>k c. hm_get m k = Some c \<longrightarrow> c < length h \<and> h ! c = Pending) \<and>
     (\<forall>k k' c. hm_get m k = Some c \<longrightarrow> hm_get m k' = Some c \<longrightarrow> k = k')"

lemma os_state_update: "os_state (os_update c f h) d = (if d = c \<and> c < length h then f (os_state h c) else os_state h d)"
  by (auto simp: os_state_def os_update_def)

lemma length_os_update [simp]: "length (os_update c f h) = length h"
  by (simp add: os_update_def)

section \<open>The contract\<close>

datatype ('k, 'r) event = Enroll 'k | Deliver 'k 'r | Withdraw 'k

fun event_key :: "('k, 'r) event \<Rightarrow> 'k" where
  "event_key (Enroll k) = k"
| "event_key (Deliver k r) = k"
| "event_key (Withdraw k) = k"

fun event_outcome :: "('k, 'r) event \<Rightarrow> 'r oneshot" where
  "event_outcome (Enroll k) = Cancelled"
| "event_outcome (Deliver k r) = Sent r"
| "event_outcome (Withdraw k) = Cancelled"

locale one_shot =
  fixes invar :: "'s \<Rightarrow> bool"
    and created :: "'s \<Rightarrow> nat"
    and waiting :: "'s \<Rightarrow> 'k \<Rightarrow> nat option"
    and outcome :: "'s \<Rightarrow> nat \<Rightarrow> 'r oneshot"
    and enroll :: "'k \<Rightarrow> 's \<Rightarrow> 's"
    and deliver :: "'k \<Rightarrow> 'r \<Rightarrow> 's \<Rightarrow> 's"
    and withdraw :: "'k \<Rightarrow> 's \<Rightarrow> 's"
  assumes invar_enroll: "invar s \<Longrightarrow> invar (enroll k s)"
    and invar_deliver: "invar s \<Longrightarrow> invar (deliver k r s)"
    and invar_withdraw: "invar s \<Longrightarrow> invar (withdraw k s)"
    and waiting_pending: "invar s \<Longrightarrow> waiting s k = Some c \<Longrightarrow> outcome s c = Pending \<and> c < created s"
    and waiting_inj: "invar s \<Longrightarrow> waiting s k = Some c \<Longrightarrow> waiting s k' = Some c \<Longrightarrow> k = k'"
    and created_enroll: "invar s \<Longrightarrow> created (enroll k s) = Suc (created s)"
    and created_deliver: "invar s \<Longrightarrow> created (deliver k r s) = created s"
    and created_withdraw: "invar s \<Longrightarrow> created (withdraw k s) = created s"
    and waiting_enroll: "invar s \<Longrightarrow> waiting (enroll k s) = (waiting s)(k \<mapsto> created s)"
    and waiting_deliver: "invar s \<Longrightarrow> waiting (deliver k r s) = (waiting s)(k := None)"
    and waiting_withdraw: "invar s \<Longrightarrow> waiting (withdraw k s) = (waiting s)(k := None)"
    and outcome_enroll: "invar s \<Longrightarrow> c < created s \<Longrightarrow>
        outcome (enroll k s) c = (if waiting s k = Some c then Cancelled else outcome s c)"
    and outcome_deliver: "invar s \<Longrightarrow> c < created s \<Longrightarrow>
        outcome (deliver k r s) c = (if waiting s k = Some c then Sent r else outcome s c)"
    and outcome_withdraw: "invar s \<Longrightarrow> c < created s \<Longrightarrow>
        outcome (withdraw k s) c = (if waiting s k = Some c then Cancelled else outcome s c)"
begin

fun apply_event :: "('k, 'r) event \<Rightarrow> 's \<Rightarrow> 's" where
  "apply_event (Enroll k) s = enroll k s"
| "apply_event (Deliver k r) s = deliver k r s"
| "apply_event (Withdraw k) s = withdraw k s"

definition run :: "('k, 'r) event list \<Rightarrow> 's \<Rightarrow> 's" where
  "run es s = fold apply_event es s"

lemma run_simps [simp]: "run [] s = s" "run (e # es) s = run es (apply_event e s)"
  by (simp_all add: run_def)

lemma event_invar: "invar s \<Longrightarrow> invar (apply_event e s)"
  by (cases e) (simp_all add: invar_enroll invar_deliver invar_withdraw)

lemma run_invar: "invar s \<Longrightarrow> invar (run es s)"
  by (induction es arbitrary: s) (simp_all add: event_invar)

lemma event_created: "invar s \<Longrightarrow> created s \<le> created (apply_event e s)"
  by (cases e) (simp_all add: created_enroll created_deliver created_withdraw)

lemma event_other_key:
  assumes "invar s" and "waiting s k = Some c" and "event_key e \<noteq> k"
  shows "waiting (apply_event e s) k = Some c"
  using assms by (cases e) (simp_all add: waiting_enroll waiting_deliver waiting_withdraw)

lemma event_same_key:
  assumes "invar s" and "waiting s k = Some c" and "event_key e = k"
  shows "outcome (apply_event e s) c = event_outcome e"
  using assms waiting_pending [OF assms(1,2)]
  by (cases e) (simp_all add: outcome_enroll outcome_deliver outcome_withdraw)

lemma event_decided:
  assumes "invar s" and "c < created s" and "outcome s c \<noteq> Pending"
  shows "outcome (apply_event e s) c = outcome s c"
proof -
  have "waiting s k \<noteq> Some c" for k
    using waiting_pending [OF assms(1)] assms(3) by blast
  with assms show ?thesis
    by (cases e) (simp_all add: outcome_enroll outcome_deliver outcome_withdraw)
qed

lemma run_decided:
  assumes "invar s" and "c < created s" and "outcome s c \<noteq> Pending"
  shows "outcome (run es s) c = outcome s c"
  using assms
proof (induction es arbitrary: s)
  case (Cons e es)
  have "c < created (apply_event e s)" using event_created [OF Cons.prems(1), of e] Cons.prems(2) by simp
  with Cons show ?case by (simp add: event_decided event_invar)
qed simp

lemma waiting_run:
  assumes "invar s" and "waiting s k = Some c"
  shows "outcome (run es s) c =
     (case find (\<lambda>e. event_key e = k) es of None \<Rightarrow> Pending | Some e \<Rightarrow> event_outcome e)"
  using assms
proof (induction es arbitrary: s)
  case Nil
  then show ?case using waiting_pending by simp
next
  case (Cons e es)
  show ?case
  proof (cases "event_key e = k")
    case True
    have out: "outcome (apply_event e s) c = event_outcome e"
      by (rule event_same_key [OF Cons.prems True])
    have lt: "c < created (apply_event e s)"
      using waiting_pending [OF Cons.prems] event_created [OF Cons.prems(1), of e] by simp
    have "event_outcome e \<noteq> Pending" by (cases e) simp_all
    with run_decided [OF event_invar [OF Cons.prems(1)] lt] out True show ?thesis by simp
  next
    case False
    with Cons.IH [OF event_invar [OF Cons.prems(1)] event_other_key [OF Cons.prems False]]
    show ?thesis by simp
  qed
qed

text \<open>The first event on the key after its enrolment decides the channel.\<close>

lemma first_event_decides:
  assumes "invar s"
  shows "outcome (run es (enroll k s)) (created s) =
     (case find (\<lambda>e. event_key e = k) es of None \<Rightarrow> Pending | Some e \<Rightarrow> event_outcome e)"
  by (rule waiting_run) (simp_all add: invar_enroll waiting_enroll assms)

lemma answer_was_delivered:
  assumes "invar s" and "outcome (run es (enroll k s)) (created s) = Sent r"
  shows "Deliver k r \<in> set es"
proof -
  obtain e where e: "find (\<lambda>e. event_key e = k) es = Some e" "event_outcome e = Sent r"
    using assms(2) first_event_decides [OF assms(1)] by (auto split: option.splits)
  have "e \<in> set es \<and> event_key e = k" using e(1) by (auto simp: find_Some_iff)
  with e(2) show ?thesis by (cases e) auto
qed

end

section \<open>A table of senders over a heap of channels\<close>

text \<open>Both providers keep their table as a hash map of senders.\<close>

definition table_enroll :: "'k \<Rightarrow> ('k, nat) hashmap \<times> 'r heap \<Rightarrow> ('k, nat) hashmap \<times> 'r heap" where
  "table_enroll k t = (case t of (m, h) \<Rightarrow>
     (hm_insert k (length h) m, drop_sender k m h @ [Pending]))"

definition table_deliver :: "'k \<Rightarrow> 'r \<Rightarrow> ('k, nat) hashmap \<times> 'r heap \<Rightarrow> ('k, nat) hashmap \<times> 'r heap" where
  "table_deliver k r t = (case t of (m, h) \<Rightarrow>
     (hm_remove k m, case hm_get m k of None \<Rightarrow> h | Some c \<Rightarrow> os_update c (os_send r) h))"

definition table_withdraw :: "'k \<Rightarrow> ('k, nat) hashmap \<times> 'r heap \<Rightarrow> ('k, nat) hashmap \<times> 'r heap" where
  "table_withdraw k t = (case t of (m, h) \<Rightarrow> (hm_remove k m, drop_sender k m h))"

interpretation senders: one_shot "\<lambda>t. senders_ok (fst t) (snd t)" "\<lambda>t. length (snd t)"
    "\<lambda>t. hm_get (fst t)" "\<lambda>t. os_state (snd t)" table_enroll table_deliver table_withdraw
proof
  fix t :: "('k, nat) hashmap \<times> 'r heap" and k k' c and r :: 'r
  obtain m h where t: "t = (m, h)" by fastforce
  assume inv: "senders_ok (fst t) (snd t)"
  then have ok: "hm_wf m" "\<And>k c. hm_get m k = Some c \<Longrightarrow> c < length h \<and> h ! c = Pending"
      "\<And>k k' c. hm_get m k = Some c \<Longrightarrow> hm_get m k' = Some c \<Longrightarrow> k = k'"
    by (auto simp: t senders_ok_def)
  have len: "length (drop_sender k m h) = length h" by (simp add: drop_sender_def split: option.split)
  have other: "drop_sender k m h ! c = h ! c" if "hm_get m k \<noteq> Some c" for c
    using that by (auto simp: drop_sender_def os_update_def nth_list_update split: option.split)
  have sent: "(case hm_get m k of None \<Rightarrow> h | Some c \<Rightarrow> os_update c f h) ! c = h ! c"
    if "hm_get m k \<noteq> Some c" for c and f :: "'r oneshot \<Rightarrow> 'r oneshot"
    using that by (auto simp: os_update_def nth_list_update split: option.split)
  have distinct_chan: "hm_get m k \<noteq> Some c" if "hm_get m j = Some c" "j \<noteq> k" for j c
    using that ok(3) by blast
  show "senders_ok (fst (table_enroll k t)) (snd (table_enroll k t))"
    using ok distinct_chan by (auto simp: t table_enroll_def senders_ok_def nth_append len other
      dest: ok(2) split: if_splits)
  show "senders_ok (fst (table_deliver k r t)) (snd (table_deliver k r t))"
    using ok distinct_chan by (auto simp: t table_deliver_def senders_ok_def sent
      split: if_splits option.splits)
  show "senders_ok (fst (table_withdraw k t)) (snd (table_withdraw k t))"
    using ok distinct_chan by (auto simp: t table_withdraw_def senders_ok_def len other split: if_splits)
  show "hm_get (fst t) k = Some c \<Longrightarrow> os_state (snd t) c = Pending \<and> c < length (snd t)"
    using ok(2) by (auto simp: t os_state_def)
  show "hm_get (fst t) k = Some c \<Longrightarrow> hm_get (fst t) k' = Some c \<Longrightarrow> k = k'"
    using ok(3) by (simp add: t)
  show "length (snd (table_enroll k t)) = Suc (length (snd t))" by (simp add: t table_enroll_def len)
  show "length (snd (table_deliver k r t)) = length (snd t)"
    by (simp add: t table_deliver_def split: option.split)
  show "length (snd (table_withdraw k t)) = length (snd t)" by (simp add: t table_withdraw_def len)
  show "hm_get (fst (table_enroll k t)) = (hm_get (fst t))(k \<mapsto> length (snd t))"
    by (simp add: t table_enroll_def)
  show "hm_get (fst (table_deliver k r t)) = (hm_get (fst t))(k := None)" by (simp add: t table_deliver_def)
  show "hm_get (fst (table_withdraw k t)) = (hm_get (fst t))(k := None)" by (simp add: t table_withdraw_def)
  assume c: "c < length (snd t)"
  show "os_state (snd (table_enroll k t)) c =
      (if hm_get (fst t) k = Some c then Cancelled else os_state (snd t) c)"
    using c ok(2) [of k c] other [of c]
    by (auto simp: t table_enroll_def os_state_def nth_append len) (simp add: drop_sender_def os_update_def)
  show "os_state (snd (table_deliver k r t)) c =
      (if hm_get (fst t) k = Some c then Sent r else os_state (snd t) c)"
    using c ok(2) [of k c] by (auto simp: t table_deliver_def os_state_update os_state_def [of h] split: option.split)
  show "os_state (snd (table_withdraw k t)) c =
      (if hm_get (fst t) k = Some c then Cancelled else os_state (snd t) c)"
    using c ok(2) [of k c]
    by (auto simp: t table_withdraw_def drop_sender_def os_state_update os_state_def [of h] split: option.split)
qed

end
