(* ===== verification/Messages.thy ===== *)
theory Messages imports Http begin

text \<open>
  The data that crosses the components: the kitsune2 types the gateway reads, and the WebSocket
  messages of \<open>src/routes/websocket.rs\<close> in both directions. Conversions that belong to
  \<open>holo_hash\<close> and \<open>kitsune2\<close> are the parameters of \<open>k2_api\<close>.
\<close>

section \<open>Kitsune2 types\<close>

type_synonym u32 = "32 word"
type_synonym i64 = "64 word"
type_synonym u64 = "64 word"

datatype space_id = SpaceId bytes
datatype agent_id = AgentId bytes
type_synonym url = string

datatype dht_arc = ArcEmpty | Arc u32 u32

record agent_info =
  ai_agent :: agent_id
  ai_space :: space_id
  ai_created_at :: int
  ai_expires_at :: int
  ai_is_tombstone :: bool
  ai_url :: "url option"
  ai_storage_arc :: dht_arc

text \<open>\<open>raw_32\<close> is the key part of a hash, \<open>agent_from_raw_39\<close> the checked conversion from the full
  byte form, \<open>space_to_dna\<close> and \<open>dna_to_space\<close> the crate's conversions between a DNA and its space.\<close>

record k2_api =
  raw_32 :: "agent_pubkey \<Rightarrow> bytes"
  agent_from_raw_39 :: "bytes \<Rightarrow> string + agent_pubkey"
  dna_to_space :: "dna_hash \<Rightarrow> space_id"
  space_to_dna :: "space_id \<Rightarrow> dna_hash"
  base64_encode :: "bytes \<Rightarrow> string"
  base64_decode :: "string \<Rightarrow> string + bytes"
  agent_info_json :: "agent_info \<Rightarrow> string + json"

text \<open>A DNA survives the trip to its space and back.\<close>

definition k2_ok :: "k2_api \<Rightarrow> bool" where
  "k2_ok k2 \<longleftrightarrow> (\<forall>d. space_to_dna k2 (dna_to_space k2 d) = d)"

definition plain_k2 :: k2_api where
  "plain_k2 = \<lparr>raw_32 = (\<lambda>a. case a of AgentPubKey b \<Rightarrow> b),
     agent_from_raw_39 = (\<lambda>b. if length b = 39 then Inr (AgentPubKey (take 32 (drop 3 b))) else Inl ''BadSize''),
     dna_to_space = (\<lambda>d. case d of DnaHash b \<Rightarrow> SpaceId b),
     space_to_dna = (\<lambda>s. case s of SpaceId b \<Rightarrow> DnaHash b),
     base64_encode = text_of_bytes, base64_decode = (\<lambda>s. Inr (bytes_of_text s)),
     agent_info_json = (\<lambda>_. Inr JNull)\<rparr>"

lemma plain_k2_ok: "k2_ok plain_k2"
  by (simp add: k2_ok_def plain_k2_def split: dna_hash.split)

section \<open>WebSocket messages\<close>

record signed_remote_signal_input =
  ss_target_agent :: bytes
  ss_zome_call_params :: bytes
  ss_signature :: bytes

datatype client_message =
    CmAuth string
  | CmAuthChallengeResponse string
  | CmRegister string string
  | CmUnregister string string
  | CmPing
  | CmSignResponse string "string option" "string option"
  | CmSendRemoteSignal string "signed_remote_signal_input list"

datatype server_message =
    SmAuthOk string
  | SmAuthChallenge string
  | SmAuthError string
  | SmRegistered string string
  | SmUnregistered string string
  | SmSignal (sg_dna_hash: string) (sg_to_agent: string) (sg_from_agent: string) (sg_zome_name: string) (sg_signal: string)
  | SmPong nat
  | SmError string
  | SmSignAgentInfo (sr_request_id: string) (sr_agent: string) (sr_info: json)

end
