(* ===== verification/Text.thy ===== *)
theory Text imports Main begin

text \<open>
  Rust's text conversions that the components use: \<open>Display\<close> and \<open>FromStr\<close> of the unsigned
  integers, prefixes and ASCII lower case. A string is the list of its UTF-8 bytes.
\<close>

section \<open>Printing numbers\<close>

definition digit_char :: "nat \<Rightarrow> char" where
  "digit_char n = char_of (48 + n)"

fun show_nat :: "nat \<Rightarrow> string" where
  "show_nat n = (if n < 10 then [digit_char n] else show_nat (n div 10) @ [digit_char (n mod 10)])"

declare show_nat.simps [simp del]

section \<open>Reading numbers\<close>

definition digit_value :: "char \<Rightarrow> nat option" where
  "digit_value c = (let n = of_char c :: nat in if 48 \<le> n \<and> n \<le> 57 then Some (n - 48) else None)"

text \<open>\<open>parse\<close> of an unsigned integer below \<open>bound\<close>: an optional plus sign, at least one digit, and
  an error as soon as the value does not fit.\<close>

fun parse_digits :: "nat \<Rightarrow> nat \<Rightarrow> string \<Rightarrow> nat option" where
  "parse_digits bound acc [] = Some acc"
| "parse_digits bound acc (c # cs) = (case digit_value c of
     None \<Rightarrow> None
   | Some d \<Rightarrow> (let n = acc * 10 + d in if n < bound then parse_digits bound n cs else None))"

definition parse_uint :: "nat \<Rightarrow> string \<Rightarrow> nat option" where
  "parse_uint bound s = (case s of
     [] \<Rightarrow> None
   | c # cs \<Rightarrow> (if c = CHR ''+''
       then (if cs = [] then None else parse_digits bound 0 cs)
       else parse_digits bound 0 s))"

abbreviation (input) U32_BOUND :: nat where "U32_BOUND \<equiv> 2 ^ 32"
abbreviation (input) U64_BOUND :: nat where "U64_BOUND \<equiv> 2 ^ 64"

section \<open>Case and prefixes\<close>

definition ascii_lower :: "char \<Rightarrow> char" where
  "ascii_lower c = (let n = of_char c :: nat in if 65 \<le> n \<and> n \<le> 90 then char_of (n + 32) else c)"

definition to_lowercase :: "string \<Rightarrow> string" where
  "to_lowercase s = map ascii_lower s"

definition starts_with :: "string \<Rightarrow> string \<Rightarrow> bool" where
  "starts_with p s \<longleftrightarrow> take (length p) s = p"

lemma starts_with_iff: "starts_with p s \<longleftrightarrow> (\<exists>t. s = p @ t)"
  unfolding starts_with_def by (metis append_eq_conv_conj append_take_drop_id)

text \<open>\<open>trim_start_matches\<close> with a non-empty pattern removes the prefix as often as it occurs.\<close>

function trim_start_matches :: "string \<Rightarrow> string \<Rightarrow> string" where
  "trim_start_matches p s =
     (if p \<noteq> [] \<and> starts_with p s then trim_start_matches p (drop (length p) s) else s)"
  by pat_completeness auto
termination
  by (relation "measure (\<lambda>(p, s). length s)") (auto simp: starts_with_iff)

declare trim_start_matches.simps [simp del]

section \<open>The printed form determines the number\<close>

lemma of_char_digit: "n < 10 \<Longrightarrow> (of_char (digit_char n) :: nat) = 48 + n"
  by (simp add: digit_char_def)

lemma digit_value_digit [simp]: "n < 10 \<Longrightarrow> digit_value (digit_char n) = Some n"
  by (simp add: digit_value_def of_char_digit)

lemma show_nat_digits: "c \<in> set (show_nat n) \<Longrightarrow> \<exists>d<10. c = digit_char d"
proof (induction n rule: show_nat.induct)
  case (1 n)
  show ?case
  proof (cases "n < 10")
    case True
    with 1(2) have "c = digit_char n" by (simp add: show_nat.simps [of n])
    with True show ?thesis by blast
  next
    case False
    with 1(2) have "c \<in> set (show_nat (n div 10)) \<or> c = digit_char (n mod 10)"
      by (auto simp: show_nat.simps [of n])
    moreover have "n mod 10 < 10" by simp
    ultimately show ?thesis using 1(1) [OF False] by blast
  qed
qed

lemma show_nat_not_Nil [simp]: "show_nat n \<noteq> []"
  by (subst show_nat.simps) simp

lemma parse_digits_append:
  "parse_digits b acc (xs @ ys) = Option.bind (parse_digits b acc xs) (\<lambda>n. parse_digits b n ys)"
  by (induction b acc xs rule: parse_digits.induct) (simp_all add: Let_def split: option.split)

lemma parse_show_digits: "n < b \<Longrightarrow> parse_digits b 0 (show_nat n) = Some n"
proof (induction n rule: show_nat.induct)
  case (1 n)
  show ?case
  proof (cases "n < 10")
    case True
    with 1 show ?thesis by (subst show_nat.simps) simp
  next
    case False
    with 1 have "parse_digits b 0 (show_nat (n div 10)) = Some (n div 10)" by simp
    with False 1(2) show ?thesis
      by (subst show_nat.simps) (simp add: parse_digits_append)
  qed
qed

lemma plus_not_digit: "d < 10 \<Longrightarrow> digit_char d \<noteq> CHR ''+''"
  using of_char_digit [of d] by auto

lemma parse_show_uint: "n < b \<Longrightarrow> parse_uint b (show_nat n) = Some n"
proof -
  assume n: "n < b"
  obtain c cs where s: "show_nat n = c # cs" by (cases "show_nat n") simp_all
  then have "c \<noteq> CHR ''+''"
    using show_nat_digits [of c n] plus_not_digit by auto
  with parse_show_digits [OF n] s show ?thesis by (simp add: parse_uint_def)
qed

lemma show_nat_inj [simp]: "show_nat m = show_nat n \<longleftrightarrow> m = n"
proof
  assume eq: "show_nat m = show_nat n"
  have "parse_digits (Suc (m + n)) 0 (show_nat m) = Some m"
    and "parse_digits (Suc (m + n)) 0 (show_nat n) = Some n" by (simp_all add: parse_show_digits)
  then show "m = n" unfolding eq by (metis option.inject)
qed simp

lemma parse_digits_bound: "parse_digits b acc s = Some n \<Longrightarrow> acc < b \<Longrightarrow> n < b"
  by (induction b acc s rule: parse_digits.induct) (auto simp: Let_def split: option.splits if_splits)

lemma parse_uint_bound:
  assumes "parse_uint b s = Some n" and "0 < b"
  shows "n < b"
proof (cases s)
  case (Cons c cs)
  show ?thesis
  proof (cases "c = CHR ''+''")
    case True
    with assms Cons show ?thesis
      by (auto simp: parse_uint_def split: if_splits intro: parse_digits_bound [of b 0 cs])
  next
    case False
    with assms Cons have "parse_digits b 0 s = Some n" by (simp add: parse_uint_def)
    with assms(2) show ?thesis by (rule parse_digits_bound [rotated])
  qed
qed (use assms in \<open>simp add: parse_uint_def\<close>)

end
