(* ===== verification/Agent_Proxy.thy ===== *)
theory Agent_Proxy imports One_Shot Messages Text Auth_Store "HOL-Library.Sublist" begin

text \<open>
  The agent proxy manager (\<open>src/agent_proxy.rs\<close>): which WebSocket connection an agent of a DNA is
  reached over, signal delivery into the connection's bounded channel, and remote signing. The
  receiving ends of the channels are part of the state: a channel is its queue (at most 32
  messages) and whether its receiver is still there. A signing request is cut at its awaits: it is
  begun, its message is queued, and it ends with an answer, a cancellation or the timeout.
\<close>

section \<open>State\<close>

record channel =
  ch_queue :: "server_message list"
  ch_open :: bool

definition channel_capacity :: nat where
  "channel_capacity = 32"

record agent_registration =
  reg_dna_hash :: dna_hash
  reg_agent_pubkey :: agent_pubkey

type_synonym sign_result = "string + bytes"

record agent_proxy =
  ap_registrations :: "(agent_registration, ws_sender) hashmap"
  ap_request_counter :: u64
  ap_pending_signs :: "(string, nat) hashmap"
  ap_heap :: "sign_result heap"
  ap_channels :: "(ws_sender, channel) hashmap"

definition ap_new :: agent_proxy where
  "ap_new = \<lparr>ap_registrations = [], ap_request_counter = 0, ap_pending_signs = [], ap_heap = [],
     ap_channels = []\<rparr>"

abbreviation reg_key :: "dna_hash \<Rightarrow> agent_pubkey \<Rightarrow> agent_registration" where
  "reg_key d a \<equiv> \<lparr>reg_dna_hash = d, reg_agent_pubkey = a\<rparr>"

section \<open>Registrations\<close>

definition ap_register :: "dna_hash \<Rightarrow> agent_pubkey \<Rightarrow> ws_sender \<Rightarrow> agent_proxy \<Rightarrow> agent_proxy" where
  "ap_register d a w s = s\<lparr>ap_registrations := hm_insert (reg_key d a) w (ap_registrations s)\<rparr>"

definition ap_unregister :: "dna_hash \<Rightarrow> agent_pubkey \<Rightarrow> agent_proxy \<Rightarrow> agent_proxy" where
  "ap_unregister d a s = s\<lparr>ap_registrations := hm_remove (reg_key d a) (ap_registrations s)\<rparr>"

definition ap_unregister_all :: "ws_sender \<Rightarrow> agent_proxy \<Rightarrow> agent_proxy" where
  "ap_unregister_all w s =
     s\<lparr>ap_registrations := hm_retain (\<lambda>_ v. \<not> same_channel v w) (ap_registrations s)\<rparr>"

definition ap_registration_count :: "agent_proxy \<Rightarrow> nat" where
  "ap_registration_count s = length (ap_registrations s)"

definition ap_is_registered :: "dna_hash \<Rightarrow> agent_pubkey \<Rightarrow> agent_proxy \<Rightarrow> bool" where
  "ap_is_registered d a s \<longleftrightarrow> hm_contains (ap_registrations s) (reg_key d a)"

section \<open>Signals\<close>

datatype try_send = SendOk | SendFull | SendClosed

definition try_send_message ::
    "server_message \<Rightarrow> ws_sender \<Rightarrow> agent_proxy \<Rightarrow> agent_proxy \<times> try_send" where
  "try_send_message m w s = (case hm_get (ap_channels s) w of
     None \<Rightarrow> (s, SendClosed)
   | Some ch \<Rightarrow>
       if \<not> ch_open ch then (s, SendClosed)
       else if channel_capacity \<le> length (ch_queue ch) then (s, SendFull)
       else (s\<lparr>ap_channels := hm_insert w (ch\<lparr>ch_queue := ch_queue ch @ [m]\<rparr>) (ap_channels s)\<rparr>, SendOk))"

definition ap_send_signal ::
    "dna_hash \<Rightarrow> agent_pubkey \<Rightarrow> server_message \<Rightarrow> agent_proxy \<Rightarrow> agent_proxy \<times> bool" where
  "ap_send_signal d a m s = (case hm_get (ap_registrations s) (reg_key d a) of
     None \<Rightarrow> (s, False)
   | Some w \<Rightarrow> (case try_send_message m w s of
        (s', SendOk) \<Rightarrow> (s', True)
      | (s', SendFull) \<Rightarrow> (s', False)
      | (s', SendClosed) \<Rightarrow> (s', False)))"

section \<open>Remote signing\<close>

definition ap_find_sender_for_agent :: "agent_pubkey \<Rightarrow> agent_proxy \<Rightarrow> ws_sender option" where
  "ap_find_sender_for_agent a s =
     map_option snd (find (\<lambda>e. reg_agent_pubkey (fst e) = a) (ap_registrations s))"

definition sign_request_id :: "u64 \<Rightarrow> nat \<Rightarrow> string" where
  "sign_request_id counter millis = ''sign-'' @ show_nat (unat counter) @ ''-'' @ show_nat millis"

text \<open>Where a signing request stands.\<close>

datatype sign_task =
    SignSending string nat ws_sender server_message
  | SignWaiting string nat
  | SignDone sign_result

definition pending_of :: "agent_proxy \<Rightarrow> (string, nat) hashmap \<times> sign_result heap" where
  "pending_of s = (ap_pending_signs s, ap_heap s)"

definition set_pending :: "(string, nat) hashmap \<times> sign_result heap \<Rightarrow> agent_proxy \<Rightarrow> agent_proxy" where
  "set_pending t s = s\<lparr>ap_pending_signs := fst t, ap_heap := snd t\<rparr>"

definition pending_insert :: "string \<Rightarrow> agent_proxy \<Rightarrow> agent_proxy" where
  "pending_insert k s = set_pending (table_enroll k (pending_of s)) s"

definition pending_remove :: "string \<Rightarrow> agent_proxy \<Rightarrow> agent_proxy" where
  "pending_remove k s = set_pending (table_withdraw k (pending_of s)) s"

definition ap_deliver_signature :: "string \<Rightarrow> sign_result \<Rightarrow> agent_proxy \<Rightarrow> agent_proxy" where
  "ap_deliver_signature k r s = set_pending (table_deliver k r (pending_of s)) s"

definition ap_pending_sign_count :: "agent_proxy \<Rightarrow> nat" where
  "ap_pending_sign_count s = length (ap_pending_signs s)"

text \<open>Up to the first await on the connection's channel. An agent info that does not serialize
  returns early, with the request still pending.\<close>

definition sign_begin :: "holo_hash_api \<Rightarrow> k2_api \<Rightarrow> nat \<Rightarrow> string \<Rightarrow> agent_pubkey \<Rightarrow> agent_info \<Rightarrow>
    agent_proxy \<Rightarrow> agent_proxy \<times> sign_task" where
  "sign_begin h k2 millis debug_key a info s =
     (case ap_find_sender_for_agent a s of
        None \<Rightarrow> (s, SignDone (Inl (''Agent '' @ debug_key @ '' is not registered - cannot request signature'')))
      | Some w \<Rightarrow>
          (let k = sign_request_id (ap_request_counter s) millis;
               c = length (ap_heap s);
               s1 = pending_insert k (s\<lparr>ap_request_counter := ap_request_counter s + 1\<rparr>)
           in case agent_info_json k2 info of
                Inl e \<Rightarrow> (s1, SignDone (Inl (''Failed to serialize agent info: '' @ e)))
              | Inr v \<Rightarrow> (s1, SignSending k c w (SmSignAgentInfo k (agent_to_string h a) v))))"

text \<open>\<open>send\<close> waits for room: a step is possible when there is room or the receiver is gone.\<close>

definition sign_send :: "string \<Rightarrow> sign_task \<Rightarrow> agent_proxy \<Rightarrow> (agent_proxy \<times> sign_task) option" where
  "sign_send send_error t s = (case t of
     SignSending k c w m \<Rightarrow> (case try_send_message m w s of
        (s', SendOk) \<Rightarrow> Some (s', SignWaiting k c)
      | (s', SendClosed) \<Rightarrow> Some (pending_remove k s',
           SignDone (Inl (''Failed to send sign request: '' @ send_error)))
      | (s', SendFull) \<Rightarrow> None)
   | _ \<Rightarrow> None)"

text \<open>The wait ends when the channel is decided, or by the timeout at any moment.\<close>

definition sign_finish :: "bool \<Rightarrow> string \<Rightarrow> sign_task \<Rightarrow> agent_proxy \<Rightarrow> (agent_proxy \<times> sign_task) option" where
  "sign_finish timed_out timeout_debug t s = (case t of
     SignWaiting k c \<Rightarrow> (case os_state (ap_heap s) c of
        Sent r \<Rightarrow> Some (pending_remove k s, SignDone r)
      | Cancelled \<Rightarrow> Some (pending_remove k s, SignDone (Inl ''Sign request cancelled''))
      | Pending \<Rightarrow> if timed_out
          then Some (pending_remove k s, SignDone (Inl (''Sign request timed out after '' @ timeout_debug)))
          else None)
   | _ \<Rightarrow> None)"

section \<open>Every operation of the manager as an event\<close>

datatype ap_event =
    ApConnect ws_sender
  | ApReceive ws_sender
  | ApDisconnect ws_sender
  | ApRegister dna_hash agent_pubkey ws_sender
  | ApUnregister dna_hash agent_pubkey
  | ApUnregisterAll ws_sender
  | ApSignal dna_hash agent_pubkey server_message
  | ApMessage server_message ws_sender
  | ApSignBegin nat agent_pubkey agent_info
  | ApDeliver string sign_result
  | ApWithdraw string

text \<open>The channel of a connection is made when the socket is handled, drained by its sending task,
  and closed with it.\<close>

definition ap_connect :: "ws_sender \<Rightarrow> agent_proxy \<Rightarrow> agent_proxy" where
  "ap_connect w s = s\<lparr>ap_channels := hm_insert w \<lparr>ch_queue = [], ch_open = True\<rparr> (ap_channels s)\<rparr>"

definition ap_receive :: "ws_sender \<Rightarrow> agent_proxy \<Rightarrow> agent_proxy" where
  "ap_receive w s = s\<lparr>ap_channels := hm_update_values
     (\<lambda>v ch. if v = w then ch\<lparr>ch_queue := tl (ch_queue ch)\<rparr> else ch) (ap_channels s)\<rparr>"

definition ap_disconnect :: "ws_sender \<Rightarrow> agent_proxy \<Rightarrow> agent_proxy" where
  "ap_disconnect w s = s\<lparr>ap_channels := hm_update_values
     (\<lambda>v ch. if v = w then \<lparr>ch_queue = [], ch_open = False\<rparr> else ch) (ap_channels s)\<rparr>"

fun ap_step :: "holo_hash_api \<Rightarrow> k2_api \<Rightarrow> ap_event \<Rightarrow> agent_proxy \<Rightarrow> agent_proxy" where
  "ap_step h k2 (ApConnect w) s = ap_connect w s"
| "ap_step h k2 (ApReceive w) s = ap_receive w s"
| "ap_step h k2 (ApDisconnect w) s = ap_disconnect w s"
| "ap_step h k2 (ApRegister d a w) s = ap_register d a w s"
| "ap_step h k2 (ApUnregister d a) s = ap_unregister d a s"
| "ap_step h k2 (ApUnregisterAll w) s = ap_unregister_all w s"
| "ap_step h k2 (ApSignal d a m) s = fst (ap_send_signal d a m s)"
| "ap_step h k2 (ApMessage m w) s = fst (try_send_message m w s)"
| "ap_step h k2 (ApSignBegin t a info) s = fst (sign_begin h k2 t [] a info s)"
| "ap_step h k2 (ApDeliver k r) s = ap_deliver_signature k r s"
| "ap_step h k2 (ApWithdraw k) s = pending_remove k s"

definition ap_run :: "holo_hash_api \<Rightarrow> k2_api \<Rightarrow> ap_event list \<Rightarrow> agent_proxy \<Rightarrow> agent_proxy" where
  "ap_run h k2 es s = fold (ap_step h k2) es s"

section \<open>The pending signatures are one-shot requests\<close>

definition signs_ok :: "agent_proxy \<Rightarrow> bool" where
  "signs_ok s \<longleftrightarrow> senders_ok (ap_pending_signs s) (ap_heap s)"

lemma pending_set [simp]: "pending_of (set_pending t s) = t"
  by (simp add: pending_of_def set_pending_def)

lemma pending_sel [simp]:
  "ap_pending_signs (set_pending t s) = fst t" "ap_heap (set_pending t s) = snd t"
  "fst (pending_of s) = ap_pending_signs s" "snd (pending_of s) = ap_heap s"
  "ap_registrations (set_pending t s) = ap_registrations s"
  "ap_channels (set_pending t s) = ap_channels s"
  "ap_request_counter (set_pending t s) = ap_request_counter s"
  by (simp_all add: set_pending_def pending_of_def)

interpretation signs: one_shot signs_ok "\<lambda>s. length (ap_heap s)" "\<lambda>s. hm_get (ap_pending_signs s)"
    "\<lambda>s. os_state (ap_heap s)" pending_insert ap_deliver_signature pending_remove
proof
  fix s k c k' and r :: sign_result
  assume "signs_ok s"
  then have ok: "senders_ok (fst (pending_of s)) (snd (pending_of s))" by (simp add: signs_ok_def)
  note defs = pending_insert_def ap_deliver_signature_def pending_remove_def signs_ok_def
  show "signs_ok (pending_insert k s)" using senders.invar_enroll [OF ok] by (simp add: defs)
  show "signs_ok (ap_deliver_signature k r s)" using senders.invar_deliver [OF ok] by (simp add: defs)
  show "signs_ok (pending_remove k s)" using senders.invar_withdraw [OF ok] by (simp add: defs)
  show "hm_get (ap_pending_signs s) k = Some c \<Longrightarrow> os_state (ap_heap s) c = Pending \<and> c < length (ap_heap s)"
    using senders.waiting_pending [OF ok] by simp
  show "hm_get (ap_pending_signs s) k = Some c \<Longrightarrow> hm_get (ap_pending_signs s) k' = Some c \<Longrightarrow> k = k'"
    using senders.waiting_inj [OF ok] by simp
  show "length (ap_heap (pending_insert k s)) = Suc (length (ap_heap s))"
    using senders.created_enroll [OF ok] by (simp add: defs)
  show "length (ap_heap (ap_deliver_signature k r s)) = length (ap_heap s)"
    using senders.created_deliver [OF ok] by (simp add: defs)
  show "length (ap_heap (pending_remove k s)) = length (ap_heap s)"
    using senders.created_withdraw [OF ok] by (simp add: defs)
  show "hm_get (ap_pending_signs (pending_insert k s)) = (hm_get (ap_pending_signs s))(k \<mapsto> length (ap_heap s))"
    using senders.waiting_enroll [OF ok] by (simp add: defs)
  show "hm_get (ap_pending_signs (ap_deliver_signature k r s)) = (hm_get (ap_pending_signs s))(k := None)"
    using senders.waiting_deliver [OF ok] by (simp add: defs)
  show "hm_get (ap_pending_signs (pending_remove k s)) = (hm_get (ap_pending_signs s))(k := None)"
    using senders.waiting_withdraw [OF ok] by (simp add: defs)
  assume c: "c < length (ap_heap s)"
  then have c': "c < length (snd (pending_of s))" by simp
  show "os_state (ap_heap (pending_insert k s)) c =
      (if hm_get (ap_pending_signs s) k = Some c then Cancelled else os_state (ap_heap s) c)"
    using senders.outcome_enroll [OF ok c'] by (simp add: defs)
  show "os_state (ap_heap (ap_deliver_signature k r s)) c =
      (if hm_get (ap_pending_signs s) k = Some c then Sent r else os_state (ap_heap s) c)"
    using senders.outcome_deliver [OF ok c'] by (simp add: defs)
  show "os_state (ap_heap (pending_remove k s)) c =
      (if hm_get (ap_pending_signs s) k = Some c then Cancelled else os_state (ap_heap s) c)"
    using senders.outcome_withdraw [OF ok c'] by (simp add: defs)
qed

text \<open>What an event does to the table of pending signatures.\<close>

definition table_event :: "ap_event \<Rightarrow> agent_proxy \<Rightarrow> (string, sign_result) event list" where
  "table_event e s = (case e of
     ApSignBegin t a info \<Rightarrow> (case ap_find_sender_for_agent a s of
        None \<Rightarrow> [] | Some _ \<Rightarrow> [Enroll (sign_request_id (ap_request_counter s) t)])
   | ApDeliver k r \<Rightarrow> [Deliver k r]
   | ApWithdraw k \<Rightarrow> [Withdraw k]
   | _ \<Rightarrow> [])"

fun table_events :: "holo_hash_api \<Rightarrow> k2_api \<Rightarrow> ap_event list \<Rightarrow> agent_proxy \<Rightarrow> (string, sign_result) event list" where
  "table_events h k2 [] s = []"
| "table_events h k2 (e # es) s = table_event e s @ table_events h k2 es (ap_step h k2 e s)"

lemma try_send_pending [simp]: "pending_of (fst (try_send_message m w s)) = pending_of s"
  by (simp add: try_send_message_def pending_of_def split: option.split)

lemma send_signal_fst: "fst (ap_send_signal d a m s) = (case hm_get (ap_registrations s) (reg_key d a) of
    None \<Rightarrow> s | Some w \<Rightarrow> fst (try_send_message m w s))"
  by (auto simp: ap_send_signal_def split: option.split prod.split try_send.split)

definition pending_event :: "(string, sign_result) event \<Rightarrow>
    (string, nat) hashmap \<times> sign_result heap \<Rightarrow> (string, nat) hashmap \<times> sign_result heap" where
  "pending_event e t = (case e of Enroll k \<Rightarrow> table_enroll k t | Deliver k r \<Rightarrow> table_deliver k r t
     | Withdraw k \<Rightarrow> table_withdraw k t)"

lemma sign_begin_pending:
  "pending_of (fst (sign_begin h k2 t dbg a info s)) = (case ap_find_sender_for_agent a s of
     None \<Rightarrow> pending_of s | Some _ \<Rightarrow> table_enroll (sign_request_id (ap_request_counter s) t) (pending_of s))"
  by (auto simp: sign_begin_def pending_insert_def Let_def pending_of_def set_pending_def
    split: option.split sum.split)

lemma ap_step_pending: "pending_of (ap_step h k2 e s) = fold pending_event (table_event e s) (pending_of s)"
proof (cases e)
  case (ApSignBegin t a info)
  then show ?thesis by (simp add: table_event_def sign_begin_pending pending_event_def split: option.split)
qed (simp_all add: table_event_def pending_event_def send_signal_fst ap_deliver_signature_def pending_remove_def
    split: option.split, simp_all add: pending_of_def ap_connect_def ap_receive_def ap_disconnect_def
      ap_register_def ap_unregister_def ap_unregister_all_def)

lemma ap_run_pending: "pending_of (ap_run h k2 es s) = senders.run (table_events h k2 es s) (pending_of s)"
proof (induction es arbitrary: s)
  case (Cons e es)
  have "pending_event = senders.apply_event"
    by (intro ext) (simp add: pending_event_def split: event.split)
  with Cons show ?case
    by (simp add: ap_run_def ap_step_pending senders.run_def)
qed (simp add: ap_run_def)

section \<open>Request identifiers\<close>

lemma dash_not_digit: "d < 10 \<Longrightarrow> digit_char d \<noteq> CHR ''-''"
  using of_char_digit [of d] by auto

lemma dash_not_in_number: "CHR ''-'' \<notin> set (show_nat n)"
  using show_nat_digits [of "CHR ''-''" n] dash_not_digit by metis

lemma split_at_dash:
  "CHR ''-'' \<notin> set xs \<Longrightarrow> CHR ''-'' \<notin> set xs' \<Longrightarrow> xs @ CHR ''-'' # ys = xs' @ CHR ''-'' # ys' \<Longrightarrow>
     xs = xs' \<and> ys = ys'"
proof (induction xs arbitrary: xs')
  case Nil
  then show ?case by (cases xs') auto
next
  case (Cons x xs)
  then show ?case by (cases xs') auto
qed

text \<open>The id determines the counter, so ids only repeat after the counter has gone all the way round.\<close>

lemma sign_request_id_inj:
  assumes "sign_request_id c t = sign_request_id c' t'"
  shows "c = c' \<and> t = t'"
proof -
  have "show_nat (unat c) @ CHR ''-'' # show_nat t = show_nat (unat c') @ CHR ''-'' # show_nat t'"
    using assms by (simp add: sign_request_id_def)
  then have "unat c = unat c' \<and> t = t'"
    using split_at_dash dash_not_in_number by (metis show_nat_inj)
  then show ?thesis by (simp add: word_unat_eq_iff)
qed

lemma step_counter: "ap_request_counter (ap_step h k2 e s) = ap_request_counter s \<or>
    ap_request_counter (ap_step h k2 e s) = ap_request_counter s + 1"
proof (cases e)
  case (ApSignBegin t a info)
  then show ?thesis
    by (auto simp: sign_begin_def pending_insert_def Let_def split: option.split sum.split)
next
  case (ApMessage m w)
  then show ?thesis by (simp add: try_send_message_def split: option.split)
next
  case (ApSignal d a m)
  then show ?thesis by (simp add: send_signal_fst try_send_message_def split: option.split)
qed (simp_all add: ap_connect_def ap_receive_def ap_disconnect_def ap_register_def ap_unregister_def
  ap_unregister_all_def ap_deliver_signature_def pending_remove_def)

lemma enroll_counter:
  "Enroll k \<in> set (table_events h k2 es s) \<Longrightarrow>
     \<exists>j t. j < length es \<and> k = sign_request_id (ap_request_counter s + of_nat j) t"
proof (induction es arbitrary: s)
  case (Cons e es)
  from Cons.prems consider "Enroll k \<in> set (table_event e s)"
    | "Enroll k \<in> set (table_events h k2 es (ap_step h k2 e s))" by auto
  then show ?case
  proof cases
    case 1
    then obtain t where "k = sign_request_id (ap_request_counter s) t"
      by (auto simp: table_event_def split: ap_event.splits option.splits)
    then show ?thesis by (intro exI [of _ 0] exI [of _ t]) simp
  next
    case 2
    then obtain j t where j: "j < length es"
        "k = sign_request_id (ap_request_counter (ap_step h k2 e s) + of_nat j) t"
      using Cons.IH by blast
    from step_counter [of h k2 e s] show ?thesis
    proof
      assume "ap_request_counter (ap_step h k2 e s) = ap_request_counter s"
      with j show ?thesis by (metis length_Cons less_Suc_eq)
    next
      assume "ap_request_counter (ap_step h k2 e s) = ap_request_counter s + 1"
      with j have "k = sign_request_id (ap_request_counter s + of_nat (Suc j)) t" by (simp add: ac_simps)
      with j(1) show ?thesis by (intro exI [of _ "Suc j"] exI [of _ t]) simp
    qed
  qed
qed simp

lemma later_ids_differ:
  assumes "Enroll (sign_request_id c t) \<in> set (table_events h k2 es s)"
    and "ap_request_counter s = c + 1" and "length es < 2 ^ 64"
  shows False
proof -
  obtain j t' where j: "j < length es" "sign_request_id c t = sign_request_id (c + 1 + of_nat j) t'"
    using enroll_counter [OF assms(1)] assms(2) by auto
  then have "(of_nat (Suc j) :: u64) = 0" using sign_request_id_inj [OF j(2)] by (simp add: ac_simps)
  then have "unat (of_nat (Suc j) :: u64) = 0" by (simp only: unat_0)
  moreover have "unat (of_nat (Suc j) :: u64) = Suc j"
    using j(1) assms(3) by (simp add: unsigned_of_nat take_bit_nat_eq_self del: of_nat_Suc)
  ultimately show False by simp
qed

section \<open>Properties\<close>

fun decides :: "string \<Rightarrow> ap_event \<Rightarrow> bool" where
  "decides k (ApDeliver k' r) \<longleftrightarrow> k' = k"
| "decides k (ApWithdraw k') \<longleftrightarrow> k' = k"
| "decides k _ \<longleftrightarrow> False"

definition decision :: "ap_event option \<Rightarrow> sign_result oneshot" where
  "decision e = (case e of None \<Rightarrow> Pending | Some (ApDeliver _ r) \<Rightarrow> Sent r | Some _ \<Rightarrow> Cancelled)"

lemma decision_simps [simp]: "decision None = Pending" "decision (Some (ApDeliver k r)) = Sent r"
  "decision (Some (ApWithdraw k)) = Cancelled"
  by (simp_all add: decision_def)

lemma find_table_event:
  assumes "Enroll k \<notin> set (table_events h k2 es s)"
  shows "(case find (\<lambda>e. event_key e = k) (table_events h k2 es s) of
      None \<Rightarrow> Pending | Some e \<Rightarrow> event_outcome e) = decision (find (decides k) es)"
  using assms
proof (induction es arbitrary: s)
  case (Cons e es)
  then have IH: "(case find (\<lambda>e. event_key e = k) (table_events h k2 es (ap_step h k2 e s)) of
      None \<Rightarrow> Pending | Some e \<Rightarrow> event_outcome e) = decision (find (decides k) es)" by simp
  from Cons.prems have "Enroll k \<notin> set (table_event e s)" by simp
  moreover have none: "(\<forall>u. Some u \<noteq> x) \<longleftrightarrow> x = None" for x :: "ws_sender option" by (cases x) auto
  ultimately show ?case using IH
    by (cases e) (auto simp: table_event_def none split: option.split_asm option.split)
qed simp

lemma sign_begin_sending:
  assumes "sign_begin h k2 t dbg a info s = (s1, SignSending k c w m)"
  shows "k = sign_request_id (ap_request_counter s) t" and "c = length (ap_heap s)"
    and "s1 = pending_insert k (s\<lparr>ap_request_counter := ap_request_counter s + 1\<rparr>)"
    and "ap_find_sender_for_agent a s = Some w"
    and "\<exists>v. agent_info_json k2 info = Inr v \<and> m = SmSignAgentInfo k (agent_to_string h a) v"
  using assms by (auto simp: sign_begin_def Let_def split: option.splits sum.splits)

text \<open>C19. A signing request is decided by the first answer or withdrawal that carries its own id,
  whatever other requests, answers, signals and connections come in between (fewer than \<open>2 ^ 64\<close> of
  them): until then it is pending, an answer under another id never reaches it, and a second answer
  has no effect.\<close>

theorem sign_request_first_answer:
  assumes "signs_ok s" and "sign_begin h k2 t dbg a info s = (s1, SignSending k c w m)"
    and "length es < 2 ^ 64"
  shows "os_state (ap_heap (ap_run h k2 es s1)) c = decision (find (decides k) es)"
proof -
  let ?s = "s\<lparr>ap_request_counter := ap_request_counter s + 1\<rparr>"
  note b = sign_begin_sending [OF assms(2)]
  have pend: "pending_of ?s = pending_of s" by (simp add: pending_of_def)
  have s1: "pending_of s1 = table_enroll k (pending_of s)"
    by (simp add: b(3) pending_insert_def pend)
  have ok: "senders_ok (fst (pending_of s)) (snd (pending_of s))"
    using assms(1) by (simp add: signs_ok_def)
  have counter: "ap_request_counter s1 = ap_request_counter s + 1"
    by (simp add: b(3) pending_insert_def)
  have fresh: "Enroll k \<notin> set (table_events h k2 es s1)"
    using later_ids_differ [OF _ counter assms(3)] unfolding b(1) by blast
  have "os_state (snd (senders.run (table_events h k2 es s1) (table_enroll k (pending_of s))))
      (length (snd (pending_of s))) = decision (find (decides k) es)"
    using senders.first_event_decides [OF ok] find_table_event [OF fresh] by simp
  then have "os_state (snd (pending_of (ap_run h k2 es s1))) (length (snd (pending_of s))) =
      decision (find (decides k) es)"
    unfolding ap_run_pending s1 .
  then show ?thesis by (simp only: pending_sel b(2))
qed

definition conn_a :: ws_sender where "conn_a = WsSender 0"

definition one_agent :: agent_proxy where
  "one_agent = ap_register dna_a agent_a conn_a (ap_connect conn_a ap_new)"

definition sample_info :: agent_info where
  "sample_info = \<lparr>ai_agent = AgentId [1], ai_space = SpaceId [7], ai_created_at = 0, ai_expires_at = 10,
     ai_is_tombstone = False, ai_url = None, ai_storage_arc = ArcEmpty\<rparr>"

lemma one_agent_ok: "signs_ok one_agent"
  by (simp add: signs_ok_def senders_ok_def one_agent_def ap_register_def ap_connect_def ap_new_def)

definition first_id :: string where "first_id = sign_request_id 0 5"

lemma one_agent_begin: "\<exists>s1. sign_begin plain_holo_hash plain_k2 5 [] agent_a sample_info one_agent =
   (s1, SignSending first_id 0 conn_a (SmSignAgentInfo first_id (agent_to_string plain_holo_hash agent_a) JNull))"
  by (simp add: sign_begin_def one_agent_def ap_find_sender_for_agent_def ap_register_def ap_connect_def
    ap_new_def hm_insert_def hm_remove_def plain_k2_def Let_def first_id_def)

lemma first_id_not_other: "first_id \<noteq> ''other''"
  by (simp add: first_id_def sign_request_id_def)

lemma sign_request_first_answer_witness:
  "\<exists>s1. os_state (ap_heap (ap_run plain_holo_hash plain_k2
     [ApDeliver ''other'' (Inr [9]), ApSignal dna_a agent_a (SmPong 0), ApDeliver first_id (Inr [1]),
      ApDeliver first_id (Inr [2])] s1)) 0 = Sent (Inr [1])"
proof -
  obtain s1 where s1: "sign_begin plain_holo_hash plain_k2 5 [] agent_a sample_info one_agent =
     (s1, SignSending first_id 0 conn_a (SmSignAgentInfo first_id (agent_to_string plain_holo_hash agent_a) JNull))"
    using one_agent_begin by blast
  show ?thesis
    using sign_request_first_answer [OF one_agent_ok s1, of "[ApDeliver ''other'' (Inr [9]),
        ApSignal dna_a agent_a (SmPong 0), ApDeliver first_id (Inr [1]), ApDeliver first_id (Inr [2])]"]
      first_id_not_other by (intro exI [of _ s1]) auto
qed

text \<open>What sending into a channel does, and that no event lets a queue outgrow its channel.\<close>

definition queues_bounded :: "agent_proxy \<Rightarrow> bool" where
  "queues_bounded s \<longleftrightarrow> (\<forall>w ch. hm_get (ap_channels s) w = Some ch \<longrightarrow> length (ch_queue ch) \<le> channel_capacity)"

lemma try_send_bounded: "queues_bounded s \<Longrightarrow> queues_bounded (fst (try_send_message m w s))"
  by (auto simp: try_send_message_def queues_bounded_def split: option.split if_splits)

lemma other_events_channels:
  "ap_channels (ap_register d a w s) = ap_channels s" "ap_channels (ap_unregister d a s) = ap_channels s"
  "ap_channels (ap_unregister_all w s) = ap_channels s"
  "ap_channels (ap_deliver_signature k r s) = ap_channels s" "ap_channels (pending_remove k s) = ap_channels s"
  "ap_channels (fst (sign_begin h k2 t dbg a info s)) = ap_channels s"
  by (simp_all add: ap_register_def ap_unregister_def ap_unregister_all_def ap_deliver_signature_def
    pending_remove_def sign_begin_def pending_insert_def Let_def split: option.split sum.split)

lemma step_bounded:
  assumes s: "queues_bounded s"
  shows "queues_bounded (ap_step h k2 e s)"
proof (cases e)
  case (ApConnect w)
  with s show ?thesis by (simp add: queues_bounded_def ap_connect_def)
next
  case (ApReceive w)
  with s show ?thesis by (fastforce simp: queues_bounded_def ap_receive_def)
next
  case (ApDisconnect w)
  with s show ?thesis by (auto simp: queues_bounded_def ap_disconnect_def)
next
  case (ApSignal d a m)
  with s show ?thesis by (simp add: send_signal_fst try_send_bounded split: option.split)
next
  case (ApMessage m w)
  with s show ?thesis by (simp add: try_send_bounded)
qed (use s in \<open>simp_all add: queues_bounded_def other_events_channels\<close>)

text \<open>A signal is delivered to exactly the connection the agent is registered with for that DNA:
  the answer is true when that connection is open and its queue has room, then the signal is
  appended to that queue and nothing else changes; otherwise the answer is false and nothing
  changes at all.\<close>

lemma send_signal_delivers:
  "ap_send_signal d a m s =
     (case hm_get (ap_registrations s) (reg_key d a) of
        None \<Rightarrow> (s, False)
      | Some w \<Rightarrow> (case hm_get (ap_channels s) w of
           None \<Rightarrow> (s, False)
         | Some ch \<Rightarrow>
             if ch_open ch \<and> length (ch_queue ch) < 32
             then (s\<lparr>ap_channels := hm_insert w (ch\<lparr>ch_queue := ch_queue ch @ [m]\<rparr>) (ap_channels s)\<rparr>, True)
             else (s, False)))"
  by (auto simp: ap_send_signal_def try_send_message_def channel_capacity_def split: option.split)

section \<open>What reaches a browser\<close>

text \<open>Who is registered where, read off the calls that were made.\<close>

fun registered_by :: "ap_event \<Rightarrow> (dna_hash \<times> agent_pubkey \<Rightarrow> ws_sender option) \<Rightarrow>
    dna_hash \<times> agent_pubkey \<Rightarrow> ws_sender option" where
  "registered_by (ApRegister d a w) f = f((d, a) := Some w)"
| "registered_by (ApUnregister d a) f = f((d, a) := None)"
| "registered_by (ApUnregisterAll w) f = (\<lambda>k. if f k = Some w then None else f k)"
| "registered_by _ f = f"

text \<open>The messages the calls address to a connection: signals to an agent registered with it at that
  moment, and what is sent on it directly (its replies and its signing requests).\<close>

fun addressed_to :: "ws_sender \<Rightarrow> ap_event list \<Rightarrow> (dna_hash \<times> agent_pubkey \<Rightarrow> ws_sender option) \<Rightarrow> server_message list" where
  "addressed_to w [] f = []"
| "addressed_to w (e # es) f = (case e of
     ApSignal d a m \<Rightarrow> if f (d, a) = Some w then [m] else []
   | ApMessage m v \<Rightarrow> if v = w then [m] else []
   | _ \<Rightarrow> []) @ addressed_to w es (registered_by e f)"

definition queue_of :: "ws_sender \<Rightarrow> agent_proxy \<Rightarrow> server_message list" where
  "queue_of w s = (case hm_get (ap_channels s) w of None \<Rightarrow> [] | Some ch \<Rightarrow> ch_queue ch)"

definition has_room :: "ws_sender \<Rightarrow> agent_proxy \<Rightarrow> bool" where
  "has_room w s = (case hm_get (ap_channels s) w of
     None \<Rightarrow> False | Some ch \<Rightarrow> ch_open ch \<and> length (ch_queue ch) < channel_capacity)"

text \<open>What the connection's sending task takes from its queue and writes to the browser.\<close>

fun received_by :: "holo_hash_api \<Rightarrow> k2_api \<Rightarrow> ws_sender \<Rightarrow> ap_event list \<Rightarrow> agent_proxy \<Rightarrow> server_message list" where
  "received_by h k2 w [] s = []"
| "received_by h k2 w (e # es) s =
     (if e = ApReceive w then take 1 (queue_of w s) else []) @ received_by h k2 w es (ap_step h k2 e s)"

text \<open>The connection stays up and never has more than its channel holds waiting.\<close>

fun keeps_up :: "holo_hash_api \<Rightarrow> k2_api \<Rightarrow> ws_sender \<Rightarrow> ap_event list \<Rightarrow> agent_proxy \<Rightarrow> bool" where
  "keeps_up h k2 w [] s = True"
| "keeps_up h k2 w (e # es) s = (e \<noteq> ApConnect w \<and> e \<noteq> ApDisconnect w \<and> has_room w s \<and>
     keeps_up h k2 w es (ap_step h k2 e s))"

definition registry_of :: "agent_proxy \<Rightarrow> dna_hash \<times> agent_pubkey \<Rightarrow> ws_sender option" where
  "registry_of s k = hm_get (ap_registrations s) (reg_key (fst k) (snd k))"

lemma try_send_registrations [simp]:
  "ap_registrations (fst (try_send_message m w s)) = ap_registrations s"
  by (simp add: try_send_message_def split: option.split)

lemma sign_begin_registrations [simp]:
  "ap_registrations (fst (sign_begin h k2 t dbg a info s)) = ap_registrations s"
  by (auto simp: sign_begin_def pending_insert_def Let_def split: option.split sum.split)

lemma step_wf: "hm_wf (ap_registrations s) \<Longrightarrow> hm_wf (ap_registrations (ap_step h k2 e s))"
  by (cases e) (simp_all add: send_signal_fst ap_connect_def ap_receive_def ap_disconnect_def ap_register_def
    ap_unregister_def ap_unregister_all_def ap_deliver_signature_def pending_remove_def split: option.split)

lemma step_registry:
  assumes "hm_wf (ap_registrations s)"
  shows "registry_of (ap_step h k2 e s) = registered_by e (registry_of s)"
  using assms
  by (cases e) (auto simp: registry_of_def fun_eq_iff send_signal_fst ap_connect_def ap_receive_def ap_disconnect_def
    ap_register_def ap_unregister_def ap_unregister_all_def ap_deliver_signature_def pending_remove_def
    hm_get_retain map_retain_def same_channel_def split: option.split)

lemma try_send_queue: "queue_of w (fst (try_send_message m v s)) =
    queue_of w s @ (if v = w \<and> has_room w s then [m] else [])"
  by (auto simp: try_send_message_def queue_of_def has_room_def split: option.split)

text \<open>What one event does to the queue of a connection.\<close>

lemma step_queue:
  "queue_of w (ap_step h k2 e s) =
     (if e = ApConnect w \<or> e = ApDisconnect w then []
      else (if e = ApReceive w then tl (queue_of w s) else queue_of w s) @
        (if has_room w s then addressed_to w [e] (registry_of s) else []))"
proof (cases e)
  case (ApSignal d a m)
  then show ?thesis by (auto simp: send_signal_fst registry_of_def try_send_queue split: option.split)
next
  case (ApMessage m v)
  then show ?thesis by (simp add: try_send_queue)
next
  case (ApReceive v)
  then show ?thesis by (cases "hm_get (ap_channels s) w") (simp_all add: queue_of_def ap_receive_def map_update_values_def)
next
  case (ApDisconnect v)
  then show ?thesis
    by (cases "hm_get (ap_channels s) w") (simp_all add: queue_of_def ap_disconnect_def map_update_values_def)
qed (auto simp: queue_of_def ap_connect_def other_events_channels split: option.split)

text \<open>C38. Messages reach only the connection they are for, whatever the calls and connections in between:
  what a connection's browser is sent, followed by what is still waiting for it, are messages the calls
  addressed to it (signals for a DNA and agent registered with this connection at that moment, by the last
  registration that was not undone; its own replies and signing requests), each once and in their order.
  When the connection stays up with room in its queue, they are all of them: nothing is lost.\<close>

theorem messages_reach_their_connection:
  assumes "hm_wf (ap_registrations s)"
  shows "subseq (received_by h k2 w es s @ queue_of w (ap_run h k2 es s)) (queue_of w s @ addressed_to w es (registry_of s)) \<and>
    (keeps_up h k2 w es s \<longrightarrow>
       received_by h k2 w es s @ queue_of w (ap_run h k2 es s) = queue_of w s @ addressed_to w es (registry_of s))"
  using assms
proof (induction es arbitrary: s)
  case Nil
  show ?case by (simp add: ap_run_def)
next
  case (Cons e es)
  let ?s = "ap_step h k2 e s" and ?later = "addressed_to w es (registered_by e (registry_of s))"
  let ?new = "addressed_to w [e] (registry_of s)"
  let ?rest = "received_by h k2 w es ?s @ queue_of w (ap_run h k2 es ?s)"
  have IH: "subseq ?rest (queue_of w ?s @ ?later)" "keeps_up h k2 w es ?s \<Longrightarrow> ?rest = queue_of w ?s @ ?later"
    using Cons.IH [OF step_wf [OF Cons.prems]] step_registry [OF Cons.prems] by metis+
  have run: "ap_run h k2 (e # es) s = ap_run h k2 es ?s" by (simp add: ap_run_def)
  have head: "(if e = ApReceive w then take 1 (queue_of w s) else []) @ (if e = ApReceive w then tl (queue_of w s) else queue_of w s) =
      queue_of w s" by (cases "queue_of w s") simp_all
  have sub: "subseq ((if e = ApReceive w then take 1 (queue_of w s) else []) @ queue_of w ?s) (queue_of w s @ ?new)"
    unfolding step_queue using head by (cases "queue_of w s") auto
  have "subseq ((if e = ApReceive w then take 1 (queue_of w s) else []) @ ?rest)
      ((if e = ApReceive w then take 1 (queue_of w s) else []) @ queue_of w ?s @ ?later)"
    using IH(1) by (simp add: subseq_append')
  also have "subseq \<dots> (queue_of w s @ ?new @ ?later)"
    using list_emb_append_mono [OF sub, of ?later ?later] by simp
  finally have "subseq (received_by h k2 w (e # es) s @ queue_of w (ap_run h k2 (e # es) s))
      (queue_of w s @ addressed_to w (e # es) (registry_of s))" by (simp add: run)
  moreover have "received_by h k2 w (e # es) s @ queue_of w (ap_run h k2 (e # es) s) =
      queue_of w s @ addressed_to w (e # es) (registry_of s)" if up: "keeps_up h k2 w (e # es) s"
  proof -
    have "queue_of w ?s = (if e = ApReceive w then tl (queue_of w s) else queue_of w s) @ ?new"
      using up step_queue [of w h k2 e s] by simp
    with IH(2) up head show ?thesis by (simp add: run)
  qed
  ultimately show ?case by blast
qed

definition conn_b :: ws_sender where "conn_b = WsSender 1"

definition moved_agent :: "ap_event list" where
  "moved_agent = [ApRegister dna_a agent_a conn_a, ApSignal dna_a agent_a (SmPong 1),
     ApRegister dna_a agent_a conn_b, ApSignal dna_a agent_a (SmPong 2), ApReceive conn_b,
     ApUnregisterAll conn_a, ApSignal dna_a agent_a (SmPong 3), ApUnregisterAll conn_b, ApSignal dna_a agent_a (SmPong 4)]"

text \<open>An agent that connects anew is sent what comes after, on its new connection only.\<close>

lemma messages_reach_their_connection_witness:
  "received_by plain_holo_hash plain_k2 conn_b moved_agent (ap_connect conn_b (ap_connect conn_a ap_new)) @
     queue_of conn_b (ap_run plain_holo_hash plain_k2 moved_agent (ap_connect conn_b (ap_connect conn_a ap_new))) =
   [SmPong 2, SmPong 3]"
proof -
  let ?s = "ap_connect conn_b (ap_connect conn_a ap_new)"
  have wf: "hm_wf (ap_registrations ?s)" by (simp add: ap_connect_def ap_new_def)
  have queue: "queue_of conn_b ?s = []" by (simp add: queue_of_def ap_connect_def)
  have none: "registry_of ?s = (\<lambda>_. None)" by (simp add: registry_of_def fun_eq_iff ap_connect_def ap_new_def)
  have addressed: "addressed_to conn_b moved_agent (registry_of ?s) = [SmPong 2, SmPong 3]"
    by (simp add: none moved_agent_def conn_a_def conn_b_def)
  have up: "keeps_up plain_holo_hash plain_k2 conn_b moved_agent ?s"
    by (simp add: moved_agent_def has_room_def ap_connect_def ap_new_def ap_register_def ap_unregister_all_def
      ap_receive_def send_signal_delivers hm_insert_def hm_remove_def hm_get_Cons hm_update_values_def hm_retain_def
      conn_a_def conn_b_def same_channel_def channel_capacity_def)
  from messages_reach_their_connection [OF wf, of plain_holo_hash plain_k2 conn_b moved_agent] up
  show ?thesis by (simp add: addressed queue)
qed

end
