(* ===== verification/Wire.thy ===== *)
theory Wire imports Messages begin

text \<open>
  The wire types of \<open>holochain_p2p\<close> and \<open>holochain_types\<close> that the gateway takes apart: actions,
  records, the condensed answers to DHT queries, and the wire messages. Hashing, hash parsing and
  the codec of a message batch belong to those crates and are the parameters of \<open>wire_api\<close>;
  payloads the gateway only carries (entries, weights, signatures) are opaque bytes.
\<close>

section \<open>Hashes and opaque payloads\<close>

datatype action_hash = ActionHash bytes
datatype entry_hash = EntryHash bytes
datatype external_hash = ExternalHash bytes
datatype any_dht_hash = DhtEntry entry_hash | DhtAction action_hash
datatype any_linkable_hash =
    LinkableAgent agent_pubkey | LinkableEntry entry_hash
  | LinkableAction action_hash | LinkableExternal external_hash

datatype entry = Entry bytes
datatype entry_type = EntryType bytes
datatype weight = Weight bytes
type_synonym signature = bytes
type_synonym link_tag = bytes

datatype validation_status = Valid | Rejected | Abandoned

section \<open>Actions\<close>

record create_action =
  cr_author :: agent_pubkey
  cr_timestamp :: int
  cr_action_seq :: u32
  cr_prev_action :: action_hash
  cr_entry_type :: entry_type
  cr_entry_hash :: entry_hash
  cr_weight :: weight

record update_action =
  up_author :: agent_pubkey
  up_timestamp :: int
  up_action_seq :: u32
  up_prev_action :: action_hash
  up_original_action_address :: action_hash
  up_original_entry_address :: entry_hash
  up_entry_type :: entry_type
  up_entry_hash :: entry_hash
  up_weight :: weight

record delete_action =
  de_author :: agent_pubkey
  de_timestamp :: int
  de_action_seq :: u32
  de_prev_action :: action_hash
  de_deletes_address :: action_hash
  de_deletes_entry_address :: entry_hash
  de_weight :: weight

record create_link_action =
  cl_author :: agent_pubkey
  cl_timestamp :: int
  cl_action_seq :: u32
  cl_prev_action :: action_hash
  cl_base_address :: any_linkable_hash
  cl_target_address :: any_linkable_hash
  cl_zome_index :: "8 word"
  cl_link_type :: "8 word"
  cl_tag :: link_tag
  cl_weight :: weight

datatype action =
    ActCreate create_action
  | ActUpdate update_action
  | ActDelete delete_action
  | ActCreateLink create_link_action
  | ActOther bytes

record signed_action_hashed =
  sa_action :: action
  sa_hash :: action_hash
  sa_signature :: signature

record dht_record =
  re_signed_action :: signed_action_hashed
  re_entry :: "entry option"

section \<open>Condensed answers\<close>

record 'a judged =
  ju_data :: 'a
  ju_status :: "validation_status option"

record wire_create =
  wc_author :: agent_pubkey
  wc_timestamp :: int
  wc_action_seq :: u32
  wc_prev_action :: action_hash
  wc_weight :: weight
  wc_signature :: signature

record wire_update =
  wu_author :: agent_pubkey
  wu_timestamp :: int
  wu_action_seq :: u32
  wu_prev_action :: action_hash
  wu_original_entry_address :: entry_hash
  wu_original_action_address :: action_hash
  wu_weight :: weight
  wu_signature :: signature

datatype wire_new_entry_action = WireCreate wire_create | WireUpdate wire_update

record wire_delete =
  wd_delete :: delete_action
  wd_signature :: signature

record wire_update_relationship =
  wr_author :: agent_pubkey
  wr_timestamp :: int
  wr_action_seq :: u32
  wr_prev_action :: action_hash
  wr_original_action_address :: action_hash
  wr_new_entry_address :: entry_hash
  wr_new_entry_type :: entry_type
  wr_weight :: weight
  wr_signature :: signature

record entry_data =
  ed_entry :: entry
  ed_entry_type :: entry_type

record wire_entry_ops =
  we_creates :: "wire_new_entry_action judged list"
  we_deletes :: "wire_delete judged list"
  we_updates :: "wire_update_relationship judged list"
  we_entry :: "entry_data option"

record signed_action =
  sn_action :: action
  sn_signature :: signature

record wire_record_ops =
  wo_action :: "signed_action judged option"
  wo_deletes :: "wire_delete judged list"
  wo_updates :: "wire_update_relationship judged list"
  wo_entry :: "entry option"

datatype wire_ops = OpsEntry wire_entry_ops | OpsRecord wire_record_ops | OpsWarrant bytes

record wire_create_link =
  wl_author :: agent_pubkey
  wl_timestamp :: int
  wl_action_seq :: u32
  wl_prev_action :: action_hash
  wl_target_address :: any_linkable_hash
  wl_zome_index :: "8 word"
  wl_link_type :: "8 word"
  wl_tag :: "link_tag option"
  wl_weight :: weight

record wire_link_ops =
  wk_creates :: "wire_create_link list"
  wk_deletes :: "bytes list"

datatype chain_status = ChainEmpty | ChainValid bytes | ChainForked bytes | ChainInvalid bytes

record agent_activity_response =
  aar_status :: chain_status
  aar_rest :: bytes

datatype must_get_response = MustActivity bytes | MustChainTopNotFound bytes | MustOther bytes

section \<open>Queries\<close>

datatype link_type_filter = FilterTypes "(byte \<times> byte list) list" | FilterDependencies "byte list"

record wire_link_key =
  lk_base :: any_linkable_hash
  lk_type_query :: link_type_filter
  lk_tag :: "link_tag option"
  lk_after :: "int option"
  lk_before :: "int option"
  lk_author :: "agent_pubkey option"

record wire_link_query =
  lq_base :: any_linkable_hash
  lq_link_type :: link_type_filter
  lq_tag_prefix :: "link_tag option"
  lq_before :: "int option"
  lq_after :: "int option"
  lq_author :: "agent_pubkey option"

record get_activity_options =
  go_include_valid_activity :: bool
  go_include_rejected_activity :: bool
  go_include_warrants :: bool
  go_include_full_records :: bool

datatype chain_query_filter = ChainQueryFilter bytes
datatype limit_conditions = ToGenesis | OtherLimit bytes

record chain_filter =
  cf_chain_top :: action_hash
  cf_limit_conditions :: limit_conditions
  cf_include_cached_entries :: bool

section \<open>Messages\<close>

text \<open>The vector \<open>CountLinksResponse::new\<close> takes: the actions counted. The linker only carries it.\<close>

datatype count_links_response = CountLinksResponse "action_hash list"

datatype wire_message =
    GetReq u64 agent_pubkey any_dht_hash
  | GetRes u64 wire_ops
  | GetLinksReq u64 agent_pubkey wire_link_key
  | GetLinksRes u64 wire_link_ops
  | CountLinksReq u64 agent_pubkey wire_link_query
  | CountLinksRes u64 count_links_response
  | GetAgentActivityReq u64 agent_pubkey agent_pubkey chain_query_filter get_activity_options
  | GetAgentActivityRes u64 agent_activity_response
  | MustGetAgentActivityReq u64 agent_pubkey agent_pubkey chain_filter
  | MustGetAgentActivityRes u64 must_get_response
  | ErrorRes u64 string
  | RemoteSignalEvt agent_pubkey bytes signature
  | OtherMessage "u64 option" bytes

text \<open>The id that ties an answer to its request; the messages without one are events.\<close>

definition get_msg_id :: "wire_message \<Rightarrow> u64 option" where
  "get_msg_id m = (case m of
     GetReq i _ _ \<Rightarrow> Some i | GetRes i _ \<Rightarrow> Some i
   | GetLinksReq i _ _ \<Rightarrow> Some i | GetLinksRes i _ \<Rightarrow> Some i
   | CountLinksReq i _ _ \<Rightarrow> Some i | CountLinksRes i _ \<Rightarrow> Some i
   | GetAgentActivityReq i _ _ _ _ \<Rightarrow> Some i | GetAgentActivityRes i _ \<Rightarrow> Some i
   | MustGetAgentActivityReq i _ _ _ \<Rightarrow> Some i | MustGetAgentActivityRes i _ \<Rightarrow> Some i
   | ErrorRes i _ \<Rightarrow> Some i | RemoteSignalEvt _ _ _ \<Rightarrow> None | OtherMessage i _ \<Rightarrow> i)"

section \<open>The crates' functions\<close>

record wire_api =
  hash_action :: "action \<Rightarrow> action_hash"
  hash_entry :: "entry \<Rightarrow> entry_hash"
  action_entry_data :: "action \<Rightarrow> (entry_hash \<times> entry_type) option"
  entry_try_from :: "string \<Rightarrow> string + entry_hash"
  action_try_from :: "string \<Rightarrow> string + action_hash"
  external_try_from :: "string \<Rightarrow> string + external_hash"
  dht_loc :: "any_dht_hash \<Rightarrow> u32"
  linkable_loc :: "any_linkable_hash \<Rightarrow> u32"
  agent_loc :: "agent_pubkey \<Rightarrow> u32"
  arc_contains :: "dht_arc \<Rightarrow> u32 \<Rightarrow> bool"
  new_chain_query :: chain_query_filter
  agent_from_k2 :: "agent_id \<Rightarrow> agent_pubkey"
  encode_batch :: "wire_message list \<Rightarrow> string + bytes"
  decode_batch :: "bytes \<Rightarrow> string + wire_message list"
  signature_try_from :: "bytes \<Rightarrow> string + signature"
  show_message :: "wire_message \<Rightarrow> string"

definition plain_wire :: wire_api where
  "plain_wire = \<lparr>hash_action = (\<lambda>a. case a of
       ActCreate c \<Rightarrow> ActionHash (0 # (case cr_prev_action c of ActionHash b \<Rightarrow> b))
     | ActUpdate u \<Rightarrow> ActionHash (1 # (case up_prev_action u of ActionHash b \<Rightarrow> b))
     | ActDelete d \<Rightarrow> ActionHash (2 # (case de_prev_action d of ActionHash b \<Rightarrow> b))
     | ActCreateLink l \<Rightarrow> ActionHash (3 # (case cl_prev_action l of ActionHash b \<Rightarrow> b))
     | ActOther b \<Rightarrow> ActionHash (4 # b)),
     hash_entry = (\<lambda>e. case e of Entry b \<Rightarrow> EntryHash b),
     action_entry_data = (\<lambda>a. case a of
       ActCreate c \<Rightarrow> Some (cr_entry_hash c, cr_entry_type c)
     | ActUpdate u \<Rightarrow> Some (up_entry_hash u, up_entry_type u) | _ \<Rightarrow> None),
     entry_try_from = (\<lambda>s. if take 1 s = ''e'' then Inr (EntryHash (bytes_of_text (drop 1 s))) else Inl ''''),
     action_try_from = (\<lambda>s. if take 1 s = ''c'' then Inr (ActionHash (bytes_of_text (drop 1 s))) else Inl ''''),
     external_try_from = (\<lambda>s. if take 1 s = ''x'' then Inr (ExternalHash (bytes_of_text (drop 1 s))) else Inl ''''),
     dht_loc = (\<lambda>_. 0), linkable_loc = (\<lambda>_. 0), agent_loc = (\<lambda>_. 0),
     arc_contains = (\<lambda>a l. case a of ArcEmpty \<Rightarrow> False | Arc b e \<Rightarrow> b \<le> l \<and> l \<le> e),
     new_chain_query = ChainQueryFilter [],
     agent_from_k2 = (\<lambda>a. case a of AgentId b \<Rightarrow> AgentPubKey b),
     encode_batch = (\<lambda>_. Inr []), decode_batch = (\<lambda>_. Inr []),
     signature_try_from = (\<lambda>b. if length b = 64 then Inr b else Inl ''BadSignature''),
     show_message = (\<lambda>_. [])\<rparr>"

end
