(* ===== verification/Gateway_Kitsune.thy ===== *)
theory Gateway_Kitsune imports Agent_Proxy Wire begin

text \<open>
  The gateway's side of kitsune2 (\<open>src/gateway_kitsune.rs\<close>, \<open>src/proxy_agent.rs\<close>): the spaces and
  agents it has joined, remote signals, publishing, and the messages a space handler receives. The
  kitsune2 instance itself is the parameter \<open>network\<close>, a record of its calls on an abstract world;
  a space is known by its id. Joining makes kitsune2 ask for signatures on its own tasks, which are
  events of the agent proxy and not part of a join here. \<open>agent_join\<close>, \<open>agent_leave\<close> and
  \<open>get_or_create_space\<close> run here with nothing in between their awaits; \<open>Gateway_System\<close> cuts them there.
\<close>

section \<open>Proxy agents\<close>

record proxy_agent =
  pa_agent_id :: agent_id
  pa_agent_pubkey :: agent_pubkey
  pa_cur_arc :: dht_arc
  pa_tgt_arc :: dht_arc

definition proxy_agent_new :: "k2_api \<Rightarrow> agent_pubkey \<Rightarrow> proxy_agent" where
  "proxy_agent_new k2 a = \<lparr>pa_agent_id = AgentId (raw_32 k2 a), pa_agent_pubkey = a,
     pa_cur_arc = ArcEmpty, pa_tgt_arc = ArcEmpty\<rparr>"

text \<open>How kitsune2 sees the outcome of a remote signature.\<close>

definition proxy_agent_sign :: "sign_result \<Rightarrow> string + bytes" where
  "proxy_agent_sign r = (case r of
     Inl e \<Rightarrow> Inl (''Remote signing failed: '' @ e) | Inr signature \<Rightarrow> Inr signature)"

section \<open>The network\<close>

record 'w network =
  nw_space :: "space_id \<Rightarrow> 'w \<Rightarrow> 'w \<times> (string + unit)"
  nw_join :: "space_id \<Rightarrow> proxy_agent \<Rightarrow> 'w \<Rightarrow> 'w \<times> (string + unit)"
  nw_leave :: "space_id \<Rightarrow> agent_id \<Rightarrow> 'w \<Rightarrow> 'w"
  nw_peers :: "space_id \<Rightarrow> 'w \<Rightarrow> string + agent_info list"
  nw_local_agents :: "space_id \<Rightarrow> 'w \<Rightarrow> string + agent_id list"
  nw_peer :: "space_id \<Rightarrow> agent_id \<Rightarrow> 'w \<Rightarrow> string + agent_info option"
  nw_near :: "space_id \<Rightarrow> u32 \<Rightarrow> nat \<Rightarrow> 'w \<Rightarrow> string + agent_info list"
  nw_send_notify :: "space_id \<Rightarrow> url \<Rightarrow> bytes \<Rightarrow> 'w \<Rightarrow> 'w \<times> (string + unit)"
  nw_publish_ops :: "space_id \<Rightarrow> bytes list \<Rightarrow> url \<Rightarrow> 'w \<Rightarrow> 'w \<times> (string + unit)"

record 'w gateway =
  gk_spaces :: "(dna_hash, space_id) hashmap"
  gk_agents :: "(dna_hash \<times> agent_pubkey, proxy_agent) hashmap"
  gk_world :: 'w

definition gk_new :: "'w \<Rightarrow> 'w gateway" where
  "gk_new w = \<lparr>gk_spaces = [], gk_agents = [], gk_world = w\<rparr>"

section \<open>Spaces and agents\<close>

definition get_or_create_space ::
    "k2_api \<Rightarrow> 'w network \<Rightarrow> dna_hash \<Rightarrow> 'w gateway \<Rightarrow> 'w gateway \<times> (string + space_id)" where
  "get_or_create_space k2 net d g = (case hm_get (gk_spaces g) d of
     Some sp \<Rightarrow> (g, Inr sp)
   | None \<Rightarrow> (let sp = dna_to_space k2 d in
       case nw_space net sp (gk_world g) of
         (w, Inl e) \<Rightarrow> (g\<lparr>gk_world := w\<rparr>, Inl (''Failed to create space: '' @ e))
       | (w, Inr _) \<Rightarrow> (g\<lparr>gk_world := w, gk_spaces := hm_insert d sp (gk_spaces g)\<rparr>, Inr sp)))"

definition agent_join ::
    "k2_api \<Rightarrow> 'w network \<Rightarrow> dna_hash \<Rightarrow> agent_pubkey \<Rightarrow> 'w gateway \<Rightarrow> 'w gateway \<times> (string + unit)" where
  "agent_join k2 net d a g =
     (if hm_contains (gk_agents g) (d, a) then (g, Inr ())
      else case get_or_create_space k2 net d g of
        (g1, Inl e) \<Rightarrow> (g1, Inl e)
      | (g1, Inr sp) \<Rightarrow> (let pa = proxy_agent_new k2 a in
          case nw_join net sp pa (gk_world g1) of
            (w, Inl e) \<Rightarrow> (g1\<lparr>gk_world := w\<rparr>, Inl (''Failed to join agent to space: '' @ e))
          | (w, Inr _) \<Rightarrow> (g1\<lparr>gk_world := w, gk_agents := hm_insert (d, a) pa (gk_agents g1)\<rparr>, Inr ())))"

definition maybe_cleanup_space :: "dna_hash \<Rightarrow> 'w gateway \<Rightarrow> 'w gateway" where
  "maybe_cleanup_space d g =
     (if list_ex (\<lambda>e. fst (fst e) = d) (gk_agents g) then g
      else g\<lparr>gk_spaces := hm_remove d (gk_spaces g)\<rparr>)"

definition agent_leave ::
    "k2_api \<Rightarrow> 'w network \<Rightarrow> dna_hash \<Rightarrow> agent_pubkey \<Rightarrow> 'w gateway \<Rightarrow> 'w gateway" where
  "agent_leave k2 net d a g =
     (if \<not> hm_contains (gk_agents g) (d, a) then g
      else (let g1 = g\<lparr>gk_agents := hm_remove (d, a) (gk_agents g)\<rparr>;
                g2 = (case hm_get (gk_spaces g1) d of
                        None \<Rightarrow> g1
                      | Some sp \<Rightarrow> g1\<lparr>gk_world := nw_leave net sp (AgentId (raw_32 k2 a)) (gk_world g1)\<rparr>)
            in maybe_cleanup_space d g2))"

definition gk_shutdown :: "k2_api \<Rightarrow> 'w network \<Rightarrow> 'w gateway \<Rightarrow> 'w gateway" where
  "gk_shutdown k2 net g = fold (\<lambda>k. agent_leave k2 net (fst k) (snd k)) (map fst (gk_agents g)) g"

definition agent_count :: "'w gateway \<Rightarrow> nat" where
  "agent_count g = length (gk_agents g)"

definition space_count :: "'w gateway \<Rightarrow> nat" where
  "space_count g = length (gk_spaces g)"

definition is_agent_joined :: "dna_hash \<Rightarrow> agent_pubkey \<Rightarrow> 'w gateway \<Rightarrow> bool" where
  "is_agent_joined d a g \<longleftrightarrow> hm_contains (gk_agents g) (d, a)"

definition peer_count :: "'w network \<Rightarrow> 'w gateway \<Rightarrow> nat" where
  "peer_count net g = fold (\<lambda>e total. case nw_peers net (snd e) (gk_world g) of
      Inr peers \<Rightarrow> total + length peers | Inl _ \<Rightarrow> total) (gk_spaces g) 0"

section \<open>Remote signals\<close>

definition remote_signal :: "holo_hash_api \<Rightarrow> k2_api \<Rightarrow> dna_hash \<Rightarrow> agent_pubkey \<Rightarrow> bytes \<Rightarrow> server_message" where
  "remote_signal h k2 d a params =
     SmSignal (dna_to_string h d) (agent_to_string h a) ''remote'' ''recv_remote_signal'' (base64_encode k2 params)"

definition zero_signature :: signature where
  "zero_signature = replicate 64 0"

definition signal_over_network :: "k2_api \<Rightarrow> wire_api \<Rightarrow> 'w network \<Rightarrow> dna_hash \<Rightarrow> agent_pubkey \<Rightarrow>
    signed_remote_signal_input \<Rightarrow> 'w gateway \<Rightarrow> 'w gateway \<times> bool" where
  "signal_over_network k2 wa net d target sig g =
     (case get_or_create_space k2 net d g of
        (g1, Inl _) \<Rightarrow> (g1, False)
      | (g1, Inr sp) \<Rightarrow>
          (case nw_peer net sp (AgentId (raw_32 k2 target)) (gk_world g1) of
             Inr (Some info) \<Rightarrow> (case ai_url info of
               None \<Rightarrow> (g1, False)
             | Some to_url \<Rightarrow>
                 (let signature = (case signature_try_from wa (ss_signature sig) of
                        Inl _ \<Rightarrow> zero_signature | Inr s \<Rightarrow> s)
                  in case encode_batch wa [RemoteSignalEvt target (ss_zome_call_params sig) signature] of
                       Inl _ \<Rightarrow> (g1, False)
                     | Inr encoded \<Rightarrow> (case nw_send_notify net sp to_url encoded (gk_world g1) of
                          (w, Inl _) \<Rightarrow> (g1\<lparr>gk_world := w\<rparr>, False)
                        | (w, Inr _) \<Rightarrow> (g1\<lparr>gk_world := w\<rparr>, True))))
           | _ \<Rightarrow> (g1, False)))"

definition send_remote_signal :: "holo_hash_api \<Rightarrow> k2_api \<Rightarrow> wire_api \<Rightarrow> 'w network \<Rightarrow> dna_hash \<Rightarrow>
    signed_remote_signal_input \<Rightarrow> agent_proxy \<times> 'w gateway \<Rightarrow> (agent_proxy \<times> 'w gateway) \<times> bool" where
  "send_remote_signal h k2 wa net d sig st = (case st of (p, g) \<Rightarrow>
     (case agent_from_raw_39 k2 (ss_target_agent sig) of
        Inl _ \<Rightarrow> ((p, g), False)
      | Inr target \<Rightarrow>
          (if ap_is_registered d target p
           then (case ap_send_signal d target (remote_signal h k2 d target (ss_zome_call_params sig)) p of
                   (p', sent) \<Rightarrow> ((p', g), sent))
           else (case signal_over_network k2 wa net d target sig g of
                   (g', sent) \<Rightarrow> ((p, g'), sent)))))"

fun send_remote_signals :: "holo_hash_api \<Rightarrow> k2_api \<Rightarrow> wire_api \<Rightarrow> 'w network \<Rightarrow> dna_hash \<Rightarrow>
    signed_remote_signal_input list \<Rightarrow> agent_proxy \<times> 'w gateway \<Rightarrow> (agent_proxy \<times> 'w gateway) \<times> (nat \<times> nat)" where
  "send_remote_signals h k2 wa net d [] st = (st, (0, 0))"
| "send_remote_signals h k2 wa net d (sig # sigs) st =
     (case send_remote_signal h k2 wa net d sig st of (st1, sent) \<Rightarrow>
      (case send_remote_signals h k2 wa net d sigs st1 of (st2, (ok, bad)) \<Rightarrow>
        (st2, if sent then (Suc ok, bad) else (ok, Suc bad))))"

section \<open>Publishing\<close>

fun publish_to :: "'w network \<Rightarrow> space_id \<Rightarrow> bytes list \<Rightarrow> url list \<Rightarrow> 'w \<Rightarrow> 'w \<times> nat" where
  "publish_to net sp ops [] w = (w, 0)"
| "publish_to net sp ops (u # us) w =
     (case nw_publish_ops net sp ops u w of (w1, r) \<Rightarrow>
      (case publish_to net sp ops us w1 of (w2, n) \<Rightarrow>
        (w2, case r of Inl _ \<Rightarrow> n | Inr _ \<Rightarrow> Suc n)))"

definition publish_urls :: "agent_info list \<Rightarrow> url list" where
  "publish_urls agents = remdups (List.map_filter
     (\<lambda>info. if ai_is_tombstone info then None else ai_url info) agents)"

definition publish_ops :: "k2_api \<Rightarrow> 'w network \<Rightarrow> dna_hash \<Rightarrow> bytes list \<Rightarrow> u32 \<Rightarrow> 'w gateway \<Rightarrow>
    'w gateway \<times> (string + nat)" where
  "publish_ops k2 net d ops basis_loc g =
     (case get_or_create_space k2 net d g of
        (g1, Inl e) \<Rightarrow> (g1, Inl e)
      | (g1, Inr sp) \<Rightarrow>
     (case nw_peers net sp (gk_world g1) of
        Inl e \<Rightarrow> (g1, Inl (''Failed to get all peers: '' @ e))
      | Inr _ \<Rightarrow>
     (case nw_local_agents net sp (gk_world g1) of
        Inl e \<Rightarrow> (g1, Inl (''Failed to get local agents: '' @ e))
      | Inr _ \<Rightarrow>
     (case nw_near net sp basis_loc (2 ^ 64 - 1) (gk_world g1) of
        Inl e \<Rightarrow> (g1, Inl (''Failed to find peers: '' @ e))
      | Inr agents \<Rightarrow>
          (let urls = publish_urls agents in
           if urls = [] then (g1, Inr 0)
           else case publish_to net sp ops urls (gk_world g1) of
             (w, n) \<Rightarrow> (g1\<lparr>gk_world := w\<rparr>, Inr n))))))"

section \<open>Invariant\<close>

text \<open>A space is kept under its own DNA, and a joined agent has its space.\<close>

definition spaces_ok :: "k2_api \<Rightarrow> (dna_hash, space_id) hashmap \<Rightarrow> bool" where
  "spaces_ok k2 m \<longleftrightarrow> hm_wf m \<and> (\<forall>d. hm_get m d = None \<or> hm_get m d = Some (dna_to_space k2 d))"

definition agents_ok ::
    "(dna_hash, space_id) hashmap \<Rightarrow> (dna_hash \<times> agent_pubkey, proxy_agent) hashmap \<Rightarrow> bool" where
  "agents_ok sps m \<longleftrightarrow> hm_wf m \<and>
     (\<forall>d a. hm_get m (d, a) \<noteq> None \<longrightarrow> hm_get sps d \<noteq> None)"

definition gk_invar :: "k2_api \<Rightarrow> 'w gateway \<Rightarrow> bool" where
  "gk_invar k2 g \<longleftrightarrow> spaces_ok k2 (gk_spaces g) \<and> agents_ok (gk_spaces g) (gk_agents g)"

lemma gk_invar_world [simp]: "gk_invar k2 (g\<lparr>gk_world := w\<rparr>) = gk_invar k2 g"
  by (simp add: gk_invar_def)

lemma spaces_ok_insert: "spaces_ok k2 m \<Longrightarrow> spaces_ok k2 (hm_insert d (dna_to_space k2 d) m)"
  by (simp add: spaces_ok_def)

lemma spaces_ok_get: "spaces_ok k2 m \<Longrightarrow> hm_get m d = Some sp \<Longrightarrow> sp = dna_to_space k2 d"
  unfolding spaces_ok_def by (metis option.distinct(1) option.inject)

lemma agents_ok_space: "agents_ok sps m \<Longrightarrow> agents_ok (hm_insert d sp sps) m"
  by (simp add: agents_ok_def)

lemma agents_ok_get: "agents_ok sps m \<Longrightarrow> hm_get m (d, a) \<noteq> None \<Longrightarrow> hm_get sps d \<noteq> None"
  unfolding agents_ok_def by blast

lemma agents_ok_insert:
  assumes "agents_ok sps m" and "hm_get sps d \<noteq> None"
  shows "agents_ok sps (hm_insert (d, a) pa m)"
  unfolding agents_ok_def
proof (intro conjI allI impI)
  show "hm_wf (hm_insert (d, a) pa m)" using assms(1) by (simp add: agents_ok_def)
  fix d' b assume "hm_get (hm_insert (d, a) pa m) (d', b) \<noteq> None"
  then have "d' = d \<or> hm_get m (d', b) \<noteq> None" by (auto split: if_splits)
  with agents_ok_get [OF assms(1)] assms(2) show "hm_get sps d' \<noteq> None" by blast
qed

lemma get_or_create_cases:
  assumes "get_or_create_space k2 net d g = (g', r)"
  obtains (found) sp where "hm_get (gk_spaces g) d = Some sp" "g' = g" "r = Inr sp"
  | (failed) w e where "hm_get (gk_spaces g) d = None" "g' = g\<lparr>gk_world := w\<rparr>" "r = Inl e"
  | (made) w where "hm_get (gk_spaces g) d = None"
      "g' = g\<lparr>gk_world := w, gk_spaces := hm_insert d (dna_to_space k2 d) (gk_spaces g)\<rparr>"
      "r = Inr (dna_to_space k2 d)"
proof (cases "hm_get (gk_spaces g) d")
  case (Some sp)
  with assms have "g' = g" and "r = Inr sp" by (simp_all add: get_or_create_space_def)
  then show thesis by (rule found [OF Some])
next
  case None
  obtain w q where wq: "nw_space net (dna_to_space k2 d) (gk_world g) = (w, q)" by fastforce
  show thesis
  proof (cases q)
    case (Inl e)
    have "g' = g\<lparr>gk_world := w\<rparr>" and "r = Inl (''Failed to create space: '' @ e)"
      using None assms wq Inl by (simp_all add: get_or_create_space_def Let_def)
    then show thesis by (rule failed [OF None])
  next
    case (Inr u)
    have "g' = g\<lparr>gk_world := w, gk_spaces := hm_insert d (dna_to_space k2 d) (gk_spaces g)\<rparr>"
      and "r = Inr (dna_to_space k2 d)"
      using None assms wq Inr by (simp_all add: get_or_create_space_def Let_def)
    then show thesis by (rule made [OF None])
  qed
qed

lemma get_or_create_invar:
  assumes "gk_invar k2 g" and "get_or_create_space k2 net d g = (g', r)"
  shows "gk_invar k2 g'" and "gk_agents g' = gk_agents g"
    and "r = Inr sp \<Longrightarrow> hm_get (gk_spaces g') d = Some (dna_to_space k2 d)"
  using assms(2)
proof (atomize (full), cases rule: get_or_create_cases)
  case (found sp')
  with assms(1) show "gk_invar k2 g' \<and> gk_agents g' = gk_agents g \<and>
      (r = Inr sp \<longrightarrow> hm_get (gk_spaces g') d = Some (dna_to_space k2 d))"
    using spaces_ok_get by (auto simp: gk_invar_def)
next
  case (failed w e)
  with assms(1) show "gk_invar k2 g' \<and> gk_agents g' = gk_agents g \<and>
      (r = Inr sp \<longrightarrow> hm_get (gk_spaces g') d = Some (dna_to_space k2 d))" by simp
next
  case (made w)
  with assms(1) show "gk_invar k2 g' \<and> gk_agents g' = gk_agents g \<and>
      (r = Inr sp \<longrightarrow> hm_get (gk_spaces g') d = Some (dna_to_space k2 d))"
    by (simp add: gk_invar_def spaces_ok_insert agents_ok_space)
qed

lemma agent_join_invar:
  assumes "gk_invar k2 g"
  shows "gk_invar k2 (fst (agent_join k2 net d a g))"
proof (cases "hm_contains (gk_agents g) (d, a)")
  case True
  with assms show ?thesis by (simp add: agent_join_def)
next
  case False
  obtain g1 q where q: "get_or_create_space k2 net d g = (g1, q)" by fastforce
  note s = get_or_create_invar [OF assms q]
  show ?thesis
  proof (cases q)
    case (Inl e)
    with False q s(1) show ?thesis by (simp add: agent_join_def)
  next
    case (Inr sp)
    obtain w j where j: "nw_join net sp (proxy_agent_new k2 a) (gk_world g1) = (w, j)" by fastforce
    have "gk_invar k2 (g1\<lparr>gk_world := w, gk_agents := hm_insert (d, a) (proxy_agent_new k2 a) (gk_agents g1)\<rparr>)"
      using s(1) s(3) [OF Inr] by (simp add: gk_invar_def agents_ok_insert)
    with False q Inr j s(1) show ?thesis
      by (cases j) (simp_all add: agent_join_def Let_def)
  qed
qed

lemma cleanup_agents [simp]: "gk_agents (maybe_cleanup_space d g) = gk_agents g"
  by (simp add: maybe_cleanup_space_def)

lemma cleanup_spaces:
  "hm_get (gk_spaces (maybe_cleanup_space d g)) d' =
     (if d' = d \<and> (\<forall>a. hm_get (gk_agents g) (d, a) = None) then None else hm_get (gk_spaces g) d')"
proof -
  have "list_ex (\<lambda>e. fst (fst e) = d) (gk_agents g) \<longleftrightarrow> (\<exists>a. hm_get (gk_agents g) (d, a) \<noteq> None)"
    by (force simp: list_ex_iff hm_get_None_iff)
  then show ?thesis by (auto simp: maybe_cleanup_space_def)
qed

lemma agent_leave_agents: "gk_agents (agent_leave k2 net d a g) = hm_remove (d, a) (gk_agents g) \<or>
    (gk_agents (agent_leave k2 net d a g) = gk_agents g \<and> hm_get (gk_agents g) (d, a) = None)"
  by (auto simp: agent_leave_def Let_def split: option.split)

lemma agent_leave_get:
  "hm_get (gk_agents (agent_leave k2 net d a g)) = (hm_get (gk_agents g))((d, a) := None)"
  using agent_leave_agents [of k2 net d a g] by auto

lemma agent_leave_spaces:
  "hm_get (gk_spaces (agent_leave k2 net d a g)) d' =
     (if d' = d \<and> hm_get (gk_agents g) (d, a) \<noteq> None \<and>
         (\<forall>b. b \<noteq> a \<longrightarrow> hm_get (gk_agents g) (d, b) = None)
      then None else hm_get (gk_spaces g) d')"
  by (auto simp: agent_leave_def Let_def cleanup_spaces split: option.split)

lemma agent_leave_wf:
  "hm_wf (gk_agents g) \<Longrightarrow> hm_wf (gk_spaces g) \<Longrightarrow>
     hm_wf (gk_agents (agent_leave k2 net d a g)) \<and> hm_wf (gk_spaces (agent_leave k2 net d a g))"
  by (auto simp: agent_leave_def Let_def maybe_cleanup_space_def split: option.split)

lemma agent_leave_invar:
  assumes "gk_invar k2 g"
  shows "gk_invar k2 (agent_leave k2 net d a g)"
proof -
  have ok: "spaces_ok k2 (gk_spaces g)" "agents_ok (gk_spaces g) (gk_agents g)"
    using assms by (simp_all add: gk_invar_def)
  have wf: "hm_wf (gk_agents g)" "hm_wf (gk_spaces g)"
    and sp: "\<And>d. hm_get (gk_spaces g) d = None \<or> hm_get (gk_spaces g) d = Some (dna_to_space k2 d)"
    using ok by (simp_all add: agents_ok_def spaces_ok_def)

  have "spaces_ok k2 (gk_spaces (agent_leave k2 net d a g))"
    using agent_leave_wf [OF wf, of k2 net d a] sp by (simp add: spaces_ok_def agent_leave_spaces)
  moreover have "hm_get (gk_spaces (agent_leave k2 net d a g)) d' \<noteq> None"
    if h: "hm_get (gk_agents (agent_leave k2 net d a g)) (d', b) \<noteq> None" for d' b
  proof -
    have b: "hm_get (gk_agents g) (d', b) \<noteq> None" "(d', b) \<noteq> (d, a)"
      using h by (auto simp: agent_leave_get split: if_splits)
    have "\<not> (d' = d \<and> hm_get (gk_agents g) (d, a) \<noteq> None \<and>
         (\<forall>b. b \<noteq> a \<longrightarrow> hm_get (gk_agents g) (d, b) = None))"
    proof
      assume n: "d' = d \<and> hm_get (gk_agents g) (d, a) \<noteq> None \<and>
         (\<forall>b. b \<noteq> a \<longrightarrow> hm_get (gk_agents g) (d, b) = None)"
      then have "b \<noteq> a" using b(2) by simp
      with n have "hm_get (gk_agents g) (d', b) = None" by simp
      with b(1) show False by contradiction
    qed
    then have same: "hm_get (gk_spaces (agent_leave k2 net d a g)) d' = hm_get (gk_spaces g) d'"
      unfolding agent_leave_spaces by (rule if_not_P)
    show ?thesis unfolding same by (rule agents_ok_get [OF ok(2) b(1)])
  qed
  ultimately show ?thesis
    using agent_leave_wf [OF wf, of k2 net d a] by (simp add: gk_invar_def agents_ok_def)
qed

text \<open>The agents that are joined, and the spaces there are, as sets.\<close>

definition joined_set :: "'w gateway \<Rightarrow> (dna_hash \<times> agent_pubkey) set" where
  "joined_set g = {k. hm_get (gk_agents g) k \<noteq> None}"

definition space_set :: "'w gateway \<Rightarrow> dna_hash set" where
  "space_set g = {d. hm_get (gk_spaces g) d \<noteq> None}"

lemma joined_set_leave: "joined_set (agent_leave k2 net d a g) = joined_set g - {(d, a)}"
  by (auto simp: joined_set_def agent_leave_get split: if_splits)

lemma space_set_leave: "space_set (agent_leave k2 net d a g) =
    space_set g - {d'. (d', a) \<in> joined_set g \<and> d' = d \<and> {b. (d, b) \<in> joined_set g} \<subseteq> {a}}"
proof (rule set_eqI)
  fix d'
  have gen: "(d' = d \<and> m (d, a) \<noteq> None \<and> (\<forall>b. b \<noteq> a \<longrightarrow> m (d, b) = None)) =
      (m (d', a) \<noteq> None \<and> d' = d \<and> (\<forall>b. m (d, b) \<noteq> None \<longrightarrow> b = a))" for m :: "_ \<Rightarrow> proxy_agent option"
    by metis
  have e: "(d' = d \<and> hm_get (gk_agents g) (d, a) \<noteq> None \<and>
         (\<forall>b. b \<noteq> a \<longrightarrow> hm_get (gk_agents g) (d, b) = None)) =
      ((d', a) \<in> joined_set g \<and> d' = d \<and> {b. (d, b) \<in> joined_set g} \<subseteq> {a})"
    unfolding joined_set_def subset_eq ball_simps mem_Collect_eq singleton_iff by (rule gen)
  have i: "((if P then None else x) \<noteq> None) = (x \<noteq> None \<and> \<not> P)" for P and x :: "space_id option"
    by simp
  show "d' \<in> space_set (agent_leave k2 net d a g) \<longleftrightarrow> d' \<in> space_set g -
      {d'. (d', a) \<in> joined_set g \<and> d' = d \<and> {b. (d, b) \<in> joined_set g} \<subseteq> {a}}"
    by (simp only: space_set_def mem_Collect_eq Diff_iff agent_leave_spaces i e)
qed

lemma shutdown_space_set:
  "space_set (fold (\<lambda>k. agent_leave k2 net (fst k) (snd k)) ks g) =
     space_set g - {d. (\<exists>a. (d, a) \<in> joined_set g) \<and> (\<forall>a. (d, a) \<in> joined_set g \<longrightarrow> (d, a) \<in> set ks)}"
proof (induction ks arbitrary: g)
  case (Cons k ks)
  have "space_set g - {d'. (d', snd k) \<in> joined_set g \<and> d' = fst k \<and> {b. (fst k, b) \<in> joined_set g} \<subseteq> {snd k}}
      - {d. (\<exists>a. (d, a) \<in> joined_set g - {(fst k, snd k)}) \<and>
            (\<forall>a. (d, a) \<in> joined_set g - {(fst k, snd k)} \<longrightarrow> (d, a) \<in> set ks)} =
     space_set g - {d. (\<exists>a. (d, a) \<in> joined_set g) \<and> (\<forall>a. (d, a) \<in> joined_set g \<longrightarrow> (d, a) \<in> set (k # ks))}"
    by (cases k) auto
  then show ?case by (simp only: fold_Cons o_apply Cons.IH joined_set_leave space_set_leave)
qed auto

lemma shutdown_steps:
  "hm_get (gk_agents (fold (\<lambda>k. agent_leave k2 net (fst k) (snd k)) ks g)) k =
     (if k \<in> set ks then None else hm_get (gk_agents g) k)"
  by (induction ks arbitrary: g) (auto simp: agent_leave_get)

lemma shutdown_invar:
  "gk_invar k2 g \<Longrightarrow> gk_invar k2 (fold (\<lambda>k. agent_leave k2 net (fst k) (snd k)) ks g)"
  by (induction ks arbitrary: g) (simp_all add: agent_leave_invar)

lemma signal_over_network_frame:
  assumes "get_or_create_space k2 net d g = (g1, q)"
  shows "\<exists>w. fst (signal_over_network k2 wa net d t sig g) = g1\<lparr>gk_world := w\<rparr>"
proof -
  have self: "\<exists>w. g1 = g1\<lparr>gk_world := w\<rparr>" by (intro exI [of _ "gk_world g1"]) simp
  show ?thesis
    using self unfolding signal_over_network_def assms Let_def
    by (auto split: sum.split option.split prod.split)
qed

lemma signal_over_network_invar:
  assumes "gk_invar k2 g"
  shows "gk_invar k2 (fst (signal_over_network k2 wa net d t sig g))"
proof -
  obtain g1 q where q: "get_or_create_space k2 net d g = (g1, q)" by fastforce
  with signal_over_network_frame [OF q, of wa t sig] get_or_create_invar(1) [OF assms q]
  show ?thesis by (metis gk_invar_world)
qed

section \<open>Properties\<close>

datatype gk_command = GkJoin dna_hash agent_pubkey | GkLeave dna_hash agent_pubkey
  | GkSpace dna_hash | GkSignal dna_hash agent_pubkey signed_remote_signal_input

fun gk_step :: "k2_api \<Rightarrow> wire_api \<Rightarrow> 'w network \<Rightarrow> gk_command \<Rightarrow> 'w gateway \<Rightarrow> 'w gateway" where
  "gk_step k2 wa net (GkJoin d a) g = fst (agent_join k2 net d a g)"
| "gk_step k2 wa net (GkLeave d a) g = agent_leave k2 net d a g"
| "gk_step k2 wa net (GkSpace d) g = fst (get_or_create_space k2 net d g)"
| "gk_step k2 wa net (GkSignal d t sig) g = fst (signal_over_network k2 wa net d t sig g)"

lemma gk_step_invar:
  assumes "gk_invar k2 g"
  shows "gk_invar k2 (gk_step k2 wa net c g)"
proof (cases c)
  case (GkSpace d)
  obtain g1 q where "get_or_create_space k2 net d g = (g1, q)" by fastforce
  with GkSpace get_or_create_invar(1) [OF assms this] show ?thesis by simp
qed (simp_all add: agent_leave_invar agent_join_invar signal_over_network_invar assms)

lemma gk_run_invar: "gk_invar k2 g \<Longrightarrow> gk_invar k2 (fold (gk_step k2 wa net) cs g)"
  by (induction cs arbitrary: g) (simp_all add: gk_step_invar)

lemma gk_new_invar: "gk_invar k2 (gk_new w)"
  by (simp add: gk_invar_def gk_new_def spaces_ok_def agents_ok_def)

text \<open>As long as joins and leaves run one after the other (with any of the network's calls failing), a
  joined agent's DNA has its space, and when its last agent leaves, the space is dropped with it. A join and
  a leave that overlap can break this: \<open>Gateway_System\<close> runs them in every interleaving.\<close>

lemma joined_agent_has_space:
  assumes "is_agent_joined d a (fold (gk_step k2 wa net) cs (gk_new w))"
  shows "let g = fold (gk_step k2 wa net) cs (gk_new w) in
    hm_get (gk_spaces g) d = Some (dna_to_space k2 d) \<and>
    \<not> is_agent_joined d a (agent_leave k2 net d a g) \<and>
    hm_contains (gk_spaces (agent_leave k2 net d a g)) d = (\<exists>b. b \<noteq> a \<and> is_agent_joined d b g)"
proof -
  let ?g = "fold (gk_step k2 wa net) cs (gk_new w)"
  have inv: "gk_invar k2 ?g" by (rule gk_run_invar [OF gk_new_invar])
  have a: "hm_get (gk_agents ?g) (d, a) \<noteq> None" using assms by (simp add: is_agent_joined_def)
  then have sp: "hm_get (gk_spaces ?g) d = Some (dna_to_space k2 d)"
    using inv unfolding gk_invar_def agents_ok_def spaces_ok_def by metis
  have "hm_contains (gk_spaces (agent_leave k2 net d a ?g)) d = (\<exists>b. b \<noteq> a \<and> is_agent_joined d b ?g)"
    using a sp unfolding hm_contains_iff agent_leave_spaces is_agent_joined_def by auto
  with sp show ?thesis by (simp add: Let_def is_agent_joined_def agent_leave_get)
qed

definition quiet_network :: "unit network" where
  "quiet_network = \<lparr>nw_space = (\<lambda>_ w. (w, Inr ())), nw_join = (\<lambda>_ _ w. (w, Inr ())), nw_leave = (\<lambda>_ _ w. w),
     nw_peers = (\<lambda>_ _. Inr []), nw_local_agents = (\<lambda>_ _. Inr []), nw_peer = (\<lambda>_ _ _. Inr None),
     nw_near = (\<lambda>_ _ _ _. Inr []), nw_send_notify = (\<lambda>_ _ _ w. (w, Inr ())),
     nw_publish_ops = (\<lambda>_ _ _ w. (w, Inr ()))\<rparr>"

lemma two_join:
  "is_agent_joined dna_a agent_a (fold (gk_step plain_k2 plain_wire quiet_network)
     [GkJoin dna_a agent_a, GkJoin dna_a agent_b, GkLeave dna_a agent_b] (gk_new ()))"
  by (simp add: agent_join_def get_or_create_space_def agent_leave_def maybe_cleanup_space_def gk_new_def
    quiet_network_def is_agent_joined_def Let_def hm_insert_def hm_remove_def agent_a_def agent_b_def hm_get_def)

lemma joined_agent_has_space_example:
  "hm_get (gk_spaces (fold (gk_step plain_k2 plain_wire quiet_network)
     [GkJoin dna_a agent_a, GkJoin dna_a agent_b, GkLeave dna_a agent_b] (gk_new ()))) dna_a = Some (SpaceId [7])"
proof -
  have "dna_to_space plain_k2 dna_a = SpaceId [7]" by (simp add: plain_k2_def dna_a_def)
  with joined_agent_has_space [OF two_join] show ?thesis by (simp only: Let_def)
qed

text \<open>What the network is told when an agent leaves a space it is joined to.\<close>

definition leave_network :: "k2_api \<Rightarrow> 'w network \<Rightarrow> (dna_hash \<rightharpoonup> space_id) \<Rightarrow> dna_hash \<times> agent_pubkey \<Rightarrow> 'w \<Rightarrow> 'w" where
  "leave_network k2 net spaces k w = (case spaces (fst k) of
     None \<Rightarrow> w | Some sp \<Rightarrow> nw_leave net sp (AgentId (raw_32 k2 (snd k))) w)"

lemma agent_leave_world:
  assumes "hm_get (gk_agents g) (d, a) \<noteq> None"
  shows "gk_world (agent_leave k2 net d a g) = leave_network k2 net (hm_get (gk_spaces g)) (d, a) (gk_world g)"
  using assms by (simp add: agent_leave_def Let_def leave_network_def maybe_cleanup_space_def split: option.split)

text \<open>An agent that is still joined keeps its DNA's space while others leave.\<close>

lemma shutdown_world:
  assumes "distinct ks" and "\<And>k. k \<in> set ks \<Longrightarrow> hm_get (gk_agents g) k \<noteq> None"
    and "\<And>k. k \<in> set ks \<Longrightarrow> hm_get (gk_spaces g) (fst k) = sps (fst k)"
  shows "gk_world (fold (\<lambda>k. agent_leave k2 net (fst k) (snd k)) ks g) =
    fold (leave_network k2 net sps) ks (gk_world g)"
  using assms
proof (induction ks arbitrary: g)
  case (Cons k ks)
  obtain d a where k: "k = (d, a)" by (cases k)
  let ?g = "agent_leave k2 net d a g"
  have here: "gk_world ?g = leave_network k2 net sps k (gk_world g)"
    using agent_leave_world [of g d a k2 net] Cons.prems(2,3) [of k] by (simp add: k leave_network_def)
  have joined: "hm_get (gk_agents ?g) l \<noteq> None" if "l \<in> set ks" for l
    using Cons.prems(1) Cons.prems(2) [of l] that by (auto simp: agent_leave_get k)
  have spaces: "hm_get (gk_spaces ?g) (fst l) = sps (fst l)" if l: "l \<in> set ks" for l
  proof -
    have "\<not> (fst l = d \<and> (\<forall>b. b \<noteq> a \<longrightarrow> hm_get (gk_agents g) (d, b) = None))"
      using joined [OF l] by (cases l) (auto simp: agent_leave_get split: if_splits)
    with Cons.prems(3) [of l] l show ?thesis by (auto simp: agent_leave_spaces)
  qed
  have "distinct ks" using Cons.prems(1) by simp
  from Cons.IH [OF this joined spaces] here show ?case by (simp add: k)
qed simp

text \<open>C25. A shutdown of the gateway leaves for every joined agent: each is taken out of the network, once,
  from the space its DNA has (so a tombstone is published for it), no agent is joined any more, and of the
  spaces exactly those remain in which no agent was joined (they were made for a query, a publish or a
  signal). Nothing in the program calls it, though.\<close>

theorem shutdown_leaves_all:
  assumes "hm_wf (gk_agents g)"
  shows "gk_world (gk_shutdown k2 net g) =
      fold (leave_network k2 net (hm_get (gk_spaces g))) (map fst (gk_agents g)) (gk_world g) \<and>
    agent_count (gk_shutdown k2 net g) = 0 \<and>
    hm_contains (gk_spaces (gk_shutdown k2 net g)) d =
      (hm_contains (gk_spaces g) d \<and> (\<nexists>a. is_agent_joined d a g))"
proof (intro conjI)
  have keys: "k \<in> set (map fst (gk_agents g)) \<longleftrightarrow> hm_get (gk_agents g) k \<noteq> None" for k
    by (simp add: hm_get_None_iff)
  have "distinct (map fst (gk_agents g))" using assms by (simp add: hm_wf_def)
  then show "gk_world (gk_shutdown k2 net g) =
      fold (leave_network k2 net (hm_get (gk_spaces g))) (map fst (gk_agents g)) (gk_world g)"
    unfolding gk_shutdown_def by (rule shutdown_world) (simp_all only: keys not_False_eq_True refl)
  have "hm_get (gk_agents (gk_shutdown k2 net g)) k = None" for k
    unfolding gk_shutdown_def shutdown_steps using keys [of k] by auto
  then show "agent_count (gk_shutdown k2 net g) = 0"
    unfolding agent_count_def hm_get_None_iff by (metis all_not_in_conv image_is_empty list.size(3) set_empty)
  have "d \<in> space_set (gk_shutdown k2 net g) \<longleftrightarrow> d \<in> space_set g \<and> (\<nexists>a. (d, a) \<in> joined_set g)"
    unfolding gk_shutdown_def shutdown_space_set keys joined_set_def by blast
  then show "hm_contains (gk_spaces (gk_shutdown k2 net g)) d =
     (hm_contains (gk_spaces g) d \<and> (\<nexists>a. is_agent_joined d a g))"
    by (simp add: space_set_def joined_set_def is_agent_joined_def)
qed

definition leave_log :: "(space_id \<times> agent_id) list network" where
  "leave_log = \<lparr>nw_space = (\<lambda>_ w. (w, Inr ())), nw_join = (\<lambda>_ _ w. (w, Inr ())), nw_leave = (\<lambda>sp i w. w @ [(sp, i)]),
     nw_peers = (\<lambda>_ _. Inr []), nw_local_agents = (\<lambda>_ _. Inr []), nw_peer = (\<lambda>_ _ _. Inr None),
     nw_near = (\<lambda>_ _ _ _. Inr []), nw_send_notify = (\<lambda>_ _ _ w. (w, Inr ())),
     nw_publish_ops = (\<lambda>_ _ _ w. (w, Inr ()))\<rparr>"

definition two_joined :: "(space_id \<times> agent_id) list gateway" where
  "two_joined = \<lparr>gk_spaces = [(dna_a, SpaceId [7])], gk_agents = [((dna_a, agent_a), proxy_agent_new plain_k2 agent_a),
     ((dna_a, agent_b), proxy_agent_new plain_k2 agent_b)], gk_world = []\<rparr>"

lemma shutdown_leaves_all_witness:
  "gk_world (gk_shutdown plain_k2 leave_log two_joined) =
     [(SpaceId [7], AgentId (raw_32 plain_k2 agent_a)), (SpaceId [7], AgentId (raw_32 plain_k2 agent_b))]"
proof -
  have "hm_wf (gk_agents two_joined)" by (simp add: two_joined_def hm_wf_def agent_a_def agent_b_def)
  from shutdown_leaves_all [OF this, of plain_k2 leave_log] show ?thesis
    by (simp add: two_joined_def leave_network_def leave_log_def hm_get_Cons)
qed

text \<open>Delivering to a registered agent changes queues only.\<close>

lemma send_signal_registered:
  "ap_is_registered d' a' (fst (ap_send_signal d a m p)) = ap_is_registered d' a' p"
  by (auto simp: ap_send_signal_def try_send_message_def ap_is_registered_def Let_def
    split: option.split prod.split try_send.split if_splits)

definition local_target :: "k2_api \<Rightarrow> dna_hash \<Rightarrow> agent_proxy \<Rightarrow> signed_remote_signal_input \<Rightarrow> bool" where
  "local_target k2 d p sig = (case agent_from_raw_39 k2 (ss_target_agent sig) of
     Inl _ \<Rightarrow> False | Inr t \<Rightarrow> ap_is_registered d t p)"

lemma local_signal:
  assumes "local_target k2 d p sig"
  obtains t where "agent_from_raw_39 k2 (ss_target_agent sig) = Inr t" and "ap_is_registered d t p"
    and "send_remote_signal h k2 wa net d sig (p, g) =
      (case ap_send_signal d t (remote_signal h k2 d t (ss_zome_call_params sig)) p of (p', b) \<Rightarrow> ((p', g), b))"
  using assms by (cases "agent_from_raw_39 k2 (ss_target_agent sig)")
    (auto simp: local_target_def send_remote_signal_def split: prod.split)

lemma local_target_kept:
  "local_target k2 d (fst (ap_send_signal d' a m p)) sig = local_target k2 d p sig"
  by (simp add: local_target_def send_signal_registered split: sum.split)

text \<open>C26. Signals whose targets are all registered browser agents stay inside the linker: the
  gateway and the network behind it are left as they were, and every signal is counted once.\<close>

theorem local_signals_stay_local:
  assumes "\<And>sig. sig \<in> set sigs \<Longrightarrow> local_target k2 d p sig"
  shows "snd (fst (send_remote_signals h k2 wa net d sigs (p, g))) = g \<and>
    (case snd (send_remote_signals h k2 wa net d sigs (p, g)) of (ok, bad) \<Rightarrow> ok + bad = length sigs)"
  using assms
proof (induction sigs arbitrary: p)
  case (Cons sig sigs)
  obtain t where t: "send_remote_signal h k2 wa net d sig (p, g) =
      (case ap_send_signal d t (remote_signal h k2 d t (ss_zome_call_params sig)) p of (p', b) \<Rightarrow> ((p', g), b))"
    using local_signal [OF Cons.prems [of sig]] by (metis list.set_intros(1))
  obtain p' b where b: "ap_send_signal d t (remote_signal h k2 d t (ss_zome_call_params sig)) p = (p', b)"
    by fastforce
  have later: "local_target k2 d p' s" if s: "s \<in> set sigs" for s
    using local_target_kept [of k2 d d t _ p s] Cons.prems [of s] s b by (metis fst_conv list.set_intros(2))
  show ?case
    using Cons.IH [OF later] t b by (auto split: prod.splits)
qed simp

definition browser_signal :: signed_remote_signal_input where
  "browser_signal = \<lparr>ss_target_agent = replicate 39 1, ss_zome_call_params = [5], ss_signature = []\<rparr>"

lemma browser_signal_target:
  "agent_from_raw_39 plain_k2 (ss_target_agent browser_signal) = Inr (AgentPubKey (replicate 32 1))"
  by (simp add: plain_k2_def browser_signal_def)

theorem local_signals_stay_local_witness:
  "snd (fst (send_remote_signals plain_holo_hash plain_k2 plain_wire quiet_network dna_a [browser_signal]
     (ap_register dna_a (AgentPubKey (replicate 32 1)) (WsSender 0) ap_new, gk_new ()))) = gk_new ()"
proof -
  have "local_target plain_k2 dna_a (ap_register dna_a (AgentPubKey (replicate 32 1)) (WsSender 0) ap_new) sig"
    if "sig \<in> set [browser_signal]" for sig
    using that by (simp add: local_target_def browser_signal_target ap_is_registered_def ap_register_def Let_def)
  from local_signals_stay_local [OF this] show ?thesis by blast
qed

text \<open>A signature that does not parse is no error: the signal goes out to the target's URL with 64
  zero bytes in its place and is counted as sent.\<close>

lemma malformed_signature_is_sent:
  assumes "agent_from_raw_39 k2 (ss_target_agent sig) = Inr t" and "\<not> ap_is_registered d t p"
    and "get_or_create_space k2 net d g = (g1, Inr sp)"
    and "nw_peer net sp (AgentId (raw_32 k2 t)) (gk_world g1) = Inr (Some info)" and "ai_url info = Some u"
    and "signature_try_from wa (ss_signature sig) = Inl e"
    and "encode_batch wa [RemoteSignalEvt t (ss_zome_call_params sig) (replicate 64 0)] = Inr bytes"
    and "nw_send_notify net sp u bytes (gk_world g1) = (w, Inr ())"
  shows "send_remote_signals h k2 wa net d [sig] (p, g) = ((p, g1\<lparr>gk_world := w\<rparr>), (1, 0))"
  using assms by (simp add: send_remote_signal_def signal_over_network_def zero_signature_def Let_def)

text \<open>A network that records what it is told to send.\<close>

definition recording_network :: "(url \<times> bytes) list network" where
  "recording_network = \<lparr>nw_space = (\<lambda>_ w. (w, Inr ())), nw_join = (\<lambda>_ _ w. (w, Inr ())), nw_leave = (\<lambda>_ _ w. w),
     nw_peers = (\<lambda>_ _. Inr []), nw_local_agents = (\<lambda>_ _. Inr []),
     nw_peer = (\<lambda>sp i _. Inr (Some \<lparr>ai_agent = i, ai_space = sp, ai_created_at = 0, ai_expires_at = 9,
        ai_is_tombstone = False, ai_url = Some ''ws://p'', ai_storage_arc = ArcEmpty\<rparr>)),
     nw_near = (\<lambda>_ _ _ _. Inr []), nw_send_notify = (\<lambda>_ u b w. (w @ [(u, b)], Inr ())),
     nw_publish_ops = (\<lambda>_ u _ w. (w, Inr ()))\<rparr>"

definition recording_wire :: wire_api where
  "recording_wire = plain_wire\<lparr>encode_batch := \<lambda>ms. Inr (concat (map (\<lambda>m. case m of
     RemoteSignalEvt t z s \<Rightarrow> z @ s | _ \<Rightarrow> []) ms))\<rparr>"

lemma malformed_signature_is_sent_example:
  "send_remote_signals plain_holo_hash plain_k2 recording_wire recording_network dna_a [browser_signal]
     (ap_new, gk_new []) =
   ((ap_new, \<lparr>gk_spaces = [(dna_a, SpaceId [7])], gk_agents = [],
       gk_world = [(''ws://p'', 5 # replicate 64 0)]\<rparr>), (1, 0))"
proof -
  have sp: "dna_to_space plain_k2 dna_a = SpaceId [7]" by (simp add: plain_k2_def dna_a_def)
  let ?g1 = "\<lparr>gk_spaces = [(dna_a, SpaceId [7])], gk_agents = [], gk_world = []\<rparr> :: (url \<times> bytes) list gateway"
  have g1: "get_or_create_space plain_k2 recording_network dna_a (gk_new []) = (?g1, Inr (SpaceId [7]))"
    by (simp add: get_or_create_space_def gk_new_def sp recording_network_def Let_def hm_insert_def hm_remove_def)
  have no: "\<not> ap_is_registered dna_a (AgentPubKey (replicate 32 1)) ap_new"
    by (simp add: ap_is_registered_def ap_new_def)
  have bad: "signature_try_from recording_wire (ss_signature browser_signal) = Inl ''BadSignature''"
    by (simp add: recording_wire_def plain_wire_def browser_signal_def)
  have enc: "encode_batch recording_wire [RemoteSignalEvt (AgentPubKey (replicate 32 1))
      (ss_zome_call_params browser_signal) (replicate 64 0)] = Inr (5 # replicate 64 0)"
    by (simp add: recording_wire_def browser_signal_def)
  have peer: "nw_peer recording_network (SpaceId [7]) (AgentId (raw_32 plain_k2 (AgentPubKey (replicate 32 1))))
      (gk_world ?g1) = Inr (Some \<lparr>ai_agent = AgentId (raw_32 plain_k2 (AgentPubKey (replicate 32 1))),
        ai_space = SpaceId [7], ai_created_at = 0, ai_expires_at = 9,
        ai_is_tombstone = False, ai_url = Some ''ws://p'', ai_storage_arc = ArcEmpty\<rparr>)"
    by (simp add: recording_network_def)
  have send: "nw_send_notify recording_network (SpaceId [7]) ''ws://p'' (5 # replicate 64 0) (gk_world ?g1) =
      ([(''ws://p'', 5 # replicate 64 0)], Inr ())"
    by (simp add: recording_network_def)
  show ?thesis
    using malformed_signature_is_sent [OF browser_signal_target no g1 peer _ bad enc send] by simp
qed

lemma publish_to_count:
  assumes "\<And>u w. (\<exists>w'. nw_publish_ops net sp ops u w = (w', Inr ())) = (u \<in> up)"
  shows "snd (publish_to net sp ops us w) = length (filter (\<lambda>u. u \<in> up) us)"
proof (induction us arbitrary: w)
  case (Cons u us)
  obtain w1 r where r: "nw_publish_ops net sp ops u w = (w1, r)" by fastforce
  have "(r = Inr ()) = (u \<in> up)" using assms [of u w] r by simp
  then show ?case using Cons.IH [of w1] r by (cases r) (auto split: prod.splits)
qed simp

lemma publish_urls_set:
  "set (publish_urls agents) = {u. \<exists>i \<in> set agents. \<not> ai_is_tombstone i \<and> ai_url i = Some u}"
  by (force simp: publish_urls_def List.map_filter_def split: if_splits)

text \<open>A publish tries every URL of a live agent near the location once, whatever its arc, and
  reports how many of them took the ops.\<close>

lemma publish_counts_peers:
  assumes "get_or_create_space k2 net d g = (g1, Inr sp)"
    and "nw_peers net sp (gk_world g1) = Inr ps" and "nw_local_agents net sp (gk_world g1) = Inr ls"
    and "nw_near net sp loc (2 ^ 64 - 1) (gk_world g1) = Inr agents"
    and "\<And>u w. (\<exists>w'. nw_publish_ops net sp ops u w = (w', Inr ())) = (u \<in> up)"
  shows "snd (publish_ops k2 net d ops loc g) =
    Inr (card {u \<in> up. \<exists>i \<in> set agents. \<not> ai_is_tombstone i \<and> ai_url i = Some u})"
proof -
  have dist: "distinct (publish_urls agents)" by (simp add: publish_urls_def)
  have "length (filter (\<lambda>u. u \<in> up) (publish_urls agents)) = card ({u \<in> set (publish_urls agents). u \<in> up})"
    using distinct_card [OF distinct_filter [OF dist]] by simp
  also have "\<dots> = card {u \<in> up. \<exists>i \<in> set agents. \<not> ai_is_tombstone i \<and> ai_url i = Some u}"
    unfolding publish_urls_set by (rule arg_cong [of _ _ card]) auto
  finally have n: "length (filter (\<lambda>u. u \<in> up) (publish_urls agents)) =
      card {u \<in> up. \<exists>i \<in> set agents. \<not> ai_is_tombstone i \<and> ai_url i = Some u}" .
  have "snd (publish_ops k2 net d ops loc g) =
      Inr (snd (publish_to net sp ops (publish_urls agents) (gk_world g1)))"
    using assms(1-4) by (auto simp: publish_ops_def Let_def split: prod.splits)
  then show ?thesis unfolding publish_to_count [OF assms(5)] n .
qed

definition peer_at :: "url \<Rightarrow> bool \<Rightarrow> agent_info" where
  "peer_at u dead = \<lparr>ai_agent = AgentId [1], ai_space = SpaceId [7], ai_created_at = 0, ai_expires_at = 9,
     ai_is_tombstone = dead, ai_url = Some u, ai_storage_arc = ArcEmpty\<rparr>"

definition publish_network :: "unit network" where
  "publish_network = quiet_network\<lparr>nw_near := \<lambda>_ _ _ _. Inr [peer_at ''a'' False, peer_at ''b'' False,
     peer_at ''b'' False, peer_at ''c'' True],
   nw_publish_ops := \<lambda>_ _ u w. (w, if u = ''a'' then Inr () else Inl ''gone'')\<rparr>"

lemma publish_counts_peers_example:
  "snd (publish_ops plain_k2 publish_network dna_a [[1]] 5 (gk_new ())) = Inr 1"
proof -
  have s: "get_or_create_space plain_k2 publish_network dna_a (gk_new ()) =
      (\<lparr>gk_spaces = [(dna_a, SpaceId [7])], gk_agents = [], gk_world = ()\<rparr>, Inr (SpaceId [7]))"
    by (simp add: get_or_create_space_def gk_new_def plain_k2_def dna_a_def publish_network_def quiet_network_def
      Let_def hm_insert_def hm_remove_def)
  have "{u \<in> {''a''}. \<exists>i \<in> set [peer_at ''a'' False, peer_at ''b'' False, peer_at ''b'' False, peer_at ''c'' True].
      \<not> ai_is_tombstone i \<and> ai_url i = Some u} = {''a''}" by (auto simp: peer_at_def)
  moreover have "(\<exists>w'. nw_publish_ops publish_network (SpaceId [7]) [[1]] u w = (w', Inr ())) = (u \<in> {''a''})"
    for u w by (simp add: publish_network_def)
  ultimately show ?thesis
    using publish_counts_peers [OF s, of "[]" "[]" 5 _ "[[1]]" "{''a''}"]
    by (simp add: publish_network_def quiet_network_def)
qed

end
