(* ===== verification/Pending_Dht.thy ===== *)
theory Pending_Dht imports Gateway_Kitsune "HOL-Library.Multiset" begin

text \<open>
  The requests the gateway has sent into the network and not yet heard about
  (\<open>PendingDhtResponses\<close> in \<open>src/dht_query.rs\<close>), and the space handler that routes the answers
  (\<open>ProxySpaceHandler\<close> in \<open>src/gateway_kitsune.rs\<close>). A received batch is turned into one task per
  message; tokio runs the tasks in any order, so what is shown of a batch is shown of every
  permutation of its tasks.
\<close>

section \<open>Pending responses\<close>

type_synonym pending_dht = "(u64, nat) hashmap \<times> wire_message heap"

definition pd_new :: pending_dht where
  "pd_new = ([], [])"

definition pd_register :: "u64 \<Rightarrow> pending_dht \<Rightarrow> pending_dht" where
  "pd_register i s = table_enroll i s"

definition pd_remove :: "u64 \<Rightarrow> pending_dht \<Rightarrow> pending_dht" where
  "pd_remove i s = table_withdraw i s"

text \<open>The routing of a response once its id is known: the sender is taken out and used.\<close>

definition pd_deliver :: "u64 \<Rightarrow> wire_message \<Rightarrow> pending_dht \<Rightarrow> pending_dht" where
  "pd_deliver i m s = table_deliver i m s"

definition route_response :: "wire_message \<Rightarrow> pending_dht \<Rightarrow> pending_dht \<times> bool" where
  "route_response m s = (case get_msg_id m of
     None \<Rightarrow> (s, False)
   | Some i \<Rightarrow> (pd_deliver i m s, hm_contains (fst s) i))"

definition pd_ok :: "pending_dht \<Rightarrow> bool" where
  "pd_ok s \<longleftrightarrow> senders_ok (fst s) (snd s)"

definition pd_created :: "pending_dht \<Rightarrow> nat" where
  "pd_created s = length (snd s)"

definition pd_waiting :: "pending_dht \<Rightarrow> u64 \<Rightarrow> nat option" where
  "pd_waiting s = hm_get (fst s)"

definition pd_outcome :: "pending_dht \<Rightarrow> nat \<Rightarrow> wire_message oneshot" where
  "pd_outcome s = os_state (snd s)"

interpretation answers: one_shot pd_ok pd_created pd_waiting pd_outcome pd_register pd_deliver pd_remove
proof -
  have "one_shot (\<lambda>t. senders_ok (fst t) (snd t)) (\<lambda>t. length (snd t)) (\<lambda>t. hm_get (fst t))
      (\<lambda>t. os_state (snd t)) table_enroll
      (table_deliver :: u64 \<Rightarrow> wire_message \<Rightarrow> pending_dht \<Rightarrow> pending_dht) table_withdraw"
    by (rule senders.one_shot_axioms)
  moreover have "pd_ok = (\<lambda>t. senders_ok (fst t) (snd t))" "pd_created = (\<lambda>t. length (snd t))"
    "pd_waiting = (\<lambda>t. hm_get (fst t))" "pd_outcome = (\<lambda>t. os_state (snd t))" "pd_register = table_enroll"
    "pd_deliver = table_deliver" "pd_remove = table_withdraw"
    by (simp_all add: fun_eq_iff pd_ok_def pd_created_def pd_waiting_def pd_outcome_def pd_register_def
      pd_deliver_def pd_remove_def)
  ultimately show "one_shot pd_ok pd_created pd_waiting pd_outcome pd_register pd_deliver pd_remove" by simp
qed

lemma pd_new_ok [simp]: "pd_ok pd_new"
  by (simp add: pd_ok_def pd_new_def senders_ok_def hm_wf_def)

section \<open>The space handler\<close>

datatype space_task = ForwardSignal dna_hash agent_pubkey server_message | RouteResponse wire_message

definition handle_wire_message :: "holo_hash_api \<Rightarrow> k2_api \<Rightarrow> space_id \<Rightarrow> wire_message \<Rightarrow> space_task list" where
  "handle_wire_message h k2 sp m = (case m of
     RemoteSignalEvt to_agent params _ \<Rightarrow>
       (let d = space_to_dna k2 sp in [ForwardSignal d to_agent (remote_signal h k2 d to_agent params)])
   | GetRes _ _ \<Rightarrow> [RouteResponse m]
   | GetLinksRes _ _ \<Rightarrow> [RouteResponse m]
   | CountLinksRes _ _ \<Rightarrow> [RouteResponse m]
   | GetAgentActivityRes _ _ \<Rightarrow> [RouteResponse m]
   | MustGetAgentActivityRes _ _ \<Rightarrow> [RouteResponse m]
   | ErrorRes _ _ \<Rightarrow> [RouteResponse m]
   | _ \<Rightarrow> [])"

definition recv_notify :: "holo_hash_api \<Rightarrow> k2_api \<Rightarrow> wire_api \<Rightarrow> space_id \<Rightarrow> bytes \<Rightarrow> space_task list" where
  "recv_notify h k2 wa sp data = (case decode_batch wa data of
     Inl _ \<Rightarrow> []
   | Inr messages \<Rightarrow> concat (map (handle_wire_message h k2 sp) messages))"

fun run_space_task :: "space_task \<Rightarrow> agent_proxy \<times> pending_dht \<Rightarrow> agent_proxy \<times> pending_dht" where
  "run_space_task (ForwardSignal d a m) (p, s) = (fst (ap_send_signal d a m p), s)"
| "run_space_task (RouteResponse m) (p, s) = (p, fst (route_response m s))"

definition run_space_tasks :: "space_task list \<Rightarrow> agent_proxy \<times> pending_dht \<Rightarrow> agent_proxy \<times> pending_dht" where
  "run_space_tasks ts st = fold run_space_task ts st"

section \<open>Answers\<close>

fun is_answer :: "wire_message \<Rightarrow> bool" where
  "is_answer (GetRes _ _) = True"
| "is_answer (GetLinksRes _ _) = True"
| "is_answer (CountLinksRes _ _) = True"
| "is_answer (GetAgentActivityRes _ _) = True"
| "is_answer (MustGetAgentActivityRes _ _) = True"
| "is_answer (ErrorRes _ _) = True"
| "is_answer _ = False"

lemma routed_messages:
  "RouteResponse m \<in> set (handle_wire_message h k2 sp m') \<longleftrightarrow> m' = m \<and> is_answer m"
  by (cases m') (auto simp: handle_wire_message_def Let_def)

text \<open>The tasks of a batch as events of the one-shot table.\<close>

fun task_events :: "space_task list \<Rightarrow> (u64, wire_message) event list" where
  "task_events [] = []"
| "task_events (ForwardSignal _ _ _ # ts) = task_events ts"
| "task_events (RouteResponse m # ts) = (case get_msg_id m of
     None \<Rightarrow> task_events ts | Some i \<Rightarrow> Deliver i m # task_events ts)"

lemma run_tasks_pending:
  "snd (run_space_tasks ts (p, s)) = answers.run (task_events ts) s"
proof (induction ts arbitrary: p s)
  case (Cons t ts)
  show ?case
  proof (cases t)
    case (RouteResponse m)
    with Cons.IH show ?thesis
      by (cases "get_msg_id m") (simp_all add: run_space_tasks_def route_response_def)
  next
    case (ForwardSignal d a m)
    with Cons.IH show ?thesis by (simp add: run_space_tasks_def)
  qed
qed (simp add: run_space_tasks_def)

lemma task_events_set:
  "set (task_events ts) = {Deliver i m | i m. RouteResponse m \<in> set ts \<and> get_msg_id m = Some i}"
  by (induction ts rule: task_events.induct) (auto split: option.split)

text \<open>C16. A batch answers the request that waits for it, in whatever order its tasks run: the
  request gets an answer of the batch that carries its id when there is one, and otherwise it goes
  on waiting. Requests and unknown messages of the batch never reach it.\<close>

theorem batch_answers_request:
  assumes "pd_ok s" and "decode_batch wa data = Inr ms"
    and "mset ts = mset (recv_notify h k2 wa sp data)"
  shows "case pd_outcome (snd (run_space_tasks ts (p, pd_register i s))) (pd_created s) of
     Sent m \<Rightarrow> m \<in> set ms \<and> is_answer m \<and> get_msg_id m = Some i
   | Pending \<Rightarrow> \<nexists>m. m \<in> set ms \<and> is_answer m \<and> get_msg_id m = Some i
   | Cancelled \<Rightarrow> False"
proof -
  have ts: "RouteResponse m \<in> set ts \<longleftrightarrow> m \<in> set ms \<and> is_answer m" for m
    using mset_eq_setD [OF assms(3)] assms(2) routed_messages [of m h k2 sp]
    by (auto simp: recv_notify_def)
  have out: "pd_outcome (snd (run_space_tasks ts (p, pd_register i s))) (pd_created s) =
      (case find (\<lambda>e. event_key e = i) (task_events ts) of None \<Rightarrow> Pending | Some e \<Rightarrow> event_outcome e)"
    unfolding run_tasks_pending by (rule answers.first_event_decides [OF assms(1)])
  show ?thesis
  proof (cases "find (\<lambda>e. event_key e = i) (task_events ts)")
    case None
    then have "\<nexists>m. RouteResponse m \<in> set ts \<and> get_msg_id m = Some i"
      unfolding find_None_iff task_events_set by force
    with None show ?thesis unfolding out using ts by auto
  next
    case (Some e)
    then have "e \<in> set (task_events ts)" "event_key e = i" by (auto simp: find_Some_iff)
    then obtain m where "e = Deliver i m" "RouteResponse m \<in> set ts" "get_msg_id m = Some i"
      by (auto simp: task_events_set)
    with Some show ?thesis unfolding out using ts by simp
  qed
qed

definition answering_wire :: wire_api where
  "answering_wire = plain_wire\<lparr>decode_batch := \<lambda>_. Inr [ErrorRes 4 ''no'', CountLinksRes 7 (CountLinksResponse [])]\<rparr>"

theorem batch_answers_request_witness:
  "pd_outcome (snd (run_space_tasks [RouteResponse (CountLinksRes 7 (CountLinksResponse [])), RouteResponse (ErrorRes 4 ''no'')]
     (ap_new, pd_register 7 pd_new))) 0 = Sent (CountLinksRes 7 (CountLinksResponse []))"
proof -
  have m: "decode_batch answering_wire [] = Inr [ErrorRes 4 ''no'', CountLinksRes 7 (CountLinksResponse [])]"
    by (simp add: answering_wire_def)
  have ts: "mset [RouteResponse (CountLinksRes 7 (CountLinksResponse [])), RouteResponse (ErrorRes 4 ''no'')] =
      mset (recv_notify plain_holo_hash plain_k2 answering_wire (SpaceId []) [])"
    by (simp add: recv_notify_def m handle_wire_message_def)
  have id: "get_msg_id (CountLinksRes 7 (CountLinksResponse [])) = Some 7" "get_msg_id (ErrorRes 4 ''no'') = Some 4"
    by (simp_all add: get_msg_id_def)
  note ans = batch_answers_request [OF pd_new_ok m ts, where p = ap_new and i = 7]
  have c: "pd_created pd_new = 0" by (simp add: pd_created_def pd_new_def)
  show ?thesis
  proof (cases "pd_outcome (snd (run_space_tasks [RouteResponse (CountLinksRes 7 (CountLinksResponse [])),
      RouteResponse (ErrorRes 4 ''no'')] (ap_new, pd_register 7 pd_new))) 0")
    case Pending
    with ans c have "\<nexists>m. m \<in> set [ErrorRes 4 ''no'', CountLinksRes 7 (CountLinksResponse [])] \<and> is_answer m \<and> get_msg_id m = Some 7"
      by simp
    moreover have "is_answer (CountLinksRes 7 (CountLinksResponse []))" by simp
    ultimately have False using id(1) by (metis list.set_intros(1) list.set_intros(2))
    then show ?thesis ..
  next
    case (Sent r)
    with ans c have "r \<in> {ErrorRes 4 ''no'', CountLinksRes 7 (CountLinksResponse [])}" "get_msg_id r = Some 7" by auto
    with id have "r = CountLinksRes 7 (CountLinksResponse [])" by auto
    with Sent show ?thesis by simp
  next
    case Cancelled
    with ans c show ?thesis by simp
  qed
qed

end
