(* ===== verification/Dht_Query.thy ===== *)
theory Dht_Query imports Pending_Dht begin

text \<open>
  The direct DHT queries (\<open>DhtQuery\<close> in \<open>src/dht_query.rs\<close>). A query picks up to three peers near
  the location, runs one request task against each and takes the first useful answer in the order
  of the peers. A request is cut at its awaits: it registers its id, waits for its message to be
  sent, and then for an answer or the timeout; between those points anything may happen to the
  pending table, the request's own cleanup timer included.
\<close>

definition PARALLEL_GET_AGENTS_COUNT :: nat where
  "PARALLEL_GET_AGENTS_COUNT = 3"

section \<open>One request\<close>

type_synonym 'r peer_result = "'r option linker_result"

datatype 'r dht_task = RqSending u64 nat bytes | RqWaiting u64 nat | RqDone "'r peer_result"

definition request_begin ::
    "wire_api \<Rightarrow> u64 \<Rightarrow> wire_message \<Rightarrow> pending_dht \<Rightarrow> pending_dht \<times> 'r dht_task" where
  "request_begin wa i req s = (case encode_batch wa [req] of
     Inl e \<Rightarrow> (s, RqDone (Inl (Internal (''Failed to encode request: '' @ e))))
   | Inr encoded \<Rightarrow> (pd_register i s, RqSending i (pd_created s) encoded))"

definition request_send :: "'w network \<Rightarrow> space_id \<Rightarrow> url \<Rightarrow> 'r dht_task \<Rightarrow> 'w \<Rightarrow> 'w \<times> 'r dht_task" where
  "request_send net sp u t w = (case t of
     RqSending i c encoded \<Rightarrow> (case nw_send_notify net sp u encoded w of
        (w', Inr _) \<Rightarrow> (w', RqWaiting i c)
      | (w', Inl e) \<Rightarrow> (w', RqDone (Inl (Internal (''Failed to send request: '' @ e)))))
   | RqWaiting i c \<Rightarrow> (w, t)
   | RqDone r \<Rightarrow> (w, t))"

text \<open>What an answer means to a request that expects the messages \<open>expect\<close> takes apart.\<close>

definition read_answer :: "wire_api \<Rightarrow> (wire_message \<Rightarrow> 'r option) \<Rightarrow> wire_message \<Rightarrow> 'r peer_result" where
  "read_answer wa expect m = (case expect m of
     Some r \<Rightarrow> Inr (Some r)
   | None \<Rightarrow> (case m of
        ErrorRes _ e \<Rightarrow> Inl (Internal (''Remote error: '' @ e))
      | _ \<Rightarrow> Inl (Internal (''Unexpected response: '' @ show_message wa m))))"

definition request_finish :: "wire_api \<Rightarrow> (wire_message \<Rightarrow> 'r option) \<Rightarrow> bool \<Rightarrow>
    'r dht_task \<Rightarrow> pending_dht \<Rightarrow> 'r peer_result option" where
  "request_finish wa expect timed_out t s = (case t of
     RqWaiting i c \<Rightarrow> (case pd_outcome s c of
        Sent m \<Rightarrow> Some (read_answer wa expect m)
      | Cancelled \<Rightarrow> Some (Inl (Internal ''Response channel closed''))
      | Pending \<Rightarrow> if timed_out then Some (Inl (Internal ''Request timed out'')) else None)
   | RqDone r \<Rightarrow> Some r
   | RqSending i c encoded \<Rightarrow> None)"

fun pd_event :: "(u64, wire_message) event \<Rightarrow> pending_dht \<Rightarrow> pending_dht" where
  "pd_event (Enroll i) s = pd_register i s"
| "pd_event (Deliver i m) s = pd_deliver i m s"
| "pd_event (Withdraw i) s = pd_remove i s"

text \<open>A whole request, with what happens to the table while it sends (\<open>es1\<close>) and waits (\<open>es2\<close>).
  A result of \<open>None\<close> is a request that is still waiting.\<close>

definition send_request :: "wire_api \<Rightarrow> 'w network \<Rightarrow> (wire_message \<Rightarrow> 'r option) \<Rightarrow> space_id \<Rightarrow> url \<Rightarrow>
    u64 \<Rightarrow> wire_message \<Rightarrow> (u64, wire_message) event list \<Rightarrow> (u64, wire_message) event list \<Rightarrow> bool \<Rightarrow>
    pending_dht \<times> 'w \<Rightarrow> (pending_dht \<times> 'w) \<times> 'r peer_result option" where
  "send_request wa net expect sp u i req es1 es2 timed_out st =
     (case st of (s, w) \<Rightarrow>
      case request_begin wa i req s of (s1, t1) \<Rightarrow>
      case t1 of
        RqDone r \<Rightarrow> ((s1, w), Some r)
      | _ \<Rightarrow> (let s2 = fold pd_event es1 s1 in
         case request_send net sp u t1 w of (w2, t2) \<Rightarrow>
         case t2 of
           RqDone r \<Rightarrow> ((s2, w2), Some r)
         | _ \<Rightarrow> (let s3 = fold pd_event es2 s2 in ((s3, w2), request_finish wa expect timed_out t2 s3))))"

section \<open>The five requests\<close>

fun expect_get :: "wire_message \<Rightarrow> wire_ops option" where
  "expect_get (GetRes _ r) = Some r"
| "expect_get _ = None"

fun expect_get_links :: "wire_message \<Rightarrow> wire_link_ops option" where
  "expect_get_links (GetLinksRes _ r) = Some r"
| "expect_get_links _ = None"

fun expect_count_links :: "wire_message \<Rightarrow> count_links_response option" where
  "expect_count_links (CountLinksRes _ r) = Some r"
| "expect_count_links _ = None"

fun expect_agent_activity :: "wire_message \<Rightarrow> agent_activity_response option" where
  "expect_agent_activity (GetAgentActivityRes _ r) = Some r"
| "expect_agent_activity _ = None"

fun expect_must_get :: "wire_message \<Rightarrow> must_get_response option" where
  "expect_must_get (MustGetAgentActivityRes _ r) = Some r"
| "expect_must_get _ = None"

definition send_get_request where
  "send_get_request wa net sp to_agent u hash i =
     send_request wa net expect_get sp u i (GetReq i to_agent hash)"

definition send_get_links_request where
  "send_get_links_request wa net sp to_agent u link_key i =
     send_request wa net expect_get_links sp u i (GetLinksReq i to_agent link_key)"

definition send_count_links_request where
  "send_count_links_request wa net sp to_agent u query i =
     send_request wa net expect_count_links sp u i (CountLinksReq i to_agent query)"

definition send_get_agent_activity_request where
  "send_get_agent_activity_request wa net sp to_agent u agent query options i =
     send_request wa net expect_agent_activity sp u i (GetAgentActivityReq i to_agent agent query options)"

definition send_must_get_agent_activity_request where
  "send_must_get_agent_activity_request wa net sp to_agent u agent chain i =
     send_request wa net expect_must_get sp u i (MustGetAgentActivityReq i to_agent agent chain)"

section \<open>Choosing the peers\<close>

definition peer_for_location :: "wire_api \<Rightarrow> u32 \<Rightarrow> agent_info \<Rightarrow> (agent_pubkey \<times> url) option" where
  "peer_for_location wa loc info =
     (case ai_url info of
        None \<Rightarrow> None
      | Some u \<Rightarrow> (if ai_is_tombstone info then None
          else if \<not> arc_contains wa (ai_storage_arc info) loc then None
          else Some (agent_from_k2 wa (ai_agent info), u)))"

definition get_peers_for_location :: "wire_api \<Rightarrow> 'w network \<Rightarrow> space_id \<Rightarrow> u32 \<Rightarrow> 'w \<Rightarrow>
    (agent_pubkey \<times> url) list linker_result" where
  "get_peers_for_location wa net sp loc w = (case nw_near net sp loc 1024 w of
     Inl e \<Rightarrow> Inl (Internal (''Failed to get peers: '' @ e))
   | Inr agents \<Rightarrow> Inr (List.map_filter (peer_for_location wa loc) agents))"

section \<open>Choosing the answer\<close>

text \<open>How a spawned request task ended: with its result, or not at all (it panicked).\<close>

datatype 'r joined = Joined "'r peer_result" | JoinFailed

fun select_response :: "('r \<Rightarrow> bool) \<Rightarrow> 'r joined list \<Rightarrow> 'r peer_result option \<Rightarrow> 'r peer_result" where
  "select_response useful [] last_result = (case last_result of None \<Rightarrow> Inr None | Some r \<Rightarrow> r)"
| "select_response useful (Joined (Inr (Some r)) # js) last_result =
     (if useful r then Inr (Some r) else select_response useful js (Some (Inr (Some r))))"
| "select_response useful (Joined (Inr None) # js) last_result = select_response useful js (Some (Inr None))"
| "select_response useful (Joined (Inl e) # js) last_result =
     select_response useful js (case last_result of None \<Rightarrow> Some (Inl e) | Some r \<Rightarrow> Some r)"
| "select_response useful (JoinFailed # js) last_result = select_response useful js last_result"

definition is_wire_ops_empty :: "wire_ops \<Rightarrow> bool" where
  "is_wire_ops_empty ops = (case ops of
     OpsEntry e \<Rightarrow> we_creates e = [] \<and> we_deletes e = [] \<and> we_updates e = [] \<and> we_entry e = None
   | OpsRecord r \<Rightarrow> wo_action r = None \<and> wo_deletes r = [] \<and> wo_updates r = [] \<and> wo_entry r = None
   | OpsWarrant _ \<Rightarrow> False)"

fun is_activity :: "must_get_response \<Rightarrow> bool" where
  "is_activity (MustActivity _) = True"
| "is_activity _ = False"

section \<open>Queries\<close>

text \<open>\<open>asks\<close> gives how the request task against each peer ends.\<close>

definition run_query :: "k2_api \<Rightarrow> wire_api \<Rightarrow> 'w network \<Rightarrow> ('r \<Rightarrow> bool) \<Rightarrow> dna_hash \<Rightarrow> u32 \<Rightarrow>
    (space_id \<Rightarrow> agent_pubkey \<times> url \<Rightarrow> 'r joined) \<Rightarrow> 'w gateway \<Rightarrow> 'w gateway \<times> 'r peer_result" where
  "run_query k2 wa net useful d loc asks g =
     (case get_or_create_space k2 net d g of
        (g1, Inl e) \<Rightarrow> (g1, Inl (Internal e))
      | (g1, Inr sp) \<Rightarrow> (case get_peers_for_location wa net sp loc (gk_world g1) of
           Inl e \<Rightarrow> (g1, Inl e)
         | Inr agents \<Rightarrow> (g1, if agents = [] then Inr None
             else select_response useful (map (asks sp) (take PARALLEL_GET_AGENTS_COUNT agents)) None)))"

definition dq_get where
  "dq_get k2 wa net d hash = run_query k2 wa net (\<lambda>ops. \<not> is_wire_ops_empty ops) d (dht_loc wa hash)"

definition dq_get_links where
  "dq_get_links k2 wa net d link_key =
     run_query k2 wa net (\<lambda>ops. wk_creates ops \<noteq> []) d (linkable_loc wa (lk_base link_key))"

definition dq_count_links where
  "dq_count_links k2 wa net d query =
     run_query k2 wa net (\<lambda>_ :: count_links_response. True) d (linkable_loc wa (lq_base query))"

definition dq_get_agent_activity where
  "dq_get_agent_activity k2 wa net d agent =
     run_query k2 wa net (\<lambda>r. aar_status r \<noteq> ChainEmpty) d (agent_loc wa agent)"

definition dq_must_get_agent_activity where
  "dq_must_get_agent_activity k2 wa net d agent = run_query k2 wa net is_activity d (agent_loc wa agent)"

section \<open>Lemmas\<close>

lemma pd_events_run: "fold pd_event es s = answers.run es s"
proof -
  have "pd_event e = answers.apply_event e" for e by (cases e) (simp_all add: fun_eq_iff)
  then have "pd_event = answers.apply_event" by (simp add: fun_eq_iff)
  then show ?thesis by (simp add: answers.run_def)
qed

text \<open>The results that count when no answer was useful: the last success, or the first failure.\<close>

definition join_oks :: "'r joined list \<Rightarrow> 'r option list" where
  "join_oks js = List.map_filter (\<lambda>j. case j of Joined (Inr r) \<Rightarrow> Some r | _ \<Rightarrow> None) js"

definition join_errs :: "'r joined list \<Rightarrow> linker_error list" where
  "join_errs js = List.map_filter (\<lambda>j. case j of Joined (Inl e) \<Rightarrow> Some e | _ \<Rightarrow> None) js"

fun useful_answer :: "('r \<Rightarrow> bool) \<Rightarrow> 'r joined \<Rightarrow> bool" where
  "useful_answer useful (Joined (Inr (Some r))) = useful r"
| "useful_answer useful _ = False"

lemma join_simps [simp]:
  "join_oks [] = []" "join_errs [] = []"
  "join_oks (Joined (Inr r) # js) = r # join_oks js" "join_errs (Joined (Inr r) # js) = join_errs js"
  "join_oks (Joined (Inl e) # js) = join_oks js" "join_errs (Joined (Inl e) # js) = e # join_errs js"
  "join_oks (JoinFailed # js) = join_oks js" "join_errs (JoinFailed # js) = join_errs js"
  by (simp_all add: join_oks_def join_errs_def List.map_filter_def)

lemma select_with_last:
  "select_response useful js last_result = (case find (useful_answer useful) js of
     Some (Joined r) \<Rightarrow> r
   | _ \<Rightarrow> if join_oks js \<noteq> [] then Inr (last (join_oks js))
      else case last_result of Some r \<Rightarrow> r
        | None \<Rightarrow> if join_errs js \<noteq> [] then Inl (hd (join_errs js)) else Inr None)"
  by (induction useful js last_result rule: select_response.induct) (simp_all split: option.split joined.split)

lemma select_some:
  assumes "select_response useful js last_result = Inr (Some r)" and "last_result \<noteq> Some (Inr (Some r))"
  shows "Joined (Inr (Some r)) \<in> set js"
  using assms
  by (induction useful js last_result rule: select_response.induct) (auto split: if_splits option.splits)

lemma peers_for_location:
  assumes "get_peers_for_location wa net sp loc w = Inr ps" and "(a, u) \<in> set ps"
  obtains agents i where "nw_near net sp loc 1024 w = Inr agents" and "i \<in> set agents"
    and "agent_from_k2 wa (ai_agent i) = a" and "ai_url i = Some u" and "\<not> ai_is_tombstone i"
    and "arc_contains wa (ai_storage_arc i) loc"
proof -
  from assms(1) obtain agents where ag: "nw_near net sp loc 1024 w = Inr agents"
    and ps: "ps = List.map_filter (peer_for_location wa loc) agents"
    by (auto simp: get_peers_for_location_def split: sum.splits)
  from assms(2) obtain i where i: "i \<in> set agents" "peer_for_location wa loc i = Some (a, u)"
    by (auto simp: ps List.map_filter_def)
  from i(2) have "agent_from_k2 wa (ai_agent i) = a" "ai_url i = Some u" "\<not> ai_is_tombstone i"
    "arc_contains wa (ai_storage_arc i) loc"
    by (auto simp: peer_for_location_def split: option.splits if_splits)
  then show thesis by (rule that [OF ag i(1)])
qed

section \<open>Properties\<close>

text \<open>The answer to a query: the first useful answer in the order of the peers; when there is
  none, the last answer without an error; when there is none either, the first error; and nothing
  when every task failed to join.\<close>

lemma query_answer_choice:
  "select_response useful js None = (case find (useful_answer useful) js of
     Some (Joined r) \<Rightarrow> r
   | _ \<Rightarrow> if join_oks js \<noteq> [] then Inr (last (join_oks js))
      else if join_errs js \<noteq> [] then Inl (hd (join_errs js)) else Inr None)"
  unfolding select_with_last by (simp split: option.split joined.split)

text \<open>A value a get returns was the answer of one of the three first live peers whose arc covers
  the location.\<close>

lemma get_asks_covering_peers:
  assumes "dq_get k2 wa net d hash asks g = (g', Inr (Some ops))"
  shows "\<exists>sp agents i u. nw_near net sp (dht_loc wa hash) 1024 (gk_world g') = Inr agents \<and>
    i \<in> set agents \<and> ai_url i = Some u \<and> \<not> ai_is_tombstone i \<and>
    arc_contains wa (ai_storage_arc i) (dht_loc wa hash) \<and>
    asks sp (agent_from_k2 wa (ai_agent i), u) = Joined (Inr (Some ops))"
proof -
  let ?u = "\<lambda>ops. \<not> is_wire_ops_empty ops"
  from assms obtain sp ps where sp: "get_or_create_space k2 net d g = (g', Inr sp)"
    and ps: "get_peers_for_location wa net sp (dht_loc wa hash) (gk_world g') = Inr ps"
    and sel: "select_response ?u (map (asks sp) (take PARALLEL_GET_AGENTS_COUNT ps)) None = Inr (Some ops)"
    by (auto simp: dq_get_def run_query_def split: prod.splits sum.splits if_splits)
  have "Joined (Inr (Some ops)) \<in> set (map (asks sp) (take PARALLEL_GET_AGENTS_COUNT ps))"
    by (rule select_some [OF sel]) simp
  then obtain a u where au: "(a, u) \<in> set ps" "asks sp (a, u) = Joined (Inr (Some ops))"
    by (auto dest: in_set_takeD)
  from peers_for_location [OF ps au(1)] au(2) show ?thesis by metis
qed

text \<open>C22. What a request comes to once its message is out: the first event on its id decides. An
  answer is read; a withdrawal (its own cleanup timer, started before the sending, is one) closes the
  channel; and with no event it times out.\<close>

theorem request_outcome:
  assumes "pd_ok s" and "encode_batch wa [req] = Inr encoded"
    and "nw_send_notify net sp u encoded w = (w', Inr ())"
  shows "snd (send_request wa net expect sp u i req es1 es2 timed_out (s, w)) =
     (case find (\<lambda>e. event_key e = i) (es1 @ es2) of
        None \<Rightarrow> if timed_out then Some (Inl (Internal ''Request timed out'')) else None
      | Some (Deliver _ m) \<Rightarrow> Some (read_answer wa expect m)
      | Some _ \<Rightarrow> Some (Inl (Internal ''Response channel closed'')))"
proof -
  have "fold pd_event es2 (fold pd_event es1 (pd_register i s)) = answers.run (es1 @ es2) (pd_register i s)"
    by (simp add: pd_events_run [symmetric])
  then have run: "snd (send_request wa net expect sp u i req es1 es2 timed_out (s, w)) =
      request_finish wa expect timed_out (RqWaiting i (pd_created s)) (answers.run (es1 @ es2) (pd_register i s))"
    using assms(2,3) by (simp add: send_request_def request_begin_def request_send_def Let_def)
  show ?thesis
    unfolding run request_finish_def dht_task.case answers.first_event_decides [OF assms(1)]
    by (auto split: option.split event.split)
qed

theorem request_outcome_witness:
  "snd (send_get_request plain_wire quiet_network (SpaceId [7]) agent_b ''u'' (DhtEntry (EntryHash [])) 4
     [Enroll 9] [Deliver 4 (ErrorRes 4 ''no''), Withdraw 4] False (pd_new, ())) =
   Some (Inl (Internal ''Remote error: no''))"
proof -
  have e: "encode_batch plain_wire [GetReq 4 agent_b (DhtEntry (EntryHash []))] = Inr []"
    by (simp add: plain_wire_def)
  have n: "nw_send_notify quiet_network (SpaceId [7]) ''u'' [] () = ((), Inr ())"
    by (simp add: quiet_network_def)
  have a: "read_answer plain_wire expect_get (ErrorRes 4 ''no'') = Inl (Internal ''Remote error: no'')"
    by (simp add: read_answer_def)
  show ?thesis
    unfolding send_get_request_def request_outcome [OF pd_new_ok e n] by (simp add: a)
qed

definition query_network :: "unit network" where
  "query_network = quiet_network\<lparr>nw_near := \<lambda>_ _ _ _. Inr [peer_at ''a'' False,
     peer_at ''b'' False\<lparr>ai_storage_arc := Arc 0 9\<rparr>, peer_at ''c'' True]\<rparr>"

definition warrant_from_b :: "space_id \<Rightarrow> agent_pubkey \<times> url \<Rightarrow> wire_ops joined" where
  "warrant_from_b sp p = (if snd p = ''b'' then Joined (Inr (Some (OpsWarrant []))) else JoinFailed)"

lemma get_from_b: "dq_get plain_k2 plain_wire query_network dna_a (DhtEntry (EntryHash [])) warrant_from_b (gk_new ()) =
    (\<lparr>gk_spaces = [(dna_a, SpaceId [7])], gk_agents = [], gk_world = ()\<rparr>, Inr (Some (OpsWarrant [])))"
  by (simp add: dq_get_def run_query_def get_or_create_space_def gk_new_def plain_k2_def dna_a_def query_network_def
    quiet_network_def Let_def hm_insert_def hm_remove_def get_peers_for_location_def List.map_filter_def
    peer_for_location_def peer_at_def plain_wire_def warrant_from_b_def PARALLEL_GET_AGENTS_COUNT_def
    is_wire_ops_empty_def)

lemma get_asks_covering_peers_example:
  "\<exists>i u. i \<in> set [peer_at ''a'' False, peer_at ''b'' False\<lparr>ai_storage_arc := Arc 0 9\<rparr>, peer_at ''c'' True] \<and>
     warrant_from_b (SpaceId [7]) (AgentPubKey [1], u) = Joined (Inr (Some (OpsWarrant []))) \<and>
     ai_url i = Some u \<and> ai_storage_arc i = Arc 0 9"
proof -
  obtain sp agents i u where
    near: "nw_near query_network sp (dht_loc plain_wire (DhtEntry (EntryHash []))) 1024 () = Inr agents"
    and i: "i \<in> set agents" "ai_url i = Some u" "arc_contains plain_wire (ai_storage_arc i) (dht_loc plain_wire (DhtEntry (EntryHash [])))"
    "warrant_from_b sp (agent_from_k2 plain_wire (ai_agent i), u) = Joined (Inr (Some (OpsWarrant [])))"
    using get_asks_covering_peers [OF get_from_b] by auto
  from near i(1) have m: "i \<in> set [peer_at ''a'' False, peer_at ''b'' False\<lparr>ai_storage_arc := Arc 0 9\<rparr>, peer_at ''c'' True]"
    by (simp add: query_network_def)
  from i(4) have "warrant_from_b (SpaceId [7]) (AgentPubKey [1], u) = Joined (Inr (Some (OpsWarrant [])))"
    by (simp add: warrant_from_b_def)
  moreover from m i(3) have "ai_storage_arc i = Arc 0 9" by (auto simp: plain_wire_def peer_at_def)
  ultimately show ?thesis using m i(2) by metis
qed

end
