(* ===== verification/Wire_Json.thy ===== *)
theory Wire_Json imports Wire begin

text \<open>
  The answers of the DHT endpoints (\<open>src/routes/dht.rs\<close>): records, details and links rebuilt from
  the condensed wire answers. An answer is the value that serde then renders; \<open>DhtNull\<close> is JSON's
  null.
\<close>

section \<open>Values\<close>

datatype entry_dht_status = Live | Dead

record record_details =
  rd_record :: dht_record
  rd_validation_status :: validation_status
  rd_deletes :: "signed_action_hashed list"
  rd_updates :: "signed_action_hashed list"

record entry_details =
  en_entry :: entry
  en_actions :: "signed_action_hashed list"
  en_rejected_actions :: "signed_action_hashed list"
  en_deletes :: "signed_action_hashed list"
  en_updates :: "signed_action_hashed list"
  en_entry_dht_status :: entry_dht_status

record link =
  li_author :: agent_pubkey
  li_base :: any_linkable_hash
  li_target :: any_linkable_hash
  li_timestamp :: int
  li_zome_index :: "8 word"
  li_link_type :: "8 word"
  li_tag :: link_tag
  li_create_link_hash :: action_hash

datatype dht_value =
    DhtNull
  | DhtRecord dht_record
  | DhtRecordDetails record_details
  | DhtEntryDetails entry_details

definition presigned :: "wire_api \<Rightarrow> action \<Rightarrow> signature \<Rightarrow> signed_action_hashed" where
  "presigned w a sig = \<lparr>sa_action = a, sa_hash = hash_action w a, sa_signature = sig\<rparr>"

definition is_valid_status :: "validation_status option \<Rightarrow> bool" where
  "is_valid_status st = (case st of None \<Rightarrow> True | Some s \<Rightarrow> s = Valid)"

section \<open>Records\<close>

definition wire_record_ops_to_record :: "wire_api \<Rightarrow> wire_record_ops \<Rightarrow> dht_value" where
  "wire_record_ops_to_record w r = (case wo_action r of
     None \<Rightarrow> DhtNull
   | Some j \<Rightarrow> DhtRecord \<lparr>re_signed_action = presigned w (sn_action (ju_data j)) (sn_signature (ju_data j)),
        re_entry = wo_entry r\<rparr>)"

text \<open>The full action of a condensed create or update of an entry.\<close>

definition new_entry_action ::
    "entry_type \<Rightarrow> entry_hash \<Rightarrow> wire_new_entry_action \<Rightarrow> action \<times> signature" where
  "new_entry_action t h c = (case c of
     WireCreate k \<Rightarrow> (ActCreate \<lparr>cr_author = wc_author k, cr_timestamp = wc_timestamp k,
        cr_action_seq = wc_action_seq k, cr_prev_action = wc_prev_action k, cr_entry_type = t,
        cr_entry_hash = h, cr_weight = wc_weight k\<rparr>, wc_signature k)
   | WireUpdate u \<Rightarrow> (ActUpdate \<lparr>up_author = wu_author u, up_timestamp = wu_timestamp u,
        up_action_seq = wu_action_seq u, up_prev_action = wu_prev_action u,
        up_original_action_address = wu_original_action_address u,
        up_original_entry_address = wu_original_entry_address u, up_entry_type = t,
        up_entry_hash = h, up_weight = wu_weight u\<rparr>, wu_signature u))"

fun first_live_create :: "wire_api \<Rightarrow> entry_data \<Rightarrow> action_hash set \<Rightarrow>
    wire_new_entry_action judged list \<Rightarrow> dht_value" where
  "first_live_create w ed deleted [] = DhtNull"
| "first_live_create w ed deleted (j # js) =
     (if \<not> is_valid_status (ju_status j) then first_live_create w ed deleted js
      else (case new_entry_action (ed_entry_type ed) (hash_entry w (ed_entry ed)) (ju_data j) of
        (act, sig) \<Rightarrow>
          (if hash_action w act \<in> deleted then first_live_create w ed deleted js
           else DhtRecord \<lparr>re_signed_action = presigned w act sig, re_entry = Some (ed_entry ed)\<rparr>)))"

definition wire_entry_ops_to_record :: "wire_api \<Rightarrow> wire_entry_ops \<Rightarrow> dht_value" where
  "wire_entry_ops_to_record w e = (case we_entry e of
     None \<Rightarrow> DhtNull
   | Some ed \<Rightarrow> first_live_create w ed
       (set (map (\<lambda>d. de_deletes_address (wd_delete (ju_data d))) (we_deletes e))) (we_creates e))"

definition wire_ops_to_record_json :: "wire_api \<Rightarrow> wire_ops \<Rightarrow> dht_value" where
  "wire_ops_to_record_json w ops = (case ops of
     OpsRecord r \<Rightarrow> wire_record_ops_to_record w r
   | OpsEntry e \<Rightarrow> wire_entry_ops_to_record w e
   | OpsWarrant _ \<Rightarrow> DhtNull)"

section \<open>Details\<close>

definition delete_to_signed :: "wire_api \<Rightarrow> wire_delete judged \<Rightarrow> signed_action_hashed" where
  "delete_to_signed w d = presigned w (ActDelete (wd_delete (ju_data d))) (wd_signature (ju_data d))"

definition update_to_signed :: "wire_api \<Rightarrow> entry_hash \<Rightarrow> wire_update_relationship judged \<Rightarrow> signed_action_hashed" where
  "update_to_signed w original u = (let d = ju_data u in presigned w
     (ActUpdate \<lparr>up_author = wr_author d, up_timestamp = wr_timestamp d, up_action_seq = wr_action_seq d,
        up_prev_action = wr_prev_action d, up_original_action_address = wr_original_action_address d,
        up_original_entry_address = original, up_entry_type = wr_new_entry_type d,
        up_entry_hash = wr_new_entry_address d, up_weight = wr_weight d\<rparr>) (wr_signature d))"

definition wire_record_ops_to_details :: "wire_api \<Rightarrow> wire_record_ops \<Rightarrow> dht_value" where
  "wire_record_ops_to_details w r = (case wo_action r of
     None \<Rightarrow> DhtNull
   | Some j \<Rightarrow>
       (let act = sn_action (ju_data j);
            original = map_option fst (action_entry_data w act)
        in DhtRecordDetails \<lparr>
             rd_record = \<lparr>re_signed_action = presigned w act (sn_signature (ju_data j)), re_entry = wo_entry r\<rparr>,
             rd_validation_status = (case ju_status j of None \<Rightarrow> Valid | Some s \<Rightarrow> s),
             rd_deletes = map (delete_to_signed w) (wo_deletes r),
             rd_updates = List.map_filter (\<lambda>u. map_option (\<lambda>h. update_to_signed w h u) original) (wo_updates r)\<rparr>))"

definition entry_creates :: "wire_api \<Rightarrow> entry_data \<Rightarrow> wire_new_entry_action judged list \<Rightarrow> signed_action_hashed list" where
  "entry_creates w ed js = map (\<lambda>j. case new_entry_action (ed_entry_type ed) (hash_entry w (ed_entry ed)) (ju_data j) of
     (act, sig) \<Rightarrow> presigned w act sig) js"

definition entry_status :: "signed_action_hashed list \<Rightarrow> signed_action_hashed list \<Rightarrow> entry_dht_status" where
  "entry_status actions deletes =
     (if actions \<noteq> [] \<and> length deletes < length actions then Live
      else if actions \<noteq> [] then Dead
      else Live)"

definition wire_entry_ops_to_details :: "wire_api \<Rightarrow> wire_entry_ops \<Rightarrow> dht_value" where
  "wire_entry_ops_to_details w e = (case we_entry e of
     None \<Rightarrow> DhtNull
   | Some ed \<Rightarrow>
       (let actions = entry_creates w ed (filter (\<lambda>j. is_valid_status (ju_status j)) (we_creates e));
            rejected = entry_creates w ed (filter (\<lambda>j. \<not> is_valid_status (ju_status j)) (we_creates e));
            deletes = map (delete_to_signed w) (we_deletes e)
        in DhtEntryDetails \<lparr>en_entry = ed_entry ed, en_actions = actions, en_rejected_actions = rejected,
             en_deletes = deletes,
             en_updates = map (update_to_signed w (hash_entry w (ed_entry ed))) (we_updates e),
             en_entry_dht_status = entry_status actions deletes\<rparr>))"

definition wire_ops_to_details_json :: "wire_api \<Rightarrow> wire_ops \<Rightarrow> dht_value" where
  "wire_ops_to_details_json w ops = (case ops of
     OpsRecord r \<Rightarrow> wire_record_ops_to_details w r
   | OpsEntry e \<Rightarrow> wire_entry_ops_to_details w e
   | OpsWarrant _ \<Rightarrow> DhtNull)"

section \<open>Links\<close>

definition wire_link_ops_to_links ::
    "wire_api \<Rightarrow> any_linkable_hash \<Rightarrow> link_tag option \<Rightarrow> wire_link_ops \<Rightarrow> link list" where
  "wire_link_ops_to_links w base query_tag ops = map (\<lambda>c.
     let tag = (case wl_tag c of Some t \<Rightarrow> t | None \<Rightarrow> (case query_tag of Some t \<Rightarrow> t | None \<Rightarrow> []))
     in \<lparr>li_author = wl_author c, li_base = base, li_target = wl_target_address c,
         li_timestamp = wl_timestamp c, li_zome_index = wl_zome_index c, li_link_type = wl_link_type c,
         li_tag = tag,
         li_create_link_hash = hash_action w (ActCreateLink \<lparr>cl_author = wl_author c,
           cl_timestamp = wl_timestamp c, cl_action_seq = wl_action_seq c,
           cl_prev_action = wl_prev_action c, cl_base_address = base,
           cl_target_address = wl_target_address c, cl_zome_index = wl_zome_index c,
           cl_link_type = wl_link_type c, cl_tag = tag, cl_weight = wl_weight c\<rparr>)\<rparr>) (wk_creates ops)"

section \<open>Properties\<close>

lemma first_live_create_find:
  "first_live_create w ed deleted js =
     (case find (\<lambda>a. sa_hash a \<notin> deleted) (entry_creates w ed (filter (\<lambda>j. is_valid_status (ju_status j)) js)) of
        None \<Rightarrow> DhtNull
      | Some a \<Rightarrow> DhtRecord \<lparr>re_signed_action = a, re_entry = Some (ed_entry ed)\<rparr>)"
  by (induction js) (auto simp: entry_creates_def presigned_def split: prod.splits)

lemma find_SomeI: "find P xs = Some x \<Longrightarrow> x \<in> set xs \<and> P x"
  by (induction xs) (auto split: if_splits)

lemma sa_action_delete: "sa_action (delete_to_signed w x) = ActDelete (wd_delete (ju_data x))"
  by (simp add: delete_to_signed_def presigned_def)

definition delete_targets :: "signed_action_hashed list \<Rightarrow> action_hash set" where
  "delete_targets xs = {de_deletes_address d | d. ActDelete d \<in> sa_action ` set xs}"

lemma delete_targets_map:
  "delete_targets (map (delete_to_signed w) ds) = set (map (\<lambda>d. de_deletes_address (wd_delete (ju_data d))) ds)"
  by (force simp: delete_targets_def sa_action_delete image_iff)

lemma delete_targets_simps [simp]:
  "delete_targets [] = {}"
  "delete_targets (delete_to_signed w x # xs) =
     insert (de_deletes_address (wd_delete (ju_data x))) (delete_targets xs)"
  by (auto simp: delete_targets_def sa_action_delete)

text \<open>C37. The record and the details of an entry agree: the record is the first of the details' valid
  actions that no listed delete addresses, carrying the details' entry, and it is null exactly when
  there is none (or no entry).\<close>

theorem record_is_first_live_action:
  "wire_entry_ops_to_record w e =
     (case wire_entry_ops_to_details w e of
        DhtEntryDetails d \<Rightarrow>
          (case find (\<lambda>a. sa_hash a \<notin> delete_targets (en_deletes d)) (en_actions d) of
             None \<Rightarrow> DhtNull
           | Some a \<Rightarrow> DhtRecord \<lparr>re_signed_action = a, re_entry = Some (en_entry d)\<rparr>)
      | _ \<Rightarrow> DhtNull)"
  by (simp add: wire_entry_ops_to_record_def wire_entry_ops_to_details_def first_live_create_find
    delete_targets_map Let_def split: option.split)

text \<open>Nothing a peer sent gets lost between the condensed form and the details of an entry: every
  create is listed once, under valid or under rejected by its own status, every delete and update
  once and in order, each with the hash of the rebuilt action and its own signature.\<close>

lemma details_keep_every_action:
  assumes "we_entry e = Some ed"
  shows "\<exists>d. wire_entry_ops_to_details w e = DhtEntryDetails d \<and>
    length (en_actions d) + length (en_rejected_actions d) = length (we_creates e) \<and>
    map sa_signature (en_deletes d) = map (\<lambda>x. wd_signature (ju_data x)) (we_deletes e) \<and>
    map sa_signature (en_updates d) = map (\<lambda>x. wr_signature (ju_data x)) (we_updates e) \<and>
    list_all (\<lambda>a. sa_hash a = hash_action w (sa_action a))
      (en_actions d @ en_rejected_actions d @ en_deletes d @ en_updates d)"
proof -
  have "length (filter (\<lambda>j. is_valid_status (ju_status j)) (we_creates e)) +
      length (filter (\<lambda>j. \<not> is_valid_status (ju_status j)) (we_creates e)) = length (we_creates e)"
    by (rule sum_length_filter_compl)
  then show ?thesis
    by (auto simp: wire_entry_ops_to_details_def assms Let_def entry_creates_def delete_to_signed_def
      update_to_signed_def presigned_def list_all_iff split: prod.splits)
qed

definition sample_create :: "byte \<Rightarrow> wire_new_entry_action judged" where
  "sample_create b = \<lparr>ju_data = WireCreate \<lparr>wc_author = AgentPubKey [1], wc_timestamp = 0, wc_action_seq = 0,
     wc_prev_action = ActionHash [b], wc_weight = Weight [], wc_signature = [b]\<rparr>, ju_status = Some Valid\<rparr>"

definition sample_delete :: "byte \<Rightarrow> byte \<Rightarrow> wire_delete judged" where
  "sample_delete b target = \<lparr>ju_data = \<lparr>wd_delete = \<lparr>de_author = AgentPubKey [1], de_timestamp = 0,
     de_action_seq = 0, de_prev_action = ActionHash [b], de_deletes_address = ActionHash [0, target],
     de_deletes_entry_address = EntryHash [], de_weight = Weight []\<rparr>, wd_signature = [b]\<rparr>, ju_status = None\<rparr>"

text \<open>Two creates of one entry, the first of them deleted twice.\<close>

definition deleted_twice :: wire_entry_ops where
  "deleted_twice = \<lparr>we_creates = [sample_create 5, sample_create 6],
     we_deletes = [sample_delete 8 5, sample_delete 9 5], we_updates = [],
     we_entry = Some \<lparr>ed_entry = Entry [], ed_entry_type = EntryType []\<rparr>\<rparr>"

lemma details_keep_every_action_example:
  "\<exists>d. wire_entry_ops_to_details plain_wire deleted_twice = DhtEntryDetails d \<and>
     length (en_actions d) + length (en_rejected_actions d) = 2"
proof -
  have e: "we_entry deleted_twice = Some \<lparr>ed_entry = Entry [], ed_entry_type = EntryType []\<rparr>"
    by (simp add: deleted_twice_def)
  show ?thesis using details_keep_every_action [OF e, of plain_wire] by (auto simp: deleted_twice_def)
qed

text \<open>The entry status of the details counts deletes instead of matching them to the actions they
  delete: an entry of which one create is deleted twice and the other is live is reported dead,
  while the record endpoint returns the live create.\<close>

lemma status_counts_deletes:
  "\<exists>d r. wire_entry_ops_to_details plain_wire deleted_twice = DhtEntryDetails d \<and>
     en_entry_dht_status d = Dead \<and>
     wire_entry_ops_to_record plain_wire deleted_twice = DhtRecord r \<and>
     re_signed_action r \<in> set (en_actions d) \<and>
     sa_hash (re_signed_action r) \<notin> delete_targets (en_deletes d)"
  by (simp add: wire_entry_ops_to_record_def wire_entry_ops_to_details_def deleted_twice_def
    entry_creates_def new_entry_action_def sample_create_def sample_delete_def is_valid_status_def
    entry_status_def presigned_def plain_wire_def Let_def)

text \<open>Every link a peer reports becomes one link of the answer, in order, whatever deletes the peer
  also reports; its create hash is that of the link action with the link's own tag, so the tag of
  the query matters only where the peer left the tag out.\<close>

lemma links_keep_every_create:
  "length (wire_link_ops_to_links w base qt (ops\<lparr>wk_deletes := ds\<rparr>)) = length (wk_creates ops) \<and>
   wire_link_ops_to_links w base qt (ops\<lparr>wk_deletes := ds\<rparr>) = wire_link_ops_to_links w base qt ops \<and>
   map li_target (wire_link_ops_to_links w base qt ops) = map wl_target_address (wk_creates ops) \<and>
   wire_link_ops_to_links w base qt (ops\<lparr>wk_creates := filter (\<lambda>c. wl_tag c \<noteq> None) (wk_creates ops)\<rparr>) =
   wire_link_ops_to_links w base None (ops\<lparr>wk_creates := filter (\<lambda>c. wl_tag c \<noteq> None) (wk_creates ops)\<rparr>)"
  by (auto simp: wire_link_ops_to_links_def Let_def comp_def)

end
