(* ===== verification/Dht_Routes.thy ===== *)
theory Dht_Routes imports Dht_Query Wire_Json begin

text \<open>
  The DHT endpoints (\<open>src/routes/dht.rs\<close>): parsing of the path and the query, the query against the
  network, and the JSON it becomes. The query handler and the gateway are made together
  (\<open>src/service.rs\<close>), so the gateway being absent stands for both. Serializing a value already built
  does not fail here.
\<close>

section \<open>Parsing\<close>

definition parse_dna_hash :: "holo_hash_api \<Rightarrow> string \<Rightarrow> dna_hash linker_result" where
  "parse_dna_hash h s = map_error (\<lambda>_. RequestMalformed (''Invalid DNA hash: '' @ s)) (dna_try_from h s)"

definition parse_any_dht_hash :: "wire_api \<Rightarrow> string \<Rightarrow> any_dht_hash linker_result" where
  "parse_any_dht_hash wa s = (case entry_try_from wa s of
     Inr hash \<Rightarrow> Inr (DhtEntry hash)
   | Inl _ \<Rightarrow> (case action_try_from wa s of
        Inr hash \<Rightarrow> Inr (DhtAction hash)
      | Inl _ \<Rightarrow> Inl (RequestMalformed (''Invalid DHT hash: '' @ s))))"

definition parse_any_linkable_hash :: "holo_hash_api \<Rightarrow> wire_api \<Rightarrow> string \<Rightarrow> any_linkable_hash linker_result" where
  "parse_any_linkable_hash h wa s = (case agent_try_from h s of
     Inr hash \<Rightarrow> Inr (LinkableAgent hash)
   | Inl _ \<Rightarrow> (case entry_try_from wa s of
        Inr hash \<Rightarrow> Inr (LinkableEntry hash)
      | Inl _ \<Rightarrow> (case action_try_from wa s of
           Inr hash \<Rightarrow> Inr (LinkableAction hash)
         | Inl _ \<Rightarrow> (case external_try_from wa s of
              Inr hash \<Rightarrow> Inr (LinkableExternal hash)
            | Inl _ \<Rightarrow> Inl (RequestMalformed (''Invalid linkable hash: '' @ s))))))"

definition parse_agent_pubkey :: "holo_hash_api \<Rightarrow> string \<Rightarrow> agent_pubkey linker_result" where
  "parse_agent_pubkey h s = map_error (\<lambda>_. RequestMalformed (''Invalid agent pubkey: '' @ s)) (agent_try_from h s)"

definition parse_action_hash :: "wire_api \<Rightarrow> string \<Rightarrow> action_hash linker_result" where
  "parse_action_hash wa s = map_error (\<lambda>_. RequestMalformed (''Invalid action hash: '' @ s)) (action_try_from wa s)"

section \<open>Requests\<close>

record record_path =
  rp_dna_hash :: string
  rp_hash :: string

record links_query =
  lqp_base :: string
  lqp_link_type :: "16 word option"
  lqp_tag :: "string option"
  lqp_zome_index :: "8 word option"

record must_get_body =
  mg_agent :: string
  mg_chain_top :: string
  mg_include_cached_entries :: bool

definition single_type :: "byte \<Rightarrow> byte \<Rightarrow> link_type_filter" where
  "single_type zome_idx link_type = FilterTypes [(zome_idx, [link_type])]"

definition single_dep :: "byte \<Rightarrow> link_type_filter" where
  "single_dep zome_idx = FilterDependencies [zome_idx]"

text \<open>\<open>as u8\<close> keeps the low byte of the 16-bit type.\<close>

definition type_query :: "links_query \<Rightarrow> link_type_filter linker_result" where
  "type_query q = (case (lqp_zome_index q, lqp_link_type q) of
     (Some zome_idx, Some link_type) \<Rightarrow> Inr (single_type zome_idx (ucast link_type))
   | (Some zome_idx, None) \<Rightarrow> Inr (single_dep zome_idx)
   | (None, Some _) \<Rightarrow> Inl (RequestMalformed ''zome_index is required when filtering by link type'')
   | (None, None) \<Rightarrow> Inr (FilterTypes []))"

definition decode_tag :: "k2_api \<Rightarrow> string option \<Rightarrow> link_tag option linker_result" where
  "decode_tag k2 t = (case t of
     None \<Rightarrow> Inr None
   | Some s \<Rightarrow> (case base64_decode k2 s of
        Inl _ \<Rightarrow> Inl (RequestMalformed ''Invalid tag encoding'')
      | Inr bytes \<Rightarrow> Inr (Some bytes)))"

section \<open>Endpoints\<close>

definition not_available :: linker_error where
  "not_available = Internal ''DHT queries not available''"

text \<open>A query against the gateway, once its arguments are parsed.\<close>

definition with_query :: "'w gateway option \<Rightarrow> 'q linker_result \<Rightarrow>
    ('q \<Rightarrow> 'w gateway \<Rightarrow> 'w gateway \<times> 'r peer_result) \<Rightarrow> ('q \<Rightarrow> 'r option \<Rightarrow> 'v) \<Rightarrow>
    'w gateway option \<times> 'v linker_result" where
  "with_query gw arguments query render = (case gw of
     None \<Rightarrow> (gw, Inl not_available)
   | Some g \<Rightarrow> (case arguments of
        Inl e \<Rightarrow> (gw, Inl e)
      | Inr q \<Rightarrow> (case query q g of
           (g', Inl e) \<Rightarrow> (Some g', Inl e)
         | (g', Inr r) \<Rightarrow> (Some g', Inr (render q r)))))"

definition record_arguments :: "holo_hash_api \<Rightarrow> wire_api \<Rightarrow> record_path \<Rightarrow> (dna_hash \<times> any_dht_hash) linker_result" where
  "record_arguments h wa p = bind_result (parse_dna_hash h (rp_dna_hash p)) (\<lambda>d.
     bind_result (parse_any_dht_hash wa (rp_hash p)) (\<lambda>hash. Inr (d, hash)))"

definition dht_get_record :: "holo_hash_api \<Rightarrow> k2_api \<Rightarrow> wire_api \<Rightarrow> 'w network \<Rightarrow>
    (any_dht_hash \<Rightarrow> space_id \<Rightarrow> agent_pubkey \<times> url \<Rightarrow> wire_ops joined) \<Rightarrow> record_path \<Rightarrow>
    'w gateway option \<Rightarrow> 'w gateway option \<times> dht_value linker_result" where
  "dht_get_record h k2 wa net asks p gw = with_query gw (record_arguments h wa p)
     (\<lambda>(d, hash). dq_get k2 wa net d hash (asks hash))
     (\<lambda>_ result. case result of Some ops \<Rightarrow> wire_ops_to_record_json wa ops | None \<Rightarrow> DhtNull)"

definition dht_get_details :: "holo_hash_api \<Rightarrow> k2_api \<Rightarrow> wire_api \<Rightarrow> 'w network \<Rightarrow>
    (any_dht_hash \<Rightarrow> space_id \<Rightarrow> agent_pubkey \<times> url \<Rightarrow> wire_ops joined) \<Rightarrow> record_path \<Rightarrow>
    'w gateway option \<Rightarrow> 'w gateway option \<times> dht_value linker_result" where
  "dht_get_details h k2 wa net asks p gw = with_query gw (record_arguments h wa p)
     (\<lambda>(d, hash). dq_get k2 wa net d hash (asks hash))
     (\<lambda>_ result. case result of Some ops \<Rightarrow> wire_ops_to_details_json wa ops | None \<Rightarrow> DhtNull)"

definition links_arguments ::
    "holo_hash_api \<Rightarrow> k2_api \<Rightarrow> wire_api \<Rightarrow> string \<Rightarrow> links_query \<Rightarrow> (dna_hash \<times> wire_link_key) linker_result" where
  "links_arguments h k2 wa dna q =
     bind_result (parse_dna_hash h dna) (\<lambda>d.
     bind_result (parse_any_linkable_hash h wa (lqp_base q)) (\<lambda>base.
     bind_result (decode_tag k2 (lqp_tag q)) (\<lambda>tag.
     bind_result (type_query q) (\<lambda>types.
       Inr (d, \<lparr>lk_base = base, lk_type_query = types, lk_tag = tag, lk_after = None, lk_before = None,
          lk_author = None\<rparr>)))))"

definition dht_get_links :: "holo_hash_api \<Rightarrow> k2_api \<Rightarrow> wire_api \<Rightarrow> 'w network \<Rightarrow>
    (wire_link_key \<Rightarrow> space_id \<Rightarrow> agent_pubkey \<times> url \<Rightarrow> wire_link_ops joined) \<Rightarrow> string \<Rightarrow> links_query \<Rightarrow>
    'w gateway option \<Rightarrow> 'w gateway option \<times> link list linker_result" where
  "dht_get_links h k2 wa net asks dna q gw = with_query gw (links_arguments h k2 wa dna q)
     (\<lambda>(d, key). dq_get_links k2 wa net d key (asks key))
     (\<lambda>(d, key) result. case result of
        Some ops \<Rightarrow> wire_link_ops_to_links wa (lk_base key) (lk_tag key) ops | None \<Rightarrow> [])"

definition count_arguments ::
    "holo_hash_api \<Rightarrow> k2_api \<Rightarrow> wire_api \<Rightarrow> string \<Rightarrow> links_query \<Rightarrow> (dna_hash \<times> wire_link_query) linker_result" where
  "count_arguments h k2 wa dna q =
     bind_result (parse_dna_hash h dna) (\<lambda>d.
     bind_result (parse_any_linkable_hash h wa (lqp_base q)) (\<lambda>base.
     bind_result (decode_tag k2 (lqp_tag q)) (\<lambda>prefix.
     bind_result (type_query q) (\<lambda>types.
       Inr (d, \<lparr>lq_base = base, lq_link_type = types, lq_tag_prefix = prefix, lq_before = None,
          lq_after = None, lq_author = None\<rparr>)))))"

text \<open>The response is serialized as it is; no answer, and one that does not serialize, is the number zero.\<close>

definition count_json :: "(count_links_response \<Rightarrow> string + json) \<Rightarrow> count_links_response option \<Rightarrow> json" where
  "count_json to_value result = (case result of
     Some count_response \<Rightarrow> (case to_value count_response of Inr v \<Rightarrow> v | Inl _ \<Rightarrow> JNumber 0)
   | None \<Rightarrow> JNumber 0)"

definition dht_count_links :: "holo_hash_api \<Rightarrow> k2_api \<Rightarrow> wire_api \<Rightarrow> 'w network \<Rightarrow>
    (count_links_response \<Rightarrow> string + json) \<Rightarrow>
    (wire_link_query \<Rightarrow> space_id \<Rightarrow> agent_pubkey \<times> url \<Rightarrow> count_links_response joined) \<Rightarrow> string \<Rightarrow> links_query \<Rightarrow>
    'w gateway option \<Rightarrow> 'w gateway option \<times> json linker_result" where
  "dht_count_links h k2 wa net to_value asks dna q gw = with_query gw (count_arguments h k2 wa dna q)
     (\<lambda>(d, query). dq_count_links k2 wa net d query (asks query))
     (\<lambda>_ result. count_json to_value result)"

definition activity_options :: "string option \<Rightarrow> get_activity_options" where
  "activity_options request = (let is_full = (request \<noteq> Some ''status'') in
     \<lparr>go_include_valid_activity = is_full, go_include_rejected_activity = is_full,
      go_include_warrants = True, go_include_full_records = False\<rparr>)"

definition dht_get_agent_activity where
  "dht_get_agent_activity h k2 wa net asks dna agent_hash request gw = with_query gw
     (bind_result (parse_dna_hash h dna) (\<lambda>d.
      bind_result (parse_agent_pubkey h agent_hash) (\<lambda>agent. Inr (d, agent))))
     (\<lambda>(d, agent). dq_get_agent_activity k2 wa net d agent
        (asks agent (new_chain_query wa) (activity_options request)))
     (\<lambda>_ result. result)"

definition dht_must_get_agent_activity where
  "dht_must_get_agent_activity h k2 wa net asks dna body gw = with_query gw
     (bind_result (parse_dna_hash h dna) (\<lambda>d.
      bind_result (parse_agent_pubkey h (mg_agent body)) (\<lambda>agent.
      bind_result (parse_action_hash wa (mg_chain_top body)) (\<lambda>top. Inr (d, agent, top)))))
     (\<lambda>(d, agent, top). dq_must_get_agent_activity k2 wa net d agent
        (asks agent \<lparr>cf_chain_top = top, cf_limit_conditions = ToGenesis,
           cf_include_cached_entries = mg_include_cached_entries body\<rparr>))
     (\<lambda>_ result. result)"

section \<open>Properties\<close>

lemma with_query_refused: "arguments = Inl e \<Longrightarrow> with_query (Some g) arguments query render = (Some g, Inl e)"
  by (simp add: with_query_def)

lemma type_query_error: "type_query q = Inl e \<longleftrightarrow> lqp_zome_index q = None \<and> lqp_link_type q \<noteq> None \<and>
    e = RequestMalformed ''zome_index is required when filtering by link type''"
  by (auto simp: type_query_def split: option.splits)

text \<open>A links request with an argument that does not parse, or a link type without its zome, is
  answered with a 400 before the network is touched: no space is created for it.\<close>

lemma malformed_links_query_refused:
  assumes "(\<exists>e. dna_try_from h dna = Inl e) \<or>
     (\<exists>e1 e2 e3 e4. agent_try_from h (lqp_base q) = Inl e1 \<and> entry_try_from wa (lqp_base q) = Inl e2 \<and>
        action_try_from wa (lqp_base q) = Inl e3 \<and> external_try_from wa (lqp_base q) = Inl e4) \<or>
     (\<exists>t e. lqp_tag q = Some t \<and> base64_decode k2 t = Inl e) \<or>
     (lqp_link_type q \<noteq> None \<and> lqp_zome_index q = None)"
  shows "\<exists>msg. dht_get_links h k2 wa net asks dna q (Some g) = (Some g, Inl (RequestMalformed msg)) \<and>
     rs_status (error_into_response (RequestMalformed msg)) = 400"
proof -
  have "\<exists>msg. links_arguments h k2 wa dna q = Inl (RequestMalformed msg)"
    using assms unfolding links_arguments_def
    by (auto simp: parse_dna_hash_def parse_any_linkable_hash_def decode_tag_def type_query_def map_error_def
      bind_result_def split: sum.splits option.splits)
  then obtain msg where "links_arguments h k2 wa dna q = Inl (RequestMalformed msg)" by blast
  then show ?thesis
    unfolding dht_get_links_def by (auto simp: with_query_refused error_into_response_def error_status_message_def)
qed

definition typed_query :: links_query where
  "typed_query = \<lparr>lqp_base = ''a1'', lqp_link_type = Some 5, lqp_tag = None, lqp_zome_index = None\<rparr>"

lemma malformed_links_query_refused_example:
  "\<exists>msg. dht_get_links plain_holo_hash plain_k2 plain_wire quiet_network (\<lambda>_ _ _. JoinFailed) ''d1'' typed_query
     (Some (gk_new ())) = (Some (gk_new ()), Inl (RequestMalformed msg))"
  using malformed_links_query_refused [of plain_holo_hash "''d1''" typed_query plain_wire plain_k2
    quiet_network "\<lambda>_ _ _. JoinFailed" "gk_new ()"]
  by (auto simp: typed_query_def)

text \<open>Only the low byte of a requested link type counts: a request for type 261 is the same query
  as one for type 5, for the links as for their count.\<close>

lemma link_type_keeps_low_byte:
  "dht_get_links h k2 wa net asks dna q gw =
     dht_get_links h k2 wa net asks dna (q\<lparr>lqp_link_type := map_option (\<lambda>t. t + 256) (lqp_link_type q)\<rparr>) gw \<and>
   dht_count_links h k2 wa net to_value asks' dna q gw =
     dht_count_links h k2 wa net to_value asks' dna (q\<lparr>lqp_link_type := map_option (\<lambda>t. t + 256) (lqp_link_type q)\<rparr>) gw"
proof -
  have low: "(ucast (t + 256) :: 8 word) = ucast t" for t :: "16 word"
    by transfer (simp add: take_bit_eq_mod mod_mod_cancel)
  have "type_query (q\<lparr>lqp_link_type := map_option (\<lambda>t. t + 256) (lqp_link_type q)\<rparr>) = type_query q"
    by (simp add: type_query_def low split: option.split)
  then show ?thesis
    by (simp add: dht_get_links_def dht_count_links_def links_arguments_def count_arguments_def)
qed

text \<open>C23. From request to answer: the record a client gets is the one read from the first useful answer
  among the first three peers whose arc covers the location, in the order in which kitsune2 lists them. The
  details are read from the same answer of the network; no conductor has a part in either.\<close>

theorem record_of_first_useful_peer:
  assumes "dna_try_from h (rp_dna_hash p) = Inr d" and "parse_any_dht_hash wa (rp_hash p) = Inr hash"
    and "get_or_create_space k2 net d g = (g', Inr sp)"
    and "get_peers_for_location wa net sp (dht_loc wa hash) (gk_world g') = Inr ps"
    and "find (useful_answer (\<lambda>ops. \<not> is_wire_ops_empty ops)) (map (asks hash sp) (take 3 ps)) =
      Some (Joined (Inr (Some ops)))"
  shows "dht_get_record h k2 wa net asks p (Some g) = (Some g', Inr (wire_ops_to_record_json wa ops)) \<and>
    dht_get_details h k2 wa net asks p (Some g) = (Some g', Inr (wire_ops_to_details_json wa ops))"
proof -
  have args: "record_arguments h wa p = Inr (d, hash)"
    using assms(1,2) by (simp add: record_arguments_def parse_dna_hash_def)
  have "ps \<noteq> []" using assms(5) by auto
  then have "dq_get k2 wa net d hash (asks hash) g = (g', Inr (Some ops))"
    using assms(3,4,5) by (simp add: dq_get_def run_query_def PARALLEL_GET_AGENTS_COUNT_def select_with_last)
  then show ?thesis
    by (simp add: dht_get_record_def dht_get_details_def with_query_def args)
qed

definition sample_record_ops :: wire_ops where
  "sample_record_ops = OpsRecord \<lparr>wo_action = Some \<lparr>ju_data = \<lparr>sn_action = ActOther [9], sn_signature = [1]\<rparr>,
     ju_status = Some Valid\<rparr>, wo_deletes = [], wo_updates = [], wo_entry = None\<rparr>"

theorem record_of_first_useful_peer_witness:
  "snd (dht_get_record plain_holo_hash plain_k2 plain_wire query_network
     (\<lambda>_ _ _. Joined (Inr (Some sample_record_ops))) \<lparr>rp_dna_hash = ''d'' @ text_of_bytes [7], rp_hash = ''e''\<rparr>
     (Some (gk_new ()))) =
   Inr (DhtRecord \<lparr>re_signed_action = presigned plain_wire (ActOther [9]) [1], re_entry = None\<rparr>)"
proof -
  let ?p = "\<lparr>rp_dna_hash = ''d'' @ text_of_bytes [7], rp_hash = ''e''\<rparr>"
  let ?g' = "\<lparr>gk_spaces = [(dna_a, SpaceId [7])], gk_agents = [], gk_world = ()\<rparr>"
  have d: "dna_try_from plain_holo_hash (rp_dna_hash ?p) = Inr dna_a"
    by (simp add: plain_holo_hash_def dna_a_def)
  have hash: "parse_any_dht_hash plain_wire (rp_hash ?p) = Inr (DhtEntry (EntryHash []))"
    by (simp add: parse_any_dht_hash_def plain_wire_def bytes_of_text_def)
  have sp: "get_or_create_space plain_k2 query_network dna_a (gk_new ()) = (?g', Inr (SpaceId [7]))"
    by (simp add: get_or_create_space_def gk_new_def plain_k2_def dna_a_def query_network_def quiet_network_def
      Let_def hm_insert_def hm_remove_def)
  have ps: "get_peers_for_location plain_wire query_network (SpaceId [7])
      (dht_loc plain_wire (DhtEntry (EntryHash []))) (gk_world ?g') = Inr [(AgentPubKey [1], ''b'')]"
    by (simp add: get_peers_for_location_def query_network_def List.map_filter_def peer_for_location_def peer_at_def
      plain_wire_def)
  have f: "find (useful_answer (\<lambda>ops. \<not> is_wire_ops_empty ops)) (map ((\<lambda>_ _ _. Joined (Inr (Some sample_record_ops)))
      (DhtEntry (EntryHash [])) (SpaceId [7])) (take 3 [(AgentPubKey [1], ''b'')])) =
      Some (Joined (Inr (Some sample_record_ops)))"
    by (simp add: sample_record_ops_def is_wire_ops_empty_def)
  have r: "wire_ops_to_record_json plain_wire sample_record_ops =
      DhtRecord \<lparr>re_signed_action = presigned plain_wire (ActOther [9]) [1], re_entry = None\<rparr>"
    by (simp add: wire_ops_to_record_json_def wire_record_ops_to_record_def sample_record_ops_def)
  show ?thesis
    using record_of_first_useful_peer [OF d hash sp ps, of "\<lambda>_ _ _. Joined (Inr (Some sample_record_ops))", OF f]
    by (simp add: r)
qed

end
