(* ===== verification/Temp_Op_Store.thy ===== *)
theory Temp_Op_Store imports Gateway_Kitsune begin

text \<open>
  The op store of \<open>src/temp_op_store.rs\<close>: ops published through the linker, kept for a minute so that
  the network's authorities can fetch them. Times are nanoseconds of the monotonic clock. Decoding and
  hashing an op belong to \<open>holochain_types\<close> and are the parameter \<open>op_api\<close>. The store of every space
  is the same shared map, and the space is a field the code never reads.
\<close>

section \<open>Ops\<close>

datatype chain_op = ChainOpData bytes
datatype warrant_op = WarrantOpData bytes
datatype dht_op = ChainOp chain_op | WarrantOp warrant_op

type_synonym op_id = bytes

text \<open>\<open>decode_op\<close> and \<open>extern_decode\<close> are the two entry points of the crate's MessagePack decoder,
  \<open>located_op_id\<close> joins the op's hash with the location of its basis.\<close>

record op_api =
  decode_op :: "bytes \<Rightarrow> string + dht_op"
  extern_decode :: "bytes \<Rightarrow> string + dht_op"
  op_hash :: "dht_op \<Rightarrow> bytes"
  op_basis :: "dht_op \<Rightarrow> any_linkable_hash"
  located_op_id :: "bytes \<Rightarrow> any_linkable_hash \<Rightarrow> op_id"
  chain_op_timestamp :: "chain_op \<Rightarrow> int"
  warrant_timestamp :: "warrant_op \<Rightarrow> int"

definition op_id_of :: "op_api \<Rightarrow> dht_op \<Rightarrow> op_id" where
  "op_id_of oa dop = located_op_id oa (op_hash oa dop) (op_basis oa dop)"

definition plain_ops :: op_api where
  "plain_ops = \<lparr>
     decode_op = (\<lambda>b. if b = [] then Inl ''eof'' else if hd b = 0 then Inr (WarrantOp (WarrantOpData (tl b)))
       else Inr (ChainOp (ChainOpData (tl b)))),
     extern_decode = (\<lambda>b. if b = [] then Inl ''eof'' else if hd b = 0 then Inr (WarrantOp (WarrantOpData (tl b)))
       else Inr (ChainOp (ChainOpData (tl b)))),
     op_hash = (\<lambda>d. case d of ChainOp (ChainOpData b) \<Rightarrow> 1 # b | WarrantOp (WarrantOpData b) \<Rightarrow> 0 # b),
     op_basis = (\<lambda>d. case d of ChainOp (ChainOpData b) \<Rightarrow> LinkableEntry (EntryHash b)
       | WarrantOp (WarrantOpData b) \<Rightarrow> LinkableEntry (EntryHash b)),
     located_op_id = (\<lambda>h _. h), chain_op_timestamp = (\<lambda>_. 0), warrant_timestamp = (\<lambda>_. 0)\<rparr>"

section \<open>The store\<close>

definition SECOND :: nat where "SECOND = 1000000000"
definition OP_TTL :: nat where "OP_TTL = 60 * SECOND"
definition CLEANUP_INTERVAL :: nat where "CLEANUP_INTERVAL = 10 * SECOND"

record stored_op_record =
  so_op_id :: op_id
  so_op_data :: bytes
  so_stored_at :: nat
  so_created_at :: int

type_synonym op_store_inner = "(op_id, stored_op_record) hashmap"

definition op_store_new :: op_store_inner where
  "op_store_new = []"

definition op_created_at :: "op_api \<Rightarrow> dht_op \<Rightarrow> int" where
  "op_created_at oa dop = (case dop of
     ChainOp c \<Rightarrow> chain_op_timestamp oa c | WarrantOp w \<Rightarrow> warrant_timestamp oa w)"

definition store_op :: "op_api \<Rightarrow> nat \<Rightarrow> bytes \<Rightarrow> op_store_inner \<Rightarrow> op_store_inner \<times> (string + op_id)" where
  "store_op oa now op_bytes ops = (case decode_op oa op_bytes of
     Inl e \<Rightarrow> (ops, Inl (''Failed to decode DhtOp: '' @ e))
   | Inr dop \<Rightarrow>
      (let i = op_id_of oa dop
       in (hm_insert i \<lparr>so_op_id = i, so_op_data = op_bytes, so_stored_at = now,
             so_created_at = op_created_at oa dop\<rparr> ops, Inr i)))"

definition op_count :: "op_store_inner \<Rightarrow> nat" where
  "op_count ops = length ops"

text \<open>\<open>duration_since\<close> saturates at zero, as subtraction on the naturals does.\<close>

definition cleanup_expired :: "nat \<Rightarrow> op_store_inner \<Rightarrow> op_store_inner" where
  "cleanup_expired now ops = hm_retain (\<lambda>_ r. now - so_stored_at r < OP_TTL) ops"

section \<open>The op store interface of kitsune2\<close>

record temp_op_store =
  to_inner :: op_store_inner
  to_space_id :: space_id

record meta_op =
  mo_op_id :: op_id
  mo_op_data :: bytes

definition create_op_store :: "space_id \<Rightarrow> op_store_inner \<Rightarrow> temp_op_store" where
  "create_op_store sp ops = \<lparr>to_inner = ops, to_space_id = sp\<rparr>"

definition process_incoming_ops :: "bytes list \<Rightarrow> temp_op_store \<Rightarrow> op_id list" where
  "process_incoming_ops op_list s = []"

fun retrieve_loop :: "op_store_inner \<Rightarrow> op_id list \<Rightarrow> meta_op list \<Rightarrow> meta_op list" where
  "retrieve_loop ops [] result = result"
| "retrieve_loop ops (i # ids) result = (case hm_get ops i of
     None \<Rightarrow> retrieve_loop ops ids result
   | Some r \<Rightarrow> retrieve_loop ops ids (result @ [\<lparr>mo_op_id = i, mo_op_data = so_op_data r\<rparr>]))"

definition retrieve_ops :: "op_id list \<Rightarrow> temp_op_store \<Rightarrow> meta_op list" where
  "retrieve_ops ids s = retrieve_loop (to_inner s) ids []"

definition filter_out_existing_ops :: "op_id list \<Rightarrow> temp_op_store \<Rightarrow> op_id list" where
  "filter_out_existing_ops ids s = filter (\<lambda>i. \<not> hm_contains (to_inner s) i) ids"

text \<open>The linker holds no arc, so gossip finds nothing here.\<close>

definition retrieve_op_hashes_in_time_slice ::
    "dht_arc \<Rightarrow> int \<Rightarrow> int \<Rightarrow> temp_op_store \<Rightarrow> op_id list \<times> u32" where
  "retrieve_op_hashes_in_time_slice arc t0 t1 s = ([], 0)"

definition retrieve_op_ids_bounded ::
    "dht_arc \<Rightarrow> int \<Rightarrow> u32 \<Rightarrow> temp_op_store \<Rightarrow> op_id list \<times> u32 \<times> int" where
  "retrieve_op_ids_bounded arc start limit_bytes s = ([], 0, start)"

definition earliest_timestamp_in_arc :: "dht_arc \<Rightarrow> temp_op_store \<Rightarrow> int option" where
  "earliest_timestamp_in_arc arc s = None"

definition store_slice_hash :: "dht_arc \<Rightarrow> u64 \<Rightarrow> bytes \<Rightarrow> temp_op_store \<Rightarrow> temp_op_store" where
  "store_slice_hash arc slice_index h s = s"

definition slice_hash_count :: "dht_arc \<Rightarrow> temp_op_store \<Rightarrow> u64" where
  "slice_hash_count arc s = 0"

definition retrieve_slice_hash :: "dht_arc \<Rightarrow> u64 \<Rightarrow> temp_op_store \<Rightarrow> bytes option" where
  "retrieve_slice_hash arc slice_index s = None"

definition retrieve_slice_hashes :: "dht_arc \<Rightarrow> temp_op_store \<Rightarrow> (u64 \<times> bytes) list" where
  "retrieve_slice_hashes arc s = []"

section \<open>The store over time\<close>

text \<open>What happens to the store: ops stored, passes of the cleanup task, and fetches, which leave it
  as it is. \<open>os_ends\<close> is the clock after the events.\<close>

datatype op_event =
    OpStored nat bytes
  | OpCleanup nat
  | OpFetched nat "op_id list"
  | OpIncoming nat "bytes list"

fun op_event_time :: "op_event \<Rightarrow> nat" where
  "op_event_time (OpStored t _) = t"
| "op_event_time (OpCleanup t) = t"
| "op_event_time (OpFetched t _) = t"
| "op_event_time (OpIncoming t _) = t"

fun op_step :: "op_api \<Rightarrow> op_event \<Rightarrow> op_store_inner \<Rightarrow> op_store_inner" where
  "op_step oa (OpStored t b) ops = fst (store_op oa t b ops)"
| "op_step oa (OpCleanup t) ops = cleanup_expired t ops"
| "op_step oa (OpFetched t ids) ops = ops"
| "op_step oa (OpIncoming t bs) ops = ops"

definition op_run :: "op_api \<Rightarrow> op_event list \<Rightarrow> op_store_inner \<Rightarrow> op_store_inner" where
  "op_run oa evs ops = fold (op_step oa) evs ops"

section \<open>Invariant\<close>

text \<open>Every record is under the id of the op its bytes decode to.\<close>

definition record_ok :: "op_api \<Rightarrow> op_id \<Rightarrow> stored_op_record \<Rightarrow> bool" where
  "record_ok oa i r \<longleftrightarrow> so_op_id r = i \<and>
     (\<exists>dop. decode_op oa (so_op_data r) = Inr dop \<and> op_id_of oa dop = i \<and> so_created_at r = op_created_at oa dop)"

definition ops_ok :: "op_api \<Rightarrow> op_store_inner \<Rightarrow> bool" where
  "ops_ok oa ops \<longleftrightarrow> hm_wf ops \<and> (\<forall>e \<in> set ops. record_ok oa (fst e) (snd e))"

lemma ops_ok_new [simp]: "ops_ok oa op_store_new"
  by (simp add: ops_ok_def op_store_new_def)

lemma ops_ok_get: "ops_ok oa ops \<Longrightarrow> hm_get ops i = Some r \<Longrightarrow> record_ok oa i r"
  by (force simp: ops_ok_def dest: fst_mem_hm_get)

lemma store_op_cases:
  obtains (bad) e where "decode_op oa b = Inl e" "store_op oa t b ops = (ops, Inl (''Failed to decode DhtOp: '' @ e))"
  | (good) dop r where "decode_op oa b = Inr dop" "store_op oa t b ops = (hm_insert (op_id_of oa dop) r ops, Inr (op_id_of oa dop))"
      "record_ok oa (op_id_of oa dop) r" "so_op_data r = b" "so_stored_at r = t"
  by (cases "decode_op oa b") (auto simp: store_op_def Let_def record_ok_def)

lemma ops_ok_insert:
  assumes "ops_ok oa ops" and "record_ok oa i r"
  shows "ops_ok oa (hm_insert i r ops)"
  unfolding ops_ok_def
proof (intro conjI ballI)
  show "hm_wf (hm_insert i r ops)" using assms(1) by (simp add: ops_ok_def)
  fix e assume "e \<in> set (hm_insert i r ops)"
  with assms show "record_ok oa (fst e) (snd e)" by (auto simp: ops_ok_def hm_insert_def hm_remove_def)
qed

lemma ops_ok_retain: "ops_ok oa ops \<Longrightarrow> ops_ok oa (hm_retain P ops)"
  unfolding ops_ok_def by (simp add: hm_wf_retain) (simp add: hm_retain_def)

lemma op_step_ok: "ops_ok oa ops \<Longrightarrow> ops_ok oa (op_step oa ev ops)"
proof (cases ev)
  case (OpStored t b)
  assume "ops_ok oa ops"
  then show ?thesis unfolding OpStored
    by (cases rule: store_op_cases [of oa b t ops]) (simp_all add: ops_ok_insert)
qed (simp_all add: cleanup_expired_def ops_ok_retain)

lemma op_run_ok: "ops_ok oa ops \<Longrightarrow> ops_ok oa (op_run oa evs ops)"
  by (induction evs arbitrary: ops) (simp_all add: op_run_def op_step_ok)

lemma retrieve_loop_eq:
  "retrieve_loop ops ids result = result @ List.map_filter
     (\<lambda>i. map_option (\<lambda>r. \<lparr>mo_op_id = i, mo_op_data = so_op_data r\<rparr>) (hm_get ops i)) ids"
  by (induction ops ids result rule: retrieve_loop.induct)
    (simp_all add: List.map_filter_def split: option.split)

lemma retrieve_ops_eq:
  "retrieve_ops ids s = List.map_filter
     (\<lambda>i. map_option (\<lambda>r. \<lparr>mo_op_id = i, mo_op_data = so_op_data r\<rparr>) (hm_get (to_inner s) i)) ids"
  by (simp add: retrieve_ops_def retrieve_loop_eq)

section \<open>Properties\<close>

lemma map_filter_ids:
  "map mo_op_id (List.map_filter (\<lambda>i. map_option (\<lambda>r. \<lparr>mo_op_id = i, mo_op_data = so_op_data r\<rparr>) (hm_get ops i)) ids) =
   filter (\<lambda>i. hm_get ops i \<noteq> None) ids"
  by (induction ids) (auto simp: List.map_filter_def)

text \<open>What a fetch answers, at any point of any history of stores, cleanups and fetches: exactly the
  asked ops that \<open>filter_out_existing_ops\<close> does not report as missing, in the order asked, and the bytes
  of each decode to the op whose hash and location make up the id.\<close>

lemma fetch_serves_stored_ops:
  "map mo_op_id (retrieve_ops ids (create_op_store sp (op_run oa evs op_store_new))) =
     filter (\<lambda>i. i \<notin> set (filter_out_existing_ops ids (create_op_store sp (op_run oa evs op_store_new)))) ids \<and>
   set (retrieve_ops ids (create_op_store sp (op_run oa evs op_store_new))) \<subseteq>
     {m. \<exists>dop. decode_op oa (mo_op_data m) = Inr dop \<and> op_id_of oa dop = mo_op_id m}" (is "?ids \<and> _ \<subseteq> ?good")
proof (intro conjI subsetI)
  let ?ops = "op_run oa evs op_store_new"
  have "filter (\<lambda>i. i \<notin> set (filter_out_existing_ops ids (create_op_store sp ?ops))) ids =
      filter (\<lambda>i. hm_get ?ops i \<noteq> None) ids"
    by (rule filter_cong [OF refl]) (auto simp: filter_out_existing_ops_def create_op_store_def)
  then show ?ids by (simp add: retrieve_ops_eq map_filter_ids create_op_store_def)
next
  let ?ops = "op_run oa evs op_store_new"
  fix m assume "m \<in> set (retrieve_ops ids (create_op_store sp ?ops))"
  then obtain i r where i: "hm_get ?ops i = Some r" and m: "m = \<lparr>mo_op_id = i, mo_op_data = so_op_data r\<rparr>"
    by (auto simp: retrieve_ops_eq create_op_store_def List.map_filter_def)
  have "record_ok oa i r" by (rule ops_ok_get [OF op_run_ok [OF ops_ok_new] i])
  then show "m \<in> ?good" by (auto simp: record_ok_def m)
qed

definition kept_since :: "nat \<Rightarrow> op_id \<Rightarrow> op_store_inner \<Rightarrow> bool" where
  "kept_since t i ops \<longleftrightarrow> (\<exists>r. (i, r) \<in> set ops \<and> t \<le> so_stored_at r)"

lemma kept_step:
  assumes "kept_since t i ops" and "t \<le> op_event_time ev" and "op_event_time ev < t + OP_TTL"
  shows "kept_since t i (op_step oa ev ops)"
proof (cases ev)
  case (OpStored u b)
  show ?thesis unfolding OpStored
  proof (cases rule: store_op_cases [of oa b u ops])
    case (good dop r)
    with assms OpStored show "kept_since t i (op_step oa (OpStored u b) ops)"
      by (cases "i = op_id_of oa dop") (auto simp: kept_since_def hm_insert_def hm_remove_def)
  qed (use assms in simp)
next
  case (OpCleanup u)
  from assms(1) obtain r where "(i, r) \<in> set ops" "t \<le> so_stored_at r" by (auto simp: kept_since_def)
  moreover have "u - so_stored_at r < OP_TTL" using assms(2,3) OpCleanup \<open>t \<le> so_stored_at r\<close> by simp
  ultimately show ?thesis by (auto simp: OpCleanup kept_since_def cleanup_expired_def hm_retain_def)
qed (use assms in simp_all)

lemma kept_run:
  "kept_since t i ops \<Longrightarrow> \<forall>ev \<in> set evs. t \<le> op_event_time ev \<and> op_event_time ev < t + OP_TTL \<Longrightarrow>
   kept_since t i (op_run oa evs ops)"
  by (induction evs arbitrary: ops) (simp_all add: op_run_def kept_step)

text \<open>A published op can be fetched for its whole time to live: whatever is stored, cleaned up or
  fetched in the sixty seconds after it was stored, fetching its id answers bytes of that op. A fetch does
  not use the op up.\<close>

lemma op_served_for_ttl:
  assumes "decode_op oa b = Inr dop"
    and "\<forall>ev \<in> set evs. t \<le> op_event_time ev \<and> op_event_time ev < t + OP_TTL"
  shows "\<exists>data. retrieve_ops [op_id_of oa dop] (create_op_store sp
      (op_run oa (before @ OpStored t b # evs) op_store_new)) = [\<lparr>mo_op_id = op_id_of oa dop, mo_op_data = data\<rparr>]"
proof -
  let ?ops = "op_run oa before op_store_new"
  obtain r where "op_step oa (OpStored t b) ?ops = hm_insert (op_id_of oa dop) r ?ops" "so_stored_at r = t"
    using assms(1) by (cases rule: store_op_cases [of oa b t ?ops]) auto
  then have "kept_since t (op_id_of oa dop) (op_step oa (OpStored t b) ?ops)"
    by (auto simp: kept_since_def hm_insert_def)
  from kept_run [OF this assms(2), of oa]
  have "kept_since t (op_id_of oa dop) (op_run oa (before @ OpStored t b # evs) op_store_new)"
    by (simp add: op_run_def)
  then have "hm_get (op_run oa (before @ OpStored t b # evs) op_store_new) (op_id_of oa dop) \<noteq> None"
    unfolding hm_get_None_iff kept_since_def by force
  then show ?thesis by (auto simp: retrieve_ops_eq create_op_store_def List.map_filter_def)
qed

lemma op_served_for_ttl_example:
  "\<exists>data. retrieve_ops [[1, 7]] (create_op_store (SpaceId []) (op_run plain_ops
     ([] @ OpStored 5 [1, 7] # [OpFetched 6 [[1, 7]], OpCleanup OP_TTL]) op_store_new)) = [\<lparr>mo_op_id = [1, 7], mo_op_data = data\<rparr>]"
proof -
  have d: "decode_op plain_ops [1, 7] = Inr (ChainOp (ChainOpData [7]))" by (simp add: plain_ops_def)
  have i: "op_id_of plain_ops (ChainOp (ChainOpData [7])) = [1, 7]" by (simp add: plain_ops_def op_id_of_def)
  show ?thesis
    using op_served_for_ttl [OF d, of "[OpFetched 6 [[1, 7]], OpCleanup OP_TTL]" 5 "SpaceId []" "[]"]
    unfolding i by (simp add: OP_TTL_def SECOND_def)
qed

definition stored_before :: "nat \<Rightarrow> op_id \<Rightarrow> op_store_inner \<Rightarrow> bool" where
  "stored_before t i ops \<longleftrightarrow> (\<forall>e \<in> set ops. fst e = i \<longrightarrow> so_stored_at (snd e) \<le> t)"

definition stores_id :: "op_api \<Rightarrow> op_id \<Rightarrow> op_event \<Rightarrow> bool" where
  "stores_id oa i ev = (case ev of OpStored _ b \<Rightarrow> (case decode_op oa b of Inl _ \<Rightarrow> False | Inr d \<Rightarrow> op_id_of oa d = i)
     | _ \<Rightarrow> False)"

lemma other_step:
  assumes "\<not> stores_id oa i ev"
  shows "{e \<in> set (op_step oa ev ops). fst e = i} \<subseteq> {e \<in> set ops. fst e = i}"
proof (cases ev)
  case (OpStored u b)
  show ?thesis unfolding OpStored
  proof (cases rule: store_op_cases [of oa b u ops])
    case (good dop r)
    with assms OpStored show "{e \<in> set (op_step oa (OpStored u b) ops). fst e = i} \<subseteq> {e \<in> set ops. fst e = i}"
      by (auto simp: stores_id_def hm_insert_def hm_remove_def)
  qed simp
qed (auto simp: cleanup_expired_def hm_retain_def)

lemma other_run:
  "\<forall>ev \<in> set evs. \<not> stores_id oa i ev \<Longrightarrow>
   {e \<in> set (op_run oa evs ops). fst e = i} \<subseteq> {e \<in> set ops. fst e = i}"
proof (induction evs arbitrary: ops)
  case (Cons ev evs)
  then have "{e \<in> set (op_run oa evs (op_step oa ev ops)). fst e = i} \<subseteq> {e \<in> set (op_step oa ev ops). fst e = i}"
    by simp
  with other_step [of oa i ev ops] Cons.prems show ?case by (auto simp: op_run_def)
qed (simp add: op_run_def)

text \<open>And no longer: once the cleanup has run at or after the end of that minute, the op is gone,
  unless it was published again meanwhile.\<close>

lemma op_expires:
  assumes "decode_op oa b = Inr dop" and "\<forall>ev \<in> set (during @ later). \<not> stores_id oa (op_id_of oa dop) ev"
    and "t + OP_TTL \<le> u"
  shows "retrieve_ops [op_id_of oa dop] (create_op_store sp
      (op_run oa (before @ OpStored t b # during @ OpCleanup u # later) op_store_new)) = []"
proof -
  let ?i = "op_id_of oa dop"
  let ?ops = "op_run oa before op_store_new"
  obtain r where st: "op_step oa (OpStored t b) ?ops = hm_insert ?i r ?ops" "so_stored_at r = t"
    using assms(1) by (cases rule: store_op_cases [of oa b t ?ops]) auto
  let ?mid = "op_run oa during (op_step oa (OpStored t b) ?ops)"
  have "{e \<in> set ?mid. fst e = ?i} \<subseteq> {e \<in> set (hm_insert ?i r ?ops). fst e = ?i}"
    using other_run [of during oa ?i "op_step oa (OpStored t b) ?ops"] assms(2) unfolding st(1) by simp
  also have "\<dots> \<subseteq> {(?i, r)}" by (auto simp: hm_insert_def hm_remove_def)
  finally have gone: "{e \<in> set (cleanup_expired u ?mid). fst e = ?i} = {}"
    using assms(3) st(2) by (fastforce simp: cleanup_expired_def hm_retain_def)
  have "\<forall>ev \<in> set later. \<not> stores_id oa ?i ev" using assms(2) by simp
  from other_run [OF this, of "cleanup_expired u ?mid"]
  have "{e \<in> set (op_run oa later (cleanup_expired u ?mid)). fst e = ?i} = {}" unfolding gone by blast
  then have "hm_get (op_run oa (before @ OpStored t b # during @ OpCleanup u # later) op_store_new) ?i = None"
    unfolding hm_get_None_iff by (force simp: op_run_def)
  then show ?thesis by (simp add: retrieve_ops_eq create_op_store_def List.map_filter_def)
qed

lemma op_expires_example:
  "retrieve_ops [[1, 7]] (create_op_store (SpaceId []) (op_run plain_ops
     ([] @ OpStored 5 [1, 7] # [OpStored 6 [1, 8]] @ OpCleanup (5 + OP_TTL) # [OpFetched (6 + OP_TTL) []]) op_store_new)) = []"
proof -
  have d: "decode_op plain_ops [1, 7] = Inr (ChainOp (ChainOpData [7]))" by (simp add: plain_ops_def)
  have i: "op_id_of plain_ops (ChainOp (ChainOpData [7])) = [1, 7]" by (simp add: plain_ops_def op_id_of_def)
  have n: "\<not> stores_id plain_ops [1, 7] (OpStored 6 [1, 8])" "\<not> stores_id plain_ops [1, 7] (OpFetched (6 + OP_TTL) [])"
    by (simp_all add: stores_id_def plain_ops_def op_id_of_def)
  show ?thesis
    using op_expires [OF d, of "[OpStored 6 [1, 8]]" "[OpFetched (6 + OP_TTL) []]" 5 "5 + OP_TTL" "SpaceId []" "[]"] n
    unfolding i by simp
qed

end
