(* ===== verification/Publish.thy ===== *)
theory Publish imports Temp_Op_Store "HOL-Library.Multiset" begin

text \<open>
  Publishing (\<open>src/routes/publish.rs\<close>): each op of a request is decoded and put into the op store, then
  the ops that were stored are grouped by location and each group is offered to the peers near it.
  A \<open>HashMap\<close> is iterated in an order of its own, which is the argument \<open>arrange\<close>.
\<close>

section \<open>Requests and responses\<close>

record signed_dht_op =
  sd_op_data :: string
  sd_signature :: string

record op_publish_result =
  pr_success :: bool
  pr_error :: "string option"

record publish_response =
  pu_success :: bool
  pu_queued :: nat
  pu_failed :: nat
  pu_published :: nat
  pu_results :: "op_publish_result list"

record processed_op =
  po_op_id :: op_id
  po_basis_loc :: u32

record 'w publish_env =
  pe_hash :: holo_hash_api
  pe_k2 :: k2_api
  pe_wire :: wire_api
  pe_ops :: op_api
  pe_network :: "'w network"

section \<open>One op\<close>

definition read_base64 :: "'w publish_env \<Rightarrow> string \<Rightarrow> string \<Rightarrow> bytes linker_result" where
  "read_base64 env field s = map_error (\<lambda>e. RequestMalformed (''Invalid '' @ field @ '' base64: '' @ e))
     (base64_decode (pe_k2 env) s)"

text \<open>Everything up to the store: the bytes of the op and its location.\<close>

definition check_signed_op :: "'w publish_env \<Rightarrow> signed_dht_op \<Rightarrow> (bytes \<times> u32) linker_result" where
  "check_signed_op env sop =
     bind_result (read_base64 env ''op_data'' (sd_op_data sop)) (\<lambda>op_bytes.
     bind_result (read_base64 env ''signature'' (sd_signature sop)) (\<lambda>sig_bytes.
     if length sig_bytes \<noteq> 64
     then Inl (RequestMalformed (''Invalid signature length: expected 64 bytes, got '' @ show_nat (length sig_bytes)))
     else bind_result (map_error (\<lambda>e. RequestMalformed (''Failed to decode DhtOp: '' @ e))
            (extern_decode (pe_ops env) op_bytes)) (\<lambda>dop.
     case dop of
       WarrantOp _ \<Rightarrow> Inl (RequestMalformed ''WarrantOps are not supported for browser extension publishing'')
     | ChainOp _ \<Rightarrow> Inr (op_bytes, linkable_loc (pe_wire env) (op_basis (pe_ops env) dop)))))"

definition process_signed_op :: "'w publish_env \<Rightarrow> nat \<Rightarrow> signed_dht_op \<Rightarrow> op_store_inner option \<Rightarrow>
    op_store_inner option \<times> processed_op linker_result" where
  "process_signed_op env now sop store = (case check_signed_op env sop of
     Inl e \<Rightarrow> (store, Inl e)
   | Inr (op_bytes, basis_loc) \<Rightarrow> (case store of
        None \<Rightarrow> (store, Inl (Internal ''TempOpStore not configured - publishing not available''))
      | Some ops \<Rightarrow> (case store_op (pe_ops env) now op_bytes ops of
           (ops', Inl e) \<Rightarrow> (Some ops', Inl (Internal (''Failed to store op: '' @ e)))
         | (ops', Inr i) \<Rightarrow> (Some ops', Inr \<lparr>po_op_id = i, po_basis_loc = basis_loc\<rparr>))))"

section \<open>Phase 1: storing\<close>

record phase_one =
  ph_results :: "op_publish_result list"
  ph_queued :: nat
  ph_failed :: nat
  ph_processed :: "processed_op list"

definition phase_one_new :: phase_one where
  "phase_one_new = \<lparr>ph_results = [], ph_queued = 0, ph_failed = 0, ph_processed = []\<rparr>"

text \<open>Each op comes with the time at which it is stored.\<close>

fun store_all :: "'w publish_env \<Rightarrow> (nat \<times> signed_dht_op) list \<Rightarrow> op_store_inner option \<times> phase_one \<Rightarrow>
    op_store_inner option \<times> phase_one" where
  "store_all env [] st = st"
| "store_all env ((now, sop) # ops) (store, p) = (case process_signed_op env now sop store of
     (store', Inr processed) \<Rightarrow> store_all env ops (store',
        p\<lparr>ph_queued := Suc (ph_queued p), ph_processed := ph_processed p @ [processed],
          ph_results := ph_results p @ [\<lparr>pr_success = True, pr_error = None\<rparr>]\<rparr>)
   | (store', Inl e) \<Rightarrow> store_all env ops (store',
        p\<lparr>ph_failed := Suc (ph_failed p),
          ph_results := ph_results p @ [\<lparr>pr_success = False, pr_error = Some (error_to_string e)\<rparr>]\<rparr>))"

section \<open>Phase 2: publishing by location\<close>

definition add_to_group :: "processed_op \<Rightarrow> (u32, op_id list) hashmap \<Rightarrow> (u32, op_id list) hashmap" where
  "add_to_group p m = hm_insert (po_basis_loc p)
     ((case hm_get m (po_basis_loc p) of None \<Rightarrow> [] | Some ids \<Rightarrow> ids) @ [po_op_id p]) m"

definition ops_by_loc :: "processed_op list \<Rightarrow> (u32, op_id list) hashmap" where
  "ops_by_loc ps = fold add_to_group ps []"

fun publish_groups :: "'w publish_env \<Rightarrow> dna_hash \<Rightarrow> (u32 \<times> op_id list) list \<Rightarrow> 'w gateway \<Rightarrow> nat \<Rightarrow>
    'w gateway \<times> nat" where
  "publish_groups env d [] g published = (g, published)"
| "publish_groups env d ((basis_loc, ids) # groups) g published =
     (case publish_ops (pe_k2 env) (pe_network env) d ids basis_loc g of
        (g', Inr reached) \<Rightarrow> publish_groups env d groups g'
           (if 0 < reached then published + length ids else published)
      | (g', Inl e) \<Rightarrow> publish_groups env d groups g' published)"

definition publish_phase_two :: "'w publish_env \<Rightarrow> ((u32 \<times> op_id list) list \<Rightarrow> (u32 \<times> op_id list) list) \<Rightarrow>
    dna_hash \<Rightarrow> processed_op list \<Rightarrow> 'w gateway option \<Rightarrow> 'w gateway option \<times> nat" where
  "publish_phase_two env arrange d processed gw =
     (if processed = [] then (gw, 0)
      else case gw of
        None \<Rightarrow> (None, 0)
      | Some g \<Rightarrow> (case publish_groups env d (arrange (ops_by_loc processed)) g 0 of
           (g', published) \<Rightarrow> (Some g', published)))"

section \<open>The endpoint\<close>

definition dht_publish :: "'w publish_env \<Rightarrow> ((u32 \<times> op_id list) list \<Rightarrow> (u32 \<times> op_id list) list) \<Rightarrow>
    string \<Rightarrow> (nat \<times> signed_dht_op) list \<Rightarrow> op_store_inner option \<times> 'w gateway option \<Rightarrow>
    (op_store_inner option \<times> 'w gateway option) \<times> publish_response linker_result" where
  "dht_publish env arrange dna_hash ops st = (case st of (store, gw) \<Rightarrow>
     (case dna_try_from (pe_hash env) dna_hash of
        Inl _ \<Rightarrow> (st, Inl (RequestMalformed ''Invalid DNA hash''))
      | Inr d \<Rightarrow>
     (case store_all env ops (store, phase_one_new) of (store', p) \<Rightarrow>
     (case publish_phase_two env arrange d (ph_processed p) gw of (gw', published) \<Rightarrow>
        ((store', gw'), Inr \<lparr>
           pu_success = (ph_failed p = 0 \<and> (ph_queued p = 0 \<or> 0 < published)),
           pu_queued = ph_queued p, pu_failed = ph_failed p, pu_published = published,
           pu_results = ph_results p\<rparr>)))))"

section \<open>Counting\<close>

text \<open>An op that the endpoint accepts, on a linker with an op store.\<close>

definition accepts :: "'w publish_env \<Rightarrow> signed_dht_op \<Rightarrow> processed_op option" where
  "accepts env sop = (case check_signed_op env sop of
     Inl _ \<Rightarrow> None
   | Inr (op_bytes, basis_loc) \<Rightarrow> (case decode_op (pe_ops env) op_bytes of
        Inl _ \<Rightarrow> None
      | Inr dop \<Rightarrow> Some \<lparr>po_op_id = op_id_of (pe_ops env) dop, po_basis_loc = basis_loc\<rparr>))"

lemma process_cases:
  obtains (no) e where "accepts env sop = None" "process_signed_op env now sop (Some ops) = (Some ops, Inl e)"
  | (yes) p ops' where "accepts env sop = Some p" "process_signed_op env now sop (Some ops) = (Some ops', Inr p)"
      "fst ` set ops' = insert (po_op_id p) (fst ` set ops)"
proof (cases "check_signed_op env sop")
  case (Inl e)
  then show thesis by (intro no) (simp_all add: accepts_def process_signed_op_def)
next
  case (Inr v)
  obtain b l where v: "v = (b, l)" by (cases v)
  show thesis
  proof (cases rule: store_op_cases [of "pe_ops env" b now ops])
    case (bad e)
    with Inr v show thesis by (intro no) (simp_all add: accepts_def process_signed_op_def)
  next
    case (good dop r)
    have "fst ` set (hm_insert (op_id_of (pe_ops env) dop) r ops) =
        insert (op_id_of (pe_ops env) dop) (fst ` set ops)"
      by (force simp: hm_insert_def hm_remove_def)
    with Inr v good show thesis
      by (intro yes [of "\<lparr>po_op_id = op_id_of (pe_ops env) dop, po_basis_loc = l\<rparr>" "hm_insert (op_id_of (pe_ops env) dop) r ops"])
        (simp_all add: accepts_def process_signed_op_def)
  qed
qed

text \<open>What storing comes to: a result for each op in its place, the accepted ops in order, and their
  ids in the store.\<close>

lemma store_all_effect:
  assumes "store_all env ops (Some s, p) = (st', p')"
  shows "\<exists>s'. st' = Some s' \<and> fst ` set s' =
      fst ` set s \<union> po_op_id ` set (List.map_filter (\<lambda>e. accepts env (snd e)) ops) \<and>
    ph_processed p' = ph_processed p @ List.map_filter (\<lambda>e. accepts env (snd e)) ops \<and>
    map pr_success (ph_results p') = map pr_success (ph_results p) @ map (\<lambda>e. accepts env (snd e) \<noteq> None) ops \<and>
    ph_queued p' = ph_queued p + length (List.map_filter (\<lambda>e. accepts env (snd e)) ops) \<and>
    ph_failed p' + length (List.map_filter (\<lambda>e. accepts env (snd e)) ops) = ph_failed p + length ops"
  using assms
proof (induction ops arbitrary: s p)
  case (Cons e ops)
  obtain now sop where e: "e = (now, sop)" by (cases e)
  show ?case
  proof (cases rule: process_cases [of env sop now s])
    case (no err)
    with Cons.prems have "store_all env ops (Some s, p\<lparr>ph_failed := Suc (ph_failed p),
        ph_results := ph_results p @ [\<lparr>pr_success = False, pr_error = Some (error_to_string err)\<rparr>]\<rparr>) = (st', p')"
      by (simp add: e)
    from Cons.IH [OF this] no show ?thesis by (simp add: e List.map_filter_def)
  next
    case (yes q s1)
    with Cons.prems have "store_all env ops (Some s1, p\<lparr>ph_queued := Suc (ph_queued p),
        ph_processed := ph_processed p @ [q],
        ph_results := ph_results p @ [\<lparr>pr_success = True, pr_error = None\<rparr>]\<rparr>) = (st', p')"
      by (simp add: e)
    from Cons.IH [OF this] yes show ?thesis by (simp add: e List.map_filter_def)
  qed
qed (auto simp: List.map_filter_def)

section \<open>Groups\<close>

definition group_pairs :: "(u32 \<times> op_id list) list \<Rightarrow> (u32 \<times> op_id) multiset" where
  "group_pairs gs = sum_list (map (\<lambda>g. image_mset (Pair (fst g)) (mset (snd g))) gs)"

lemma group_pairs_simps [simp]:
  "group_pairs [] = {#}" "group_pairs ((l, ids) # gs) = image_mset (Pair l) (mset ids) + group_pairs gs"
  by (simp_all add: group_pairs_def)

lemma group_pairs_remove:
  "hm_wf m \<Longrightarrow> group_pairs m =
     image_mset (Pair l) (mset (case hm_get m l of None \<Rightarrow> [] | Some ids \<Rightarrow> ids)) + group_pairs (hm_remove l m)"
proof (induction m)
  case (Cons e m)
  obtain k ids where e: "e = (k, ids)" by (cases e)
  have wf: "hm_wf m" using Cons.prems by (simp add: hm_wf_def)
  show ?case
  proof (cases "k = l")
    case True
    with Cons.prems e have "l \<notin> fst ` set m" by (simp add: hm_wf_def)
    then have "hm_remove l m = m" by (force simp: hm_remove_def filter_id_conv)
    with True show ?thesis by (simp add: e hm_get_Cons hm_remove_def)
  next
    case False
    with Cons.IH [OF wf] show ?thesis by (simp add: e hm_get_Cons hm_remove_def)
  qed
qed (simp add: hm_remove_def)

lemma group_pairs_add:
  "hm_wf m \<Longrightarrow> group_pairs (add_to_group p m) = add_mset (po_basis_loc p, po_op_id p) (group_pairs m)"
  using group_pairs_remove [of m "po_basis_loc p"] by (simp add: add_to_group_def hm_insert_def)

lemma ops_by_loc_groups:
  "hm_wf (ops_by_loc ps) \<and>
   group_pairs (ops_by_loc ps) = image_mset (\<lambda>p. (po_basis_loc p, po_op_id p)) (mset ps)"
proof (induction ps rule: rev_induct)
  case (snoc p ps)
  then show ?case using group_pairs_add [of "ops_by_loc ps" p] by (simp add: ops_by_loc_def)
    (simp add: add_to_group_def)
qed (simp add: ops_by_loc_def)

lemma group_pairs_perm: "mset gs = mset hs \<Longrightarrow> group_pairs gs = group_pairs hs"
  unfolding group_pairs_def sum_mset_sum_list [symmetric] by (simp add: mset_map)

section \<open>Properties\<close>

text \<open>The ops of a location, in the order of the request.\<close>

definition ids_at :: "u32 \<Rightarrow> processed_op list \<Rightarrow> op_id list" where
  "ids_at l ps = map po_op_id (filter (\<lambda>p. po_basis_loc p = l) ps)"

lemma ops_by_loc_get:
  "hm_get (ops_by_loc ps) l = (if l \<in> po_basis_loc ` set ps then Some (ids_at l ps) else None)"
proof (induction ps rule: rev_induct)
  case (snoc p ps)
  then show ?case
    by (auto simp: ops_by_loc_def add_to_group_def ids_at_def split: option.splits if_splits)
      (auto simp: image_iff filter_empty_conv)
qed (simp add: ops_by_loc_def)

text \<open>Calls of \<open>publish_ops\<close> one after the other, each on the gateway the one before has left, with what
  each came to: an error, or the number of peers that took the ops.\<close>

fun tried :: "'w publish_env \<Rightarrow> dna_hash \<Rightarrow> 'w gateway \<Rightarrow> (u32 \<times> op_id list \<times> (string + nat)) list \<Rightarrow> 'w gateway \<Rightarrow> bool" where
  "tried env d g [] g' = (g' = g)"
| "tried env d g ((l, ids, r) # ts) g' =
     (\<exists>g1. publish_ops (pe_k2 env) (pe_network env) d ids l g = (g1, r) \<and> tried env d g1 ts g')"

definition peer_took :: "string + nat \<Rightarrow> bool" where
  "peer_took r \<longleftrightarrow> (case r of Inl _ \<Rightarrow> False | Inr n \<Rightarrow> 0 < n)"

definition reached :: "(u32 \<times> op_id list \<times> (string + nat)) list \<Rightarrow> u32 \<Rightarrow> bool" where
  "reached ts l \<longleftrightarrow> (\<exists>(l', ids, r) \<in> set ts. l' = l \<and> peer_took r)"

lemma groups_tried:
  "\<exists>ts g'. tried env d g ts g' \<and> map (\<lambda>(l, ids, r). (l, ids)) ts = gs"
proof (induction gs arbitrary: g)
  case (Cons e gs)
  obtain l ids where e: "e = (l, ids)" by (cases e)
  obtain g1 r where one: "publish_ops (pe_k2 env) (pe_network env) d ids l g = (g1, r)" by fastforce
  obtain ts g' where "tried env d g1 ts g'" "map (\<lambda>(l, ids, r). (l, ids)) ts = gs" using Cons.IH by blast
  with one e show ?case by (intro exI [of _ "(l, ids, r) # ts"] exI [of _ g']) auto
next
  case Nil
  show ?case by (intro exI [of _ "[]"] exI [of _ g]) simp
qed

lemma publish_groups_count:
  assumes "tried env d g ts g'" and "\<And>l ids r. (l, ids, r) \<in> set ts \<Longrightarrow> R l = peer_took r"
  shows "publish_groups env d (map (\<lambda>(l, ids, r). (l, ids)) ts) g n =
    (g', n + size (filter_mset (\<lambda>e. R (fst e)) (group_pairs (map (\<lambda>(l, ids, r). (l, ids)) ts))))"
  using assms
proof (induction ts arbitrary: g n)
  case (Cons e ts)
  obtain l ids r where e: "e = (l, ids, r)" by (cases e)
  obtain g1 where one: "publish_ops (pe_k2 env) (pe_network env) d ids l g = (g1, r)" and rest: "tried env d g1 ts g'"
    using Cons.prems(1) e by auto
  have "size (filter_mset (\<lambda>e. R (fst e)) (image_mset (Pair l) (mset ids))) = (if peer_took r then length ids else 0)"
    using Cons.prems(2) [of l ids r] by (simp add: e filter_mset_image_mset)
  moreover have "R l' = peer_took r'" if "(l', ids', r') \<in> set ts" for l' ids' r'
    using Cons.prems(2) [of l' ids' r'] that by simp
  note later = Cons.IH [OF rest this]
  ultimately show ?case by (cases r) (simp_all add: e one later peer_took_def)
qed simp

lemma reached_unique:
  assumes "distinct (map fst ts)" and "(l, ids, r) \<in> set ts"
  shows "reached ts l = peer_took r"
proof
  assume "reached ts l"
  then obtain ids' r' where other: "(l, ids', r') \<in> set ts" and "peer_took r'" by (auto simp: reached_def)
  with eq_key_imp_eq_value [OF assms(1) assms(2) other] show "peer_took r" by simp
next
  assume "peer_took r"
  with assms(2) show "reached ts l" unfolding reached_def by (intro bexI [of _ "(l, ids, r)"]) simp_all
qed

text \<open>Phase 2: one call for each location of the stored ops, with exactly its ops.\<close>

lemma publish_phase_two_calls:
  assumes "mset (arrange (ops_by_loc ps)) = mset (ops_by_loc ps)"
  shows "\<exists>ts g'. tried env d g ts g' \<and> distinct (map fst ts) \<and> fst ` set ts = po_basis_loc ` set ps \<and>
    (\<forall>(l, ids, r) \<in> set ts. ids = ids_at l ps) \<and>
    publish_phase_two env arrange d ps (Some g) = (Some g', length (filter (\<lambda>p. reached ts (po_basis_loc p)) ps))"
proof -
  let ?gs = "arrange (ops_by_loc ps)"
  obtain ts g' where ts: "tried env d g ts g'" and gs: "map (\<lambda>(l, ids, r). (l, ids)) ts = ?gs"
    using groups_tried by blast
  have fst: "map fst ts = map fst ?gs" unfolding gs [symmetric] by (induction ts) auto
  have set: "set ?gs = set (ops_by_loc ps)" using assms by (metis set_mset_mset)
  have wf: "hm_wf (ops_by_loc ps)" using ops_by_loc_groups by blast
  have "mset (map fst ?gs) = mset (map fst (ops_by_loc ps))" using assms by simp
  then have dist: "distinct (map fst ts)" unfolding fst using wf by (metis hm_wf_def mset_eq_imp_distinct_iff)
  have member: "(l, ids) \<in> set ?gs \<longleftrightarrow> l \<in> po_basis_loc ` set ps \<and> ids = ids_at l ps" for l ids
    unfolding set using hm_get_iff_mem [OF wf, of l ids] by (auto simp: ops_by_loc_get split: if_splits)
  have own: "\<forall>(l, ids, r) \<in> set ts. ids = ids_at l ps"
  proof (clarify)
    fix l ids r assume "(l, ids, r) \<in> set ts"
    then have "(\<lambda>(l, ids, r). (l, ids)) (l, ids, r) \<in> set ?gs" unfolding gs [symmetric] set_map by (rule imageI)
    then show "ids = ids_at l ps" using member by simp
  qed
  have "fst ` set ts = fst ` set ?gs" using fst by (metis list.set_map)
  also have "\<dots> = po_basis_loc ` set ps"
  proof (rule set_eqI)
    fix l
    have "l \<in> fst ` set ?gs \<longleftrightarrow> (\<exists>ids. (l, ids) \<in> set ?gs)"
      by (simp add: Domain_fst [symmetric] Domain_iff)
    then show "l \<in> fst ` set ?gs \<longleftrightarrow> l \<in> po_basis_loc ` set ps" unfolding member by blast
  qed
  finally have locs: "fst ` set ts = po_basis_loc ` set ps" .
  have "group_pairs ?gs = image_mset (\<lambda>p. (po_basis_loc p, po_op_id p)) (mset ps)"
    using group_pairs_perm [OF assms] ops_by_loc_groups [of ps] by simp
  then have "size (filter_mset (\<lambda>e. reached ts (fst e)) (group_pairs ?gs)) =
      length (filter (\<lambda>p. reached ts (po_basis_loc p)) ps)"
    by (simp add: filter_mset_image_mset flip: mset_filter size_mset)
  with publish_groups_count [OF ts reached_unique [OF dist], where n = 0]
  have "publish_groups env d ?gs g 0 = (g', length (filter (\<lambda>p. reached ts (po_basis_loc p)) ps))" unfolding gs by simp
  moreover have "g' = g" if "ps = []"
  proof -
    have "ts = []" using locs that by simp
    with ts show ?thesis by simp
  qed
  ultimately have "publish_phase_two env arrange d ps (Some g) =
      (Some g', length (filter (\<lambda>p. reached ts (po_basis_loc p)) ps))" by (auto simp: publish_phase_two_def)
  with ts dist locs own show ?thesis by blast
qed

lemma length_map_filter_le: "length (List.map_filter f xs) \<le> length xs"
  by (simp add: List.map_filter_def)

lemma length_map_filter_all: "(length (List.map_filter f xs) = length xs) = list_all (\<lambda>x. f x \<noteq> None) xs"
proof (induction xs)
  case (Cons x xs)
  have "length (List.map_filter f xs) \<noteq> Suc (length xs)" using length_map_filter_le [of f xs] by simp
  with Cons show ?case by (cases "f x") (simp_all add: List.map_filter_simps)
qed (simp add: List.map_filter_simps)

text \<open>Storing: every op of a request has its result in its place, it is a success exactly when the op
  decodes, is a chain op and carries a signature of 64 bytes, the two counts add up to the request, and
  the ids of the successes, and no others, are added to the op store.\<close>

lemma publish_stores_accepted:
  assumes "dht_publish env arrange dna_hash ops (Some s, gw) = ((st', gw'), Inr r)"
  shows "map pr_success (pu_results r) = map (\<lambda>e. accepts env (snd e) \<noteq> None) ops \<and>
    pu_queued r = length (filter pr_success (pu_results r)) \<and> pu_queued r + pu_failed r = length ops \<and>
    (\<exists>s'. st' = Some s' \<and> fst ` set s' = fst ` set s \<union>
       po_op_id ` set (List.map_filter (\<lambda>e. accepts env (snd e)) ops))"
proof -
  obtain d where d: "dna_try_from (pe_hash env) dna_hash = Inr d"
    using assms by (cases "dna_try_from (pe_hash env) dna_hash") (auto simp: dht_publish_def)
  obtain store' p where p: "store_all env ops (Some s, phase_one_new) = (store', p)" by fastforce
  have r: "st' = store'" "pu_results r = ph_results p" "pu_queued r = ph_queued p" "pu_failed r = ph_failed p"
    using assms d p by (auto simp: dht_publish_def split: prod.splits)
  have eff: "map pr_success (ph_results p) = map (\<lambda>e. accepts env (snd e) \<noteq> None) ops"
      "ph_queued p = length (List.map_filter (\<lambda>e. accepts env (snd e)) ops)"
      "ph_failed p + length (List.map_filter (\<lambda>e. accepts env (snd e)) ops) = length ops"
    using store_all_effect [OF p] by (auto simp: phase_one_new_def)
  have "length (filter pr_success (ph_results p)) = length (filter id (map pr_success (ph_results p)))"
    by (simp add: filter_map comp_def)
  also have "\<dots> = ph_queued p" unfolding eff(1) eff(2) by (induction ops) (auto simp: List.map_filter_def)
  finally show ?thesis using store_all_effect [OF p] eff unfolding r by auto
qed

text \<open>C21. Publishing: the ops of a request that were accepted are offered by location, one call of the
  network for each location of theirs, in whatever order the map gives, with exactly the accepted ops of
  that location, in the request's order. The published count is the number of accepted ops whose own
  location's call reached a peer; a call that fails or reaches nobody takes nothing from the other
  locations. The request is reported a success when every op was accepted and at least one of them was
  published, so some of its ops may have reached no peer.\<close>

theorem published_counts_reachable:
  assumes "dht_publish env arrange dna_hash ops (Some s, Some g) = ((store, gw), Inr r)"
    and "dna_try_from (pe_hash env) dna_hash = Inr d" and "\<And>m. mset (arrange m) = mset m"
  shows "let ps = List.map_filter (\<lambda>e. accepts env (snd e)) ops in
    \<exists>ts g'. gw = Some g' \<and> tried env d g ts g' \<and>
      distinct (map fst ts) \<and> fst ` set ts = po_basis_loc ` set ps \<and> (\<forall>(l, ids, n) \<in> set ts. ids = ids_at l ps) \<and>
      pu_published r = length (filter (\<lambda>p. reached ts (po_basis_loc p)) ps) \<and>
      (pu_success r \<longleftrightarrow> list_all (\<lambda>e. accepts env (snd e) \<noteq> None) ops \<and>
         (ops = [] \<or> list_ex (\<lambda>p. reached ts (po_basis_loc p)) ps))"
proof -
  let ?ps = "List.map_filter (\<lambda>e. accepts env (snd e)) ops"
  obtain store' p where p: "store_all env ops (Some s, phase_one_new) = (store', p)" by fastforce
  have eff: "ph_processed p = ?ps" "ph_queued p = length ?ps" "ph_failed p + length ?ps = length ops"
    using store_all_effect [OF p] by (auto simp: phase_one_new_def)
  obtain ts g' where ts: "tried env d g ts g'" "distinct (map fst ts)" "fst ` set ts = po_basis_loc ` set ?ps"
      "\<forall>(l, ids, n) \<in> set ts. ids = ids_at l ?ps"
    and two: "publish_phase_two env arrange d ?ps (Some g) =
      (Some g', length (filter (\<lambda>p. reached ts (po_basis_loc p)) ?ps))"
    using publish_phase_two_calls [where arrange = arrange and ps = ?ps, OF assms(3)] by blast
  let ?some = "filter (\<lambda>p. reached ts (po_basis_loc p)) ?ps"
  have gw: "gw = Some g'" and r: "pu_published r = length ?some" "pu_success r = (ph_failed p = 0 \<and> (?ps = [] \<or> ?some \<noteq> []))"
    using assms(1,2) p two eff by (auto simp: dht_publish_def)
  have "(ph_failed p = 0) = (length ?ps = length ops)" using eff(3) by linarith
  also have "\<dots> = list_all (\<lambda>e. accepts env (snd e) \<noteq> None) ops" by (rule length_map_filter_all)
  finally have all: "(ph_failed p = 0) = list_all (\<lambda>e. accepts env (snd e) \<noteq> None) ops" .
  have none: "?ps = [] \<longleftrightarrow> ops = []" if "list_all (\<lambda>e. accepts env (snd e) \<noteq> None) ops"
    using that by (cases ops) (auto simp: List.map_filter_def)
  have some: "?some \<noteq> [] \<longleftrightarrow> list_ex (\<lambda>p. reached ts (po_basis_loc p)) ?ps"
    by (simp add: filter_empty_conv list_ex_iff)
  have "pu_success r \<longleftrightarrow> list_all (\<lambda>e. accepts env (snd e) \<noteq> None) ops \<and>
      (ops = [] \<or> list_ex (\<lambda>p. reached ts (po_basis_loc p)) ?ps)" unfolding r(2) all some using none by blast
  with gw ts r(1) show ?thesis unfolding Let_def by blast
qed

subsection \<open>A request of two ops, one of which has a peer\<close>

definition split_network :: "unit network" where
  "split_network = quiet_network\<lparr>nw_near := \<lambda>_ l _ _. Inr (if l = 1 then [peer_at ''a'' False] else [])\<rparr>"

definition split_env :: "unit publish_env" where
  "split_env = \<lparr>pe_hash = plain_holo_hash, pe_k2 = plain_k2,
     pe_wire = plain_wire\<lparr>linkable_loc := \<lambda>l. if l = LinkableEntry (EntryHash [7]) then 1 else 2\<rparr>,
     pe_ops = plain_ops, pe_network = split_network\<rparr>"

definition op_text :: "byte \<Rightarrow> signed_dht_op" where
  "op_text b = \<lparr>sd_op_data = text_of_bytes [1, b], sd_signature = text_of_bytes (replicate 64 0)\<rparr>"

definition two_ops :: "(nat \<times> signed_dht_op) list" where
  "two_ops = [(3, op_text 7), (4, op_text 8)]"

lemma split_publish:
  assumes "publish_ops plain_k2 split_network d ids l g = (g', r)"
  shows "peer_took r = (l = 1)"
  using assms by (auto simp: publish_ops_def get_or_create_space_def split_network_def peer_took_def
    quiet_network_def publish_urls_def List.map_filter_def peer_at_def Let_def split: option.splits if_splits)

lemma split_tried: "tried split_env d g ts g' \<Longrightarrow> (l, ids, r) \<in> set ts \<Longrightarrow> peer_took r = (l = 1)"
  by (induction ts arbitrary: g) (auto simp: split_env_def dest: split_publish)

lemma split_accepts:
  "accepts split_env (op_text 7) = Some \<lparr>po_op_id = [1, 7], po_basis_loc = 1\<rparr>"
  "accepts split_env (op_text 8) = Some \<lparr>po_op_id = [1, 8], po_basis_loc = 2\<rparr>"
  by (simp_all add: accepts_def check_signed_op_def read_base64_def split_env_def op_text_def plain_k2_def
    plain_ops_def op_id_of_def)

lemma split_parse: "dna_try_from (pe_hash split_env) (dna_to_string plain_holo_hash dna_a) = Inr dna_a"
  by (simp add: split_env_def plain_holo_hash_ok)

lemma split_runs:
  "\<exists>st' r. dht_publish split_env rev (dna_to_string plain_holo_hash dna_a) two_ops (Some [], Some (gk_new ())) =
     (st', Inr r)"
  by (simp add: dht_publish_def split_parse split: prod.splits)

lemma publish_stores_accepted_example:
  "\<exists>s' gw' r. dht_publish split_env rev (dna_to_string plain_holo_hash dna_a) two_ops (Some [], Some (gk_new ())) =
     ((Some s', gw'), Inr r) \<and> fst ` set s' = {[1, 7], [1, 8]} \<and> pu_queued r + pu_failed r = 2"
proof -
  obtain st' gw' r where run: "dht_publish split_env rev (dna_to_string plain_holo_hash dna_a) two_ops
      (Some [], Some (gk_new ())) = ((st', gw'), Inr r)"
    using split_runs by (metis prod.exhaust)
  from publish_stores_accepted [OF run] obtain s' where "st' = Some s'" "fst ` set s' = {[1, 7], [1, 8]}"
      "pu_queued r + pu_failed r = 2"
    by (auto simp: two_ops_def List.map_filter_def split_accepts)
  with run show ?thesis by blast
qed

theorem published_counts_reachable_witness:
  "\<exists>st' r. dht_publish split_env rev (dna_to_string plain_holo_hash dna_a) two_ops (Some [], Some (gk_new ())) =
     (st', Inr r) \<and> pu_published r = 1 \<and> pu_success r"
proof -
  obtain store gw r where run: "dht_publish split_env rev (dna_to_string plain_holo_hash dna_a) two_ops
      (Some [], Some (gk_new ())) = ((store, gw), Inr r)"
    using split_runs by (metis prod.exhaust)
  let ?ps = "[\<lparr>po_op_id = [1, 7], po_basis_loc = 1\<rparr>, \<lparr>po_op_id = [1, 8], po_basis_loc = 2\<rparr>] :: processed_op list"
  have ps: "List.map_filter (\<lambda>e. accepts split_env (snd e)) two_ops = ?ps"
    by (simp add: two_ops_def List.map_filter_def split_accepts)
  have "mset (rev m) = mset m" for m :: "(u32 \<times> op_id list) list" by simp
  from published_counts_reachable [OF run split_parse this] obtain ts g' where
    ts: "tried split_env dna_a (gk_new ()) ts g'" and locs: "fst ` set ts = po_basis_loc ` set ?ps" and
    count: "pu_published r = length (filter (\<lambda>p. reached ts (po_basis_loc p)) ?ps)"
      "pu_success r \<longleftrightarrow> list_all (\<lambda>e. accepts split_env (snd e) \<noteq> None) two_ops \<and>
         (two_ops = [] \<or> list_ex (\<lambda>p. reached ts (po_basis_loc p)) ?ps)"
    unfolding Let_def ps by blast
  have "1 \<in> fst ` set ts" unfolding locs by simp
  then obtain ids n where "(1, ids, n) \<in> set ts" by auto
  then have one: "reached ts 1" using split_tried [OF ts] unfolding reached_def by (intro bexI [of _ "(1, ids, n)"]) simp_all
  have two: "\<not> reached ts 2" using split_tried [OF ts, of 2] by (auto simp: reached_def)
  have "pu_published r = 1" "pu_success r" unfolding count using one two by (simp_all add: two_ops_def split_accepts)
  with run show ?thesis by blast
qed

end
