(* ===== verification/Kitsune_Routes.thy ===== *)
theory Kitsune_Routes imports Gateway_Kitsune begin

text \<open>
  The network status endpoints (\<open>src/routes/kitsune.rs\<close>), the test signal and the health endpoint
  (\<open>src/routes/test_signal.rs\<close>, \<open>src/routes/health.rs\<close>). The status endpoints only read: what
  kitsune2 answers during one request is the record \<open>kitsune_view\<close>.
\<close>

section \<open>What kitsune2 answers\<close>

record transport_stats =
  ts_backend :: string
  ts_peer_urls :: "url list"
  ts_connections :: "bytes list"
  ts_blocked_message_counts :: "(url, nat) hashmap"

record kitsune_view =
  kv_list_spaces :: "space_id list"
  kv_space_exists :: "space_id \<Rightarrow> bool"
  kv_peers :: "space_id \<Rightarrow> string + agent_info list"
  kv_local_agents :: "space_id \<Rightarrow> string + agent_id list"
  kv_transport :: "string + unit"
  kv_network_stats :: "string + transport_stats"

record kitsune_state =
  kn_enabled :: bool
  kn_bootstrap_url :: "string option"
  kn_relay_url :: "string option"
  kn_kitsune :: "kitsune_view option"

definition parse_space_id :: "(string \<Rightarrow> string + bytes) \<Rightarrow> string \<Rightarrow> space_id linker_result" where
  "parse_space_id b64 s = (case b64 s of
     Inl e \<Rightarrow> Inl (InvalidRequest (''Invalid space ID: '' @ e))
   | Inr bytes \<Rightarrow> Inr (SpaceId bytes))"

section \<open>Responses\<close>

record storage_arc_response =
  sa_arc_type :: string
  sa_start :: "u32 option"
  sa_length :: "u32 option"

definition storage_arc_response_from :: "dht_arc \<Rightarrow> storage_arc_response" where
  "storage_arc_response_from arc = (case arc of
     ArcEmpty \<Rightarrow> \<lparr>sa_arc_type = ''empty'', sa_start = None, sa_length = None\<rparr>
   | Arc start end_loc \<Rightarrow>
      (if start = 0 \<and> end_loc = - 1 then \<lparr>sa_arc_type = ''full'', sa_start = None, sa_length = None\<rparr>
       else \<lparr>sa_arc_type = ''arc'', sa_start = Some start, sa_length = Some end_loc\<rparr>))"

record peer_info_response =
  pi_agent_id :: agent_id
  pi_space_id :: space_id
  pi_created_at :: int
  pi_expires_at :: int
  pi_is_tombstone :: bool
  pi_url :: "string option"
  pi_storage_arc :: storage_arc_response

definition peer_info_response_from :: "agent_info \<Rightarrow> peer_info_response" where
  "peer_info_response_from info = \<lparr>pi_agent_id = ai_agent info, pi_space_id = ai_space info,
     pi_created_at = ai_created_at info, pi_expires_at = ai_expires_at info,
     pi_is_tombstone = ai_is_tombstone info, pi_url = ai_url info,
     pi_storage_arc = storage_arc_response_from (ai_storage_arc info)\<rparr>"

record network_status =
  ns_connected :: bool
  ns_bootstrap_url :: "string option"
  ns_relay_url :: "string option"
  ns_total_peers :: nat
  ns_active_spaces :: nat
  ns_full_arc_peers :: nat
  ns_blocked_peers :: nat
  ns_ready :: bool

record space_status_response =
  sp_space_id :: string
  sp_local_agents :: nat
  sp_peer_count :: nat

section \<open>Network status\<close>

fun count_full_arcs :: "agent_info list \<Rightarrow> nat \<Rightarrow> nat" where
  "count_full_arcs [] n = n"
| "count_full_arcs (p # ps) n = (case ai_storage_arc p of
     Arc start end_loc \<Rightarrow> if start = 0 \<and> end_loc = - 1 then count_full_arcs ps (Suc n) else count_full_arcs ps n
   | ArcEmpty \<Rightarrow> count_full_arcs ps n)"

fun count_peers :: "kitsune_view \<Rightarrow> space_id list \<Rightarrow> nat \<times> nat \<Rightarrow> nat \<times> nat" where
  "count_peers k [] counts = counts"
| "count_peers k (sp # sps) (n, full) =
     (if kv_space_exists k sp
      then (case kv_peers k sp of
              Inl _ \<Rightarrow> count_peers k sps (n, full)
            | Inr peers \<Rightarrow> count_peers k sps (n + length peers, count_full_arcs peers full))
      else count_peers k sps (n, full))"

definition blocked_peers :: "kitsune_view \<Rightarrow> nat" where
  "blocked_peers k = (case kv_transport k of
     Inl _ \<Rightarrow> 0
   | Inr _ \<Rightarrow> (case kv_network_stats k of Inl _ \<Rightarrow> 0 | Inr stats \<Rightarrow> length (ts_blocked_message_counts stats)))"

definition get_network_status :: "kitsune_state \<Rightarrow> network_status" where
  "get_network_status s =
     (let (n, active, full, blocked) = (case kn_kitsune s of
            None \<Rightarrow> (0, 0, 0, 0)
          | Some k \<Rightarrow> (let (n, full) = count_peers k (kv_list_spaces k) (0, 0)
                      in (n, length (kv_list_spaces k), full, blocked_peers k)))
      in \<lparr>ns_connected = (kn_enabled s \<and> kn_kitsune s \<noteq> None), ns_bootstrap_url = kn_bootstrap_url s,
          ns_relay_url = kn_relay_url s, ns_total_peers = n, ns_active_spaces = active,
          ns_full_arc_peers = full, ns_blocked_peers = blocked, ns_ready = (0 < full \<and> blocked = 0)\<rparr>)"

fun collect_peers :: "kitsune_view \<Rightarrow> space_id list \<Rightarrow> peer_info_response list \<Rightarrow> peer_info_response list" where
  "collect_peers k [] acc = acc"
| "collect_peers k (sp # sps) acc =
     (if kv_space_exists k sp
      then (case kv_peers k sp of
              Inl _ \<Rightarrow> collect_peers k sps acc
            | Inr peers \<Rightarrow> collect_peers k sps (acc @ map peer_info_response_from peers))
      else collect_peers k sps acc)"

definition get_all_peers :: "kitsune_state \<Rightarrow> peer_info_response list" where
  "get_all_peers s = (case kn_kitsune s of
     None \<Rightarrow> []
   | Some k \<Rightarrow> collect_peers k (kv_list_spaces k) [])"

section \<open>One space\<close>

definition space_not_found :: "string \<Rightarrow> linker_error" where
  "space_not_found s = NotFound (''Space not found: '' @ s)"

definition get_space_status ::
    "(string \<Rightarrow> string + bytes) \<Rightarrow> kitsune_state \<Rightarrow> string \<Rightarrow> space_status_response linker_result" where
  "get_space_status b64 s space_id_str = bind_result (parse_space_id b64 space_id_str) (\<lambda>sp.
     case kn_kitsune s of
       None \<Rightarrow> Inr \<lparr>sp_space_id = space_id_str, sp_local_agents = 0, sp_peer_count = 0\<rparr>
     | Some k \<Rightarrow> (if \<not> kv_space_exists k sp then Inl (space_not_found space_id_str)
         else Inr \<lparr>sp_space_id = space_id_str,
           sp_local_agents = unwrap_or 0 (map_sum id length (kv_local_agents k sp)),
           sp_peer_count = unwrap_or 0 (map_sum id length (kv_peers k sp))\<rparr>))"

definition get_space_peers ::
    "(string \<Rightarrow> string + bytes) \<Rightarrow> kitsune_state \<Rightarrow> string \<Rightarrow> peer_info_response list linker_result" where
  "get_space_peers b64 s space_id_str = bind_result (parse_space_id b64 space_id_str) (\<lambda>sp.
     case kn_kitsune s of
       None \<Rightarrow> Inr []
     | Some k \<Rightarrow> (if \<not> kv_space_exists k sp then Inl (space_not_found space_id_str)
         else bind_result (map_error Internal (kv_peers k sp)) (\<lambda>peers. Inr (map peer_info_response_from peers))))"

definition get_local_agents ::
    "(string \<Rightarrow> string + bytes) \<Rightarrow> kitsune_state \<Rightarrow> string \<Rightarrow> agent_id list linker_result" where
  "get_local_agents b64 s space_id_str = bind_result (parse_space_id b64 space_id_str) (\<lambda>sp.
     case kn_kitsune s of
       None \<Rightarrow> Inr []
     | Some k \<Rightarrow> (if \<not> kv_space_exists k sp then Inl (space_not_found space_id_str)
         else map_error Internal (kv_local_agents k sp)))"

definition get_transport_stats :: "kitsune_state \<Rightarrow> transport_stats linker_result" where
  "get_transport_stats s = (case kn_kitsune s of
     None \<Rightarrow> Inr \<lparr>ts_backend = ''tx5'', ts_peer_urls = [], ts_connections = [], ts_blocked_message_counts = []\<rparr>
   | Some k \<Rightarrow> bind_result (map_error Internal (kv_transport k)) (\<lambda>_. map_error Internal (kv_network_stats k)))"

section \<open>Test signals and health\<close>

record test_signal_request =
  tq_dna_hash :: string
  tq_agent_pubkey :: string
  tq_zome_name :: string
  tq_signal :: string

record test_signal_response =
  tr_success :: bool
  tr_message :: string

definition test_signal ::
    "holo_hash_api \<Rightarrow> test_signal_request \<Rightarrow> agent_proxy \<Rightarrow> agent_proxy \<times> test_signal_response" where
  "test_signal h rq p = (case dna_try_from h (tq_dna_hash rq) of
     Inl e \<Rightarrow> (p, \<lparr>tr_success = False, tr_message = ''Invalid DNA hash: '' @ e\<rparr>)
   | Inr dna \<Rightarrow> (case agent_try_from h (tq_agent_pubkey rq) of
        Inl e \<Rightarrow> (p, \<lparr>tr_success = False, tr_message = ''Invalid agent pubkey: '' @ e\<rparr>)
      | Inr agent \<Rightarrow>
         (case ap_send_signal dna agent (SmSignal (tq_dna_hash rq) (tq_agent_pubkey rq) ''test''
                 (tq_zome_name rq) (tq_signal rq)) p of
            (p', True) \<Rightarrow> (p', \<lparr>tr_success = True, tr_message = ''Signal sent to registered client''\<rparr>)
          | (p', False) \<Rightarrow> (p', \<lparr>tr_success = False, tr_message = ''No client registered for dna='' @
              dna_to_string h dna @ '', agent='' @ agent_to_string h agent\<rparr>))))"

definition health_check :: "string \<Rightarrow> json" where
  "health_check version = JObject [(''status'', JString ''ok''), (''version'', JString version)]"

section \<open>Properties\<close>

lemma count_full_arcs_eq:
  "count_full_arcs ps n = n + length (filter (\<lambda>p. sa_arc_type (pi_storage_arc (peer_info_response_from p)) = ''full'') ps)"
  by (induction ps n rule: count_full_arcs.induct)
    (auto simp: peer_info_response_from_def storage_arc_response_from_def split: dht_arc.splits)

lemma collect_peers_acc: "collect_peers k sps acc = acc @ collect_peers k sps []"
proof (induction sps arbitrary: acc)
  case (Cons sp sps)
  show ?case
    using Cons.IH [of acc] Cons.IH [of "acc @ map peer_info_response_from (case kv_peers k sp of Inl _ \<Rightarrow> [] | Inr ps \<Rightarrow> ps)"]
      Cons.IH [of "map peer_info_response_from (case kv_peers k sp of Inl _ \<Rightarrow> [] | Inr ps \<Rightarrow> ps)"]
    by (auto split: sum.splits)
qed simp

lemma count_peers_eq:
  "count_peers k sps (t, f) = (t + length (collect_peers k sps []),
     f + length (filter (\<lambda>p. sa_arc_type (pi_storage_arc p) = ''full'') (collect_peers k sps [])))"
proof (induction sps arbitrary: t f)
  case (Cons sp sps)
  show ?case
  proof (cases "kv_peers k sp")
    case (Inl e)
    with Cons.IH show ?thesis by simp
  next
    case (Inr ps)
    have "length (filter ((\<lambda>p. sa_arc_type (pi_storage_arc p) = ''full'')) (map peer_info_response_from ps)) =
        length (filter (\<lambda>p. sa_arc_type (pi_storage_arc (peer_info_response_from p)) = ''full'') ps)"
      by (simp add: filter_map comp_def)
    then show ?thesis
      using Cons.IH Inr collect_peers_acc [of k sps "map peer_info_response_from ps"]
      by (simp add: count_full_arcs_eq)
  qed
qed simp

text \<open>The two views of the network agree: the status counts exactly the peers that \<open>/k2/peers\<close> lists,
  and as authorities exactly those whose arc it shows as full. It reports ready when there is such a
  peer and no blocked one is known, which includes that the transport could not be asked.\<close>

lemma status_agrees_with_peers:
  "ns_total_peers (get_network_status s) = length (get_all_peers s) \<and>
   ns_full_arc_peers (get_network_status s) =
     length (filter (\<lambda>p. sa_arc_type (pi_storage_arc p) = ''full'') (get_all_peers s)) \<and>
   ns_ready (get_network_status s) = ((\<exists>p \<in> set (get_all_peers s). sa_arc_type (pi_storage_arc p) = ''full'') \<and>
     (case get_transport_stats s of Inl _ \<Rightarrow> True | Inr stats \<Rightarrow> ts_blocked_message_counts stats = []))"
proof (cases "kn_kitsune s")
  case None
  then show ?thesis by (simp add: get_network_status_def get_all_peers_def)
next
  case (Some k)
  let ?full = "filter (\<lambda>p. sa_arc_type (pi_storage_arc p) = ''full'') (collect_peers k (kv_list_spaces k) [])"
  have n: "count_peers k (kv_list_spaces k) (0, 0) = (length (collect_peers k (kv_list_spaces k) []), length ?full)"
    using count_peers_eq [of k "kv_list_spaces k" 0 0] by simp
  have b: "(blocked_peers k = 0) =
      (case get_transport_stats s of Inl _ \<Rightarrow> True | Inr stats \<Rightarrow> ts_blocked_message_counts stats = [])"
    by (cases "kv_transport k"; cases "kv_network_stats k")
      (simp_all add: blocked_peers_def get_transport_stats_def Some)
  have "0 < length ?full \<longleftrightarrow> (\<exists>p \<in> set (collect_peers k (kv_list_spaces k) []). sa_arc_type (pi_storage_arc p) = ''full'')"
    by (auto simp: filter_empty_conv)
  with b show ?thesis by (simp add: get_network_status_def get_all_peers_def Some n Let_def)
qed

end
