(* ===== verification/Zome_Call.thy ===== *)
theory Zome_Call imports Http begin

text \<open>
  Zome calls through a conductor (\<open>src/routes/zome_call.rs\<close>, \<open>src/conductor/app_conn.rs\<close>,
  \<open>src/conductor/admin_conn.rs\<close>): the endpoint, the admin connection that reconnects once, and the
  cached app connections. The conductor and the client library are the parameter \<open>conductor\<close>, a
  record of its calls on an abstract world; JSON, base64 and MessagePack are \<open>zome_api\<close>.
\<close>

section \<open>The conductor\<close>

record cell_id =
  ci_dna_hash :: dna_hash
  ci_agent_pubkey :: agent_pubkey

datatype cell_info = Provisioned cell_id | OtherCell bytes

text \<open>The cells of an app by role, in the order in which the map is iterated.\<close>

record app_info =
  an_installed_app_id :: string
  an_cell_info :: "(string \<times> cell_info list) list"

record app_interface =
  if_port :: nat
  if_allowed :: "string \<Rightarrow> bool"

datatype conductor_api_error = WebsocketError string | OtherApiError string

definition show_api_error :: "conductor_api_error \<Rightarrow> string" where
  "show_api_error e = (case e of WebsocketError s \<Rightarrow> s | OtherApiError s \<Rightarrow> s)"

abbreviation holochain_error :: "conductor_api_error \<Rightarrow> linker_error" where
  "holochain_error e \<equiv> HolochainError (show_api_error e)"

type_synonym admin_ws = nat
type_synonym app_ws = nat

text \<open>A connected app websocket with the credentials its signer was given.\<close>

record app_connection =
  aw_ws :: app_ws
  aw_credentials :: "(cell_id \<times> bytes) list"

record 'c conductor =
  cd_connect_admin :: "'c \<Rightarrow> 'c \<times> (string + admin_ws)"
  cd_list_apps :: "admin_ws \<Rightarrow> 'c \<Rightarrow> 'c \<times> (conductor_api_error + app_info list)"
  cd_issue_token :: "admin_ws \<Rightarrow> string \<Rightarrow> 'c \<Rightarrow> 'c \<times> (conductor_api_error + bytes)"
  cd_list_app_interfaces :: "admin_ws \<Rightarrow> 'c \<Rightarrow> 'c \<times> (conductor_api_error + app_interface list)"
  cd_attach_app_interface :: "admin_ws \<Rightarrow> string \<Rightarrow> 'c \<Rightarrow> 'c \<times> (conductor_api_error + nat)"
  cd_connect_app :: "nat \<Rightarrow> string \<Rightarrow> bytes \<Rightarrow> 'c \<Rightarrow> 'c \<times> (string + app_ws)"
  cd_cached_app_info :: "app_ws \<Rightarrow> app_info"
  cd_authorize :: "admin_ws \<Rightarrow> cell_id \<Rightarrow> 'c \<Rightarrow> 'c \<times> (conductor_api_error + bytes)"
  cd_call_zome :: "app_connection \<Rightarrow> cell_id \<Rightarrow> string \<Rightarrow> string \<Rightarrow> bytes \<Rightarrow> 'c \<Rightarrow> 'c \<times> (conductor_api_error + bytes)"

section \<open>The state\<close>

record 'c app_conn =
  ac_admin_handle :: "admin_ws option"
  ac_connections :: "(string, app_connection) hashmap"
  ac_app_info_cache :: "app_info list"
  ac_conductor :: 'c

definition app_conn_new :: "'c \<Rightarrow> 'c app_conn" where
  "app_conn_new w = \<lparr>ac_admin_handle = None, ac_connections = [], ac_app_info_cache = [], ac_conductor = w\<rparr>"

type_synonym ('c, 'a) conn_step = "('c app_conn, linker_error, 'a) fallible"

text \<open>A call of the conductor, with what its error becomes.\<close>

definition ask :: "('c \<Rightarrow> 'c \<times> ('e + 'a)) \<Rightarrow> ('e \<Rightarrow> linker_error) \<Rightarrow> ('c, 'a) conn_step" where
  "ask f err s = (case f (ac_conductor s) of
     (w, Inl e) \<Rightarrow> (s\<lparr>ac_conductor := w\<rparr>, Inl (err e))
   | (w, Inr x) \<Rightarrow> (s\<lparr>ac_conductor := w\<rparr>, Inr x))"

section \<open>The admin connection\<close>

definition admin_get_or_connect :: "'c conductor \<Rightarrow> ('c, admin_ws) conn_step" where
  "admin_get_or_connect cd s = (case ac_admin_handle s of
     Some ws \<Rightarrow> (s, Inr ws)
   | None \<Rightarrow> (case cd_connect_admin cd (ac_conductor s) of
        (w, Inr ws) \<Rightarrow> (s\<lparr>ac_conductor := w, ac_admin_handle := Some ws\<rparr>, Inr ws)
      | (w, Inl _) \<Rightarrow> (s\<lparr>ac_conductor := w\<rparr>, Inl UpstreamUnavailable)))"

text \<open>\<open>list_apps\<close> tries twice: a websocket error drops the handle, so that the second try connects anew.\<close>

fun list_apps_tries :: "'c conductor \<Rightarrow> nat \<Rightarrow> ('c, app_info list) conn_step" where
  "list_apps_tries cd 0 s = (s, Inl UpstreamUnavailable)"
| "list_apps_tries cd (Suc n) s = (case admin_get_or_connect cd s of
     (s1, Inl e) \<Rightarrow> (s1, Inl e)
   | (s1, Inr ws) \<Rightarrow> (case cd_list_apps cd ws (ac_conductor s1) of
        (w, Inr apps) \<Rightarrow> (s1\<lparr>ac_conductor := w\<rparr>, Inr apps)
      | (w, Inl (WebsocketError _)) \<Rightarrow> list_apps_tries cd n (s1\<lparr>ac_conductor := w, ac_admin_handle := None\<rparr>)
      | (w, Inl e) \<Rightarrow> (s1\<lparr>ac_conductor := w\<rparr>, Inl (holochain_error e))))"

definition admin_list_apps :: "'c conductor \<Rightarrow> ('c, app_info list) conn_step" where
  "admin_list_apps cd = list_apps_tries cd 2"

section \<open>Finding the app\<close>

fun find_cell :: "cell_info list \<Rightarrow> dna_hash \<Rightarrow> cell_id option" where
  "find_cell [] d = None"
| "find_cell (Provisioned c # cells) d = (if ci_dna_hash c = d then Some c else find_cell cells d)"
| "find_cell (OtherCell _ # cells) d = find_cell cells d"

fun find_in_apps :: "app_info list \<Rightarrow> dna_hash \<Rightarrow> (app_info \<times> cell_id) option" where
  "find_in_apps [] d = None"
| "find_in_apps (app # apps) d = (case find_cell (concat (map snd (an_cell_info app))) d of
     Some c \<Rightarrow> Some (app, c)
   | None \<Rightarrow> find_in_apps apps d)"

definition find_app_with_dna ::
    "holo_hash_api \<Rightarrow> 'c conductor \<Rightarrow> dna_hash \<Rightarrow> ('c, app_info \<times> cell_id) conn_step" where
  "find_app_with_dna h cd d s = (case find_in_apps (ac_app_info_cache s) d of
     Some r \<Rightarrow> (s, Inr r)
   | None \<Rightarrow> (case admin_list_apps cd s of
        (s1, Inl e) \<Rightarrow> (s1, Inl e)
      | (s1, Inr apps) \<Rightarrow> (s1\<lparr>ac_app_info_cache := apps\<rparr>,
          ok_or (NotFound (''No app found with DNA '' @ dna_to_string h d)) (find_in_apps apps d))))"

section \<open>App connections\<close>

definition GATEWAY_ORIGIN :: string where "GATEWAY_ORIGIN = ''h2hc-linker''"

definition get_app_port :: "'c conductor \<Rightarrow> admin_ws \<Rightarrow> ('c, nat) conn_step" where
  "get_app_port cd ws = and_then (ask (cd_list_app_interfaces cd ws) holochain_error) (\<lambda>ifaces.
     case find (\<lambda>i. if_allowed i GATEWAY_ORIGIN) ifaces of
       Some i \<Rightarrow> returns (if_port i)
     | None \<Rightarrow> ask (cd_attach_app_interface cd ws GATEWAY_ORIGIN) holochain_error)"

fun authorize_cells :: "'c conductor \<Rightarrow> admin_ws \<Rightarrow> cell_info list \<Rightarrow> (cell_id \<times> bytes) list \<Rightarrow>
    ('c, (cell_id \<times> bytes) list) conn_step" where
  "authorize_cells cd ws [] creds = returns creds"
| "authorize_cells cd ws (Provisioned c # cells) creds =
     and_then (ask (cd_authorize cd ws c) holochain_error) (\<lambda>cr. authorize_cells cd ws cells (creds @ [(c, cr)]))"
| "authorize_cells cd ws (OtherCell _ # cells) creds = authorize_cells cd ws cells creds"

definition connect_app :: "'c conductor \<Rightarrow> string \<Rightarrow> ('c, app_connection) conn_step" where
  "connect_app cd app_id =
     and_then (admin_get_or_connect cd) (\<lambda>admin.
     and_then (ask (cd_issue_token cd admin app_id) holochain_error) (\<lambda>token.
     and_then (get_app_port cd admin) (\<lambda>port.
     and_then (ask (cd_connect_app cd port GATEWAY_ORIGIN token) (\<lambda>_. UpstreamUnavailable)) (\<lambda>ws.
     and_then (authorize_cells cd admin (concat (map snd (an_cell_info (cd_cached_app_info cd ws)))) []) (\<lambda>creds.
     returns \<lparr>aw_ws = ws, aw_credentials = creds\<rparr>)))))"

definition app_get_or_connect :: "'c conductor \<Rightarrow> string \<Rightarrow> ('c, app_connection) conn_step" where
  "app_get_or_connect cd app_id s = (case hm_get (ac_connections s) app_id of
     Some ws \<Rightarrow> (s, Inr ws)
   | None \<Rightarrow> (case connect_app cd app_id s of
        (s1, Inl e) \<Rightarrow> (s1, Inl e)
      | (s1, Inr ws) \<Rightarrow> (s1\<lparr>ac_connections := hm_insert app_id ws (ac_connections s1)\<rparr>, Inr ws)))"

definition call_zome :: "holo_hash_api \<Rightarrow> 'c conductor \<Rightarrow> dna_hash \<Rightarrow> string \<Rightarrow> string \<Rightarrow> bytes \<Rightarrow> ('c, bytes) conn_step" where
  "call_zome h cd d zome_name fn_name payload =
     and_then (find_app_with_dna h cd d) (\<lambda>(app, cell).
     and_then (app_get_or_connect cd (an_installed_app_id app)) (\<lambda>ws.
     ask (cd_call_zome cd ws cell zome_name fn_name payload) holochain_error))"

definition call_dht_util :: "holo_hash_api \<Rightarrow> 'c conductor \<Rightarrow> dna_hash \<Rightarrow> string \<Rightarrow> bytes \<Rightarrow> ('c, bytes) conn_step" where
  "call_dht_util h cd d fn_name payload = call_zome h cd d ''dht_util'' fn_name payload"

section \<open>The endpoint\<close>

record zome_api =
  za_base64_url :: "string \<Rightarrow> string + bytes"
  za_json_from_slice :: "bytes \<Rightarrow> string + json"
  za_extern_encode :: "json \<Rightarrow> string + bytes"
  za_extern_decode :: "bytes \<Rightarrow> string + json"
  za_json_to_string :: "json \<Rightarrow> string"

definition base64_json_to_extern_io :: "zome_api \<Rightarrow> string option \<Rightarrow> bytes linker_result" where
  "base64_json_to_extern_io za maybe_payload =
     bind_result (case maybe_payload of
        None \<Rightarrow> Inr JNull
      | Some s \<Rightarrow> bind_result (map_error (\<lambda>_. RequestMalformed ''Invalid base64 encoding'') (za_base64_url za s))
          (\<lambda>decoded. map_error (\<lambda>_. RequestMalformed ''Invalid JSON value'') (za_json_from_slice za decoded)))
     (\<lambda>v. map_error (\<lambda>e. RequestMalformed (''Failed to serialize payload: '' @ e)) (za_extern_encode za v))"

definition extern_io_to_json :: "zome_api \<Rightarrow> bytes \<Rightarrow> string linker_result" where
  "extern_io_to_json za response = map_error (\<lambda>e. Internal (''Failed to decode response: '' @ e))
     (map_sum id (za_json_to_string za) (za_extern_decode za response))"

record zome_call_path =
  zp_dna_hash :: string
  zp_zome_name :: string
  zp_fn_name :: string

definition zome_call :: "holo_hash_api \<Rightarrow> zome_api \<Rightarrow> 'c conductor \<Rightarrow> zome_call_path \<Rightarrow> string option \<Rightarrow>
    'c app_conn option \<Rightarrow> 'c app_conn option \<times> string linker_result" where
  "zome_call h za cd path payload st = (case dna_try_from h (zp_dna_hash path) of
     Inl _ \<Rightarrow> (st, Inl (RequestMalformed ''Invalid DNA hash''))
   | Inr d \<Rightarrow> (case st of
        None \<Rightarrow> (st, Inl UpstreamUnavailable)
      | Some s \<Rightarrow> (case base64_json_to_extern_io za payload of
           Inl e \<Rightarrow> (st, Inl e)
         | Inr p \<Rightarrow> (case call_zome h cd d (zp_zome_name path) (zp_fn_name path) p s of
              (s', Inl e) \<Rightarrow> (Some s', Inl e)
            | (s', Inr result) \<Rightarrow> (Some s', extern_io_to_json za result)))))"

section \<open>A call stays in its DNA\<close>

lemma find_cell_dna: "find_cell cells d = Some c \<Longrightarrow> ci_dna_hash c = d \<and> Provisioned c \<in> set cells"
  by (induction cells d rule: find_cell.induct) (auto split: if_splits)

lemma find_in_apps_dna:
  "find_in_apps apps d = Some (app, c) \<Longrightarrow>
   app \<in> set apps \<and> ci_dna_hash c = d \<and> Provisioned c \<in> set (concat (map snd (an_cell_info app)))"
  by (induction apps d rule: find_in_apps.induct) (auto split: option.splits dest: find_cell_dna)

lemma find_app_dna: "find_app_with_dna h cd d s = (s', Inr (app, c)) \<Longrightarrow> ci_dna_hash c = d"
  unfolding find_app_with_dna_def
  by (auto split: option.splits prod.splits sum.splits simp: ok_or_def dest: find_in_apps_dna)

lemma zome_call_free:
  fixes cd :: "'c conductor"
  shows "admin_get_or_connect (cd\<lparr>cd_call_zome := f\<rparr>) = admin_get_or_connect cd"
    and "list_apps_tries (cd\<lparr>cd_call_zome := f\<rparr>) n s = list_apps_tries cd n s"
    and "authorize_cells (cd\<lparr>cd_call_zome := f\<rparr>) ws cells creds = authorize_cells cd ws cells creds"
    and "get_app_port (cd\<lparr>cd_call_zome := f\<rparr>) ws = get_app_port cd ws"
proof -
  show a: "admin_get_or_connect (cd\<lparr>cd_call_zome := f\<rparr>) = admin_get_or_connect cd"
    by (rule ext) (simp add: admin_get_or_connect_def split: option.split)
  show "list_apps_tries (cd\<lparr>cd_call_zome := f\<rparr>) n s = list_apps_tries cd n s"
  proof (induction n arbitrary: s)
    case (Suc n)
    then show ?case by (auto simp: a split: prod.split sum.split conductor_api_error.split)
  qed simp
  show "authorize_cells (cd\<lparr>cd_call_zome := f\<rparr>) ws cells creds = authorize_cells cd ws cells creds"
    by (induction cd ws cells creds rule: authorize_cells.induct) simp_all
  have sel: "cd_list_app_interfaces (cd\<lparr>cd_call_zome := f\<rparr>) = cd_list_app_interfaces cd"
      "cd_attach_app_interface (cd\<lparr>cd_call_zome := f\<rparr>) = cd_attach_app_interface cd" by simp_all
  show "get_app_port (cd\<lparr>cd_call_zome := f\<rparr>) ws = get_app_port cd ws" unfolding get_app_port_def sel by (rule refl)
qed

lemma connect_free:
  "find_app_with_dna h (cd\<lparr>cd_call_zome := f\<rparr>) d = find_app_with_dna h cd d"
  "app_get_or_connect (cd\<lparr>cd_call_zome := f\<rparr>) app_id = app_get_or_connect cd app_id"
proof -
  have c: "connect_app (cd\<lparr>cd_call_zome := f\<rparr>) app_id = connect_app cd app_id"
    by (simp add: connect_app_def zome_call_free)
  show "app_get_or_connect (cd\<lparr>cd_call_zome := f\<rparr>) app_id = app_get_or_connect cd app_id"
    unfolding fun_eq_iff app_get_or_connect_def c by blast
  have l: "admin_list_apps (cd\<lparr>cd_call_zome := f\<rparr>) = admin_list_apps cd"
    by (simp add: admin_list_apps_def zome_call_free fun_eq_iff)
  show "find_app_with_dna h (cd\<lparr>cd_call_zome := f\<rparr>) d = find_app_with_dna h cd d"
    unfolding fun_eq_iff find_app_with_dna_def l by blast
qed

lemma and_then_cong:
  "(\<And>t x. f s = (t, Inr x) \<Longrightarrow> g x t = g' x t) \<Longrightarrow> and_then f g s = and_then f g' s"
  by (auto simp: and_then_def split: prod.split sum.split)

text \<open>A zome call only ever runs the function it names, in a cell of the DNA its path names: another
  answer of the conductor to any other call, in whatever cell of whatever app, changes nothing.\<close>

lemma zome_call_stays_in_dna:
  assumes "dna_try_from h (zp_dna_hash path) = Inr d"
    and "\<And>ws c p w. ci_dna_hash c = d \<Longrightarrow>
      f ws c (zp_zome_name path) (zp_fn_name path) p w = cd_call_zome cd ws c (zp_zome_name path) (zp_fn_name path) p w"
  shows "zome_call h za (cd\<lparr>cd_call_zome := f\<rparr>) path payload st = zome_call h za cd path payload st"
proof -
  have "call_zome h (cd\<lparr>cd_call_zome := f\<rparr>) d (zp_zome_name path) (zp_fn_name path) p s =
      call_zome h cd d (zp_zome_name path) (zp_fn_name path) p s" for p s
    unfolding call_zome_def connect_free
  proof (rule and_then_cong)
    fix t x assume "find_app_with_dna h cd d s = (t, Inr x)"
    then obtain app c where x: "x = (app, c)" "ci_dna_hash c = d" by (cases x) (auto dest: find_app_dna)
    have "cd_call_zome (cd\<lparr>cd_call_zome := f\<rparr>) ws c (zp_zome_name path) (zp_fn_name path) p =
        cd_call_zome cd ws c (zp_zome_name path) (zp_fn_name path) p" for ws
      using assms(2) [OF x(2)] by (simp add: fun_eq_iff)
    then show "(case x of (app, cell) \<Rightarrow> and_then (app_get_or_connect cd (an_installed_app_id app))
          (\<lambda>ws. ask (cd_call_zome (cd\<lparr>cd_call_zome := f\<rparr>) ws cell (zp_zome_name path) (zp_fn_name path) p) holochain_error)) t =
        (case x of (app, cell) \<Rightarrow> and_then (app_get_or_connect cd (an_installed_app_id app))
          (\<lambda>ws. ask (cd_call_zome cd ws cell (zp_zome_name path) (zp_fn_name path) p) holochain_error)) t"
      by (simp add: x)
  qed
  then show ?thesis by (simp add: zome_call_def assms(1) split: option.split sum.split)
qed

text \<open>A conductor with one app of two cells, on a world that counts its calls.\<close>

definition sample_cells :: "cell_info list" where
  "sample_cells = [OtherCell [], Provisioned \<lparr>ci_dna_hash = DnaHash [8], ci_agent_pubkey = AgentPubKey [1]\<rparr>,
     Provisioned \<lparr>ci_dna_hash = DnaHash [7], ci_agent_pubkey = AgentPubKey [1]\<rparr>]"

definition sample_app :: app_info where
  "sample_app = \<lparr>an_installed_app_id = ''app'', an_cell_info = [(''main'', sample_cells)]\<rparr>"

definition sample_conductor :: "nat conductor" where
  "sample_conductor = \<lparr>cd_connect_admin = (\<lambda>w. (Suc w, Inr w)),
     cd_list_apps = (\<lambda>_ w. (Suc w, if w < 2 then Inl (WebsocketError ''closed'') else Inr [sample_app])),
     cd_issue_token = (\<lambda>_ _ w. (Suc w, Inr [1])), cd_list_app_interfaces = (\<lambda>_ w. (Suc w, Inr [])),
     cd_attach_app_interface = (\<lambda>_ _ w. (Suc w, Inr 9000)), cd_connect_app = (\<lambda>_ _ _ w. (Suc w, Inr 0)),
     cd_cached_app_info = (\<lambda>_. sample_app), cd_authorize = (\<lambda>_ _ w. (Suc w, Inr [])),
     cd_call_zome = (\<lambda>_ c _ _ _ w. (Suc w, Inr (case ci_dna_hash c of DnaHash b \<Rightarrow> b)))\<rparr>"

definition plain_zome :: zome_api where
  "plain_zome = \<lparr>za_base64_url = (\<lambda>s. Inr (bytes_of_text s)), za_json_from_slice = (\<lambda>b. Inr (JString (text_of_bytes b))),
     za_extern_encode = (\<lambda>_. Inr []), za_extern_decode = (\<lambda>b. Inr (JString (text_of_bytes b))),
     za_json_to_string = (\<lambda>j. case j of JString s \<Rightarrow> s | _ \<Rightarrow> ''null'')\<rparr>"

definition sample_path :: zome_call_path where
  "sample_path = \<lparr>zp_dna_hash = dna_to_string plain_holo_hash (DnaHash [7]), zp_zome_name = ''z'', zp_fn_name = ''f''\<rparr>"

lemma sample_path_dna: "dna_try_from plain_holo_hash (zp_dna_hash sample_path) = Inr (DnaHash [7])"
  by (simp add: sample_path_def plain_holo_hash_ok)

lemma sample_call:
  "snd (zome_call plain_holo_hash plain_zome sample_conductor sample_path None (Some (app_conn_new 0))) =
     Inr (text_of_bytes [7])"
  unfolding zome_call_def sample_path_dna
  by (simp add: base64_json_to_extern_io_def plain_zome_def call_zome_def find_app_with_dna_def app_conn_new_def
    admin_list_apps_def numeral_2_eq_2 admin_get_or_connect_def sample_conductor_def and_then_def app_get_or_connect_def
    connect_app_def ask_def get_app_port_def sample_app_def sample_cells_def hm_insert_def hm_remove_def sample_path_def
    extern_io_to_json_def)

lemma zome_call_stays_in_dna_example:
  "snd (zome_call plain_holo_hash plain_zome (sample_conductor\<lparr>cd_call_zome := \<lambda>_ c z f _ w.
       if c = \<lparr>ci_dna_hash = DnaHash [8], ci_agent_pubkey = AgentPubKey [1]\<rparr> \<or> z \<noteq> ''z'' then (99, Inl (OtherApiError ''no''))
       else (Suc w, Inr (case ci_dna_hash c of DnaHash b \<Rightarrow> b))\<rparr>) sample_path None (Some (app_conn_new 0))) =
     Inr (text_of_bytes [7])"
proof -
  have "(if c = \<lparr>ci_dna_hash = DnaHash [8], ci_agent_pubkey = AgentPubKey [1]\<rparr> \<or> zp_zome_name sample_path \<noteq> ''z''
        then (99, Inl (OtherApiError ''no'')) else (Suc w, Inr (case ci_dna_hash c of DnaHash b \<Rightarrow> b))) =
      cd_call_zome sample_conductor ws c (zp_zome_name sample_path) (zp_fn_name sample_path) p w"
    if "ci_dna_hash c = DnaHash [7]" for ws c p w
    using that by (auto simp: sample_path_def sample_conductor_def)
  from zome_call_stays_in_dna [where h = plain_holo_hash and path = sample_path and cd = sample_conductor
      and f = "\<lambda>_ c z f _ w. if c = \<lparr>ci_dna_hash = DnaHash [8], ci_agent_pubkey = AgentPubKey [1]\<rparr> \<or> z \<noteq> ''z''
        then (99, Inl (OtherApiError ''no'')) else (Suc w, Inr (case ci_dna_hash c of DnaHash b \<Rightarrow> b))",
      OF sample_path_dna this]
  show ?thesis using sample_call by simp
qed

section \<open>Cached connections\<close>

definition keeps_connections :: "('c, 'a) conn_step \<Rightarrow> bool" where
  "keeps_connections f \<longleftrightarrow> (\<forall>s. ac_connections (fst (f s)) = ac_connections s)"

named_theorems keeps_intros \<open>steps that leave the cached connections alone\<close>

lemma keepsD: "keeps_connections f \<Longrightarrow> f s = (t, r) \<Longrightarrow> ac_connections t = ac_connections s"
  unfolding keeps_connections_def by (metis fst_conv)

lemma keeps_returns [keeps_intros]: "keeps_connections (returns x)"
  by (simp add: keeps_connections_def)

lemma keeps_and_then [keeps_intros]:
  assumes "keeps_connections f" and "\<And>x. keeps_connections (g x)"
  shows "keeps_connections (and_then f g)"
  unfolding keeps_connections_def
proof
  fix s
  obtain t r where t: "f s = (t, r)" by fastforce
  have "ac_connections t = ac_connections s" by (rule keepsD [OF assms(1) t])
  with t assms(2) show "ac_connections (fst (and_then f g s)) = ac_connections s"
    by (cases r) (simp_all add: and_then_def keeps_connections_def)
qed

lemma keeps_ask [keeps_intros]: "keeps_connections (ask f err)"
  by (auto simp: keeps_connections_def ask_def split: prod.split sum.split)

lemma keeps_admin [keeps_intros]: "keeps_connections (admin_get_or_connect cd)"
  by (auto simp: keeps_connections_def admin_get_or_connect_def split: option.split prod.split sum.split)

lemma keeps_list_tries: "ac_connections (fst (list_apps_tries cd n s)) = ac_connections s"
proof (induction n arbitrary: s)
  case (Suc n)
  obtain t r where t: "admin_get_or_connect cd s = (t, r)" by fastforce
  have k: "ac_connections t = ac_connections s" by (rule keepsD [OF keeps_admin t])
  show ?case
  proof (cases r)
    case (Inr ws)
    obtain w q where q: "cd_list_apps cd ws (ac_conductor t) = (w, q)" by fastforce
    with t k Inr Suc.IH show ?thesis by (cases q; cases "projl q") simp_all
  qed (use t k in simp)
qed simp

lemma keeps_find_app [keeps_intros]: "keeps_connections (find_app_with_dna h cd d)"
  unfolding keeps_connections_def find_app_with_dna_def admin_list_apps_def
  using keeps_list_tries [of cd 2] by (auto split: option.split prod.split sum.split) (metis fst_conv)+

lemma keeps_port [keeps_intros]: "keeps_connections (get_app_port cd ws)"
  unfolding get_app_port_def by (intro keeps_intros) (auto intro: keeps_intros split: option.split)

lemma keeps_authorize [keeps_intros]: "keeps_connections (authorize_cells cd ws cells creds)"
proof (induction cd ws cells creds rule: authorize_cells.induct)
  case (1 cd ws creds)
  show ?case unfolding authorize_cells.simps by (rule keeps_returns)
next
  case (2 cd ws c cells creds)
  then show ?case unfolding authorize_cells.simps by (intro keeps_and_then keeps_ask)
next
  case (3 cd ws b cells creds)
  then show ?case unfolding authorize_cells.simps .
qed

lemma keeps_connect [keeps_intros]: "keeps_connections (connect_app cd app_id)"
  unfolding connect_app_def by (intro keeps_intros)

definition provisioned :: "app_info \<Rightarrow> cell_id list" where
  "provisioned app = List.map_filter (\<lambda>c. case c of Provisioned i \<Rightarrow> Some i | OtherCell _ \<Rightarrow> None)
     (concat (map snd (an_cell_info app)))"

lemma authorize_cells_creds:
  "authorize_cells cd ws cells creds s = (t, Inr creds') \<Longrightarrow> map fst creds' = map fst creds @
     List.map_filter (\<lambda>c. case c of Provisioned i \<Rightarrow> Some i | OtherCell _ \<Rightarrow> None) cells"
proof (induction cells arbitrary: creds s)
  case (Cons c cells)
  then show ?case
    by (cases c) (auto simp: and_then_Inr List.map_filter_simps)
qed (simp add: List.map_filter_simps)

lemma connect_app_creds:
  "connect_app cd app_id s = (t, Inr aw) \<Longrightarrow> map fst (aw_credentials aw) = provisioned (cd_cached_app_info cd (aw_ws aw))"
  by (auto simp: connect_app_def and_then_Inr provisioned_def dest: authorize_cells_creds)

definition authorised_connection :: "'c conductor \<Rightarrow> app_connection \<Rightarrow> bool" where
  "authorised_connection cd aw \<longleftrightarrow> map fst (aw_credentials aw) = provisioned (cd_cached_app_info cd (aw_ws aw))"

lemma get_or_connect_authorised:
  assumes "list_all (\<lambda>e. authorised_connection cd (snd e)) (ac_connections s)"
  shows "list_all (\<lambda>e. authorised_connection cd (snd e)) (ac_connections (fst (app_get_or_connect cd app_id s)))"
proof (cases "hm_get (ac_connections s) app_id")
  case None
  obtain t r where t: "connect_app cd app_id s = (t, r)" by fastforce
  have k: "ac_connections t = ac_connections s" by (rule keepsD [OF keeps_connect t])
  show ?thesis
  proof (cases r)
    case (Inr aw)
    with t have "authorised_connection cd aw" by (auto simp: authorised_connection_def dest: connect_app_creds)
    with assms t k None Inr show ?thesis
      by (auto simp: app_get_or_connect_def hm_insert_def hm_remove_def list_all_iff)
  qed (use assms t k None in \<open>simp add: app_get_or_connect_def\<close>)
qed (use assms in \<open>simp add: app_get_or_connect_def\<close>)

definition zome_calls :: "holo_hash_api \<Rightarrow> 'c conductor \<Rightarrow> (dna_hash \<times> string \<times> string \<times> bytes) list \<Rightarrow>
    'c app_conn \<Rightarrow> 'c app_conn" where
  "zome_calls h cd calls s = fold (\<lambda>(d, z, f, p) t. fst (call_zome h cd d z f p t)) calls s"

lemma call_zome_authorised:
  assumes "list_all (\<lambda>e. authorised_connection cd (snd e)) (ac_connections s)"
  shows "list_all (\<lambda>e. authorised_connection cd (snd e)) (ac_connections (fst (call_zome h cd d z f p s)))"
proof -
  obtain t r where t: "find_app_with_dna h cd d s = (t, r)" by fastforce
  have k: "ac_connections t = ac_connections s" by (rule keepsD [OF keeps_find_app t])
  show ?thesis
  proof (cases r)
    case (Inr x)
    obtain app c where x: "x = (app, c)" by (cases x)
    obtain u q where u: "app_get_or_connect cd (an_installed_app_id app) t = (u, q)" by fastforce
    have a: "list_all (\<lambda>e. authorised_connection cd (snd e)) (ac_connections u)"
      using get_or_connect_authorised [of cd t "an_installed_app_id app"] assms k u by simp
    show ?thesis
    proof (cases q)
      case (Inr ws)
      have "ac_connections (fst (ask (cd_call_zome cd ws c z f p) holochain_error u)) = ac_connections u"
        using keeps_ask [of "cd_call_zome cd ws c z f p" holochain_error] by (simp add: keeps_connections_def)
      with a \<open>r = Inr x\<close> t u Inr x show ?thesis by (simp add: call_zome_def and_then_def)
    qed (use a \<open>r = Inr x\<close> t u x in \<open>simp add: call_zome_def and_then_def\<close>)
  qed (use assms t k in \<open>simp add: call_zome_def and_then_def\<close>)
qed

text \<open>No half-made connection is kept: after any calls, whatever the conductor answered on the way,
  every cached app connection has signing credentials for exactly the provisioned cells of its app, in
  their order; a connection whose authorization failed half-way is not cached.\<close>

lemma cached_connections_authorised:
  "list_all (\<lambda>e. authorised_connection cd (snd e)) (ac_connections (zome_calls h cd calls (app_conn_new w)))"
proof -
  have "list_all (\<lambda>e. authorised_connection cd (snd e)) (ac_connections s) \<Longrightarrow>
      list_all (\<lambda>e. authorised_connection cd (snd e)) (ac_connections (zome_calls h cd calls s))" for s
  proof (induction calls arbitrary: s)
    case (Cons c calls)
    obtain d z f p where c: "c = (d, z, f, p)" by (cases c)
    from Cons.IH [OF call_zome_authorised [OF Cons.prems]] show ?case by (simp add: zome_calls_def c)
  qed (simp add: zome_calls_def)
  then show ?thesis by (simp add: app_conn_new_def)
qed

section \<open>Calls after the first\<close>

text \<open>Connecting leaves the list of apps alone.\<close>

definition keeps_app_info :: "('c, 'a) conn_step \<Rightarrow> bool" where
  "keeps_app_info f \<longleftrightarrow> (\<forall>s. ac_app_info_cache (fst (f s)) = ac_app_info_cache s)"

named_theorems app_info_intros \<open>steps that leave the list of apps alone\<close>

lemma app_infoD: "keeps_app_info f \<Longrightarrow> f s = (t, r) \<Longrightarrow> ac_app_info_cache t = ac_app_info_cache s"
  unfolding keeps_app_info_def by (metis fst_conv)

lemma app_info_and_then [app_info_intros]:
  assumes "keeps_app_info f" and "\<And>x. keeps_app_info (g x)"
  shows "keeps_app_info (and_then f g)"
  unfolding keeps_app_info_def
proof
  fix s
  obtain t r where t: "f s = (t, r)" by fastforce
  from app_infoD [OF assms(1) t] t assms(2) show "ac_app_info_cache (fst (and_then f g s)) = ac_app_info_cache s"
    by (cases r) (simp_all add: and_then_def keeps_app_info_def)
qed

lemma app_info_steps [app_info_intros]:
  "keeps_app_info (returns x)" "keeps_app_info (ask f err)" "keeps_app_info (admin_get_or_connect cd)"
  by (auto simp: keeps_app_info_def ask_def admin_get_or_connect_def split: prod.split sum.split option.split)

lemma app_info_port [app_info_intros]: "keeps_app_info (get_app_port cd ws)"
  unfolding get_app_port_def by (intro app_info_intros) (auto intro: app_info_intros split: option.split)

lemma app_info_authorize [app_info_intros]: "keeps_app_info (authorize_cells cd ws cells creds)"
proof (induction cd ws cells creds rule: authorize_cells.induct)
  case (1 cd ws creds)
  show ?case unfolding authorize_cells.simps by (rule app_info_steps)
next
  case (2 cd ws c cells creds)
  then show ?case unfolding authorize_cells.simps by (intro app_info_intros)
next
  case (3 cd ws b cells creds)
  then show ?case unfolding authorize_cells.simps .
qed

lemma app_info_connect [app_info_intros]: "keeps_app_info (connect_app cd app_id)"
  unfolding connect_app_def by (intro app_info_intros)

lemma find_app_cached:
  assumes "find_app_with_dna h cd d s = (t, Inr (app, c))"
  shows "find_in_apps (ac_app_info_cache t) d = Some (app, c)"
  using assms by (auto simp: find_app_with_dna_def ok_or_def split: option.splits prod.splits sum.splits)

lemma get_or_connect_cached:
  assumes "app_get_or_connect cd a s = (t, Inr aw)"
  shows "hm_get (ac_connections t) a = Some aw" and "ac_app_info_cache t = ac_app_info_cache s"
  using assms app_infoD [OF app_info_connect]
  by (auto simp: app_get_or_connect_def split: option.splits prod.splits sum.splits)

lemma ask_frame: "ask f err s = (t, r) \<Longrightarrow> ac_connections t = ac_connections s \<and> ac_app_info_cache t = ac_app_info_cache s"
  using keepsD [OF keeps_ask] app_infoD [OF app_info_steps(2)] by metis

text \<open>A cached connection stays, whatever is called.\<close>

lemma get_or_connect_keeps:
  assumes "hm_get (ac_connections s) a = Some aw"
  shows "hm_get (ac_connections (fst (app_get_or_connect cd b s))) a = Some aw"
proof (cases "hm_get (ac_connections s) b")
  case None
  obtain t r where t: "connect_app cd b s = (t, r)" by fastforce
  have "ac_connections t = ac_connections s" by (rule keepsD [OF keeps_connect t])
  with assms None t show ?thesis by (cases r) (auto simp: app_get_or_connect_def)
qed (use assms in \<open>simp add: app_get_or_connect_def\<close>)

lemma call_zome_keeps:
  assumes "hm_get (ac_connections s) a = Some aw"
  shows "hm_get (ac_connections (fst (call_zome h cd d z f p s))) a = Some aw"
proof -
  obtain t r where t: "find_app_with_dna h cd d s = (t, r)" by fastforce
  have k: "ac_connections t = ac_connections s" by (rule keepsD [OF keeps_find_app t])
  show ?thesis
  proof (cases r)
    case (Inr x)
    obtain app c where x: "x = (app, c)" by (cases x)
    obtain u q where u: "app_get_or_connect cd (an_installed_app_id app) t = (u, q)" by fastforce
    have a: "hm_get (ac_connections u) a = Some aw"
      using get_or_connect_keeps [of t a aw cd "an_installed_app_id app"] assms k u by simp
    obtain v o' where v: "\<And>ws. q = Inr ws \<Longrightarrow> ask (cd_call_zome cd ws c z f p) holochain_error u = (v, o')"
      by (metis surj_pair Inr_inject)
    show ?thesis using t u Inr x a v ask_frame [OF v] by (cases q) (simp_all add: call_zome_def and_then_def)
  qed (use assms t k in \<open>simp add: call_zome_def and_then_def\<close>)
qed

lemma zome_calls_keep:
  "hm_get (ac_connections s) a = Some aw \<Longrightarrow> hm_get (ac_connections (zome_calls h cd calls s)) a = Some aw"
  by (induction calls arbitrary: s) (auto simp: zome_calls_def call_zome_keeps split: prod.split)

text \<open>With the app and its connection known, a call is one request to the conductor.\<close>

lemma warm_call:
  assumes "find_in_apps (ac_app_info_cache s) d = Some (app, c)" and "hm_get (ac_connections s) (an_installed_app_id app) = Some aw"
  shows "call_zome h cd d z f p s = ask (cd_call_zome cd aw c z f p) holochain_error s"
  using assms by (simp add: call_zome_def and_then_def find_app_with_dna_def app_get_or_connect_def)

text \<open>C31. After a zome call into a DNA has succeeded, its app has a connection that every later call into that
  DNA uses: whatever other calls have come in between, whatever has become of the admin connection and of the
  conductor, a call for which the known apps still name that app is one request to the conductor, over the same
  connection and to the cell the apps name, its answer is the call's answer, and nothing else is asked or
  changed: no app list, no token, no interface, no credentials.\<close>

theorem later_call_is_one_request:
  assumes "call_zome h cd d z f p s = (s', Inr r)"
  shows "\<exists>app c aw. find_in_apps (ac_app_info_cache s') d = Some (app, c) \<and> ci_dna_hash c = d \<and>
    (\<forall>calls admin w app' c' z' f' p'. let t = (zome_calls h cd calls s')\<lparr>ac_admin_handle := admin, ac_conductor := w\<rparr> in
       find_in_apps (ac_app_info_cache t) d = Some (app', c') \<longrightarrow> an_installed_app_id app' = an_installed_app_id app \<longrightarrow>
       call_zome h cd d z' f' p' t = (case cd_call_zome cd aw c' z' f' p' w of
          (w', q) \<Rightarrow> (t\<lparr>ac_conductor := w'\<rparr>, map_error holochain_error q)))"
proof -
  obtain t app c where t: "find_app_with_dna h cd d s = (t, Inr (app, c))"
    using assms by (auto simp: call_zome_def and_then_def split: prod.splits sum.splits)
  obtain u aw where u: "app_get_or_connect cd (an_installed_app_id app) t = (u, Inr aw)"
    and run: "ask (cd_call_zome cd aw c z f p) holochain_error u = (s', Inr r)"
    using assms t by (auto simp: call_zome_def and_then_def split: prod.splits sum.splits)
  note cached = get_or_connect_cached [OF u] find_app_cached [OF t] ask_frame [OF run]
  have conn: "hm_get (ac_connections s') (an_installed_app_id app) = Some aw" using cached by simp
  have "call_zome h cd d z' f' p' x = (case cd_call_zome cd aw c' z' f' p' w of
      (w', q) \<Rightarrow> (x\<lparr>ac_conductor := w'\<rparr>, map_error holochain_error q))"
    if x: "x = (zome_calls h cd calls s')\<lparr>ac_admin_handle := admin, ac_conductor := w\<rparr>"
      and app: "find_in_apps (ac_app_info_cache x) d = Some (app', c')" "an_installed_app_id app' = an_installed_app_id app"
    for calls admin w app' c' z' f' p' x
  proof -
    have "hm_get (ac_connections x) (an_installed_app_id app') = Some aw"
      using zome_calls_keep [OF conn] x app(2) by simp
    from warm_call [OF app(1) this] x show ?thesis by (auto simp: ask_def map_error_def split: prod.split sum.split)
  qed
  moreover have "find_in_apps (ac_app_info_cache s') d = Some (app, c)" using cached by simp
  ultimately show ?thesis using find_in_apps_dna unfolding Let_def by blast
qed

lemma first_sample_call:
  "call_zome plain_holo_hash sample_conductor (DnaHash [7]) ''z'' ''f'' [] (app_conn_new 0) =
     (fst (call_zome plain_holo_hash sample_conductor (DnaHash [7]) ''z'' ''f'' [] (app_conn_new 0)), Inr [7])"
  by (simp add: call_zome_def find_app_with_dna_def app_conn_new_def admin_list_apps_def numeral_2_eq_2 admin_get_or_connect_def
    sample_conductor_def and_then_def app_get_or_connect_def connect_app_def ask_def get_app_port_def sample_app_def sample_cells_def)

text \<open>The admin connection lost, the second call still makes one request: the world counts it.\<close>

theorem later_call_is_one_request_witness:
  "\<exists>s. snd (call_zome plain_holo_hash sample_conductor (DnaHash [7]) ''z'' ''g'' [] (s\<lparr>ac_admin_handle := None, ac_conductor := 50\<rparr>)) = Inr [7] \<and>
     ac_conductor (fst (call_zome plain_holo_hash sample_conductor (DnaHash [7]) ''z'' ''g'' [] (s\<lparr>ac_admin_handle := None, ac_conductor := 50\<rparr>))) = 51"
proof -
  let ?s = "fst (call_zome plain_holo_hash sample_conductor (DnaHash [7]) ''z'' ''f'' [] (app_conn_new 0))"
  obtain app c aw where app: "find_in_apps (ac_app_info_cache ?s) (DnaHash [7]) = Some (app, c)" "ci_dna_hash c = DnaHash [7]"
    and later: "\<And>calls admin w app' c' z' f' p'. let t = (zome_calls plain_holo_hash sample_conductor calls ?s)
          \<lparr>ac_admin_handle := admin, ac_conductor := w\<rparr> in
       find_in_apps (ac_app_info_cache t) (DnaHash [7]) = Some (app', c') \<longrightarrow> an_installed_app_id app' = an_installed_app_id app \<longrightarrow>
       call_zome plain_holo_hash sample_conductor (DnaHash [7]) z' f' p' t = (case cd_call_zome sample_conductor aw c' z' f' p' w of
          (w', q) \<Rightarrow> (t\<lparr>ac_conductor := w'\<rparr>, map_error holochain_error q))"
    using later_call_is_one_request [OF first_sample_call] by metis
  have none: "zome_calls plain_holo_hash sample_conductor [] ?s = ?s" by (simp add: zome_calls_def)
  have "call_zome plain_holo_hash sample_conductor (DnaHash [7]) ''z'' ''g'' [] (?s\<lparr>ac_admin_handle := None, ac_conductor := 50\<rparr>) =
      (case cd_call_zome sample_conductor aw c ''z'' ''g'' [] 50 of
        (w', q) \<Rightarrow> (?s\<lparr>ac_admin_handle := None, ac_conductor := w'\<rparr>, map_error holochain_error q))"
    using later [where calls = "[]" and admin = None and w = 50 and app' = app and c' = c and z' = "''z''" and f' = "''g''" and p' = "[]"] app(1) unfolding none Let_def by simp
  then show ?thesis
    by (intro exI [of _ ?s]) (simp add: sample_conductor_def app(2) map_error_def)
qed

end
