(* ===== verification/Websocket.thy ===== *)
theory Websocket imports Gateway_Kitsune begin

text \<open>
  The WebSocket endpoint (\<open>src/routes/websocket.rs\<close>): the state of a connection, the handling of
  each client message, the socket loop with its timers, and the cleanup when it ends. Client messages
  arrive parsed (serde's tagged JSON is not modelled). Randomness is an input: the challenge drawn for
  an \<open>Auth\<close> and the token drawn for a session. Signature checking belongs to \<open>ed25519_dalek\<close> and is
  the parameter \<open>ws_crypto\<close>.
\<close>

section \<open>State\<close>

record connection_state =
  cs_authenticated :: bool
  cs_last_activity :: nat
  cs_registrations :: "(dna_hash \<times> agent_pubkey) list"
  cs_pending_auth_agent :: "agent_pubkey option"
  cs_pending_challenge :: "bytes option"
  cs_authenticated_agent :: "agent_pubkey option"

definition connection_default :: "nat \<Rightarrow> connection_state" where
  "connection_default now = \<lparr>cs_authenticated = False, cs_last_activity = now, cs_registrations = [],
     cs_pending_auth_agent = None, cs_pending_challenge = None, cs_authenticated_agent = None\<rparr>"

text \<open>The part of the shared application state the endpoint works on.\<close>

record 'w linker =
  ln_auth_store :: "auth_store option"
  ln_agent_proxy :: agent_proxy
  ln_gateway :: "'w gateway option"

text \<open>The outside: the crates' hash forms, codecs, signature functions and the network.\<close>

record ws_crypto =
  signature_from_slice :: "bytes \<Rightarrow> string + signature"
  verifying_key :: "bytes \<Rightarrow> string + bytes"
  verify_error :: "bytes \<Rightarrow> bytes \<Rightarrow> signature \<Rightarrow> string option"
  hex_encode :: "bytes \<Rightarrow> string"

record 'w ws_env =
  we_hash :: holo_hash_api
  we_k2 :: k2_api
  we_wire :: wire_api
  we_network :: "'w network"
  we_crypto :: ws_crypto

text \<open>What a handler comes to: a reply to send, none, or a panic of the connection's task.\<close>

datatype outcome = Reply "server_message option" | Panicked

type_synonym 'w conn = "connection_state \<times> 'w linker"

section \<open>Authentication\<close>

definition handle_auth ::
    "'w ws_env \<Rightarrow> string \<Rightarrow> bytes \<Rightarrow> 'w conn \<Rightarrow> 'w conn \<times> outcome" where
  "handle_auth env agent_pubkey_str challenge st = (case st of (cs, app) \<Rightarrow>
     (case agent_try_from (we_hash env) agent_pubkey_str of
        Inl e \<Rightarrow> (st, Reply (Some (SmAuthError (''Invalid agent pubkey: '' @ e))))
      | Inr agent \<Rightarrow>
     (case ln_auth_store app of
        None \<Rightarrow> ((cs\<lparr>cs_authenticated := True, cs_authenticated_agent := Some agent\<rparr>, app),
          Reply (Some (SmAuthOk [])))
      | Some store \<Rightarrow>
     (case auth_is_agent_allowed agent store of (store', allowed) \<Rightarrow>
      (let app' = app\<lparr>ln_auth_store := Some store'\<rparr> in
       if \<not> allowed then ((cs, app'), Reply (Some (SmAuthError ''Agent not allowed'')))
       else ((cs\<lparr>cs_pending_auth_agent := Some agent, cs_pending_challenge := Some challenge\<rparr>, app'),
         Reply (Some (SmAuthChallenge (hex_encode (we_crypto env) challenge)))))))))"

text \<open>The key part of an agent's public key, 32 bytes of it.\<close>

definition key_bytes :: "k2_api \<Rightarrow> agent_pubkey \<Rightarrow> bytes" where
  "key_bytes k2 a = (let raw = raw_32 k2 a in if length raw = 32 then raw else replicate 32 0)"

definition check_signature :: "'w ws_env \<Rightarrow> agent_pubkey \<Rightarrow> bytes \<Rightarrow> string \<Rightarrow> string + unit" where
  "check_signature env agent challenge signature_b64 =
     (case base64_decode (we_k2 env) signature_b64 of
        Inl e \<Rightarrow> Inl (''Invalid signature encoding: '' @ e)
      | Inr sig_bytes \<Rightarrow>
     (case signature_from_slice (we_crypto env) sig_bytes of
        Inl e \<Rightarrow> Inl (''Invalid signature format: '' @ e)
      | Inr sig \<Rightarrow>
     (case verifying_key (we_crypto env) (key_bytes (we_k2 env) agent) of
        Inl e \<Rightarrow> Inl (''Invalid agent public key for verification: '' @ e)
      | Inr key \<Rightarrow>
     (case verify_error (we_crypto env) key challenge sig of
        Some _ \<Rightarrow> Inl ''Signature verification failed''
      | None \<Rightarrow> Inr ()))))"

definition handle_auth_challenge_response ::
    "'w ws_env \<Rightarrow> string \<Rightarrow> session_token \<Rightarrow> ws_sender \<Rightarrow> 'w conn \<Rightarrow> 'w conn \<times> outcome" where
  "handle_auth_challenge_response env signature_b64 token sender st = (case st of (cs, app) \<Rightarrow>
     (case cs_pending_auth_agent cs of
        None \<Rightarrow> (st, Reply (Some (SmAuthError ''No pending auth challenge'')))
      | Some agent \<Rightarrow>
     (case cs_pending_challenge cs of
        None \<Rightarrow> ((cs\<lparr>cs_pending_auth_agent := None\<rparr>, app),
          Reply (Some (SmAuthError ''No pending auth challenge'')))
      | Some challenge \<Rightarrow>
     (let cs1 = cs\<lparr>cs_pending_auth_agent := None, cs_pending_challenge := None\<rparr> in
      case check_signature env agent challenge signature_b64 of
        Inl msg \<Rightarrow> ((cs1, app), Reply (Some (SmAuthError msg)))
      | Inr _ \<Rightarrow>
     (case ln_auth_store app of
        None \<Rightarrow> ((cs1, app), Panicked)
      | Some store \<Rightarrow>
     (case auth_create_session token agent store of
        (store', None) \<Rightarrow> ((cs1, app\<lparr>ln_auth_store := Some store'\<rparr>),
          Reply (Some (SmAuthError ''Failed to create session'')))
      | (store', Some session_token) \<Rightarrow>
          ((cs1\<lparr>cs_authenticated := True, cs_authenticated_agent := Some agent\<rparr>,
            app\<lparr>ln_auth_store := Some (auth_register_ws_sender agent sender store')\<rparr>),
           Reply (Some (SmAuthOk session_token)))))))))"

section \<open>Registration\<close>

text \<open>The two hashes of a registration message.\<close>

definition parse_cell :: "'w ws_env \<Rightarrow> string \<Rightarrow> string \<Rightarrow> server_message + (dna_hash \<times> agent_pubkey)" where
  "parse_cell env dna_hash agent_pubkey = (case dna_try_from (we_hash env) dna_hash of
     Inl e \<Rightarrow> Inl (SmError (''Invalid DNA hash: '' @ e))
   | Inr dna \<Rightarrow> (case agent_try_from (we_hash env) agent_pubkey of
        Inl e \<Rightarrow> Inl (SmError (''Invalid agent pubkey: '' @ e))
      | Inr agent \<Rightarrow> Inr (dna, agent)))"

definition handle_register ::
    "'w ws_env \<Rightarrow> string \<Rightarrow> string \<Rightarrow> ws_sender \<Rightarrow> 'w conn \<Rightarrow> 'w conn \<times> outcome" where
  "handle_register env dna_hash agent_pubkey sender st = (case st of (cs, app) \<Rightarrow>
     (if \<not> cs_authenticated cs then (st, Reply (Some (SmError ''Not authenticated'')))
      else case parse_cell env dna_hash agent_pubkey of
        Inl m \<Rightarrow> (st, Reply (Some m))
      | Inr (dna, agent) \<Rightarrow>
     (if ln_auth_store app \<noteq> None \<and> cs_authenticated_agent cs \<noteq> None \<and> cs_authenticated_agent cs \<noteq> Some agent
      then (st, Reply (Some (SmError ''Cannot register a different agent than authenticated'')))
      else
       (let cs1 = (if (dna, agent) \<in> set (cs_registrations cs) then cs
                   else cs\<lparr>cs_registrations := cs_registrations cs @ [(dna, agent)]\<rparr>);
            app1 = app\<lparr>ln_agent_proxy := ap_register dna agent sender (ln_agent_proxy app)\<rparr>;
            app2 = (case ln_auth_store app1 of None \<Rightarrow> app1
                    | Some store \<Rightarrow> app1\<lparr>ln_auth_store := Some (auth_register_dna_for_agent agent dna store)\<rparr>);
            app3 = (case ln_gateway app2 of None \<Rightarrow> app2
                    | Some g \<Rightarrow> app2\<lparr>ln_gateway := Some (fst (agent_join (we_k2 env) (we_network env) dna agent g))\<rparr>)
        in ((cs1, app3), Reply (Some (SmRegistered dna_hash agent_pubkey)))))))"

definition handle_unregister :: "'w ws_env \<Rightarrow> string \<Rightarrow> string \<Rightarrow> 'w conn \<Rightarrow> 'w conn \<times> outcome" where
  "handle_unregister env dna_hash agent_pubkey st = (case st of (cs, app) \<Rightarrow>
     (if \<not> cs_authenticated cs then (st, Reply (Some (SmError ''Not authenticated'')))
      else case parse_cell env dna_hash agent_pubkey of
        Inl m \<Rightarrow> (st, Reply (Some m))
      | Inr (dna, agent) \<Rightarrow>
       (let cs1 = cs\<lparr>cs_registrations := filter (\<lambda>r. r \<noteq> (dna, agent)) (cs_registrations cs)\<rparr>;
            app1 = app\<lparr>ln_agent_proxy := ap_unregister dna agent (ln_agent_proxy app)\<rparr>;
            app2 = (case ln_gateway app1 of None \<Rightarrow> app1
                    | Some g \<Rightarrow> app1\<lparr>ln_gateway := Some (agent_leave (we_k2 env) (we_network env) dna agent g)\<rparr>)
        in ((cs1, app2), Reply (Some (SmUnregistered dna_hash agent_pubkey))))))"

section \<open>The other messages\<close>

definition sign_response_result :: "k2_api \<Rightarrow> string option \<Rightarrow> string option \<Rightarrow> sign_result" where
  "sign_response_result k2 sig err = (case (sig, err) of
     (Some sig_b64, _) \<Rightarrow> (case base64_decode k2 sig_b64 of
        Inr sig_bytes \<Rightarrow> Inr sig_bytes
      | Inl e \<Rightarrow> Inl (''Invalid signature encoding: '' @ e))
   | (None, Some e) \<Rightarrow> Inl e
   | (None, None) \<Rightarrow> Inl ''No signature or error provided'')"

definition handle_send_remote_signal ::
    "'w ws_env \<Rightarrow> string \<Rightarrow> signed_remote_signal_input list \<Rightarrow> 'w conn \<Rightarrow> 'w conn \<times> outcome" where
  "handle_send_remote_signal env dna_hash signals st = (case st of (cs, app) \<Rightarrow>
     (if \<not> cs_authenticated cs
      then (st, Reply (Some (SmError ''Must authenticate before sending signals'')))
      else case ln_gateway app of
        None \<Rightarrow> (st, Reply (Some (SmError ''Remote signals not available (kitsune2 not enabled)'')))
      | Some g \<Rightarrow> (case dna_try_from (we_hash env) dna_hash of
           Inl e \<Rightarrow> (st, Reply (Some (SmError (''Invalid DNA hash: '' @ e))))
         | Inr dna \<Rightarrow>
            (case fst (send_remote_signals (we_hash env) (we_k2 env) (we_wire env) (we_network env) dna signals
                    (ln_agent_proxy app, g)) of
               (p', g') \<Rightarrow> ((cs, app\<lparr>ln_agent_proxy := p', ln_gateway := Some g'\<rparr>), Reply None)))))"

definition handle_client_message :: "'w ws_env \<Rightarrow> client_message \<Rightarrow> bytes \<Rightarrow> session_token \<Rightarrow> ws_sender \<Rightarrow>
    'w conn \<Rightarrow> 'w conn \<times> outcome" where
  "handle_client_message env msg challenge token sender st = (case msg of
     CmAuth agent_pubkey \<Rightarrow> handle_auth env agent_pubkey challenge st
   | CmAuthChallengeResponse sig \<Rightarrow> handle_auth_challenge_response env sig token sender st
   | CmRegister dna_hash agent_pubkey \<Rightarrow> handle_register env dna_hash agent_pubkey sender st
   | CmUnregister dna_hash agent_pubkey \<Rightarrow> handle_unregister env dna_hash agent_pubkey st
   | CmPing \<Rightarrow> (st, Reply (Some (SmPong (case ln_gateway (snd st) of
        None \<Rightarrow> 0 | Some g \<Rightarrow> peer_count (we_network env) g))))
   | CmSignResponse request_id sig err \<Rightarrow>
       (case st of (cs, app) \<Rightarrow> ((cs, app\<lparr>ln_agent_proxy := ap_deliver_signature request_id
          (sign_response_result (we_k2 env) sig err) (ln_agent_proxy app)\<rparr>), Reply None))
   | CmSendRemoteSignal dna_hash signals \<Rightarrow> handle_send_remote_signal env dna_hash signals st)"

section \<open>Cleanup\<close>

definition connection_cleanup :: "'w ws_env \<Rightarrow> ws_sender \<Rightarrow> connection_state \<Rightarrow> 'w linker \<Rightarrow> 'w linker" where
  "connection_cleanup env sender cs app =
     (let app1 = app\<lparr>ln_agent_proxy := ap_unregister_all sender (ln_agent_proxy app)\<rparr>;
          app2 = (case ln_gateway app1 of None \<Rightarrow> app1
                  | Some g \<Rightarrow> app1\<lparr>ln_gateway := Some (fold
                      (\<lambda>r. agent_leave (we_k2 env) (we_network env) (fst r) (snd r)) (cs_registrations cs) g)\<rparr>);
          app3 = (case (ln_auth_store app2, cs_authenticated_agent cs) of
                    (Some store, Some agent) \<Rightarrow>
                      app2\<lparr>ln_auth_store := Some (auth_unregister_ws_sender agent sender store)\<rparr>
                  | _ \<Rightarrow> app2)
      in app3\<lparr>ln_agent_proxy := ap_disconnect sender (ln_agent_proxy app3)\<rparr>)"

end
