(* ===== verification/Config.thy ===== *)
theory Config imports Text Http begin

text \<open>
  The configuration (\<open>src/config.rs\<close>) and the identity settings it carries (\<open>src/identity.rs\<close>):
  defaults, \<open>from_env\<close> with every check in its order, and the derived admin URL. The environment
  is a map from variable names to text (a variable that is not set, or not UTF-8, is absent).
  The \<open>url\<close> crate's parser and the parser of a socket address are parameters: the first answers an
  error text or the scheme, the second an error text or the address.
\<close>

section \<open>Settings\<close>

datatype session_store_config = StoreMemory | StoreSqlite string

datatype report_config = ReportNone | ReportJsonLines nat nat

record identity_config =
  id_key_file :: string
  id_private_key_base64 :: "string option"

record registration_config =
  rc_joining_service_url :: string
  rc_invite_token :: "string option"
  rc_public_url :: string
  rc_initial_heartbeat_interval_secs :: nat

record websocket_config =
  wc_heartbeat_interval :: nat
  wc_heartbeat_timeout :: nat
  wc_idle_timeout :: nat

record 'addr configuration =
  cf_conductor_url :: "'addr option"
  cf_bootstrap_url :: string
  cf_relay_url :: "string option"
  cf_payload_limit_bytes :: nat
  cf_websocket :: websocket_config
  cf_zome_call_timeout_ms :: nat
  cf_admin_secret :: "string option"
  cf_session_store :: session_store_config
  cf_report :: report_config
  cf_report_path :: string
  cf_identity :: identity_config
  cf_registration :: "registration_config option"

definition admin_url :: "registration_config \<Rightarrow> string" where
  "admin_url rc =
     (if starts_with ''wss://'' (rc_public_url rc)
      then ''https://'' @ drop 6 (rc_public_url rc)
      else if starts_with ''ws://'' (rc_public_url rc)
      then ''http://'' @ drop 5 (rc_public_url rc)
      else rc_public_url rc)"

definition default_websocket :: websocket_config where
  "default_websocket = \<lparr>wc_heartbeat_interval = 30, wc_heartbeat_timeout = 10, wc_idle_timeout = 300\<rparr>"

definition default_identity :: identity_config where
  "default_identity = \<lparr>id_key_file = ''./linker-key.ed25519'', id_private_key_base64 = None\<rparr>"

definition default_configuration :: "'addr configuration" where
  "default_configuration = \<lparr>cf_conductor_url = None, cf_bootstrap_url = [], cf_relay_url = None,
     cf_payload_limit_bytes = 20 * 1024 * 1024, cf_websocket = default_websocket,
     cf_zome_call_timeout_ms = 10 * 1000, cf_admin_secret = None, cf_session_store = StoreMemory,
     cf_report = ReportNone, cf_report_path = ''/tmp/h2hc-linker-reports'',
     cf_identity = default_identity, cf_registration = None\<rparr>"

definition kitsune_enabled :: "'addr configuration \<Rightarrow> bool" where
  "kitsune_enabled c = True"
definition conductor_enabled :: "'addr configuration \<Rightarrow> bool" where
  "conductor_enabled c \<longleftrightarrow> cf_conductor_url c \<noteq> None"
definition auth_enabled :: "'addr configuration \<Rightarrow> bool" where
  "auth_enabled c \<longleftrightarrow> cf_admin_secret c \<noteq> None"
definition registration_enabled :: "'addr configuration \<Rightarrow> bool" where
  "registration_enabled c \<longleftrightarrow> cf_registration c \<noteq> None"

section \<open>Reading the environment\<close>

type_synonym environment = "string \<rightharpoonup> string"

record 'addr env_parsers =
  parse_socket_addr :: "string \<Rightarrow> string + 'addr"
  parse_url_scheme :: "string \<Rightarrow> string + string"

datatype config_error =
    BadConductorUrl string
  | BootstrapUrlRequired
  | BadPayloadLimit
  | BadZomeCallTimeout
  | UnknownReport string
  | JoiningUrlInvalid string
  | JoiningUrlScheme string
  | PublicUrlInvalid string
  | PublicUrlScheme string
  | PublicUrlMissing
  | JoiningUrlMissing
  | UnknownSessionStore string

definition env_uint :: "environment \<Rightarrow> nat \<Rightarrow> string \<Rightarrow> nat \<Rightarrow> nat" where
  "env_uint env bound name dflt =
     (case Option.bind (env name) (parse_uint bound) of None \<Rightarrow> dflt | Some n \<Rightarrow> n)"

definition read_conductor_url ::
    "'addr env_parsers \<Rightarrow> environment \<Rightarrow> 'addr configuration \<Rightarrow> config_error + 'addr configuration" where
  "read_conductor_url p env c = (case env ''H2HC_LINKER_CONDUCTOR_URL'' of
     None \<Rightarrow> Inr c
   | Some url \<Rightarrow> (case parse_socket_addr p url of
        Inl e \<Rightarrow> Inl (BadConductorUrl e)
      | Inr a \<Rightarrow> Inr (c\<lparr>cf_conductor_url := Some a\<rparr>)))"

definition read_kitsune ::
    "environment \<Rightarrow> 'addr configuration \<Rightarrow> config_error + 'addr configuration" where
  "read_kitsune env c = (case env ''H2HC_LINKER_BOOTSTRAP_URL'' of
     None \<Rightarrow> Inl BootstrapUrlRequired
   | Some url \<Rightarrow> (let c1 = c\<lparr>cf_bootstrap_url := url\<rparr> in
       Inr (case env ''H2HC_LINKER_RELAY_URL'' of None \<Rightarrow> c1 | Some r \<Rightarrow> c1\<lparr>cf_relay_url := Some r\<rparr>)))"

definition read_payload_limit ::
    "environment \<Rightarrow> 'addr configuration \<Rightarrow> config_error + 'addr configuration" where
  "read_payload_limit env c = (case env ''H2HC_LINKER_PAYLOAD_LIMIT_BYTES'' of
     None \<Rightarrow> Inr c
   | Some t \<Rightarrow> (case parse_uint U64_BOUND t of
        None \<Rightarrow> Inl BadPayloadLimit
      | Some n \<Rightarrow> Inr (c\<lparr>cf_payload_limit_bytes := n\<rparr>)))"

definition read_zome_call_timeout ::
    "environment \<Rightarrow> 'addr configuration \<Rightarrow> config_error + 'addr configuration" where
  "read_zome_call_timeout env c = (case env ''H2HC_LINKER_ZOME_CALL_TIMEOUT_MS'' of
     None \<Rightarrow> Inr c
   | Some t \<Rightarrow> (case parse_uint U64_BOUND t of
        None \<Rightarrow> Inl BadZomeCallTimeout
      | Some n \<Rightarrow> Inr (c\<lparr>cf_zome_call_timeout_ms := n\<rparr>)))"

definition read_report ::
    "environment \<Rightarrow> 'addr configuration \<Rightarrow> config_error + 'addr configuration" where
  "read_report env c =
     bind_result (case env ''H2HC_LINKER_REPORT'' of
         None \<Rightarrow> Inr c
       | Some t \<Rightarrow> (let other = to_lowercase t in
           if other = ''json_lines'' \<or> other = ''jsonlines'' \<or> other = ''jsonl'' then
             Inr (c\<lparr>cf_report := ReportJsonLines
               (env_uint env U32_BOUND ''H2HC_LINKER_REPORT_DAYS_RETAINED'' 5)
               (env_uint env U32_BOUND ''H2HC_LINKER_REPORT_INTERVAL_S'' 60)\<rparr>)
           else if other = ''none'' \<or> other = '''' then Inr c
           else Inl (UnknownReport other)))
       (\<lambda>c1. Inr (case env ''H2HC_LINKER_REPORT_PATH'' of
          None \<Rightarrow> c1 | Some path \<Rightarrow> c1\<lparr>cf_report_path := path\<rparr>))"

definition read_identity :: "environment \<Rightarrow> 'addr configuration \<Rightarrow> 'addr configuration" where
  "read_identity env c =
     (let i1 = (case env ''H2HC_LINKER_KEY_FILE'' of
            None \<Rightarrow> cf_identity c | Some path \<Rightarrow> (cf_identity c)\<lparr>id_key_file := path\<rparr>);
          i2 = (case env ''H2HC_LINKER_PRIVATE_KEY'' of
            None \<Rightarrow> i1 | Some key \<Rightarrow> i1\<lparr>id_private_key_base64 := Some key\<rparr>)
      in c\<lparr>cf_identity := i2\<rparr>)"

definition read_auth :: "environment \<Rightarrow> 'addr configuration \<Rightarrow> 'addr configuration" where
  "read_auth env c = (case env ''H2HC_LINKER_ADMIN_SECRET'' of
     None \<Rightarrow> c | Some secret \<Rightarrow> c\<lparr>cf_admin_secret := Some secret\<rparr>)"

definition read_registration ::
    "'addr env_parsers \<Rightarrow> environment \<Rightarrow> 'addr configuration \<Rightarrow> config_error + 'addr configuration" where
  "read_registration p env c =
     (case (env ''H2HC_LINKER_JOINING_SERVICE_URL'', env ''H2HC_LINKER_PUBLIC_URL'') of
        (Some js_url, Some pub_url) \<Rightarrow>
          bind_result (map_error JoiningUrlInvalid (parse_url_scheme p js_url)) (\<lambda>js.
            if js \<notin> {''http'', ''https''} then Inl (JoiningUrlScheme js)
            else bind_result (map_error PublicUrlInvalid (parse_url_scheme p pub_url)) (\<lambda>pub.
              if pub \<notin> {''ws'', ''wss'', ''http'', ''https''} then Inl (PublicUrlScheme pub)
              else Inr (c\<lparr>cf_registration := Some \<lparr>rc_joining_service_url = js_url,
                     rc_invite_token = env ''H2HC_LINKER_INVITE_TOKEN'', rc_public_url = pub_url,
                     rc_initial_heartbeat_interval_secs =
                       env_uint env U64_BOUND ''H2HC_LINKER_HEARTBEAT_INTERVAL_SECS'' 200\<rparr>\<rparr>)))
      | (Some _, None) \<Rightarrow> Inl PublicUrlMissing
      | (None, Some _) \<Rightarrow> Inl JoiningUrlMissing
      | (None, None) \<Rightarrow> Inr c)"

definition read_session_store ::
    "environment \<Rightarrow> 'addr configuration \<Rightarrow> config_error + 'addr configuration" where
  "read_session_store env c = (case env ''H2HC_LINKER_SESSION_STORE'' of
     None \<Rightarrow> Inr c
   | Some v \<Rightarrow>
       if v = '''' \<or> v = ''memory'' then Inr c
       else if starts_with ''sqlite://'' v
       then Inr (c\<lparr>cf_session_store := StoreSqlite (trim_start_matches ''sqlite://'' v)\<rparr>)
       else Inl (UnknownSessionStore v))"

definition from_env :: "'addr env_parsers \<Rightarrow> environment \<Rightarrow> config_error + 'addr configuration" where
  "from_env p env =
     bind_result (read_conductor_url p env default_configuration) (\<lambda>c1.
     bind_result (read_kitsune env c1) (\<lambda>c2.
     bind_result (read_payload_limit env c2) (\<lambda>c3.
     bind_result (read_zome_call_timeout env c3) (\<lambda>c4.
     bind_result (read_report env c4) (\<lambda>c5.
     bind_result (read_registration p env (read_auth env (read_identity env c5))) (\<lambda>c6.
     read_session_store env c6))))))"

section \<open>What each reader sets\<close>

lemmas read_defs = read_conductor_url_def read_kitsune_def read_payload_limit_def
  read_zome_call_timeout_def read_report_def read_registration_def read_session_store_def
lemmas read_splits = option.splits sum.splits if_splits

lemma read_sets:
  assumes "read_conductor_url p env c0 = Inr c1" and "read_kitsune env c1 = Inr c2"
    and "read_payload_limit env c2 = Inr c3" and "read_zome_call_timeout env c3 = Inr c4"
    and "read_report env c4 = Inr c5"
    and "read_registration p env (read_auth env (read_identity env c5)) = Inr c6"
    and "read_session_store env c6 = Inr c"
  shows "env ''H2HC_LINKER_BOOTSTRAP_URL'' = Some (cf_bootstrap_url c2)"
    and "cf_bootstrap_url c = cf_bootstrap_url c2"
    and "cf_payload_limit_bytes c = cf_payload_limit_bytes c3"
    and "cf_zome_call_timeout_ms c = cf_zome_call_timeout_ms c4"
    and "cf_registration c = cf_registration c6"
proof -
  have 1: "cf_bootstrap_url c = cf_bootstrap_url c6 \<and> cf_payload_limit_bytes c = cf_payload_limit_bytes c6 \<and>
      cf_zome_call_timeout_ms c = cf_zome_call_timeout_ms c6 \<and> cf_registration c = cf_registration c6"
    using assms(7) by (auto simp: read_session_store_def split: read_splits)
  have 2: "cf_bootstrap_url c6 = cf_bootstrap_url c5 \<and> cf_payload_limit_bytes c6 = cf_payload_limit_bytes c5 \<and>
      cf_zome_call_timeout_ms c6 = cf_zome_call_timeout_ms c5"
    using assms(6) by (auto simp: read_registration_def read_auth_def read_identity_def Let_def
      bind_result_Inr split: read_splits)
  have 3: "cf_bootstrap_url c5 = cf_bootstrap_url c4 \<and> cf_payload_limit_bytes c5 = cf_payload_limit_bytes c4 \<and>
      cf_zome_call_timeout_ms c5 = cf_zome_call_timeout_ms c4"
    using assms(5) by (auto simp: read_report_def Let_def bind_result_Inr split: read_splits)
  have 4: "cf_bootstrap_url c4 = cf_bootstrap_url c3 \<and> cf_payload_limit_bytes c4 = cf_payload_limit_bytes c3"
    using assms(4) by (auto simp: read_zome_call_timeout_def split: read_splits)
  have 5: "cf_bootstrap_url c3 = cf_bootstrap_url c2"
    using assms(3) by (auto simp: read_payload_limit_def split: read_splits)
  show "env ''H2HC_LINKER_BOOTSTRAP_URL'' = Some (cf_bootstrap_url c2)"
    using assms(2) by (auto simp: read_kitsune_def Let_def split: read_splits)
  show "cf_bootstrap_url c = cf_bootstrap_url c2"
    and "cf_payload_limit_bytes c = cf_payload_limit_bytes c3"
    and "cf_zome_call_timeout_ms c = cf_zome_call_timeout_ms c4"
    and "cf_registration c = cf_registration c6"
    using 1 2 3 4 5 by simp_all
qed

lemma read_limit_bounds:
  shows "read_payload_limit env c = Inr c' \<Longrightarrow> cf_payload_limit_bytes c < 2 ^ 64 \<Longrightarrow>
      cf_payload_limit_bytes c' < 2 ^ 64"
    and "read_zome_call_timeout env c = Inr c' \<Longrightarrow> cf_zome_call_timeout_ms c < 2 ^ 64 \<Longrightarrow>
      cf_zome_call_timeout_ms c' < 2 ^ 64"
proof -
  have pos: "(0 :: nat) < 2 ^ 64" by simp
  assume r: "read_payload_limit env c = Inr c'" and c: "cf_payload_limit_bytes c < 2 ^ 64"
  show "cf_payload_limit_bytes c' < 2 ^ 64"
  proof (cases "env ''H2HC_LINKER_PAYLOAD_LIMIT_BYTES''")
    case (Some t)
    with r obtain n where "parse_uint (2 ^ 64) t = Some n" "c' = c\<lparr>cf_payload_limit_bytes := n\<rparr>"
      by (auto simp only: read_payload_limit_def split: read_splits)
    with parse_uint_bound [OF _ pos] show ?thesis by simp
  qed (use r c in \<open>simp add: read_payload_limit_def\<close>)
next
  have pos: "(0 :: nat) < 2 ^ 64" by simp
  assume r: "read_zome_call_timeout env c = Inr c'" and c: "cf_zome_call_timeout_ms c < 2 ^ 64"
  show "cf_zome_call_timeout_ms c' < 2 ^ 64"
  proof (cases "env ''H2HC_LINKER_ZOME_CALL_TIMEOUT_MS''")
    case (Some t)
    with r obtain n where "parse_uint (2 ^ 64) t = Some n" "c' = c\<lparr>cf_zome_call_timeout_ms := n\<rparr>"
      by (auto simp only: read_zome_call_timeout_def split: read_splits)
    with parse_uint_bound [OF _ pos] show ?thesis by simp
  qed (use r c in \<open>simp add: read_zome_call_timeout_def\<close>)
qed

lemma read_registration_cases:
  assumes "read_registration p env c = Inr c'"
  obtains (off) "env ''H2HC_LINKER_JOINING_SERVICE_URL'' = None" and "env ''H2HC_LINKER_PUBLIC_URL'' = None"
      and "c' = c"
  | (on) js_url pub_url js pub n where "env ''H2HC_LINKER_JOINING_SERVICE_URL'' = Some js_url"
      and "env ''H2HC_LINKER_PUBLIC_URL'' = Some pub_url"
      and "parse_url_scheme p js_url = Inr js" and "js \<in> {''http'', ''https''}"
      and "parse_url_scheme p pub_url = Inr pub" and "pub \<in> {''ws'', ''wss'', ''http'', ''https''}"
      and "c' = c\<lparr>cf_registration := Some \<lparr>rc_joining_service_url = js_url,
             rc_invite_token = env ''H2HC_LINKER_INVITE_TOKEN'', rc_public_url = pub_url,
             rc_initial_heartbeat_interval_secs = n\<rparr>\<rparr>"
proof (cases "env ''H2HC_LINKER_JOINING_SERVICE_URL''")
  case None
  with assms off show thesis by (cases "env ''H2HC_LINKER_PUBLIC_URL''") (simp_all add: read_registration_def)
next
  case js_url: (Some js_url)
  show thesis
  proof (cases "env ''H2HC_LINKER_PUBLIC_URL''")
    case None
    with assms js_url show thesis by (simp add: read_registration_def)
  next
    case pub_url: (Some pub_url)
    from assms obtain js where js: "parse_url_scheme p js_url = Inr js" "js \<in> {''http'', ''https''}"
      by (cases "parse_url_scheme p js_url")
        (auto simp only: read_registration_def js_url pub_url prod.case option.case bind_result_simps
          map_error_simps split: if_splits)
    from assms obtain pub where pub: "parse_url_scheme p pub_url = Inr pub"
        "pub \<in> {''ws'', ''wss'', ''http'', ''https''}"
      by (cases "parse_url_scheme p pub_url")
        (auto simp only: read_registration_def js_url pub_url js prod.case option.case bind_result_simps
          map_error_simps split: if_splits)
    from assms have "c\<lparr>cf_registration := Some \<lparr>rc_joining_service_url = js_url,
        rc_invite_token = env ''H2HC_LINKER_INVITE_TOKEN'', rc_public_url = pub_url,
        rc_initial_heartbeat_interval_secs =
          env_uint env U64_BOUND ''H2HC_LINKER_HEARTBEAT_INTERVAL_SECS'' 200\<rparr>\<rparr> = c'"
      using js pub js_url pub_url by (simp only: read_registration_def prod.case option.case
        bind_result_simps map_error_simps simp_thms if_False sum.inject)
    with on [OF js_url pub_url js pub] show thesis by blast
  qed
qed

section \<open>Properties\<close>

text \<open>C39. A configuration that loads is usable: the bootstrap URL was given, the limits fit their
  64 bits, authentication is on exactly when the secret was given, and registration is on exactly
  when both URLs were given, which then have an admitted scheme.\<close>

theorem loaded_configuration_ok:
  assumes "from_env p env = Inr c"
  shows "env ''H2HC_LINKER_BOOTSTRAP_URL'' = Some (cf_bootstrap_url c) \<and>
    cf_payload_limit_bytes c < 2 ^ 64 \<and> cf_zome_call_timeout_ms c < 2 ^ 64 \<and>
    cf_admin_secret c = env ''H2HC_LINKER_ADMIN_SECRET'' \<and>
    registration_enabled c = (env ''H2HC_LINKER_JOINING_SERVICE_URL'' \<noteq> None) \<and>
    registration_enabled c = (env ''H2HC_LINKER_PUBLIC_URL'' \<noteq> None) \<and>
    (\<forall>rc. cf_registration c = Some rc \<longrightarrow>
       (\<exists>s. parse_url_scheme p (rc_joining_service_url rc) = Inr s \<and> s \<in> {''http'', ''https''}) \<and>
       (\<exists>s. parse_url_scheme p (rc_public_url rc) = Inr s \<and> s \<in> {''ws'', ''wss'', ''http'', ''https''}))"
proof -
  obtain c1 c2 c3 c4 c5 c6 where
    r1: "read_conductor_url p env default_configuration = Inr c1" and
    r2: "read_kitsune env c1 = Inr c2" and r3: "read_payload_limit env c2 = Inr c3" and
    r4: "read_zome_call_timeout env c3 = Inr c4" and r5: "read_report env c4 = Inr c5" and
    r6: "read_registration p env (read_auth env (read_identity env c5)) = Inr c6" and
    r7: "read_session_store env c6 = Inr c"
    using assms unfolding from_env_def bind_result_Inr by blast
  note sets = read_sets [OF r1 r2 r3 r4 r5 r6 r7]
  let ?D = "\<lambda>c :: 'a configuration. cf_admin_secret c = None \<and> cf_registration c = None"
  have d1: "?D c1 \<and> cf_payload_limit_bytes c1 = 20971520 \<and> cf_zome_call_timeout_ms c1 = 10000"
    using r1 by (auto simp: read_conductor_url_def default_configuration_def split: read_splits)
  have d2: "?D c2 \<and> cf_payload_limit_bytes c2 = 20971520 \<and> cf_zome_call_timeout_ms c2 = 10000"
    using d1 r2 by (auto simp: read_kitsune_def Let_def split: read_splits)
  have d3: "?D c3 \<and> cf_zome_call_timeout_ms c3 = 10000"
    using d2 r3 by (auto simp: read_payload_limit_def split: read_splits)
  have d4: "?D c4" using d3 r4 by (auto simp: read_zome_call_timeout_def split: read_splits)
  have d: "?D c5" using d4 r5 by (auto simp: read_report_def Let_def bind_result_Inr split: read_splits)
  have limits: "cf_payload_limit_bytes c3 < 2 ^ 64" "cf_zome_call_timeout_ms c4 < 2 ^ 64"
    using read_limit_bounds(1) [OF r3] read_limit_bounds(2) [OF r4] d2 d3 by simp_all
  let ?c = "read_auth env (read_identity env c5)"
  have ident: "cf_admin_secret (read_identity env c5) = None" "cf_registration (read_identity env c5) = None"
    using d by (simp_all add: read_identity_def Let_def)
  have c: "cf_admin_secret ?c = env ''H2HC_LINKER_ADMIN_SECRET''" "cf_registration ?c = None"
    using ident by (simp_all add: read_auth_def split: option.split)
  have last: "cf_admin_secret c = cf_admin_secret c6"
    using r7 by (auto simp: read_session_store_def split: read_splits)
  from r6 show ?thesis
  proof (cases rule: read_registration_cases)
    case off
    then show ?thesis using sets limits c last by (simp add: registration_enabled_def)
  next
    case (on js_url pub_url js pub n)
    then show ?thesis using sets limits c last by (auto simp: registration_enabled_def)
  qed
qed

definition plain_parsers :: "nat env_parsers" where
  "plain_parsers = \<lparr>parse_socket_addr = (\<lambda>s. Inr (length s)),
     parse_url_scheme = (\<lambda>s. Inr (takeWhile (\<lambda>c. c \<noteq> CHR '':'') s))\<rparr>"

definition sample_env :: environment where
  "sample_env = [''H2HC_LINKER_BOOTSTRAP_URL'' \<mapsto> ''http://b'',
     ''H2HC_LINKER_PAYLOAD_LIMIT_BYTES'' \<mapsto> ''+1024'', ''H2HC_LINKER_REPORT'' \<mapsto> ''JSONL'',
     ''H2HC_LINKER_JOINING_SERVICE_URL'' \<mapsto> ''https://j'', ''H2HC_LINKER_PUBLIC_URL'' \<mapsto> ''wss://me:1'',
     ''H2HC_LINKER_ADMIN_SECRET'' \<mapsto> ''s'']"

lemma sample_env_lower: "to_lowercase ''JSONL'' = ''jsonl''"
  by code_simp

lemma sample_env_loads: "from_env plain_parsers sample_env = Inr
   (default_configuration\<lparr>cf_bootstrap_url := ''http://b'', cf_payload_limit_bytes := 1024,
      cf_report := ReportJsonLines 5 60, cf_admin_secret := Some ''s'',
      cf_registration := Some \<lparr>rc_joining_service_url = ''https://j'', rc_invite_token = None,
        rc_public_url = ''wss://me:1'', rc_initial_heartbeat_interval_secs = 200\<rparr>\<rparr>)"
  by (simp add: from_env_def read_defs read_auth_def read_identity_def sample_env_def plain_parsers_def
    default_configuration_def default_identity_def default_websocket_def parse_uint_def digit_value_def
    sample_env_lower env_uint_def Let_def)

lemma loaded_configuration_ok_witness:
  "\<exists>c :: nat configuration. from_env plain_parsers sample_env = Inr c \<and> cf_admin_secret c = Some ''s'' \<and>
     registration_enabled c"
  using loaded_configuration_ok [OF sample_env_loads] sample_env_loads
  by (auto simp: sample_env_def)

text \<open>The admin URL of an admitted public URL is an HTTP URL with the same rest: \<open>wss\<close> becomes
  \<open>https\<close> and \<open>ws\<close> becomes \<open>http\<close>, other URLs are kept, and deriving it twice changes nothing.\<close>

lemma admin_url_swaps_scheme:
  "admin_url (rc\<lparr>rc_public_url := ''wss://'' @ rest\<rparr>) = ''https://'' @ rest \<and>
   admin_url (rc\<lparr>rc_public_url := ''ws://'' @ rest\<rparr>) = ''http://'' @ rest \<and>
   admin_url (rc\<lparr>rc_public_url := ''http'' @ rest\<rparr>) = ''http'' @ rest \<and>
   admin_url (rc\<lparr>rc_public_url := admin_url rc\<rparr>) = admin_url rc"
  by (simp add: admin_url_def starts_with_def)

end
