(* ===== verification/Websocket_System.thy ===== *)
theory Websocket_System imports Websocket Config begin

text \<open>
  The socket loop of \<open>src/routes/websocket.rs\<close> and many connections on one linker. A socket listens,
  waits for room to send its reply, or has ended; a system event is one step of one connection or of
  another part of the linker, so every interleaving of the connections is a list of events. The
  properties are shown of every such list. One message is handled in one step, its calls on the auth store
  and the gateway included.
\<close>

section \<open>The socket loop\<close>

text \<open>\<open>SkReplying\<close> is the await on the channel; its flag tells whether a closed channel ends the loop.\<close>

datatype socket_phase = SkListening | SkReplying server_message bool | SkEnded | SkCrashed

record socket =
  sk_conn :: connection_state
  sk_last_pong :: nat
  sk_phase :: socket_phase

text \<open>\<open>EvReply\<close> lets the awaited send go on, \<open>EvForward\<close> and \<open>EvSinkFailed\<close> are the sending task:
  a message written to the client, or the client's sink broken, which drops the receiver.\<close>

datatype socket_event =
    EvText nat "string + client_message" bytes session_token
  | EvPong nat
  | EvClose
  | EvError
  | EvEnd
  | EvOther
  | EvTick nat
  | EvReply
  | EvForward
  | EvSinkFailed

type_synonym 'w running = "socket \<times> 'w linker"

definition end_socket :: "'w ws_env \<Rightarrow> ws_sender \<Rightarrow> 'w running \<Rightarrow> 'w running" where
  "end_socket env w r = (case r of (sk, app) \<Rightarrow>
     (sk\<lparr>sk_phase := SkEnded\<rparr>, connection_cleanup env w (sk_conn sk) app))"

definition handle_text :: "'w ws_env \<Rightarrow> ws_sender \<Rightarrow> nat \<Rightarrow> string + client_message \<Rightarrow> bytes \<Rightarrow> session_token \<Rightarrow>
    'w running \<Rightarrow> 'w running" where
  "handle_text env w now parsed challenge token r = (case r of (sk, app) \<Rightarrow>
     (let cs = (sk_conn sk)\<lparr>cs_last_activity := now\<rparr> in
      case parsed of
        Inl e \<Rightarrow> (sk\<lparr>sk_conn := cs, sk_last_pong := now,
            sk_phase := SkReplying (SmError (''Invalid message format: '' @ e)) False\<rparr>, app)
      | Inr msg \<Rightarrow> (case handle_client_message env msg challenge token w (cs, app) of
          ((cs', app'), res) \<Rightarrow> (sk\<lparr>sk_conn := cs', sk_last_pong := now, sk_phase := (case res of
               Panicked \<Rightarrow> SkCrashed
             | Reply None \<Rightarrow> SkListening
             | Reply (Some m) \<Rightarrow> SkReplying m True)\<rparr>, app'))))"

definition heartbeat_expired :: "websocket_config \<Rightarrow> nat \<Rightarrow> socket \<Rightarrow> bool" where
  "heartbeat_expired cfg now sk \<longleftrightarrow>
     wc_heartbeat_interval cfg + wc_heartbeat_timeout cfg < now - sk_last_pong sk \<or>
     wc_idle_timeout cfg < now - cs_last_activity (sk_conn sk)"

definition listening_step ::
    "'w ws_env \<Rightarrow> websocket_config \<Rightarrow> ws_sender \<Rightarrow> socket_event \<Rightarrow> 'w running \<Rightarrow> 'w running" where
  "listening_step env cfg w ev r = (case ev of
     EvText now parsed challenge token \<Rightarrow> handle_text env w now parsed challenge token r
   | EvPong now \<Rightarrow> (case r of (sk, app) \<Rightarrow>
       (sk\<lparr>sk_conn := (sk_conn sk)\<lparr>cs_last_activity := now\<rparr>, sk_last_pong := now\<rparr>, app))
   | EvTick now \<Rightarrow> (if heartbeat_expired cfg now (fst r) then end_socket env w r else r)
   | EvClose \<Rightarrow> end_socket env w r
   | EvError \<Rightarrow> end_socket env w r
   | EvEnd \<Rightarrow> end_socket env w r
   | _ \<Rightarrow> r)"

definition replying_step ::
    "'w ws_env \<Rightarrow> ws_sender \<Rightarrow> server_message \<Rightarrow> bool \<Rightarrow> 'w running \<Rightarrow> 'w running" where
  "replying_step env w m ends r = (case r of (sk, app) \<Rightarrow>
     (case try_send_message m w (ln_agent_proxy app) of
        (p, SendOk) \<Rightarrow> (sk\<lparr>sk_phase := SkListening\<rparr>, app\<lparr>ln_agent_proxy := p\<rparr>)
      | (p, SendFull) \<Rightarrow> (sk, app)
      | (p, SendClosed) \<Rightarrow> if ends then end_socket env w (sk, app)
          else (sk\<lparr>sk_phase := SkListening\<rparr>, app)))"

definition socket_step ::
    "'w ws_env \<Rightarrow> websocket_config \<Rightarrow> ws_sender \<Rightarrow> socket_event \<Rightarrow> 'w running \<Rightarrow> 'w running" where
  "socket_step env cfg w ev r = (case sk_phase (fst r) of
     SkEnded \<Rightarrow> r
   | SkCrashed \<Rightarrow> r
   | SkListening \<Rightarrow> (case ev of
        EvForward \<Rightarrow> (fst r, (snd r)\<lparr>ln_agent_proxy := ap_receive w (ln_agent_proxy (snd r))\<rparr>)
      | EvSinkFailed \<Rightarrow> (fst r, (snd r)\<lparr>ln_agent_proxy := ap_disconnect w (ln_agent_proxy (snd r))\<rparr>)
      | _ \<Rightarrow> listening_step env cfg w ev r)
   | SkReplying m ends \<Rightarrow> (case ev of
        EvForward \<Rightarrow> (fst r, (snd r)\<lparr>ln_agent_proxy := ap_receive w (ln_agent_proxy (snd r))\<rparr>)
      | EvSinkFailed \<Rightarrow> (fst r, (snd r)\<lparr>ln_agent_proxy := ap_disconnect w (ln_agent_proxy (snd r))\<rparr>)
      | EvReply \<Rightarrow> replying_step env w m ends r
      | _ \<Rightarrow> r))"

text \<open>A new connection: its channel and its state.\<close>

definition handle_socket :: "ws_sender \<Rightarrow> nat \<Rightarrow> 'w linker \<Rightarrow> 'w running" where
  "handle_socket w now app =
     (\<lparr>sk_conn = connection_default now, sk_last_pong = now, sk_phase = SkListening\<rparr>,
      app\<lparr>ln_agent_proxy := ap_connect w (ln_agent_proxy app)\<rparr>)"

section \<open>Connections on one linker\<close>

text \<open>Beside the connections: the admin's calls, an HTTP request that validates its token, a signal
  from the network, the steps of a signature kitsune2 asks for, and any change of the gateway by the network or by
  the HTTP endpoints.\<close>

record 'w system =
  sy_linker :: "'w linker"
  sy_sockets :: "(ws_sender, socket) hashmap"

datatype 'w system_event =
    SysConnect ws_sender nat
  | SysSocket ws_sender socket_event
  | SysAddAgent allowed_agent
  | SysRemoveAgent agent_pubkey
  | SysRequest session_token
  | SysSignal dna_hash agent_pubkey server_message
  | SysSign nat string agent_pubkey agent_info
  | SysSignSend string sign_task
  | SysSignFinish bool string sign_task
  | SysListAgents
  | SysGateway "'w gateway"

text \<open>A signing request that can go on changes the manager; one that cannot waits.\<close>

definition after_sign :: "(agent_proxy \<Rightarrow> (agent_proxy \<times> sign_task) option) \<Rightarrow> agent_proxy \<Rightarrow> agent_proxy" where
  "after_sign step p = (case step p of None \<Rightarrow> p | Some (p', _) \<Rightarrow> p')"

fun system_step :: "'w ws_env \<Rightarrow> websocket_config \<Rightarrow> 'w system_event \<Rightarrow> 'w system \<Rightarrow> 'w system" where
  "system_step env cfg (SysConnect w now) s = (case hm_get (sy_sockets s) w of
     Some _ \<Rightarrow> s
   | None \<Rightarrow> (case handle_socket w now (sy_linker s) of
        (sk, app) \<Rightarrow> \<lparr>sy_linker = app, sy_sockets = hm_insert w sk (sy_sockets s)\<rparr>))"
| "system_step env cfg (SysSocket w ev) s = (case hm_get (sy_sockets s) w of
     None \<Rightarrow> s
   | Some sk \<Rightarrow> (case socket_step env cfg w ev (sk, sy_linker s) of
        (sk', app) \<Rightarrow> \<lparr>sy_linker = app, sy_sockets = hm_insert w sk' (sy_sockets s)\<rparr>))"
| "system_step env cfg (SysAddAgent g) s = s\<lparr>sy_linker := (sy_linker s)\<lparr>ln_auth_store :=
     map_option (auth_step (CmdAddAgent g)) (ln_auth_store (sy_linker s))\<rparr>\<rparr>"
| "system_step env cfg (SysRemoveAgent k) s = s\<lparr>sy_linker := (sy_linker s)\<lparr>ln_auth_store :=
     map_option (auth_step (CmdRemoveAgent k)) (ln_auth_store (sy_linker s))\<rparr>\<rparr>"
| "system_step env cfg (SysRequest token) s = s\<lparr>sy_linker := (sy_linker s)\<lparr>ln_auth_store :=
     map_option (auth_step (CmdValidateSession token)) (ln_auth_store (sy_linker s))\<rparr>\<rparr>"
| "system_step env cfg (SysSignal d a m) s = s\<lparr>sy_linker := (sy_linker s)\<lparr>ln_agent_proxy :=
     fst (ap_send_signal d a m (ln_agent_proxy (sy_linker s)))\<rparr>\<rparr>"
| "system_step env cfg (SysSign t debug a info) s = s\<lparr>sy_linker := (sy_linker s)\<lparr>ln_agent_proxy :=
     fst (sign_begin (we_hash env) (we_k2 env) t debug a info (ln_agent_proxy (sy_linker s)))\<rparr>\<rparr>"
| "system_step env cfg (SysSignSend e t) s = s\<lparr>sy_linker := (sy_linker s)\<lparr>ln_agent_proxy :=
     after_sign (sign_send e t) (ln_agent_proxy (sy_linker s))\<rparr>\<rparr>"
| "system_step env cfg (SysSignFinish timed_out debug t) s = s\<lparr>sy_linker := (sy_linker s)\<lparr>ln_agent_proxy :=
     after_sign (sign_finish timed_out debug t) (ln_agent_proxy (sy_linker s))\<rparr>\<rparr>"
| "system_step env cfg SysListAgents s = s\<lparr>sy_linker := (sy_linker s)\<lparr>ln_auth_store :=
     map_option (auth_step CmdListAgents) (ln_auth_store (sy_linker s))\<rparr>\<rparr>"
| "system_step env cfg (SysGateway g) s = s\<lparr>sy_linker := (sy_linker s)\<lparr>ln_gateway :=
     map_option (\<lambda>_. g) (ln_gateway (sy_linker s))\<rparr>\<rparr>"

definition system_run :: "'w ws_env \<Rightarrow> websocket_config \<Rightarrow> 'w system_event list \<Rightarrow> 'w system \<Rightarrow> 'w system" where
  "system_run env cfg evs s = fold (system_step env cfg) evs s"

definition system_new :: "auth_store option \<Rightarrow> 'w gateway option \<Rightarrow> 'w system" where
  "system_new store gw = \<lparr>sy_linker = \<lparr>ln_auth_store = store, ln_agent_proxy = ap_new, ln_gateway = gw\<rparr>,
     sy_sockets = []\<rparr>"

end
