(* ===== verification/Endpoints.thy ===== *)
theory Endpoints
  imports Router Dht_Routes Publish Kitsune_Routes Zome_Call Websocket_System
begin

text \<open>
  The shared application state (\<open>AppState\<close> in \<open>src/service.rs\<close>) and the endpoints the router is given:
  each takes its path and query or body out of the request, works on its part of the state and renders
  the answer. What axum's extractors make of a query string or a body is a parameter (a rejection is a
  response of its own), and so are the JSON forms of the crates' types; the structs of this crate that
  derive \<open>Serialize\<close> are rendered field by field. An endpoint that waits for the network is one step
  here; what the network answers meanwhile comes with the request.
\<close>

section \<open>The application state\<close>

text \<open>\<open>DhtQuery\<close> holds the gateway's manager and exists exactly when that does, so the gateway stands for
  both. The kitsune2 instance of the liveness endpoints is in \<open>ls_kitsune\<close>; what it answers is read anew
  for each request.\<close>

record ('w, 'c, 'a) linker_state = app_state +
  ls_configuration :: "'a configuration"
  ls_agent_proxy :: agent_proxy
  ls_gateway :: "'w gateway option"
  ls_kitsune :: kitsune_state
  ls_app_conn :: "'c app_conn option"
  ls_op_store :: "op_store_inner option"

section \<open>The outside\<close>

record 'b extractors =
  ex_links_query :: "'b request \<Rightarrow> response + links_query"
  ex_activity_query :: "'b request \<Rightarrow> response + string option"
  ex_must_get_body :: "'b request \<Rightarrow> response + must_get_body"
  ex_publish_body :: "'b request \<Rightarrow> response + signed_dht_op list"
  ex_payload :: "'b request \<Rightarrow> response + string option"
  ex_test_signal :: "'b request \<Rightarrow> response + test_signal_request"
  ex_add_agent :: "'b request \<Rightarrow> response + add_agent_request"
  ex_remove_agent :: "'b request \<Rightarrow> response + string"
  ex_upgrade :: "'b request \<Rightarrow> response + unit"

record json_forms =
  jf_space :: "space_id \<Rightarrow> string"
  jf_agent :: "agent_id \<Rightarrow> string"
  jf_dht_value :: "dht_value \<Rightarrow> json"
  jf_links :: "link list \<Rightarrow> json"
  jf_count :: "count_links_response \<Rightarrow> string + json"
  jf_activity :: "agent_activity_response \<Rightarrow> json"
  jf_must_get :: "must_get_response \<Rightarrow> json"
  jf_transport_stats :: "transport_stats \<Rightarrow> json"

record ('w, 'c, 'b) service_env =
  se_ws :: "'w ws_env"
  se_ops :: op_api
  se_zome :: zome_api
  se_conductor :: "'c conductor"
  se_extract :: "'b extractors"
  se_json :: json_forms
  se_space_b64 :: "string \<Rightarrow> string + bytes"
  se_version :: string

text \<open>What one request meets: the clock as each op is stored, how the request task against each peer
  ends, the order in which a map is walked, and kitsune2's answers to the status endpoints.\<close>

record inputs =
  in_clock :: "nat \<Rightarrow> nat"
  in_get :: "any_dht_hash \<Rightarrow> space_id \<Rightarrow> agent_pubkey \<times> url \<Rightarrow> wire_ops joined"
  in_links :: "wire_link_key \<Rightarrow> space_id \<Rightarrow> agent_pubkey \<times> url \<Rightarrow> wire_link_ops joined"
  in_count :: "wire_link_query \<Rightarrow> space_id \<Rightarrow> agent_pubkey \<times> url \<Rightarrow> count_links_response joined"
  in_activity :: "agent_pubkey \<Rightarrow> chain_query_filter \<Rightarrow> get_activity_options \<Rightarrow> space_id \<Rightarrow>
    agent_pubkey \<times> url \<Rightarrow> agent_activity_response joined"
  in_must_get :: "agent_pubkey \<Rightarrow> chain_filter \<Rightarrow> space_id \<Rightarrow> agent_pubkey \<times> url \<Rightarrow> must_get_response joined"
  in_arrange :: "(u32 \<times> op_id list) list \<Rightarrow> (u32 \<times> op_id list) list"
  in_view :: kitsune_view

definition publish_env_of :: "('w, 'c, 'b) service_env \<Rightarrow> 'w publish_env" where
  "publish_env_of env = \<lparr>pe_hash = we_hash (se_ws env), pe_k2 = we_k2 (se_ws env), pe_wire = we_wire (se_ws env),
     pe_ops = se_ops env, pe_network = we_network (se_ws env)\<rparr>"

section \<open>Rendering\<close>

definition json_ok :: "json \<Rightarrow> response" where
  "json_ok j = reply 200 (JsonBody j)"

definition op_result_json :: "op_publish_result \<Rightarrow> json" where
  "op_result_json r = JObject ([(''success'', JBool (pr_success r))] @
     (case pr_error r of None \<Rightarrow> [] | Some e \<Rightarrow> [(''error'', JString e)]))"

definition publish_response_json :: "publish_response \<Rightarrow> json" where
  "publish_response_json r = JObject [(''success'', JBool (pu_success r)), (''queued'', JNumber (int (pu_queued r))),
     (''failed'', JNumber (int (pu_failed r))), (''published'', JNumber (int (pu_published r))),
     (''results'', JArray (map op_result_json (pu_results r)))]"

definition test_response_json :: "test_signal_response \<Rightarrow> json" where
  "test_response_json r = JObject [(''success'', JBool (tr_success r)), (''message'', JString (tr_message r))]"

definition network_status_json :: "network_status \<Rightarrow> json" where
  "network_status_json s = JObject [(''connected'', JBool (ns_connected s)),
     (''bootstrap_url'', json_option JString (ns_bootstrap_url s)), (''relay_url'', json_option JString (ns_relay_url s)),
     (''total_peers'', JNumber (int (ns_total_peers s))), (''active_spaces'', JNumber (int (ns_active_spaces s))),
     (''full_arc_peers'', JNumber (int (ns_full_arc_peers s))), (''blocked_peers'', JNumber (int (ns_blocked_peers s))),
     (''ready'', JBool (ns_ready s))]"

definition storage_arc_json :: "storage_arc_response \<Rightarrow> json" where
  "storage_arc_json a = JObject [(''arc_type'', JString (sa_arc_type a)),
     (''start'', json_option (\<lambda>n. JNumber (uint n)) (sa_start a)),
     (''length'', json_option (\<lambda>n. JNumber (uint n)) (sa_length a))]"

definition peer_info_json :: "json_forms \<Rightarrow> peer_info_response \<Rightarrow> json" where
  "peer_info_json jf p = JObject [(''agent_id'', JString (jf_agent jf (pi_agent_id p))),
     (''space_id'', JString (jf_space jf (pi_space_id p))), (''created_at'', JNumber (pi_created_at p)),
     (''expires_at'', JNumber (pi_expires_at p)), (''is_tombstone'', JBool (pi_is_tombstone p)),
     (''url'', json_option JString (pi_url p)), (''storage_arc'', storage_arc_json (pi_storage_arc p))]"

definition space_status_json :: "space_status_response \<Rightarrow> json" where
  "space_status_json s = JObject [(''space_id'', JString (sp_space_id s)),
     (''local_agents'', JNumber (int (sp_local_agents s))), (''peer_count'', JNumber (int (sp_peer_count s)))]"

section \<open>Endpoints\<close>

text \<open>A rejection of an extractor answers the request.\<close>

definition extracted :: "response + 'x \<Rightarrow> ('x \<Rightarrow> 's \<Rightarrow> 's \<times> response) \<Rightarrow> 's \<Rightarrow> 's \<times> response" where
  "extracted r k st = (case r of Inl rejection \<Rightarrow> (st, rejection) | Inr x \<Rightarrow> k x st)"

definition path_param :: "'b request \<Rightarrow> string \<Rightarrow> string" where
  "path_param rq name = (case map_of (rq_params rq) name of None \<Rightarrow> [] | Some s \<Rightarrow> s)"

definition on_gateway :: "('w gateway option \<Rightarrow> 'w gateway option \<times> 'v linker_result) \<Rightarrow> ('v \<Rightarrow> json) \<Rightarrow>
    ('w, 'c, 'a) linker_state \<Rightarrow> ('w, 'c, 'a) linker_state \<times> response" where
  "on_gateway f render st = (case f (ls_gateway st) of (gw, r) \<Rightarrow>
     (st\<lparr>ls_gateway := gw\<rparr>, result_into_response (\<lambda>v. json_ok (render v)) r))"

definition record_path_of :: "'b request \<Rightarrow> record_path" where
  "record_path_of rq = \<lparr>rp_dna_hash = path_param rq ''dna_hash'', rp_hash = path_param rq ''hash''\<rparr>"

definition zome_path_of :: "'b request \<Rightarrow> zome_call_path" where
  "zome_path_of rq = \<lparr>zp_dna_hash = path_param rq ''dna_hash'', zp_zome_name = path_param rq ''zome_name'',
     zp_fn_name = path_param rq ''fn_name''\<rparr>"

definition zome_call_endpoint :: "('w, 'c, 'b) service_env \<Rightarrow> 'b request \<Rightarrow> string option \<Rightarrow>
    ('w, 'c, 'a) linker_state \<Rightarrow> ('w, 'c, 'a) linker_state \<times> response" where
  "zome_call_endpoint env rq payload st =
     (case zome_call (we_hash (se_ws env)) (se_zome env) (se_conductor env) (zome_path_of rq) payload (ls_app_conn st) of
        (conn, r) \<Rightarrow> (st\<lparr>ls_app_conn := conn\<rparr>, result_into_response (\<lambda>s. reply 200 (TextBody s)) r))"

definition publish_endpoint :: "('w, 'c, 'b) service_env \<Rightarrow> inputs \<Rightarrow> 'b request \<Rightarrow> signed_dht_op list \<Rightarrow>
    ('w, 'c, 'a) linker_state \<Rightarrow> ('w, 'c, 'a) linker_state \<times> response" where
  "publish_endpoint env inp rq ops st =
     (case dht_publish (publish_env_of env) (in_arrange inp) (path_param rq ''dna_hash'')
             (zip (map (in_clock inp) [0..<length ops]) ops) (ls_op_store st, ls_gateway st) of
        ((store, gw), r) \<Rightarrow> (st\<lparr>ls_op_store := store, ls_gateway := gw\<rparr>,
          result_into_response (\<lambda>v. json_ok (publish_response_json v)) r))"

definition test_signal_endpoint :: "('w, 'c, 'b) service_env \<Rightarrow> test_signal_request \<Rightarrow>
    ('w, 'c, 'a) linker_state \<Rightarrow> ('w, 'c, 'a) linker_state \<times> response" where
  "test_signal_endpoint env body st = (case test_signal (we_hash (se_ws env)) body (ls_agent_proxy st) of
     (p, r) \<Rightarrow> (st\<lparr>ls_agent_proxy := p\<rparr>, json_ok (test_response_json r)))"

text \<open>The upgrade only answers here; the connection starts once the answer is out.\<close>

definition SWITCHING_PROTOCOLS :: nat where "SWITCHING_PROTOCOLS = 101"

definition ws_handler :: "'s \<Rightarrow> 's \<times> response" where
  "ws_handler st = (st, reply SWITCHING_PROTOCOLS EmptyBody)"

definition kitsune_now :: "inputs \<Rightarrow> ('w, 'c, 'a) linker_state \<Rightarrow> kitsune_state" where
  "kitsune_now inp st = (ls_kitsune st)\<lparr>kn_kitsune := map_option (\<lambda>_. in_view inp) (kn_kitsune (ls_kitsune st))\<rparr>"

definition reads :: "response \<Rightarrow> 's \<Rightarrow> 's \<times> response" where
  "reads r st = (st, r)"

definition json_answer :: "('v \<Rightarrow> json) \<Rightarrow> 'v linker_result \<Rightarrow> response" where
  "json_answer render r = result_into_response (\<lambda>v. json_ok (render v)) r"

section \<open>The table\<close>

fun handle_route :: "('w, 'c, 'b) service_env \<Rightarrow> inputs \<Rightarrow> route \<Rightarrow> 'b request \<Rightarrow>
    ('w, 'c, 'a) linker_state \<Rightarrow> ('w, 'c, 'a) linker_state \<times> response" where
  "handle_route env inp RHealth rq st = reads (json_ok (health_check (se_version env))) st"
| "handle_route env inp RWs rq st = extracted (ex_upgrade (se_extract env) rq) (\<lambda>_. ws_handler) st"
| "handle_route env inp RTestSignal rq st = extracted (ex_test_signal (se_extract env) rq) (test_signal_endpoint env) st"
| "handle_route env inp RZomeCall rq st = extracted (ex_payload (se_extract env) rq) (zome_call_endpoint env rq) st"
| "handle_route env inp RDhtRecord rq st = on_gateway
     (dht_get_record (we_hash (se_ws env)) (we_k2 (se_ws env)) (we_wire (se_ws env)) (we_network (se_ws env))
        (in_get inp) (record_path_of rq)) (jf_dht_value (se_json env)) st"
| "handle_route env inp RDhtDetails rq st = on_gateway
     (dht_get_details (we_hash (se_ws env)) (we_k2 (se_ws env)) (we_wire (se_ws env)) (we_network (se_ws env))
        (in_get inp) (record_path_of rq)) (jf_dht_value (se_json env)) st"
| "handle_route env inp RDhtLinks rq st = extracted (ex_links_query (se_extract env) rq) (\<lambda>q. on_gateway
     (dht_get_links (we_hash (se_ws env)) (we_k2 (se_ws env)) (we_wire (se_ws env)) (we_network (se_ws env))
        (in_links inp) (path_param rq ''dna_hash'') q) (jf_links (se_json env))) st"
| "handle_route env inp RDhtCountLinks rq st = extracted (ex_links_query (se_extract env) rq) (\<lambda>q. on_gateway
     (dht_count_links (we_hash (se_ws env)) (we_k2 (se_ws env)) (we_wire (se_ws env)) (we_network (se_ws env))
        (jf_count (se_json env)) (in_count inp) (path_param rq ''dna_hash'') q) (\<lambda>j. j)) st"
| "handle_route env inp RDhtAgentActivity rq st = extracted (ex_activity_query (se_extract env) rq) (\<lambda>q. on_gateway
     (dht_get_agent_activity (we_hash (se_ws env)) (we_k2 (se_ws env)) (we_wire (se_ws env)) (we_network (se_ws env))
        (in_activity inp) (path_param rq ''dna_hash'') (path_param rq ''agent_hash'') q)
     (json_option (jf_activity (se_json env)))) st"
| "handle_route env inp RDhtMustGetAgentActivity rq st = extracted (ex_must_get_body (se_extract env) rq) (\<lambda>body. on_gateway
     (dht_must_get_agent_activity (we_hash (se_ws env)) (we_k2 (se_ws env)) (we_wire (se_ws env)) (we_network (se_ws env))
        (in_must_get inp) (path_param rq ''dna_hash'') body) (json_option (jf_must_get (se_json env)))) st"
| "handle_route env inp RDhtPublish rq st = extracted (ex_publish_body (se_extract env) rq) (publish_endpoint env inp rq) st"
| "handle_route env inp RK2Status rq st = reads (json_ok (network_status_json (get_network_status (kitsune_now inp st)))) st"
| "handle_route env inp RK2Peers rq st =
     reads (json_ok (JArray (map (peer_info_json (se_json env)) (get_all_peers (kitsune_now inp st))))) st"
| "handle_route env inp RK2SpaceStatus rq st = reads (json_answer space_status_json
     (get_space_status (se_space_b64 env) (kitsune_now inp st) (path_param rq ''space_id''))) st"
| "handle_route env inp RK2SpacePeers rq st = reads (json_answer (\<lambda>ps. JArray (map (peer_info_json (se_json env)) ps))
     (get_space_peers (se_space_b64 env) (kitsune_now inp st) (path_param rq ''space_id''))) st"
| "handle_route env inp RK2LocalAgents rq st = reads (json_answer (\<lambda>l. JArray (map (\<lambda>a. JString (jf_agent (se_json env) a)) l))
     (get_local_agents (se_space_b64 env) (kitsune_now inp st) (path_param rq ''space_id''))) st"
| "handle_route env inp RK2TransportStats rq st =
     reads (json_answer (jf_transport_stats (se_json env)) (get_transport_stats (kitsune_now inp st))) st"
| "handle_route env inp RAdminAdd rq st =
     extracted (ex_add_agent (se_extract env) rq) (admin_add_agent (we_hash (se_ws env))) st"
| "handle_route env inp RAdminRemove rq st =
     extracted (ex_remove_agent (se_extract env) rq) (admin_remove_agent (we_hash (se_ws env))) st"
| "handle_route env inp RAdminList rq st = admin_list_agents (we_hash (se_ws env)) st"

text \<open>One request against the linker whose router was made for the state \<open>st0\<close>.\<close>

definition serve :: "('w, 'c, 'b) service_env \<Rightarrow> ('w, 'c, 'a) linker_state \<Rightarrow> inputs \<Rightarrow> 'b request \<Rightarrow>
    ('w, 'c, 'a) linker_state \<Rightarrow> ('w, 'c, 'a) linker_state \<times> response" where
  "serve env st0 inp = create_router (we_hash (se_ws env)) (handle_route env inp) st0"

end
