(* ===== verification/Websocket_Safety.thy ===== *)
theory Websocket_Safety imports Websocket_System begin

text \<open>
  What holds of every interleaving of WebSocket connections (\<open>src/routes/websocket.rs\<close>): a
  registration belongs to a connection that has proved the agent's key, no handler panics, what a
  disconnect does and does not undo.
\<close>

section \<open>Evidence in a run\<close>

definition challenged :: "'w ws_env \<Rightarrow> 'w system_event list \<Rightarrow> ws_sender \<Rightarrow> agent_pubkey \<Rightarrow> bytes \<Rightarrow> bool" where
  "challenged env evs w a c \<longleftrightarrow> (\<exists>xs ys n s tk.
     evs = xs @ SysSocket w (EvText n (Inr (CmAuth s)) c tk) # ys \<and> agent_try_from (we_hash env) s = Inr a)"

text \<open>The text is the base64 of an Ed25519 signature of the challenge under the agent's key. It is written
  over the decoders and the verification of the libraries alone, apart from the handler's own check.\<close>

definition valid_signature :: "'w ws_env \<Rightarrow> agent_pubkey \<Rightarrow> bytes \<Rightarrow> string \<Rightarrow> bool" where
  "valid_signature env a c sg \<longleftrightarrow> (\<exists>sig_bytes sig key.
     base64_decode (we_k2 env) sg = Inr sig_bytes \<and>
     signature_from_slice (we_crypto env) sig_bytes = Inr sig \<and>
     verifying_key (we_crypto env) (key_bytes (we_k2 env) a) = Inr key \<and>
     verify_error (we_crypto env) key c sig = None)"

lemma check_signature_sound: "check_signature env a c sg = Inr u \<Longrightarrow> valid_signature env a c sg"
  unfolding check_signature_def valid_signature_def by (auto split: sum.splits option.splits)

lemma check_signature_complete: "valid_signature env a c sg \<Longrightarrow> check_signature env a c sg = Inr ()"
  unfolding check_signature_def valid_signature_def by auto

text \<open>The connection answered a challenge drawn for it earlier with a valid signature of it.\<close>

definition proved_key :: "'w ws_env \<Rightarrow> 'w system_event list \<Rightarrow> ws_sender \<Rightarrow> agent_pubkey \<Rightarrow> bool" where
  "proved_key env evs w a \<longleftrightarrow> (\<exists>xs zs n sg ch tk c.
     evs = xs @ SysSocket w (EvText n (Inr (CmAuthChallengeResponse sg)) ch tk) # zs \<and>
     challenged env xs w a c \<and> valid_signature env a c sg)"

text \<open>The connection asked for this cell.\<close>

definition asked_cell :: "'w ws_env \<Rightarrow> 'w system_event list \<Rightarrow> ws_sender \<Rightarrow> agent_pubkey \<Rightarrow> dna_hash \<Rightarrow> bool" where
  "asked_cell env evs w a d \<longleftrightarrow> (\<exists>n ds s ch tk.
     SysSocket w (EvText n (Inr (CmRegister ds s)) ch tk) \<in> set evs \<and> parse_cell env ds s = Inr (d, a))"

lemma asked_append: "asked_cell env evs w a d \<Longrightarrow> asked_cell env (evs @ zs) w a d"
  unfolding asked_cell_def by fastforce

lemma challenged_append: "challenged env evs w a c \<Longrightarrow> challenged env (evs @ zs) w a c"
  unfolding challenged_def by (metis append.assoc append_Cons)

lemma proved_append: "proved_key env evs w a \<Longrightarrow> proved_key env (evs @ zs) w a"
  unfolding proved_key_def by (metis append.assoc append_Cons)

lemma challenged_now:
  "agent_try_from (we_hash env) s = Inr a \<Longrightarrow> challenged env (evs @ [SysSocket w (EvText n (Inr (CmAuth s)) c tk)]) w a c"
  unfolding challenged_def by blast

lemma proved_now:
  "challenged env evs w a c \<Longrightarrow> valid_signature env a c sg \<Longrightarrow>
     proved_key env (evs @ [SysSocket w (EvText n (Inr (CmAuthChallengeResponse sg)) ch tk)]) w a"
  unfolding proved_key_def by blast

section \<open>Invariant of a connection\<close>

definition conn_inv :: "'w ws_env \<Rightarrow> 'w system_event list \<Rightarrow> ws_sender \<Rightarrow> connection_state \<Rightarrow> bool" where
  "conn_inv env evs w cs \<longleftrightarrow>
     (\<forall>a c. cs_pending_auth_agent cs = Some a \<longrightarrow> cs_pending_challenge cs = Some c \<longrightarrow> challenged env evs w a c) \<and>
     (\<forall>a. cs_authenticated_agent cs = Some a \<longrightarrow> proved_key env evs w a) \<and>
     (cs_authenticated cs \<longrightarrow> cs_authenticated_agent cs \<noteq> None) \<and>
     (\<forall>r \<in> set (cs_registrations cs). proved_key env evs w (snd r))"

lemma conn_inv_append: "conn_inv env evs w cs \<Longrightarrow> conn_inv env (evs @ zs) w cs"
  unfolding conn_inv_def using challenged_append proved_append by metis

lemma conn_inv_activity [simp]: "conn_inv env evs w (cs\<lparr>cs_last_activity := n\<rparr>) = conn_inv env evs w cs"
  by (simp add: conn_inv_def)

lemma conn_inv_default: "conn_inv env evs w (connection_default n)"
  by (simp add: conn_inv_def connection_default_def)

lemma conn_inv_D:
  assumes "conn_inv env evs w cs"
  shows "cs_pending_auth_agent cs = Some a \<Longrightarrow> cs_pending_challenge cs = Some c \<Longrightarrow> challenged env evs w a c"
    and "cs_authenticated_agent cs = Some a \<Longrightarrow> proved_key env evs w a"
    and "cs_authenticated cs \<Longrightarrow> cs_authenticated_agent cs \<noteq> None"
    and "r \<in> set (cs_registrations cs) \<Longrightarrow> proved_key env evs w (snd r)"
  using assms unfolding conn_inv_def by blast+

text \<open>How the registrations of the proxy may change in a step: they stay, go, or come with \<open>P\<close>.\<close>

definition regs_from :: "(ws_sender \<Rightarrow> agent_pubkey \<Rightarrow> bool) \<Rightarrow> agent_proxy \<Rightarrow> agent_proxy \<Rightarrow> bool" where
  "regs_from P p p' \<longleftrightarrow> (\<forall>e \<in> set (ap_registrations p').
     e \<in> set (ap_registrations p) \<or> P (snd e) (reg_agent_pubkey (fst e)))"

lemma regs_from_same: "ap_registrations p' = ap_registrations p \<Longrightarrow> regs_from P p p'"
  by (simp add: regs_from_def)

lemma regs_from_register: "P w a \<Longrightarrow> regs_from P p (ap_register d a w p)"
  by (simp add: regs_from_def ap_register_def hm_insert_def hm_remove_def)

lemma regs_from_unregister: "regs_from P p (ap_unregister d a p)"
  by (simp add: regs_from_def ap_unregister_def hm_remove_def)

lemma regs_from_trans:
  assumes "regs_from P p p1" and "ap_registrations p' = ap_registrations p1"
  shows "regs_from P p p'"
  using assms by (simp add: regs_from_def)

lemma send_signal_regs: "ap_registrations (fst (ap_send_signal d a m p)) = ap_registrations p"
  by (auto simp: send_signal_fst try_send_message_def split: option.split)

lemma remote_signals_regs:
  "ap_registrations (fst (fst (send_remote_signals h k2 wa net d sigs st))) = ap_registrations (fst st)"
proof (induction sigs arbitrary: st)
  case (Cons sig sigs)
  have one: "ap_registrations (fst (fst (send_remote_signal h k2 wa net d sig st))) = ap_registrations (fst st)"
  proof (cases "agent_from_raw_39 k2 (ss_target_agent sig)")
    case (Inr t)
    have "ap_registrations (fst (ap_send_signal d t m (fst st))) = ap_registrations (fst st)" for m
      by (rule send_signal_regs)
    with Inr show ?thesis by (auto simp: send_remote_signal_def split: prod.splits) (metis fst_conv)
  qed (simp add: send_remote_signal_def split: prod.split)
  obtain st1 b where st1: "send_remote_signal h k2 wa net d sig st = (st1, b)" by fastforce
  with one have "ap_registrations (fst st1) = ap_registrations (fst st)" by simp
  with Cons.IH [of st1] st1 show ?case by (auto split: prod.splits)
qed simp

text \<open>The calls on the auth store a connection may have made: besides reading and its own sender, only
  sessions and DNAs of agents it has proved.\<close>

fun ws_command :: "'w ws_env \<Rightarrow> 'w system_event list \<Rightarrow> ws_sender \<Rightarrow> auth_command \<Rightarrow> bool" where
  "ws_command env evs w (CmdIsAgentAllowed a) = True"
| "ws_command env evs w (CmdCreateSession tok a) = proved_key env evs w a"
| "ws_command env evs w (CmdRegisterDna a d) = (proved_key env evs w a \<and> asked_cell env evs w a d)"
| "ws_command env evs w (CmdRegisterWs a v) = (v = w)"
| "ws_command env evs w (CmdUnregisterWs a v) = (v = w)"
| "ws_command env evs w _ = False"

lemma ws_command_append: "ws_command env evs w c \<Longrightarrow> ws_command env (evs @ zs) w c"
  by (cases c) (simp_all add: proved_append asked_append)

definition auth_traced :: "'w ws_env \<Rightarrow> 'w system_event list \<Rightarrow> ws_sender \<Rightarrow> auth_store \<Rightarrow> auth_store \<Rightarrow> bool" where
  "auth_traced env evs w s s' \<longleftrightarrow> (\<exists>cs. s' = auth_run cs s \<and> (\<forall>c \<in> set cs. ws_command env evs w c))"

lemma auth_traced_same [simp]: "auth_traced env evs w s s"
  unfolding auth_traced_def by (rule exI [of _ "[]"]) (simp add: auth_run_def)

lemma auth_traced_step: "ws_command env evs w c \<Longrightarrow> auth_traced env evs w s (auth_step c s)"
  unfolding auth_traced_def by (rule exI [of _ "[c]"]) (simp add: auth_run_def)

lemma auth_traced_trans:
  assumes "auth_traced env evs w s s1" and "auth_traced env evs w s1 s2"
  shows "auth_traced env evs w s s2"
proof -
  obtain cs cs1 where "s1 = auth_run cs s" "s2 = auth_run cs1 s1"
      "\<forall>c \<in> set cs. ws_command env evs w c" "\<forall>c \<in> set cs1. ws_command env evs w c"
    using assms unfolding auth_traced_def by blast
  then have "s2 = auth_run (cs @ cs1) s \<and> (\<forall>c \<in> set (cs @ cs1). ws_command env evs w c)"
    by (auto simp: auth_run_def)
  then show ?thesis unfolding auth_traced_def by blast
qed

lemma traced_allowed: "auth_is_agent_allowed a s = (s', r) \<Longrightarrow> auth_traced env evs w s s'"
  using auth_traced_step [of env evs w "CmdIsAgentAllowed a" s] by simp

lemma traced_create:
  "proved_key env evs w a \<Longrightarrow> auth_create_session tok a s = (s', r) \<Longrightarrow> auth_traced env evs w s s'"
  using auth_traced_step [of env evs w "CmdCreateSession tok a" s] by simp

lemma traced_create_register:
  "proved_key env evs w a \<Longrightarrow> auth_create_session tok a s = (s', r) \<Longrightarrow>
     auth_traced env evs w s (auth_register_ws_sender a w s')"
  using auth_traced_trans [OF traced_create auth_traced_step [of env evs w "CmdRegisterWs a w" s']] by simp

lemma traced_dna: "proved_key env evs w a \<Longrightarrow> asked_cell env evs w a d \<Longrightarrow> auth_traced env evs w s (auth_register_dna_for_agent a d s)"
  using auth_traced_step [of env evs w "CmdRegisterDna a d" s] by simp

lemma traced_unregister: "auth_traced env evs w s (auth_unregister_ws_sender a w s)"
  using auth_traced_step [of env evs w "CmdUnregisterWs a w" s] by simp

section \<open>Every message keeps it\<close>

text \<open>The conclusion for one handled message.\<close>

definition step_ok :: "'w ws_env \<Rightarrow> 'w system_event list \<Rightarrow> ws_sender \<Rightarrow> 'w linker \<Rightarrow> 'w conn \<times> outcome \<Rightarrow> bool" where
  "step_ok env evs w app res \<longleftrightarrow> (case res of ((cs', app'), out) \<Rightarrow>
     conn_inv env evs w cs' \<and> ln_auth_store app' \<noteq> None \<and> out \<noteq> Panicked \<and>
     auth_traced env evs w (the (ln_auth_store app)) (the (ln_auth_store app')) \<and>
     regs_from (\<lambda>v a. v = w \<and> proved_key env evs w a) (ln_agent_proxy app) (ln_agent_proxy app'))"

lemma step_ok_unchanged:
  "conn_inv env evs w cs \<Longrightarrow> ln_auth_store app \<noteq> None \<Longrightarrow> step_ok env (evs @ zs) w app ((cs, app), Reply m)"
  by (simp add: step_ok_def conn_inv_append regs_from_same)

lemma auth_step_ok:
  assumes inv: "conn_inv env evs w cs" and on: "ln_auth_store app = Some store"
  shows "step_ok env (evs @ [SysSocket w (EvText n (Inr (CmAuth s)) c tk)]) w app (handle_auth env s c (cs, app))"
proof (cases "agent_try_from (we_hash env) s")
  case (Inl e)
  then show ?thesis using inv on by (simp add: handle_auth_def step_ok_unchanged)
next
  case (Inr a)
  obtain store' ok where ok: "auth_is_agent_allowed a store = (store', ok)" by fastforce
  let ?evs = "evs @ [SysSocket w (EvText n (Inr (CmAuth s)) c tk)]"
  have inv': "conn_inv env ?evs w cs" by (rule conn_inv_append [OF inv])
  have "conn_inv env ?evs w (cs\<lparr>cs_pending_auth_agent := Some a, cs_pending_challenge := Some c\<rparr>)"
    using inv' challenged_now [OF Inr, of evs w n c tk] by (simp add: conn_inv_def)
  with inv' Inr on ok show ?thesis
    by (simp add: handle_auth_def step_ok_def Let_def regs_from_same traced_allowed [OF ok])
qed

lemma challenge_step_ok:
  assumes inv: "conn_inv env evs w cs" and on: "ln_auth_store app = Some store"
  shows "step_ok env (evs @ [SysSocket w (EvText n (Inr (CmAuthChallengeResponse sg)) ch tk)]) w app
    (handle_auth_challenge_response env sg tk w (cs, app))"
proof (cases "cs_pending_auth_agent cs")
  case None
  then show ?thesis using inv on by (simp add: handle_auth_challenge_response_def step_ok_unchanged)
next
  case (Some a)
  let ?evs = "evs @ [SysSocket w (EvText n (Inr (CmAuthChallengeResponse sg)) ch tk)]"
  have inv': "conn_inv env ?evs w cs" by (rule conn_inv_append [OF inv])
  have taken: "conn_inv env ?evs w (cs\<lparr>cs_pending_auth_agent := None\<rparr>)"
    "conn_inv env ?evs w (cs\<lparr>cs_pending_auth_agent := None, cs_pending_challenge := None\<rparr>)"
    using inv' by (simp_all add: conn_inv_def)
  show ?thesis
  proof (cases "cs_pending_challenge cs")
    case None
    then show ?thesis using Some taken on
      by (simp add: handle_auth_challenge_response_def step_ok_def regs_from_same)
  next
    case chal: (Some c)
    show ?thesis
    proof (cases "check_signature env a c sg")
      case (Inl e)
      then show ?thesis using Some chal taken on
        by (simp add: handle_auth_challenge_response_def step_ok_def regs_from_same Let_def)
    next
      case (Inr u)
      have p: "proved_key env ?evs w a"
        by (rule proved_now [OF conn_inv_D(1) [OF inv Some chal] check_signature_sound [OF Inr]])
      have "conn_inv env ?evs w (cs\<lparr>cs_pending_auth_agent := None, cs_pending_challenge := None,
          cs_authenticated := True, cs_authenticated_agent := Some a\<rparr>)"
        using taken(2) p by (simp add: conn_inv_def)
      with Inr Some chal taken on show ?thesis
        by (cases "auth_create_session tk a store"; cases "snd (auth_create_session tk a store)")
          (auto simp: handle_auth_challenge_response_def step_ok_def regs_from_same Let_def
            intro: traced_create [OF p] traced_create_register [OF p])
    qed
  qed
qed

lemma parse_cell_cases:
  obtains (bad) m where "parse_cell env d a = Inl m"
  | (good) dna agent where "parse_cell env d a = Inr (dna, agent)"
  by (cases "parse_cell env d a") auto

lemma register_step_ok:
  assumes inv: "conn_inv env evs w cs" and on: "ln_auth_store app = Some store"
  shows "step_ok env (evs @ [SysSocket w (EvText n (Inr (CmRegister ds s)) ch tk)]) w app
    (handle_register env ds s w (cs, app))"
proof (cases "cs_authenticated cs")
  case False
  then show ?thesis using inv on by (simp add: handle_register_def step_ok_unchanged)
next
  case True
  from conn_inv_D(3) [OF inv True] obtain b where b: "cs_authenticated_agent cs = Some b" by blast
  show ?thesis
  proof (cases rule: parse_cell_cases [of env ds s])
    case (bad m)
    then show ?thesis using True inv on by (simp add: handle_register_def step_ok_unchanged)
  next
    case (good d a)
    show ?thesis
    proof (cases "a = b")
      case False
      then show ?thesis using True good b inv on by (simp add: handle_register_def step_ok_unchanged)
    next
      case True
      let ?evs = "evs @ [SysSocket w (EvText n (Inr (CmRegister ds s)) ch tk)]"
      have p: "proved_key env ?evs w b" by (rule proved_append [OF conn_inv_D(2) [OF inv b]])
      have asked: "asked_cell env ?evs w b d" using good True unfolding asked_cell_def by force
      have inv': "conn_inv env ?evs w cs" by (rule conn_inv_append [OF inv])
      have "conn_inv env ?evs w (cs\<lparr>cs_registrations := cs_registrations cs @ [(d, b)]\<rparr>)"
        using inv' p by (simp add: conn_inv_def)
      moreover have "regs_from (\<lambda>v a. v = w \<and> proved_key env ?evs w a) q (ap_register d b w q)" for q
        using p by (simp add: regs_from_register)
      ultimately show ?thesis using \<open>cs_authenticated cs\<close> True good b inv' on
        by (simp add: handle_register_def step_ok_def Let_def traced_dna [OF p asked] split: option.split)
    qed
  qed
qed

lemma unregister_step_ok:
  assumes inv: "conn_inv env evs w cs" and on: "ln_auth_store app = Some store"
  shows "step_ok env (evs @ zs) w app (handle_unregister env ds s (cs, app))"
proof (cases "cs_authenticated cs")
  case False
  then show ?thesis using inv on by (simp add: handle_unregister_def step_ok_unchanged)
next
  case True
  show ?thesis
  proof (cases rule: parse_cell_cases [of env ds s])
    case (bad m)
    then show ?thesis using True inv on by (simp add: handle_unregister_def step_ok_unchanged)
  next
    case (good d a)
    have "conn_inv env (evs @ zs) w (cs\<lparr>cs_registrations := filter (\<lambda>r. r \<noteq> (d, a)) (cs_registrations cs)\<rparr>)"
      using conn_inv_append [OF inv, of zs] by (simp add: conn_inv_def)
    with True good on show ?thesis
      by (simp add: handle_unregister_def step_ok_def Let_def regs_from_unregister split: option.split)
  qed
qed

lemma signal_step_ok:
  assumes inv: "conn_inv env evs w cs" and on: "ln_auth_store app = Some store"
  shows "step_ok env (evs @ zs) w app (handle_send_remote_signal env ds sigs (cs, app))"
proof (cases "cs_authenticated cs \<and> ln_gateway app \<noteq> None \<and> (\<exists>d. dna_try_from (we_hash env) ds = Inr d)")
  case True
  then obtain g d where g: "ln_gateway app = Some g" and d: "dna_try_from (we_hash env) ds = Inr d" by blast
  obtain p' g' n where p': "send_remote_signals (we_hash env) (we_k2 env) (we_wire env) (we_network env) d sigs
      (ln_agent_proxy app, g) = ((p', g'), n)" by (metis surj_pair)
  have "ap_registrations p' = ap_registrations (ln_agent_proxy app)"
    using remote_signals_regs [of "we_hash env" "we_k2 env" "we_wire env" "we_network env" d sigs
      "(ln_agent_proxy app, g)"] p' by simp
  with True g d p' inv on show ?thesis
    by (simp add: handle_send_remote_signal_def step_ok_def conn_inv_append regs_from_same)
next
  case False
  then show ?thesis using inv on
    by (auto simp: handle_send_remote_signal_def step_ok_unchanged split: option.split sum.split)
qed

lemma message_step_ok:
  assumes inv: "conn_inv env evs w cs" and on: "ln_auth_store app = Some store"
  shows "step_ok env (evs @ [SysSocket w (EvText n (Inr msg) ch tk)]) w app
    (handle_client_message env msg ch tk w (cs, app))"
proof (cases msg)
  case (CmSignResponse k s e)
  then show ?thesis using inv on
    by (simp add: handle_client_message_def step_ok_def conn_inv_append regs_from_same ap_deliver_signature_def)
qed (simp_all add: handle_client_message_def auth_step_ok challenge_step_ok register_step_ok unregister_step_ok
  signal_step_ok step_ok_unchanged inv on)

section \<open>Every step of a socket keeps it\<close>

definition run_ok :: "'w ws_env \<Rightarrow> 'w system_event list \<Rightarrow> ws_sender \<Rightarrow> 'w linker \<Rightarrow> 'w running \<Rightarrow> bool" where
  "run_ok env evs w app r \<longleftrightarrow> conn_inv env evs w (sk_conn (fst r)) \<and> ln_auth_store (snd r) \<noteq> None \<and>
     sk_phase (fst r) \<noteq> SkCrashed \<and>
     auth_traced env evs w (the (ln_auth_store app)) (the (ln_auth_store (snd r))) \<and>
     regs_from (\<lambda>v a. v = w \<and> proved_key env evs w a) (ln_agent_proxy app) (ln_agent_proxy (snd r))"

lemma regs_from_unregister_all: "regs_from P p (ap_unregister_all w p)"
  by (simp add: regs_from_def ap_unregister_all_def hm_retain_def)

lemma cleanup_proxy: "ln_agent_proxy (connection_cleanup env w cs app) =
    ap_disconnect w (ap_unregister_all w (ln_agent_proxy app))"
  by (simp add: connection_cleanup_def Let_def split: option.split)

lemma cleanup_auth: "ln_auth_store (connection_cleanup env w cs app) =
    (case (ln_auth_store app, cs_authenticated_agent cs) of
       (Some store, Some a) \<Rightarrow> Some (auth_unregister_ws_sender a w store) | _ \<Rightarrow> ln_auth_store app)"
  by (simp add: connection_cleanup_def Let_def split: option.split)

lemma cleanup_gateway: "ln_gateway (connection_cleanup env w cs app) =
    map_option (fold (\<lambda>r. agent_leave (we_k2 env) (we_network env) (fst r) (snd r)) (cs_registrations cs)) (ln_gateway app)"
  by (simp add: connection_cleanup_def Let_def split: option.split)

lemma run_ok_same:
  assumes "conn_inv env evs w (sk_conn sk)" and "ln_auth_store app \<noteq> None" and "sk_phase sk \<noteq> SkCrashed"
    and "ap_registrations p = ap_registrations (ln_agent_proxy app)"
  shows "run_ok env (evs @ zs) w app (sk, app\<lparr>ln_agent_proxy := p\<rparr>)"
  using assms by (simp add: run_ok_def conn_inv_append regs_from_same)

lemma end_ok:
  assumes "conn_inv env evs w (sk_conn sk)" and "ln_auth_store app \<noteq> None"
  shows "run_ok env (evs @ zs) w app (end_socket env w (sk, app))"
proof -
  have "regs_from P (ln_agent_proxy app) (ln_agent_proxy (connection_cleanup env w (sk_conn sk) app))" for P
    by (rule regs_from_trans [OF regs_from_unregister_all]) (simp add: cleanup_proxy ap_disconnect_def)
  with assms show ?thesis
    by (auto simp: run_ok_def end_socket_def conn_inv_append cleanup_auth traced_unregister split: option.split)
qed

lemma text_ok:
  assumes inv: "conn_inv env evs w (sk_conn sk)" and on: "ln_auth_store app = Some store"
  shows "run_ok env (evs @ [SysSocket w (EvText n parsed ch tk)]) w app (handle_text env w n parsed ch tk (sk, app))"
proof (cases parsed)
  case (Inl e)
  then show ?thesis using inv on by (simp add: handle_text_def Let_def run_ok_def conn_inv_append regs_from_same)
next
  case (Inr msg)
  let ?cs = "(sk_conn sk)\<lparr>cs_last_activity := n\<rparr>"
  obtain cs' app' out where o: "handle_client_message env msg ch tk w (?cs, app) = ((cs', app'), out)"
    by (metis surj_pair)
  have "step_ok env (evs @ [SysSocket w (EvText n (Inr msg) ch tk)]) w app ((cs', app'), out)"
    using message_step_ok [of env evs w ?cs app store n msg ch tk] inv on o by simp
  with Inr o show ?thesis
    by (auto simp: handle_text_def Let_def run_ok_def step_ok_def split: outcome.split option.split)
qed

lemma try_send_regs: "ap_registrations (fst (try_send_message m w p)) = ap_registrations p"
  by (simp add: try_send_message_def split: option.split)

lemma app_same: "app\<lparr>ln_agent_proxy := ln_agent_proxy app\<rparr> = app"
  by simp

lemma listening_ok:
  assumes inv: "conn_inv env evs w (sk_conn sk)" and on: "ln_auth_store app = Some store"
    and ph: "sk_phase sk = SkListening"
  shows "run_ok env (evs @ [SysSocket w ev]) w app (listening_step env cfg w ev (sk, app))"
proof -
  have same: "run_ok env (evs @ zs) w app (sk, app)" for zs
    using inv on ph by (simp add: run_ok_def conn_inv_append regs_from_same)
  have ended: "run_ok env (evs @ zs) w app (end_socket env w (sk, app))" for zs
    by (rule end_ok [OF inv]) (simp add: on)
  show ?thesis
  proof (cases ev)
    case (EvText n parsed ch tk)
    with text_ok [OF inv on] show ?thesis by (simp add: listening_step_def)
  next
    case (EvPong n)
    with inv on ph show ?thesis by (simp add: listening_step_def run_ok_def conn_inv_append regs_from_same)
  qed (simp_all add: listening_step_def same ended)
qed

lemma replying_ok:
  assumes inv: "conn_inv env evs w (sk_conn sk)" and on: "ln_auth_store app = Some store"
    and ph: "sk_phase sk \<noteq> SkCrashed"
  shows "run_ok env (evs @ zs) w app (replying_step env w m ends (sk, app))"
proof -
  obtain p t where t: "try_send_message m w (ln_agent_proxy app) = (p, t)" by fastforce
  have p: "ap_registrations p = ap_registrations (ln_agent_proxy app)"
    using try_send_regs [of m w "ln_agent_proxy app"] t by simp
  have ended: "run_ok env (evs @ zs) w app (end_socket env w (sk, app))"
    by (rule end_ok [OF inv]) (simp add: on)
  show ?thesis
    using inv on ph p ended
    by (cases t) (simp_all add: replying_step_def t run_ok_def conn_inv_append regs_from_same)
qed

lemma socket_step_ok:
  assumes inv: "conn_inv env evs w (sk_conn sk)" and on: "ln_auth_store app = Some store"
    and ph: "sk_phase sk \<noteq> SkCrashed"
  shows "run_ok env (evs @ [SysSocket w ev]) w app (socket_step env cfg w ev (sk, app))"
proof -
  have same: "run_ok env (evs @ zs) w app (sk, app)" for zs
    using inv on ph by (simp add: run_ok_def conn_inv_append regs_from_same)
  have recv: "run_ok env (evs @ zs) w app (sk, app\<lparr>ln_agent_proxy := ap_receive w (ln_agent_proxy app)\<rparr>)"
    "run_ok env (evs @ zs) w app (sk, app\<lparr>ln_agent_proxy := ap_disconnect w (ln_agent_proxy app)\<rparr>)" for zs
    using inv on ph by (simp_all add: run_ok_def conn_inv_append regs_from_same ap_receive_def ap_disconnect_def)
  show ?thesis
  proof (cases "sk_phase sk")
    case SkListening
    then show ?thesis using listening_ok [OF inv on SkListening, of ev cfg] recv
      by (cases ev) (simp_all add: socket_step_def)
  next
    case (SkReplying m ends)
    then show ?thesis using replying_ok [OF inv on ph] recv same
      by (cases ev) (simp_all add: socket_step_def)
  qed (use same ph in \<open>simp_all add: socket_step_def\<close>)
qed

section \<open>Every run of the system keeps it\<close>

text \<open>Where the calls on the auth store come from.\<close>

definition command_origin :: "'w ws_env \<Rightarrow> 'w system_event list \<Rightarrow> auth_command \<Rightarrow> bool" where
  "command_origin env evs c \<longleftrightarrow> (\<exists>w. ws_command env evs w c) \<or>
     (case c of CmdAddAgent g \<Rightarrow> SysAddAgent g \<in> set evs | CmdRemoveAgent _ \<Rightarrow> True
      | CmdValidateSession _ \<Rightarrow> True | CmdListAgents \<Rightarrow> True | _ \<Rightarrow> False)"

lemma command_origin_append: "command_origin env evs c \<Longrightarrow> command_origin env (evs @ zs) c"
  unfolding command_origin_def using ws_command_append by (fastforce split: auth_command.splits)

definition auth_origin :: "'w ws_env \<Rightarrow> auth_store \<Rightarrow> 'w system_event list \<Rightarrow> 'w system \<Rightarrow> bool" where
  "auth_origin env store evs s \<longleftrightarrow> (\<exists>cs. ln_auth_store (sy_linker s) = Some (auth_run cs store) \<and>
     (\<forall>c \<in> set cs. command_origin env evs c))"

lemma auth_origin_run:
  assumes "auth_origin env store evs s" and "ln_auth_store (sy_linker s) = Some st"
    and "ln_auth_store (sy_linker s') = Some (auth_run cs st)"
    and "\<And>c. c \<in> set cs \<Longrightarrow> command_origin env (evs @ zs) c"
  shows "auth_origin env store (evs @ zs) s'"
proof -
  obtain ds where ds: "st = auth_run ds store" "\<forall>c \<in> set ds. command_origin env evs c"
    using assms(1,2) unfolding auth_origin_def by auto
  have "ln_auth_store (sy_linker s') = Some (auth_run (ds @ cs) store)"
    using assms(3) ds(1) by (simp add: auth_run_def)
  moreover have "\<forall>c \<in> set (ds @ cs). command_origin env (evs @ zs) c"
    using ds(2) assms(4) command_origin_append by fastforce
  ultimately show ?thesis unfolding auth_origin_def by blast
qed

lemma auth_origin_same:
  assumes "auth_origin env store evs s" and "ln_auth_store (sy_linker s') = ln_auth_store (sy_linker s)"
  shows "auth_origin env store (evs @ zs) s'"
proof -
  obtain ds where ds: "ln_auth_store (sy_linker s) = Some (auth_run ds store)"
      "\<forall>c \<in> set ds. command_origin env evs c"
    using assms(1) unfolding auth_origin_def by blast
  have "\<forall>c \<in> set ds. command_origin env (evs @ zs) c" using ds(2) command_origin_append by blast
  with ds(1) assms(2) show ?thesis unfolding auth_origin_def by auto
qed

definition system_inv :: "'w ws_env \<Rightarrow> 'w system_event list \<Rightarrow> 'w system \<Rightarrow> bool" where
  "system_inv env evs s \<longleftrightarrow> ln_auth_store (sy_linker s) \<noteq> None \<and>
     (\<forall>w sk. hm_get (sy_sockets s) w = Some sk \<longrightarrow> conn_inv env evs w (sk_conn sk) \<and> sk_phase sk \<noteq> SkCrashed) \<and>
     (\<forall>e \<in> set (ap_registrations (ln_agent_proxy (sy_linker s))).
        proved_key env evs (snd e) (reg_agent_pubkey (fst e)))"

lemma system_inv_D:
  assumes "system_inv env evs s"
  shows "hm_get (sy_sockets s) w = Some sk \<Longrightarrow> conn_inv env evs w (sk_conn sk)"
    and "hm_get (sy_sockets s) w = Some sk \<Longrightarrow> sk_phase sk \<noteq> SkCrashed"
    and "ln_auth_store (sy_linker s) \<noteq> None"
    and "e \<in> set (ap_registrations (ln_agent_proxy (sy_linker s))) \<Longrightarrow>
      proved_key env evs (snd e) (reg_agent_pubkey (fst e))"
  using assms unfolding system_inv_def by blast+

lemma system_inv_new: "system_inv env [] (system_new (Some store) gw)"
  by (simp add: system_inv_def system_new_def ap_new_def)

lemma system_inv_linker:
  assumes inv: "system_inv env evs s" and "ln_auth_store app \<noteq> None"
    and "ap_registrations (ln_agent_proxy app) = ap_registrations (ln_agent_proxy (sy_linker s))"
  shows "system_inv env (evs @ zs) (s\<lparr>sy_linker := app\<rparr>)"
  unfolding system_inv_def
proof (intro conjI allI ballI impI)
  fix w sk assume "hm_get (sy_sockets (s\<lparr>sy_linker := app\<rparr>)) w = Some sk"
  then have sk: "hm_get (sy_sockets s) w = Some sk" by simp
  show "conn_inv env (evs @ zs) w (sk_conn sk)" by (rule conn_inv_append [OF system_inv_D(1) [OF inv sk]])
  show "sk_phase sk \<noteq> SkCrashed" by (rule system_inv_D(2) [OF inv sk])
next
  fix e assume "e \<in> set (ap_registrations (ln_agent_proxy (sy_linker (s\<lparr>sy_linker := app\<rparr>))))"
  then have "e \<in> set (ap_registrations (ln_agent_proxy (sy_linker s)))" using assms(3) by simp
  then show "proved_key env (evs @ zs) (snd e) (reg_agent_pubkey (fst e))"
    by (rule proved_append [OF system_inv_D(4) [OF inv]])
qed (simp add: assms(2))

lemma system_inv_socket:
  assumes inv: "system_inv env evs s" and ok: "run_ok env (evs @ zs) w (sy_linker s) (sk, app)"
  shows "system_inv env (evs @ zs) \<lparr>sy_linker = app, sy_sockets = hm_insert w sk (sy_sockets s)\<rparr>"
  unfolding system_inv_def
proof (intro conjI allI ballI impI)
  show "ln_auth_store (sy_linker \<lparr>sy_linker = app, sy_sockets = hm_insert w sk (sy_sockets s)\<rparr>) \<noteq> None"
    using ok by (simp add: run_ok_def)
next
  fix v sk' assume "hm_get (sy_sockets \<lparr>sy_linker = app, sy_sockets = hm_insert w sk (sy_sockets s)\<rparr>) v = Some sk'"
  then have "v = w \<and> sk' = sk \<or> hm_get (sy_sockets s) v = Some sk'" by (auto split: if_splits)
  then have both: "conn_inv env (evs @ zs) v (sk_conn sk') \<and> sk_phase sk' \<noteq> SkCrashed"
  proof
    assume "v = w \<and> sk' = sk"
    with ok show ?thesis by (simp add: run_ok_def)
  next
    assume h: "hm_get (sy_sockets s) v = Some sk'"
    from conn_inv_append [OF system_inv_D(1) [OF inv h]] system_inv_D(2) [OF inv h] show ?thesis by blast
  qed
  then show "conn_inv env (evs @ zs) v (sk_conn sk')" and "sk_phase sk' \<noteq> SkCrashed" by blast+
next
  fix e
  assume "e \<in> set (ap_registrations (ln_agent_proxy (sy_linker
      \<lparr>sy_linker = app, sy_sockets = hm_insert w sk (sy_sockets s)\<rparr>)))"
  then have "e \<in> set (ap_registrations (ln_agent_proxy (sy_linker s))) \<or>
      (snd e = w \<and> proved_key env (evs @ zs) w (reg_agent_pubkey (fst e)))"
    using ok by (simp add: run_ok_def regs_from_def)
  then show "proved_key env (evs @ zs) (snd e) (reg_agent_pubkey (fst e))"
    using proved_append [OF system_inv_D(4) [OF inv]] by blast
qed

lemma after_sign_regs:
  "ap_registrations (after_sign (sign_send e t) p) = ap_registrations p"
  "ap_registrations (after_sign (sign_finish timed_out dbg t) p) = ap_registrations p"
  by (auto simp: after_sign_def sign_send_def sign_finish_def pending_remove_def try_send_message_def
    split: option.split sign_task.split oneshot.split try_send.split prod.split if_splits)

lemma system_step_inv:
  assumes inv: "system_inv env evs s"
  shows "system_inv env (evs @ [e]) (system_step env cfg e s)"
proof -
  obtain store where on: "ln_auth_store (sy_linker s) = Some store" using system_inv_D(3) [OF inv] by blast
  have same: "system_inv env (evs @ [e]) s"
    using system_inv_linker [OF inv, of "sy_linker s"] on by simp
  show ?thesis
  proof (cases e)
    case (SysConnect w now)
    obtain sk app where h: "handle_socket w now (sy_linker s) = (sk, app)" by fastforce
    then have "run_ok env (evs @ [e]) w (sy_linker s) (sk, app)"
      using on by (auto simp: handle_socket_def run_ok_def conn_inv_default regs_from_same ap_connect_def)
    from system_inv_socket [OF inv this] SysConnect h same show ?thesis by (simp split: option.split)
  next
    case (SysSocket w ev)
    show ?thesis
    proof (cases "hm_get (sy_sockets s) w")
      case (Some sk)
      obtain sk' app where h: "socket_step env cfg w ev (sk, sy_linker s) = (sk', app)" by fastforce
      have "run_ok env (evs @ [SysSocket w ev]) w (sy_linker s) (sk', app)"
        using socket_step_ok [OF system_inv_D(1) [OF inv Some] on system_inv_D(2) [OF inv Some], of ev cfg] h by simp
      from system_inv_socket [OF inv this] SysSocket Some h show ?thesis by simp
    qed (use SysSocket same in simp)
  next
    case (SysSign t dbg a info)
    have "ap_registrations (fst (sign_begin h k2 t dbg a info p)) = ap_registrations p" for h k2 p
      by (auto simp: sign_begin_def pending_insert_def Let_def split: option.split sum.split)
    with SysSign system_inv_linker [OF inv, of _ "[e]"] on show ?thesis by simp
  qed (use system_inv_linker [OF inv, of _ "[e]"] on send_signal_regs after_sign_regs in simp_all)
qed

lemma system_run_inv: "system_inv env evs (system_run env cfg evs (system_new (Some store) gw))"
proof (induction evs rule: rev_induct)
  case (snoc e evs)
  from system_step_inv [OF snoc, of e cfg] show ?case by (simp add: system_run_def)
qed (simp add: system_run_def system_inv_new)

lemma auth_origin_step:
  assumes inv: "system_inv env evs s" and origin: "auth_origin env store evs s"
  shows "auth_origin env store (evs @ [e]) (system_step env cfg e s)"
proof -
  obtain st where on: "ln_auth_store (sy_linker s) = Some st" using system_inv_D(3) [OF inv] by blast
  have command: "auth_origin env store (evs @ [e]) (s\<lparr>sy_linker := (sy_linker s)\<lparr>ln_auth_store :=
      map_option (auth_step c) (ln_auth_store (sy_linker s))\<rparr>\<rparr>)" if c: "command_origin env (evs @ [e]) c" for c
    by (rule auth_origin_run [OF origin on, of _ "[c]"]) (use c on in \<open>simp_all add: auth_run_def\<close>)
  show ?thesis
  proof (cases e)
    case (SysConnect w now)
    then show ?thesis
      by (auto intro!: auth_origin_same [OF origin] simp: handle_socket_def split: option.split)
  next
    case (SysSocket w ev)
    show ?thesis
    proof (cases "hm_get (sy_sockets s) w")
      case (Some sk)
      obtain sk' app where h: "socket_step env cfg w ev (sk, sy_linker s) = (sk', app)" by fastforce
      have ok: "run_ok env (evs @ [SysSocket w ev]) w (sy_linker s) (sk', app)"
        using socket_step_ok [OF system_inv_D(1) [OF inv Some] on system_inv_D(2) [OF inv Some], of ev cfg] h by simp
      then obtain cs where cs: "the (ln_auth_store app) = auth_run cs st"
          "\<forall>c \<in> set cs. ws_command env (evs @ [SysSocket w ev]) w c"
        using on unfolding run_ok_def auth_traced_def by auto
      have run: "ln_auth_store app = Some (auth_run cs st)" using ok cs(1) by (auto simp: run_ok_def)
      show ?thesis
        by (rule auth_origin_run [OF origin on, of _ cs])
          (use SysSocket Some h run cs(2) in \<open>auto simp: command_origin_def\<close>)
    next
      case None
      then show ?thesis using SysSocket auth_origin_same [OF origin, of s] by simp
    qed
  qed (use command auth_origin_same [OF origin] in \<open>simp_all add: command_origin_def\<close>)
qed

lemma auth_origin_all: "auth_origin env store evs (system_run env cfg evs (system_new (Some store) gw))"
proof (induction evs rule: rev_induct)
  case Nil
  show ?case unfolding auth_origin_def by (rule exI [of _ "[]"]) (simp add: system_run_def system_new_def auth_run_def)
next
  case (snoc e evs)
  from auth_origin_step [OF system_run_inv snoc, of e] show ?case by (simp add: system_run_def)
qed

text \<open>A session of the store after a run: who proved what for it.\<close>

lemma session_evidence:
  assumes "auth_invar store" and "auth_abs store = abs_empty"
    and "ln_auth_store (sy_linker (system_run env cfg evs (system_new (Some store) gw))) = Some store'"
    and "ab_sessions (auth_abs store') tok = Some j"
  shows "auth_invar store'" and "\<exists>w. proved_key env evs w (si_agent_pubkey j)"
    and "\<exists>g. SysAddAgent g \<in> set evs \<and> aa_agent_pubkey g = si_agent_pubkey j \<and> aa_capabilities g = si_capabilities j"
    and "d \<in> si_registered_dnas j \<Longrightarrow>
      \<exists>w. proved_key env evs w (si_agent_pubkey j) \<and> asked_cell env evs w (si_agent_pubkey j) d"
proof -
  obtain cs where cs: "store' = auth_run cs store" "\<forall>c \<in> set cs. command_origin env evs c"
    using auth_origin_all [of env store evs cfg gw] assms(3) unfolding auth_origin_def by auto
  show "auth_invar store'" unfolding cs(1) by (rule auth_run_invariant [OF assms(1)])
  have prov: "provenance cs (auth_abs store')" unfolding cs(1) by (rule run_provenance [OF assms(1,2)])
  have "command_origin env evs (CmdCreateSession tok (si_agent_pubkey j))"
    using cs(2) provenanceD(1) [OF prov assms(4)] by blast
  then show "\<exists>w. proved_key env evs w (si_agent_pubkey j)" by (auto simp: command_origin_def)
  obtain g where g: "CmdAddAgent g \<in> set cs" "aa_agent_pubkey g = si_agent_pubkey j" "aa_capabilities g = si_capabilities j"
    using provenanceD(2) [OF prov assms(4)] by blast
  then have "command_origin env evs (CmdAddAgent g)" using cs(2) by blast
  then have "SysAddAgent g \<in> set evs" by (simp add: command_origin_def)
  with g show "\<exists>g. SysAddAgent g \<in> set evs \<and> aa_agent_pubkey g = si_agent_pubkey j \<and> aa_capabilities g = si_capabilities j"
    by blast
  assume "d \<in> si_registered_dnas j"
  then have "command_origin env evs (CmdRegisterDna (si_agent_pubkey j) d)"
    using cs(2) provenanceD(3) [OF prov assms(4)] by blast
  then show "\<exists>w. proved_key env evs w (si_agent_pubkey j) \<and> asked_cell env evs w (si_agent_pubkey j) d"
    by (auto simp: command_origin_def)
qed

end
