(* ===== verification/Service_System.thy ===== *)
theory Service_System imports Endpoints Websocket_Safety begin

text \<open>
  The running linker: HTTP requests through the real router and its endpoints, the connections they
  upgrade to, the steps of the signatures kitsune2 asks for, and what the network and the clean-up task do,
  as one list of events in any interleaving. A request or a message is one event: what others do between
  its awaits is not in these runs (\<open>Sections\<close> adds it for what stays well-formed).
  It refines the system of connections in \<open>Websocket_System\<close>: every event is a list of that system's
  events with the same effect, and a grant there comes from a request here that carried the admin's
  secret. So what was shown of the connections holds of the whole linker.
\<close>

section \<open>The linker as a system of events\<close>

definition linker_of :: "('w, 'c, 'a) linker_state \<Rightarrow> 'w linker" where
  "linker_of st = \<lparr>ln_auth_store = st_auth_store st, ln_agent_proxy = ls_agent_proxy st, ln_gateway = ls_gateway st\<rparr>"

definition put_linker :: "'w linker \<Rightarrow> ('w, 'c, 'a) linker_state \<Rightarrow> ('w, 'c, 'a) linker_state" where
  "put_linker app st = st\<lparr>st_auth_store := ln_auth_store app, ls_agent_proxy := ln_agent_proxy app,
     ls_gateway := ln_gateway app\<rparr>"

lemma linker_of_put [simp]: "linker_of (put_linker app st) = app"
  by (simp add: linker_of_def put_linker_def)

lemma put_linker_keeps [simp]:
  "st_admin_secret (put_linker app st) = st_admin_secret st"
  "ls_configuration (put_linker app st) = ls_configuration st"
  "ls_kitsune (put_linker app st) = ls_kitsune st"
  "ls_app_conn (put_linker app st) = ls_app_conn st"
  "ls_op_store (put_linker app st) = ls_op_store st"
  by (simp_all add: put_linker_def)

record ('w, 'c, 'a) service =
  sv_state :: "('w, 'c, 'a) linker_state"
  sv_sockets :: "(ws_sender, socket) hashmap"
  sv_signs :: "sign_task list"

text \<open>A request comes with the channel and the time of the connection it may upgrade to. A signature kitsune2
  asks for is a task of its own: it is begun, its message goes out once the channel has room, and it ends
  with the answer, the cancellation or the timeout.\<close>

datatype ('w, 'b) service_event =
    SvRequest "'b request" inputs ws_sender nat
  | SvSocket ws_sender socket_event
  | SvSignal dna_hash agent_pubkey server_message
  | SvSign nat string agent_pubkey agent_info
  | SvSignSend nat string
  | SvSignFinish nat bool string
  | SvNetwork 'w
  | SvCleanup nat

definition start_connection :: "ws_sender \<Rightarrow> nat \<Rightarrow> ('w, 'c, 'a) service \<Rightarrow> ('w, 'c, 'a) service" where
  "start_connection w now sv = (case hm_get (sv_sockets sv) w of
     Some _ \<Rightarrow> sv
   | None \<Rightarrow> (case handle_socket w now (linker_of (sv_state sv)) of
        (sk, app) \<Rightarrow> sv\<lparr>sv_state := put_linker app (sv_state sv), sv_sockets := hm_insert w sk (sv_sockets sv)\<rparr>))"

definition service_request :: "('w, 'c, 'b) service_env \<Rightarrow> ('w, 'c, 'a) linker_state \<Rightarrow> 'b request \<Rightarrow> inputs \<Rightarrow>
    ws_sender \<Rightarrow> nat \<Rightarrow> ('w, 'c, 'a) service \<Rightarrow> ('w, 'c, 'a) service" where
  "service_request env st0 rq inp w now sv = (case serve env st0 inp rq (sv_state sv) of
     (st, r) \<Rightarrow> if rs_status r = SWITCHING_PROTOCOLS then start_connection w now (sv\<lparr>sv_state := st\<rparr>)
       else sv\<lparr>sv_state := st\<rparr>)"

definition service_socket :: "('w, 'c, 'b) service_env \<Rightarrow> websocket_config \<Rightarrow> ws_sender \<Rightarrow> socket_event \<Rightarrow>
    ('w, 'c, 'a) service \<Rightarrow> ('w, 'c, 'a) service" where
  "service_socket env cfg w ev sv = (case hm_get (sv_sockets sv) w of
     None \<Rightarrow> sv
   | Some sk \<Rightarrow> (case socket_step (se_ws env) cfg w ev (sk, linker_of (sv_state sv)) of
        (sk', app) \<Rightarrow> sv\<lparr>sv_state := put_linker app (sv_state sv), sv_sockets := hm_insert w sk' (sv_sockets sv)\<rparr>))"

text \<open>A step of a signing task: one that cannot go on waits.\<close>

definition service_sign :: "(sign_task \<Rightarrow> agent_proxy \<Rightarrow> (agent_proxy \<times> sign_task) option) \<Rightarrow> nat \<Rightarrow>
    ('w, 'c, 'a) service \<Rightarrow> ('w, 'c, 'a) service" where
  "service_sign step k sv =
     (if k < length (sv_signs sv)
      then (case step (sv_signs sv ! k) (ls_agent_proxy (sv_state sv)) of
              None \<Rightarrow> sv
            | Some (p, t) \<Rightarrow> sv\<lparr>sv_state := (sv_state sv)\<lparr>ls_agent_proxy := p\<rparr>, sv_signs := (sv_signs sv)[k := t]\<rparr>)
      else sv)"

fun service_step :: "('w, 'c, 'b) service_env \<Rightarrow> ('w, 'c, 'a) linker_state \<Rightarrow> ('w, 'b) service_event \<Rightarrow>
    ('w, 'c, 'a) service \<Rightarrow> ('w, 'c, 'a) service" where
  "service_step env st0 (SvRequest rq inp w now) sv = service_request env st0 rq inp w now sv"
| "service_step env st0 (SvSocket w ev) sv = service_socket env (cf_websocket (ls_configuration st0)) w ev sv"
| "service_step env st0 (SvSignal d a m) sv = sv\<lparr>sv_state := (sv_state sv)\<lparr>ls_agent_proxy :=
     fst (ap_send_signal d a m (ls_agent_proxy (sv_state sv)))\<rparr>\<rparr>"
| "service_step env st0 (SvSign t debug a info) sv =
     (case sign_begin (we_hash (se_ws env)) (we_k2 (se_ws env)) t debug a info (ls_agent_proxy (sv_state sv)) of
        (p, task) \<Rightarrow> sv\<lparr>sv_state := (sv_state sv)\<lparr>ls_agent_proxy := p\<rparr>, sv_signs := sv_signs sv @ [task]\<rparr>)"
| "service_step env st0 (SvSignSend k e) sv = service_sign (sign_send e) k sv"
| "service_step env st0 (SvSignFinish k timed_out debug) sv = service_sign (sign_finish timed_out debug) k sv"
| "service_step env st0 (SvNetwork w) sv = sv\<lparr>sv_state := (sv_state sv)\<lparr>ls_gateway :=
     map_option (\<lambda>g. g\<lparr>gk_world := w\<rparr>) (ls_gateway (sv_state sv))\<rparr>\<rparr>"
| "service_step env st0 (SvCleanup now) sv = sv\<lparr>sv_state := (sv_state sv)\<lparr>ls_op_store :=
     map_option (cleanup_expired now) (ls_op_store (sv_state sv))\<rparr>\<rparr>"

definition service_new :: "('w, 'c, 'a) linker_state \<Rightarrow> ('w, 'c, 'a) service" where
  "service_new st0 = \<lparr>sv_state = st0, sv_sockets = [], sv_signs = []\<rparr>"

definition service_run :: "('w, 'c, 'b) service_env \<Rightarrow> ('w, 'c, 'a) linker_state \<Rightarrow> ('w, 'b) service_event list \<Rightarrow>
    ('w, 'c, 'a) service" where
  "service_run env st0 evs = fold (service_step env st0) evs (service_new st0)"

section \<open>Evidence in a run of the linker\<close>

text \<open>The steps of connections in a run.\<close>

definition socket_part :: "('w, 'b) service_event \<Rightarrow> 'w system_event list" where
  "socket_part ev = (case ev of SvSocket w e \<Rightarrow> [SysSocket w e] | _ \<Rightarrow> [])"

definition socket_events :: "('w, 'b) service_event list \<Rightarrow> 'w system_event list" where
  "socket_events evs = concat (map socket_part evs)"

lemma socket_events_simps [simp]:
  "socket_events [] = []" "socket_events (evs @ zs) = socket_events evs @ socket_events zs"
  "socket_events [e] = socket_part e"
  by (simp_all add: socket_events_def)

text \<open>A grant: a request to the admin's endpoint that carried the secret and named the agent and its
  capabilities.\<close>

definition grants :: "('w, 'c, 'b) service_env \<Rightarrow> string option \<Rightarrow> ('w, 'b) service_event \<Rightarrow> allowed_agent \<Rightarrow> bool" where
  "grants env secret ev g \<longleftrightarrow> (\<exists>rq inp w now body. ev = SvRequest rq inp w now \<and>
     rq_method rq = POST \<and> rq_path rq = [''admin'', ''agents''] \<and> secret \<noteq> None \<and> extract_bearer_token rq = secret \<and>
     ex_add_agent (se_extract env) (rq\<lparr>rq_params := []\<rparr>) = Inr body \<and>
     agent_try_from (we_hash (se_ws env)) (ar_agent_pubkey body) = Inr (aa_agent_pubkey g) \<and>
     aa_capabilities g = set (ar_capability_list body))"

definition granted :: "('w, 'c, 'b) service_env \<Rightarrow> string option \<Rightarrow> ('w, 'b) service_event list \<Rightarrow> allowed_agent \<Rightarrow> bool" where
  "granted env secret evs g \<longleftrightarrow> (\<exists>ev \<in> set evs. grants env secret ev g)"

section \<open>Effects of a request\<close>

text \<open>The events a request may stand for: everything but connections and their steps.\<close>

definition quiet :: "'w system_event \<Rightarrow> bool" where
  "quiet e \<longleftrightarrow> (case e of SysSocket _ _ \<Rightarrow> False | SysConnect _ _ \<Rightarrow> False | _ \<Rightarrow> True)"

definition effect :: "('w, 'c, 'b) service_env \<Rightarrow> (allowed_agent \<Rightarrow> bool) \<Rightarrow> ('w, 'c, 'a) linker_state \<Rightarrow>
    ('w, 'c, 'a) linker_state \<Rightarrow> bool" where
  "effect env P st st' \<longleftrightarrow> st_admin_secret st' = st_admin_secret st \<and> (\<exists>es. list_all quiet es \<and>
     (\<forall>g. SysAddAgent g \<in> set es \<longrightarrow> P g) \<and> (\<forall>cfg socks.
       system_run (se_ws env) cfg es \<lparr>sy_linker = linker_of st, sy_sockets = socks\<rparr> =
         \<lparr>sy_linker = linker_of st', sy_sockets = socks\<rparr>))"

lemma effect_same:
  "st_admin_secret st' = st_admin_secret st \<Longrightarrow> linker_of st' = linker_of st \<Longrightarrow> effect env P st st'"
  unfolding effect_def by (intro conjI exI [of _ "[]"]) (simp_all add: system_run_def)

lemma effect_refl [simp]: "effect env P st st"
  by (rule effect_same) simp_all

lemma effect_trans:
  assumes "effect env P st st1" and "effect env P st1 st'"
  shows "effect env P st st'"
proof -
  obtain xs where xs: "list_all quiet xs" "\<forall>g. SysAddAgent g \<in> set xs \<longrightarrow> P g"
      "\<And>cfg socks. system_run (se_ws env) cfg xs \<lparr>sy_linker = linker_of st, sy_sockets = socks\<rparr> =
        \<lparr>sy_linker = linker_of st1, sy_sockets = socks\<rparr>"
    using assms(1) unfolding effect_def by blast
  obtain ys where ys: "list_all quiet ys" "\<forall>g. SysAddAgent g \<in> set ys \<longrightarrow> P g"
      "\<And>cfg socks. system_run (se_ws env) cfg ys \<lparr>sy_linker = linker_of st1, sy_sockets = socks\<rparr> =
        \<lparr>sy_linker = linker_of st', sy_sockets = socks\<rparr>"
    using assms(2) unfolding effect_def by blast
  show ?thesis unfolding effect_def
  proof (intro conjI exI [of _ "xs @ ys"] allI)
    show "st_admin_secret st' = st_admin_secret st" using assms by (simp add: effect_def)
    show "system_run (se_ws env) cfg (xs @ ys) \<lparr>sy_linker = linker_of st, sy_sockets = socks\<rparr> =
        \<lparr>sy_linker = linker_of st', sy_sockets = socks\<rparr>" for cfg socks
      using xs(3) [of cfg socks] ys(3) [of cfg socks] by (simp add: system_run_def)
  qed (use xs(1,2) ys(1,2) in auto)
qed

lemma effect_step:
  assumes "st_admin_secret st' = st_admin_secret st" and "quiet e" and "\<And>g. e = SysAddAgent g \<Longrightarrow> P g"
    and "\<And>cfg socks. system_step (se_ws env) cfg e \<lparr>sy_linker = linker_of st, sy_sockets = socks\<rparr> =
      \<lparr>sy_linker = linker_of st', sy_sockets = socks\<rparr>"
  shows "effect env P st st'"
  unfolding effect_def by (intro conjI exI [of _ "[e]"]) (use assms in \<open>auto simp: system_run_def\<close>)

lemma effect_weaken: "effect env P st st' \<Longrightarrow> (\<And>g. P g \<Longrightarrow> Q g) \<Longrightarrow> effect env Q st st'"
  unfolding effect_def by blast

text \<open>A change of the gateway alone.\<close>

lemma effect_gateway:
  assumes "(gw = None) = (ls_gateway st = None)"
  shows "effect env P st (st\<lparr>ls_gateway := gw\<rparr>)"
proof (cases gw)
  case None
  with assms show ?thesis by (intro effect_same) (simp_all add: linker_of_def)
next
  case (Some g)
  with assms show ?thesis
    by (intro effect_step [of _ _ "SysGateway g"]) (auto simp: quiet_def linker_of_def)
qed

definition keeps_presence :: "('g option \<Rightarrow> 'g option \<times> 'r) \<Rightarrow> bool" where
  "keeps_presence f \<longleftrightarrow> (\<forall>gw. (fst (f gw) = None) = (gw = None))"

lemma keeps_presenceD: "keeps_presence f \<Longrightarrow> f gw = (gw', r) \<Longrightarrow> (gw' = None) = (gw = None)"
  unfolding keeps_presence_def by (metis fst_conv)

lemma with_query_presence: "(fst (with_query gw arguments query render) = None) = (gw = None)"
  by (auto simp: with_query_def split: option.splits sum.splits prod.splits)

lemma query_presence:
  "keeps_presence (dht_get_record h k2 wa net asks1 p)" "keeps_presence (dht_get_details h k2 wa net asks2 p)"
  "keeps_presence (dht_get_links h k2 wa net asks3 s q)" "keeps_presence (dht_count_links h k2 wa net tv asks4 s q)"
  "keeps_presence (dht_get_agent_activity h k2 wa net asks5 s t u)"
  "keeps_presence (dht_must_get_agent_activity h k2 wa net asks6 s b)"
  by (simp_all add: keeps_presence_def with_query_presence dht_get_record_def dht_get_details_def
    dht_get_links_def dht_count_links_def dht_get_agent_activity_def dht_must_get_agent_activity_def)

lemma on_gateway_effect:
  assumes "keeps_presence f"
  shows "effect env P st (fst (on_gateway f render st))"
proof -
  obtain gw r where f: "f (ls_gateway st) = (gw, r)" by fastforce
  have "effect env P st (st\<lparr>ls_gateway := gw\<rparr>)" by (rule effect_gateway [OF keeps_presenceD [OF assms f]])
  with f show ?thesis by (simp add: on_gateway_def)
qed

lemma extracted_effect:
  "(\<And>x. r = Inr x \<Longrightarrow> effect env P st (fst (k x st))) \<Longrightarrow> effect env P st (fst (extracted r k st))"
  by (cases r) (simp_all add: extracted_def)

lemma phase_two_presence: "(fst (publish_phase_two env arrange d ps gw) = None) = (gw = None)"
  by (auto simp: publish_phase_two_def split: option.splits prod.splits)

lemma dht_publish_presence:
  assumes "dht_publish env arrange d ops (store, gw) = ((store', gw'), r)"
  shows "(gw' = None) = (gw = None)"
proof (cases "dna_try_from (pe_hash env) d")
  case (Inr dna)
  obtain st p where p: "store_all env ops (store, phase_one_new) = (st, p)" by fastforce
  show ?thesis
    using assms Inr p phase_two_presence [of env arrange dna "ph_processed p" gw]
    by (auto simp: dht_publish_def split: prod.splits)
qed (use assms in \<open>simp add: dht_publish_def\<close>)

lemma publish_effect: "effect env P st (fst (publish_endpoint env inp rq ops st))"
proof -
  obtain store gw r where r: "dht_publish (publish_env_of env) (in_arrange inp) (path_param rq ''dna_hash'')
      (zip (map (in_clock inp) [0..<length ops]) ops) (ls_op_store st, ls_gateway st) = ((store, gw), r)"
    by (metis surj_pair)
  have "effect env P st (st\<lparr>ls_gateway := gw\<rparr>)" by (rule effect_gateway [OF dht_publish_presence [OF r]])
  moreover have "effect env P (st\<lparr>ls_gateway := gw\<rparr>) (st\<lparr>ls_op_store := store, ls_gateway := gw\<rparr>)"
    by (rule effect_same) (simp_all add: linker_of_def)
  ultimately show ?thesis using r by (auto simp: publish_endpoint_def intro: effect_trans)
qed

lemma test_signal_effect: "effect env P st (fst (test_signal_endpoint env body st))"
proof -
  obtain p r where p: "test_signal (we_hash (se_ws env)) body (ls_agent_proxy st) = (p, r)" by fastforce
  then have "p = ls_agent_proxy st \<or> (\<exists>d a m. p = fst (ap_send_signal d a m (ls_agent_proxy st)))"
    by (auto simp: test_signal_def split: sum.splits prod.splits bool.splits) (metis fst_conv)+
  then have "effect env P st (st\<lparr>ls_agent_proxy := p\<rparr>)"
  proof (elim disjE exE)
    fix d a m assume "p = fst (ap_send_signal d a m (ls_agent_proxy st))"
    then show ?thesis by (intro effect_step [of _ _ "SysSignal d a m"]) (auto simp: quiet_def linker_of_def)
  qed (simp add: effect_same)
  with p show ?thesis by (simp add: test_signal_endpoint_def)
qed

lemma zome_effect: "effect env P st (fst (zome_call_endpoint env rq payload st))"
  by (rule effect_same) (simp_all add: zome_call_endpoint_def linker_of_def split: prod.splits)

text \<open>A call on the auth store.\<close>

lemma effect_auth:
  assumes "st_auth_store st = Some store" and "quiet e" and "\<And>g. e = SysAddAgent g \<Longrightarrow> P g"
    and "\<And>cfg s. system_step (se_ws env) cfg e s = s\<lparr>sy_linker := (sy_linker s)\<lparr>ln_auth_store :=
      map_option (auth_step c) (ln_auth_store (sy_linker s))\<rparr>\<rparr>"
  shows "effect env P st (st\<lparr>st_auth_store := Some (auth_step c store)\<rparr>)"
  by (rule effect_step [OF _ assms(2,3)]) (simp_all add: assms(1,4) linker_of_def)

lemma admin_add_effect:
  assumes "\<And>k. agent_try_from h (ar_agent_pubkey body) = Inr k \<Longrightarrow>
      P \<lparr>aa_agent_pubkey = k, aa_capabilities = set (ar_capability_list body), aa_label = ar_agent_label body\<rparr>"
  shows "effect env P st (fst (admin_add_agent h body st))"
proof (cases "st_auth_store st")
  case (Some store)
  show ?thesis
  proof (cases "agent_try_from h (ar_agent_pubkey body)")
    case (Inr k)
    let ?g = "\<lparr>aa_agent_pubkey = k, aa_capabilities = set (ar_capability_list body), aa_label = ar_agent_label body\<rparr>"
    have "effect env P st (st\<lparr>st_auth_store := Some (auth_step (CmdAddAgent ?g) store)\<rparr>)"
      by (rule effect_auth [OF Some, of "SysAddAgent ?g"]) (use assms [OF Inr] in \<open>auto simp: quiet_def\<close>)
    with Some Inr show ?thesis by (simp add: admin_add_agent_def)
  qed (simp add: admin_add_agent_def Some)
qed (simp add: admin_add_agent_def)

lemma admin_remove_effect: "effect env P st (fst (admin_remove_agent h a st))"
proof (cases "st_auth_store st")
  case (Some store)
  show ?thesis
  proof (cases "agent_try_from h a")
    case (Inr k)
    have "effect env P st (st\<lparr>st_auth_store := Some (auth_step (CmdRemoveAgent k) store)\<rparr>)"
      by (rule effect_auth [OF Some, of "SysRemoveAgent k"]) (simp_all add: quiet_def)
    with Some Inr show ?thesis by (auto simp: admin_remove_agent_def split: prod.split)
  qed (simp add: admin_remove_agent_def Some)
qed (simp add: admin_remove_agent_def)

lemma admin_list_effect: "effect env P st (fst (admin_list_agents h st))"
proof (cases "st_auth_store st")
  case (Some store)
  have "effect env P st (st\<lparr>st_auth_store := Some (auth_step CmdListAgents store)\<rparr>)"
    by (rule effect_auth [OF Some, of SysListAgents]) (simp_all add: quiet_def)
  with Some show ?thesis by (auto simp: admin_list_agents_def split: prod.split)
qed (simp add: admin_list_agents_def)

lemma route_effect:
  assumes "\<And>body k. r = RAdminAdd \<Longrightarrow> ex_add_agent (se_extract env) rq = Inr body \<Longrightarrow>
      agent_try_from (we_hash (se_ws env)) (ar_agent_pubkey body) = Inr k \<Longrightarrow>
      P \<lparr>aa_agent_pubkey = k, aa_capabilities = set (ar_capability_list body), aa_label = ar_agent_label body\<rparr>"
  shows "effect env P st (fst (handle_route env inp r rq st))"
proof (cases r)
  case RAdminAdd
  with assms show ?thesis by (auto intro!: extracted_effect admin_add_effect)
qed (auto intro!: extracted_effect on_gateway_effect query_presence publish_effect test_signal_effect
    zome_effect admin_remove_effect admin_list_effect
    simp: reads_def ws_handler_def)

lemma check_effect:
  assumes "\<And>rq st. effect env P st (fst (next rq st))"
  shows "effect env P st (fst (check_capability c next rq st))"
proof (cases "st_auth_store st")
  case (Some store)
  show ?thesis
  proof (cases "extract_bearer_token rq")
    case token: (Some token)
    obtain store' v where v: "auth_validate_session token store = (store', v)" by fastforce
    have e: "effect env P st (st\<lparr>st_auth_store := Some store'\<rparr>)"
      using effect_auth [OF Some, of "SysRequest token" P env "CmdValidateSession token"] v by (simp add: quiet_def)
    show ?thesis
      using e effect_trans [OF e assms] by (cases v) (simp_all add: check_capability_def Some token v)
  qed (simp add: check_capability_def Some)
qed (simp add: check_capability_def)

lemma scope_effect:
  assumes "\<And>rq st. effect env P st (fst (next rq st))"
  shows "effect env P st (fst (require_dna_scope h next rq st))"
  using assms by (auto simp: require_dna_scope_def split: option.split sum.split)

lemma secret_effect:
  assumes "st_admin_secret st \<noteq> None \<Longrightarrow> extract_bearer_token rq = st_admin_secret st \<Longrightarrow> effect env P st (fst (next rq st))"
  shows "effect env P st (fst (require_admin_secret next rq st))"
  using assms by (auto simp: require_admin_secret_def split: option.split)

lemma guard_effect:
  assumes "r = RAdminAdd \<Longrightarrow> st_admin_secret st \<noteq> None \<Longrightarrow> extract_bearer_token rq = st_admin_secret st \<Longrightarrow>
      effect env P st (fst (handle_route env inp r rq st))"
  shows "effect env P st (fst (guard h r (handle_route env inp r) rq st))"
proof -
  have free: "effect env P st' (fst (handle_route env inp r rq' st'))" if "r \<noteq> RAdminAdd" for rq' st'
    by (rule route_effect) (use that in simp)
  show ?thesis
    by (cases r) (use assms free in \<open>auto simp: guard_def gate_of_def require_dht_read_def require_dht_write_def
      require_k2_def intro!: check_effect scope_effect secret_effect\<close>)
qed

section \<open>Refinement\<close>

lemma admin_add_route:
  assumes "route_of b rq = Some (RAdminAdd, params)"
  shows "b \<and> rq_method rq = POST \<and> rq_path rq = [''admin'', ''agents''] \<and> params = []"
  using assms by (auto simp: route_of_def find_endpoints_def or_else_def common_routes_def dht_routes_def
    dht_publish_route_def kitsune_routes_def admin_routes_def method_serves_def split: option.splits list.splits if_splits)

lemma serve_effect:
  assumes "st_admin_secret st = st_admin_secret st0"
  shows "effect env (\<lambda>g. grants env (st_admin_secret st0) (SvRequest rq inp w now) g) st (fst (serve env st0 inp rq st))"
proof (cases "route_of (st_auth_store st0 \<noteq> None) rq")
  case None
  then show ?thesis
    by (cases "st_auth_store st0") (simp_all add: serve_def create_router_def authenticated_router_def open_router_def
      dispatch_route_of)
next
  case (Some rp)
  obtain r params where rp: "rp = (r, params)" by fastforce
  let ?rq = "rq\<lparr>rq_params := params\<rparr>"
  let ?P = "\<lambda>g. grants env (st_admin_secret st0) (SvRequest rq inp w now) g"
  have admin: "st_auth_store st0 \<noteq> None \<and> rq_method rq = POST \<and> rq_path rq = [''admin'', ''agents''] \<and> params = []"
    if "r = RAdminAdd"
    by (rule admin_add_route) (use Some rp that in simp)
  have handler: "effect env ?P st (fst (handle_route env inp r ?rq st))"
    if "r = RAdminAdd \<Longrightarrow> st_admin_secret st \<noteq> None \<and> extract_bearer_token ?rq = st_admin_secret st"
    by (rule route_effect) (use that assms admin
      in \<open>auto simp: grants_def extract_bearer_token_def header_str_def\<close>)
  show ?thesis
  proof (cases "st_auth_store st0")
    case None
    then have "r \<noteq> RAdminAdd" using admin by auto
    with None Some rp handler show ?thesis
      by (simp add: serve_def create_router_def open_router_def dispatch_route_of)
  next
    case (Some store)
    have "effect env ?P st (fst (guard (we_hash (se_ws env)) r (handle_route env inp r) ?rq st))"
      by (rule guard_effect) (use handler in blast)
    with Some \<open>route_of (st_auth_store st0 \<noteq> None) rq = Some rp\<close> rp show ?thesis
      by (simp add: serve_def create_router_def authenticated_router_def dispatch_route_of)
  qed
qed

definition sys_of :: "('w, 'c, 'a) service \<Rightarrow> 'w system" where
  "sys_of sv = \<lparr>sy_linker = linker_of (sv_state sv), sy_sockets = sv_sockets sv\<rparr>"

text \<open>What a list of the connection system's events has to do with one event of the linker.\<close>

definition stands_for :: "('w, 'c, 'b) service_env \<Rightarrow> string option \<Rightarrow> ('w, 'b) service_event list \<Rightarrow>
    'w system_event list \<Rightarrow> bool" where
  "stands_for env secret evs es \<longleftrightarrow> filter (\<lambda>e. \<exists>w x. e = SysSocket w x) es = socket_events evs \<and>
     (\<forall>g. SysAddAgent g \<in> set es \<longrightarrow> granted env secret evs g)"

lemma stands_for_nil: "stands_for env secret [] []"
  by (simp add: stands_for_def)

lemma stands_for_append:
  "stands_for env secret evs es \<Longrightarrow> stands_for env secret zs fs \<Longrightarrow> stands_for env secret (evs @ zs) (es @ fs)"
  by (auto simp: stands_for_def granted_def)

lemma quiet_stands_for:
  "list_all quiet es \<Longrightarrow> \<forall>g. SysAddAgent g \<in> set es \<longrightarrow> grants env secret ev g \<Longrightarrow> socket_part ev = [] \<Longrightarrow>
     stands_for env secret [ev] es"
  by (auto simp: stands_for_def granted_def filter_empty_conv list_all_iff quiet_def)

abbreviation (input) ws_config_of :: "('w, 'c, 'a) linker_state \<Rightarrow> websocket_config" where
  "ws_config_of st \<equiv> cf_websocket (ls_configuration st)"

definition refines_step :: "('w, 'c, 'b) service_env \<Rightarrow> ('w, 'c, 'a) linker_state \<Rightarrow> ('w, 'b) service_event list \<Rightarrow>
    ('w, 'c, 'a) service \<Rightarrow> ('w, 'c, 'a) service \<Rightarrow> bool" where
  "refines_step env st0 evs sv sv' \<longleftrightarrow> st_admin_secret (sv_state sv') = st_admin_secret (sv_state sv) \<and>
     (\<exists>es. stands_for env (st_admin_secret st0) evs es \<and>
        sys_of sv' = system_run (se_ws env) (ws_config_of st0) es (sys_of sv))"

lemma refines_same: "refines_step env st0 [] sv sv"
  unfolding refines_step_def by (intro conjI exI [of _ "[]"]) (simp_all add: stands_for_nil system_run_def)

lemma refines_trans:
  assumes "refines_step env st0 evs sv sv1" and "refines_step env st0 zs sv1 sv'"
  shows "refines_step env st0 (evs @ zs) sv sv'"
proof -
  obtain es where es: "stands_for env (st_admin_secret st0) evs es"
      "sys_of sv1 = system_run (se_ws env) (ws_config_of st0) es (sys_of sv)"
    using assms(1) unfolding refines_step_def by blast
  obtain fs where fs: "stands_for env (st_admin_secret st0) zs fs"
      "sys_of sv' = system_run (se_ws env) (ws_config_of st0) fs (sys_of sv1)"
    using assms(2) unfolding refines_step_def by blast
  show ?thesis unfolding refines_step_def
    by (intro conjI exI [of _ "es @ fs"])
      (use assms es fs stands_for_append in \<open>auto simp: refines_step_def system_run_def\<close>)
qed

lemma refines_one:
  assumes "st_admin_secret (sv_state sv') = st_admin_secret (sv_state sv)"
    and "stands_for env (st_admin_secret st0) evs [e]"
    and "sys_of sv' = system_step (se_ws env) (ws_config_of st0) e (sys_of sv)"
  shows "refines_step env st0 evs sv sv'"
  unfolding refines_step_def by (intro conjI exI [of _ "[e]"]) (use assms in \<open>simp_all add: system_run_def\<close>)

lemma refines_connection: "refines_step env st0 [] sv (start_connection w now sv)"
  by (rule refines_one [of _ _ _ _ _ "SysConnect w now"])
    (auto simp: stands_for_def start_connection_def sys_of_def split: option.split prod.split)

lemma refines_request:
  assumes "st_admin_secret (sv_state sv) = st_admin_secret st0"
  shows "refines_step env st0 [SvRequest rq inp w now] sv (service_request env st0 rq inp w now sv)"
proof -
  obtain st r where r: "serve env st0 inp rq (sv_state sv) = (st, r)" by fastforce
  have "effect env (\<lambda>g. grants env (st_admin_secret st0) (SvRequest rq inp w now) g) (sv_state sv) st"
    using serve_effect [OF assms, of env rq inp w now] r by simp
  then have one: "refines_step env st0 [SvRequest rq inp w now] sv (sv\<lparr>sv_state := st\<rparr>)"
    unfolding effect_def refines_step_def sys_of_def
    by (auto intro!: quiet_stands_for simp: socket_part_def)
  from refines_trans [OF one refines_connection [of env st0 _ w now]] one r show ?thesis
    by (auto simp: service_request_def)
qed

lemma refines_socket: "refines_step env st0 [SvSocket w ev] sv (service_socket env (ws_config_of st0) w ev sv)"
  by (rule refines_one [of _ _ _ _ _ "SysSocket w ev"])
    (auto simp: stands_for_def socket_part_def service_socket_def sys_of_def split: option.split prod.split)

lemma refines_sign:
  fixes st0 :: "('w, 'c, 'a) linker_state" and sv :: "('w, 'c, 'a) service"
  assumes "\<And>t cfg s. system_step (se_ws env) cfg (e t) s = s\<lparr>sy_linker := (sy_linker s)\<lparr>ln_agent_proxy :=
      after_sign (step t) (ln_agent_proxy (sy_linker s))\<rparr>\<rparr>"
    and "\<And>t w x. e t \<noteq> SysSocket w x" and "\<And>t g. SysAddAgent g \<noteq> e t" and "socket_part ev = []"
  shows "refines_step env st0 [ev] sv (service_sign step k sv)"
proof (cases "k < length (sv_signs sv)")
  case True
  with assms show ?thesis
    by (intro refines_one [of _ _ _ _ _ "e (sv_signs sv ! k)"])
      (auto simp: service_sign_def after_sign_def stands_for_def sys_of_def linker_of_def split: option.split)
next
  case False
  with assms(4) show ?thesis
    by (auto simp: service_sign_def refines_step_def stands_for_def system_run_def intro!: exI [of _ "[]"])
qed

lemma service_step_refines:
  assumes "st_admin_secret (sv_state sv) = st_admin_secret st0"
  shows "refines_step env st0 [ev] sv (service_step env st0 ev sv)"
proof (cases ev)
  case (SvRequest rq inp w now)
  with refines_request [OF assms] show ?thesis by simp
next
  case (SvSocket w e)
  with refines_socket show ?thesis by simp
next
  case (SvSignal d a m)
  then show ?thesis by (intro refines_one [of _ _ _ _ _ "SysSignal d a m"])
    (auto simp: stands_for_def socket_part_def sys_of_def linker_of_def)
next
  case (SvSign t debug a info)
  then show ?thesis by (intro refines_one [of _ _ _ _ _ "SysSign t debug a info"])
    (auto simp: stands_for_def socket_part_def sys_of_def linker_of_def split: prod.split)
next
  case (SvSignSend k e)
  then show ?thesis
    using refines_sign [of env "\<lambda>t. SysSignSend e t" "sign_send e" ev] by (simp add: socket_part_def)
next
  case (SvSignFinish k timed_out debug)
  then show ?thesis
    using refines_sign [of env "\<lambda>t. SysSignFinish timed_out debug t" "sign_finish timed_out debug" ev]
    by (simp add: socket_part_def)
next
  case (SvNetwork w)
  show ?thesis
  proof (cases "ls_gateway (sv_state sv)")
    case None
    with SvNetwork refines_trans [OF refines_same] show ?thesis
      by (auto simp: refines_step_def stands_for_def socket_part_def sys_of_def linker_of_def system_run_def
        intro!: exI [of _ "[]"])
  next
    case (Some g)
    with SvNetwork show ?thesis by (intro refines_one [of _ _ _ _ _ "SysGateway (g\<lparr>gk_world := w\<rparr>)"])
      (auto simp: stands_for_def socket_part_def sys_of_def linker_of_def)
  qed
next
  case (SvCleanup now)
  then show ?thesis
    by (auto simp: refines_step_def stands_for_def socket_part_def sys_of_def linker_of_def system_run_def
      intro!: exI [of _ "[]"])
qed

lemma service_run_snoc: "service_run env st0 (evs @ [ev]) = service_step env st0 ev (service_run env st0 evs)"
  by (simp add: service_run_def)

lemma service_run_refines: "refines_step env st0 evs (service_new st0) (service_run env st0 evs)"
proof (induction evs rule: rev_induct)
  case Nil
  show ?case using refines_same by (simp add: service_run_def)
next
  case (snoc ev evs)
  have "st_admin_secret (sv_state (service_run env st0 evs)) = st_admin_secret st0"
    using snoc by (simp add: refines_step_def service_new_def)
  from refines_trans [OF snoc service_step_refines [OF this]] show ?case by (simp add: service_run_snoc)
qed

end
