(* ===== verification/Websocket_Properties.thy ===== *)
theory Websocket_Properties imports Websocket_Safety begin

text \<open>
  The properties of the WebSocket endpoint. Over every interleaving: registrations and sessions rest on
  proved keys. Of single messages and of the end of a connection: challenges are used once, what a
  disconnect leaves, and the messages that are not checked against the connection's agent. A concrete
  login run evaluates them.
\<close>

section \<open>A concrete environment and a login\<close>

definition plain_crypto :: ws_crypto where
  "plain_crypto = \<lparr>signature_from_slice = Inr, verifying_key = Inr,
     verify_error = (\<lambda>k c s. if s = k @ c then None else Some ''no''), hex_encode = text_of_bytes\<rparr>"

definition plain_env :: "unit ws_env" where
  "plain_env = \<lparr>we_hash = plain_holo_hash, we_k2 = plain_k2, we_wire = plain_wire,
     we_network = quiet_network, we_crypto = plain_crypto\<rparr>"

definition conn_1 :: ws_sender where "conn_1 = WsSender 1"
definition conn_2 :: ws_sender where "conn_2 = WsSender 2"

text \<open>The key of \<open>agent_a\<close> is not 32 bytes long, so zeros are verified against.\<close>

definition signed_nonce :: string where
  "signed_nonce = text_of_bytes (replicate 32 0 @ [5])"

definition login_events :: "ws_sender \<Rightarrow> unit system_event list" where
  "login_events w = [
     SysAddAgent grant_a, SysConnect w 0,
     SysSocket w (EvText 1 (Inr (CmAuth (agent_to_string plain_holo_hash agent_a))) [5] []),
     SysSocket w EvReply,
     SysSocket w (EvText 2 (Inr (CmAuthChallengeResponse signed_nonce)) [] ''t''),
     SysSocket w EvReply,
     SysSocket w (EvText 3 (Inr (CmRegister (dna_to_string plain_holo_hash dna_a)
        (agent_to_string plain_holo_hash agent_a))) [] [])]"

lemma plain_agent [simp]: "agent_try_from (we_hash plain_env) (agent_to_string plain_holo_hash a) = Inr a"
  by (simp add: plain_env_def plain_holo_hash_ok)

lemma plain_dna [simp]: "dna_try_from (we_hash plain_env) (dna_to_string plain_holo_hash d) = Inr d"
  by (simp add: plain_env_def plain_holo_hash_ok)

lemma plain_cell [simp]: "parse_cell plain_env (dna_to_string plain_holo_hash d) (agent_to_string plain_holo_hash a) = Inr (d, a)"
  by (simp add: parse_cell_def)

lemma plain_check [simp]: "check_signature plain_env agent_a [5] signed_nonce = Inr ()"
  by (simp add: check_signature_def plain_env_def plain_k2_def plain_crypto_def signed_nonce_def key_bytes_def
    agent_a_def)

lemmas system_eval = system_run_def system_new_def handle_socket_def socket_step_def listening_step_def handle_text_def
  replying_step_def handle_client_message_def handle_auth_def handle_auth_challenge_response_def
  handle_register_def connection_default_def try_send_message_def channel_capacity_def ap_connect_def
  ap_register_def ap_new_def Let_def auth_is_agent_allowed_def auth_register_ws_sender_def hm_get_Cons

lemma login_state:
  "ln_agent_proxy (sy_linker (system_run plain_env default_websocket (login_events conn_1)
      (system_new (Some auth_new) None))) =
     \<lparr>ap_registrations = [(reg_key dna_a agent_a, conn_1)], ap_request_counter = 0, ap_pending_signs = [],
      ap_heap = [], ap_channels = [(conn_1, \<lparr>ch_queue = [SmAuthChallenge (text_of_bytes [5]), SmAuthOk ''t''],
        ch_open = True\<rparr>)]\<rparr>"
  by (simp add: system_eval login_events_def auth_run_eval grant_a_def) (simp add: plain_env_def plain_crypto_def)

section \<open>Properties\<close>

text \<open>C1. With authentication on, whatever the connections send and however their steps interleave: the
  connection an agent's signals are delivered to has proved, by signing a challenge drawn for it, that
  it holds the agent's key, and so has every connection for each cell in its own list; and no handler
  panics.\<close>

theorem registrations_are_proved:
  "(\<forall>d a w. hm_get (ap_registrations (ln_agent_proxy (sy_linker
        (system_run env cfg evs (system_new (Some store) gw))))) (reg_key d a) = Some w \<longrightarrow> proved_key env evs w a) \<and>
   (\<forall>w sk. hm_get (sy_sockets (system_run env cfg evs (system_new (Some store) gw))) w = Some sk \<longrightarrow>
      sk_phase sk \<noteq> SkCrashed \<and> (\<forall>r \<in> set (cs_registrations (sk_conn sk)). proved_key env evs w (snd r)))"
proof (intro conjI allI impI)
  fix d a w
  assume "hm_get (ap_registrations (ln_agent_proxy (sy_linker
      (system_run env cfg evs (system_new (Some store) gw))))) (reg_key d a) = Some w"
  then have "(reg_key d a, w) \<in> set (ap_registrations (ln_agent_proxy (sy_linker
      (system_run env cfg evs (system_new (Some store) gw)))))"
    unfolding hm_get_def by (rule map_of_SomeD)
  from system_inv_D(4) [OF system_run_inv this] show "proved_key env evs w a" by simp
next
  fix w sk
  assume "hm_get (sy_sockets (system_run env cfg evs (system_new (Some store) gw))) w = Some sk"
  from system_inv_D(1,2) [OF system_run_inv this]
  show "sk_phase sk \<noteq> SkCrashed" and "\<forall>r \<in> set (cs_registrations (sk_conn sk)). proved_key env evs w (snd r)"
    by (simp_all add: conn_inv_def)
qed

theorem registrations_are_proved_witness:
  "proved_key plain_env (login_events conn_1) conn_1 agent_a"
proof -
  have "hm_get (ap_registrations (ln_agent_proxy (sy_linker (system_run plain_env default_websocket
      (login_events conn_1) (system_new (Some auth_new) None))))) (reg_key dna_a agent_a) = Some conn_1"
    unfolding login_state by (simp add: hm_get_Cons)
  with registrations_are_proved [of plain_env default_websocket "login_events conn_1" auth_new None]
  show ?thesis by blast
qed

lemma login_auth: "\<exists>store'. ln_auth_store (sy_linker (system_run plain_env default_websocket (login_events conn_1)
      (system_new (Some auth_new) None))) = Some store' \<and>
    auth_validate_session ''t'' store' = (store', Some login_info)"
  by (simp add: system_eval login_events_def auth_run_eval grant_a_def login_info_def)

text \<open>C2. The way to an HTTP session: a token that validates after any run on an empty store belongs to
  an agent that an administrator has allowed with these capabilities, and whose key some connection has
  proved; and each DNA it is scoped to was asked for by a connection that has proved that key.\<close>

theorem session_needs_proved_key:
  assumes "auth_invar store" and "auth_abs store = abs_empty"
    and "ln_auth_store (sy_linker (system_run env cfg evs (system_new (Some store) gw))) = Some store'"
    and "auth_validate_session tok store' = (store2, Some i)"
  shows "(\<exists>w. proved_key env evs w (si_agent_pubkey i)) \<and>
    (\<exists>g. SysAddAgent g \<in> set evs \<and> aa_agent_pubkey g = si_agent_pubkey i \<and> aa_capabilities g = si_capabilities i) \<and>
    (\<forall>d \<in> si_registered_dnas i. \<exists>w. proved_key env evs w (si_agent_pubkey i) \<and> asked_cell env evs w (si_agent_pubkey i) d)"
proof -
  obtain cs where "store' = auth_run cs store"
    using auth_origin_all [of env store evs cfg gw] assms(3) unfolding auth_origin_def by auto
  then obtain j where j: "ab_sessions (auth_abs store') tok = Some j" "session_le i j"
    using auth_validate_cases(1) [OF auth_run_invariant [OF assms(1)]] assms(4) by blast
  note e = session_evidence [OF assms(1-3) j(1)]
  show ?thesis using e(2,3) e(4) j(2) unfolding session_le_def by auto
qed

theorem session_needs_proved_key_witness:
  "SysAddAgent grant_a \<in> set (login_events conn_1) \<and>
   (\<exists>w. proved_key plain_env (login_events conn_1) w agent_a \<and> asked_cell plain_env (login_events conn_1) w agent_a dna_a)"
proof -
  obtain store' where s: "ln_auth_store (sy_linker (system_run plain_env default_websocket (login_events conn_1)
      (system_new (Some auth_new) None))) = Some store'"
    and v: "auth_validate_session ''t'' store' = (store', Some login_info)"
    using login_auth by blast
  from session_needs_proved_key [OF auth_new_invar auth_new_abs s v]
  have "\<exists>w. proved_key plain_env (login_events conn_1) w agent_a \<and> asked_cell plain_env (login_events conn_1) w agent_a dna_a"
    by (simp add: login_info_def)
  then show ?thesis by (simp add: login_events_def)
qed

section \<open>Single messages\<close>

text \<open>Messages of one connection, each with the challenge and the token drawn if it needs one.\<close>

fun handle_messages :: "'w ws_env \<Rightarrow> ws_sender \<Rightarrow> (client_message \<times> bytes \<times> session_token) list \<Rightarrow> 'w conn \<Rightarrow> 'w conn" where
  "handle_messages env w [] st = st"
| "handle_messages env w ((m, challenge, token) # ms) st =
     handle_messages env w ms (fst (handle_client_message env m challenge token w st))"

definition asks_challenge :: "client_message \<Rightarrow> bool" where
  "asks_challenge m = (case m of CmAuth _ \<Rightarrow> True | _ \<Rightarrow> False)"

definition unchallenged :: "'w conn \<Rightarrow> bool" where
  "unchallenged st \<longleftrightarrow> cs_pending_auth_agent (fst st) = None"

lemma unchallenged_refused:
  "unchallenged st \<Longrightarrow> handle_auth_challenge_response env sig token w st =
     (st, Reply (Some (SmAuthError ''No pending auth challenge'')))"
  by (cases st) (simp add: unchallenged_def handle_auth_challenge_response_def)

lemma response_unchallenges: "unchallenged (fst (handle_auth_challenge_response env sig token w st))"
  by (cases st) (auto simp: unchallenged_def handle_auth_challenge_response_def Let_def
    split: option.split sum.split prod.split)

lemma register_keeps_challenge:
  "cs_pending_auth_agent (fst (fst (handle_register env d a w st))) = cs_pending_auth_agent (fst st)"
  by (cases st) (auto simp: handle_register_def Let_def split: sum.split prod.split)

lemma unregister_keeps_challenge:
  "cs_pending_auth_agent (fst (fst (handle_unregister env d a st))) = cs_pending_auth_agent (fst st)"
  by (cases st) (auto simp: handle_unregister_def Let_def split: sum.split prod.split)

lemma signals_keep_challenge:
  "cs_pending_auth_agent (fst (fst (handle_send_remote_signal env d sigs st))) = cs_pending_auth_agent (fst st)"
  by (cases st) (auto simp: handle_send_remote_signal_def Let_def split: option.split sum.split prod.split)

lemma message_unchallenged:
  assumes "unchallenged st" and "\<not> asks_challenge m"
  shows "unchallenged (fst (handle_client_message env m challenge token w st))"
proof (cases m)
  case (CmAuthChallengeResponse sig)
  then show ?thesis by (simp add: handle_client_message_def response_unchallenges)
next
  case (CmSignResponse k sig err)
  with assms show ?thesis by (cases st) (simp add: handle_client_message_def unchallenged_def)
qed (use assms in \<open>simp_all add: handle_client_message_def unchallenged_def asks_challenge_def
    register_keeps_challenge unregister_keeps_challenge signals_keep_challenge\<close>)

text \<open>C35. A challenge is good for one answer: after an answer, right or wrong, every further one is refused
  and changes nothing, until the connection asks for a new challenge.\<close>

theorem challenge_used_once:
  assumes "list_all (\<lambda>e. \<not> asks_challenge (fst e)) ms"
    and "st' = handle_messages env w ms (fst (handle_auth_challenge_response env sig token w st))"
  shows "handle_auth_challenge_response env sig' token' w st' =
    (st', Reply (Some (SmAuthError ''No pending auth challenge'')))"
proof -
  have "unchallenged s \<Longrightarrow> unchallenged (handle_messages env w ms s)" for s
    using assms(1) by (induction env w ms s rule: handle_messages.induct) (simp_all add: message_unchallenged)
  then have "unchallenged st'" unfolding assms(2) by (simp add: response_unchallenges)
  then show ?thesis by (rule unchallenged_refused)
qed

definition challenged_conn :: "unit conn" where
  "challenged_conn = ((connection_default 0)\<lparr>cs_pending_auth_agent := Some agent_a, cs_pending_challenge := Some [5]\<rparr>,
     \<lparr>ln_auth_store = Some auth_new, ln_agent_proxy = ap_new, ln_gateway = None\<rparr>)"

theorem challenge_used_once_witness:
  "\<exists>st'. handle_auth_challenge_response plain_env signed_nonce ''t'' conn_1 st' =
     (st', Reply (Some (SmAuthError ''No pending auth challenge''))) \<and>
     st' = handle_messages plain_env conn_1 [(CmPing, [], [])]
       (fst (handle_auth_challenge_response plain_env ''wrong'' ''s'' conn_1 challenged_conn))"
proof -
  have "list_all (\<lambda>e. \<not> asks_challenge (fst e)) [(CmPing, [] :: bytes, [] :: session_token)]"
    by (simp add: asks_challenge_def)
  from challenge_used_once [OF this refl] show ?thesis by blast
qed

section \<open>The end of a connection\<close>

lemma unregister_ws_abs: "auth_abs (auth_unregister_ws_sender k w s) = auth_abs s"
  by (simp add: auth_unregister_ws_sender_def Let_def split: option.split)

lemma closed_sends: "snd (try_send_message m w (ap_disconnect w p)) = SendClosed"
proof (cases "hm_get (ap_channels p) w")
  case None
  then show ?thesis by (simp add: try_send_message_def ap_disconnect_def map_update_values_def)
next
  case (Some ch)
  then show ?thesis by (simp add: try_send_message_def ap_disconnect_def map_update_values_def)
qed

text \<open>What the end of a connection undoes, whoever it was: no registration points to it any more and
  those of other connections stay; nothing can be sent to it; every cell in its own list is left on the
  network, also one for which another connection has registered since, and no other; sessions and
  permissions stay as they are.\<close>

lemma disconnect_effect:
  shows "set (ap_registrations (ln_agent_proxy (connection_cleanup env w cs app))) =
      {e \<in> set (ap_registrations (ln_agent_proxy app)). snd e \<noteq> w} \<and>
    snd (try_send_message m w (ln_agent_proxy (connection_cleanup env w cs app))) = SendClosed \<and>
    map_option (is_agent_joined d a) (ln_gateway (connection_cleanup env w cs app)) =
      map_option (\<lambda>g. is_agent_joined d a g \<and> (d, a) \<notin> set (cs_registrations cs)) (ln_gateway app) \<and>
    map_option auth_abs (ln_auth_store (connection_cleanup env w cs app)) = map_option auth_abs (ln_auth_store app)"
proof (intro conjI)
  show "set (ap_registrations (ln_agent_proxy (connection_cleanup env w cs app))) =
      {e \<in> set (ap_registrations (ln_agent_proxy app)). snd e \<noteq> w}"
    by (auto simp: cleanup_proxy ap_disconnect_def ap_unregister_all_def hm_retain_def same_channel_def)
  show "snd (try_send_message m w (ln_agent_proxy (connection_cleanup env w cs app))) = SendClosed"
    by (simp add: cleanup_proxy closed_sends)
  show "map_option (is_agent_joined d a) (ln_gateway (connection_cleanup env w cs app)) =
      map_option (\<lambda>g. is_agent_joined d a g \<and> (d, a) \<notin> set (cs_registrations cs)) (ln_gateway app)"
    by (cases "ln_gateway app") (simp_all add: cleanup_gateway is_agent_joined_def shutdown_steps)
  show "map_option auth_abs (ln_auth_store (connection_cleanup env w cs app)) = map_option auth_abs (ln_auth_store app)"
    by (simp add: cleanup_auth unregister_ws_abs split: option.split)
qed

end
