(* ===== verification/Service_Properties.thy ===== *)
theory Service_Properties imports Service_System Websocket_Properties begin

text \<open>
  The properties of the running linker: that it refines the system of connections, what a request must
  have behind it before an endpoint runs for it, and what a request without credentials can change.
\<close>

section \<open>Evidence survives the refinement\<close>

definition is_socket :: "'w system_event \<Rightarrow> bool" where
  "is_socket e \<longleftrightarrow> (\<exists>w x. e = SysSocket w x)"

lemma is_socket_simps [simp]: "is_socket (SysSocket w x)"
  by (simp add: is_socket_def)

lemma challenged_filter: "challenged env evs w a c \<Longrightarrow> challenged env (filter is_socket evs) w a c"
  unfolding challenged_def by fastforce

lemma proved_filter: "proved_key env evs w a \<Longrightarrow> proved_key env (filter is_socket evs) w a"
  unfolding proved_key_def using challenged_filter by fastforce

lemma asked_filter: "asked_cell env evs w a d \<Longrightarrow> asked_cell env (filter is_socket evs) w a d"
  unfolding asked_cell_def by fastforce

lemma stands_forD:
  assumes "stands_for env secret evs es"
  shows "filter is_socket es = socket_events evs" and "SysAddAgent g \<in> set es \<Longrightarrow> granted env secret evs g"
  using assms unfolding stands_for_def is_socket_def by blast+

lemma sys_of_new:
  assumes "st_auth_store st0 = Some store" and "ls_agent_proxy st0 = ap_new"
  shows "sys_of (service_new st0) = system_new (Some store) (ls_gateway st0)"
  using assms by (simp add: sys_of_def service_new_def system_new_def linker_of_def)

section \<open>Properties\<close>

text \<open>C4. The linker refines the system of connections: whatever requests, messages and network events it
  meets in whatever order, its stores, registrations and connections are those of a run of that system
  with the same steps of connections, and every grant in that run comes from a request to the admin
  endpoint that carried the secret. So all that was shown of those runs holds of the linker.\<close>

theorem linker_refines_connections:
  "\<exists>es. filter is_socket es = socket_events evs \<and>
     list_all (\<lambda>e. case e of SysAddAgent g \<Rightarrow> granted env (st_admin_secret st0) evs g | _ \<Rightarrow> True) es \<and>
     sys_of (service_run env st0 evs) =
       system_run (se_ws env) (cf_websocket (ls_configuration st0)) es (sys_of (service_new st0))"
proof -
  obtain es where es: "stands_for env (st_admin_secret st0) evs es"
      "sys_of (service_run env st0 evs) = system_run (se_ws env) (ws_config_of st0) es (sys_of (service_new st0))"
    using service_run_refines [of env st0 evs] unfolding refines_step_def by blast
  show ?thesis
    by (intro exI [of _ es] conjI)
      (use es stands_forD [OF es(1)] in \<open>auto simp: list_all_iff split: system_event.split\<close>)
qed

lemma run_session_evidence:
  assumes "auth_invar store" and "auth_abs store = abs_empty"
    and "st_auth_store st0 = Some store" and "ls_agent_proxy st0 = ap_new"
    and "st_auth_store (sv_state (service_run env st0 evs)) = Some store'"
    and "ab_sessions (auth_abs store') tok = Some j"
  shows "\<exists>w. proved_key (se_ws env) (socket_events evs) w (si_agent_pubkey j)"
    and "\<exists>g. granted env (st_admin_secret st0) evs g \<and> aa_agent_pubkey g = si_agent_pubkey j \<and>
      aa_capabilities g = si_capabilities j"
    and "d \<in> si_registered_dnas j \<Longrightarrow> \<exists>w. proved_key (se_ws env) (socket_events evs) w (si_agent_pubkey j) \<and>
      asked_cell (se_ws env) (socket_events evs) w (si_agent_pubkey j) d"
proof -
  obtain es where es: "stands_for env (st_admin_secret st0) evs es"
      "sys_of (service_run env st0 evs) = system_run (se_ws env) (ws_config_of st0) es (sys_of (service_new st0))"
    using service_run_refines [of env st0 evs] unfolding refines_step_def by blast
  have "ln_auth_store (sy_linker (sys_of (service_run env st0 evs))) = Some store'"
    using assms(5) by (simp add: sys_of_def linker_of_def)
  then have run: "ln_auth_store (sy_linker (system_run (se_ws env) (ws_config_of st0) es
      (system_new (Some store) (ls_gateway st0)))) = Some store'"
    unfolding es(2) sys_of_new [OF assms(3,4)] .
  note e = session_evidence [OF assms(1,2) run assms(6)]
  note s = stands_forD [OF es(1)]
  show "\<exists>w. proved_key (se_ws env) (socket_events evs) w (si_agent_pubkey j)"
    using e(2) proved_filter unfolding s(1) [symmetric] by blast
  show "\<exists>g. granted env (st_admin_secret st0) evs g \<and> aa_agent_pubkey g = si_agent_pubkey j \<and>
      aa_capabilities g = si_capabilities j"
    using e(3) s(2) by blast
  show "\<exists>w. proved_key (se_ws env) (socket_events evs) w (si_agent_pubkey j) \<and>
      asked_cell (se_ws env) (socket_events evs) w (si_agent_pubkey j) d" if "d \<in> si_registered_dnas j"
    using e(4) [OF that] proved_filter asked_filter unfolding s(1) [symmetric] by blast
qed

lemma run_auth_invar:
  assumes "auth_invar store" and "st_auth_store st0 = Some store" and "ls_agent_proxy st0 = ap_new"
  shows "\<exists>store'. st_auth_store (sv_state (service_run env st0 evs)) = Some store' \<and> auth_invar store'"
proof -
  obtain es where es: "sys_of (service_run env st0 evs) =
      system_run (se_ws env) (ws_config_of st0) es (sys_of (service_new st0))"
    using service_run_refines [of env st0 evs] unfolding refines_step_def by blast
  obtain cs where "ln_auth_store (sy_linker (sys_of (service_run env st0 evs))) = Some (auth_run cs store)"
    using auth_origin_all [of "se_ws env" store es "ws_config_of st0" "ls_gateway st0"]
    unfolding es sys_of_new [OF assms(2,3)] auth_origin_def by blast
  then show ?thesis
    using auth_run_invariant [OF assms(1), of cs] by (simp add: sys_of_def linker_of_def)
qed

text \<open>A request reaches its endpoint: its outcome depends on what the endpoints do.\<close>

definition reaches_endpoint :: "('w, 'c, 'b) service_env \<Rightarrow> ('w, 'c, 'a) linker_state \<Rightarrow> 'b request \<Rightarrow>
    ('w, 'c, 'a) linker_state \<Rightarrow> bool" where
  "reaches_endpoint env st0 rq st \<longleftrightarrow> (\<exists>table1 table2.
     create_router (we_hash (se_ws env)) table1 st0 rq st \<noteq> create_router (we_hash (se_ws env)) table2 st0 rq st)"

lemma reaches_authorised:
  assumes "reaches_endpoint env st0 rq st" and "app_invar st" and "st_auth_store st0 \<noteq> None"
    and "route_of True rq = Some (r, params)"
  shows "authorised (we_hash (se_ws env)) r st (rq\<lparr>rq_params := params\<rparr>)"
proof (rule ccontr)
  assume "\<not> authorised (we_hash (se_ws env)) r st (rq\<lparr>rq_params := params\<rparr>)"
  from guard_unauthorised [OF assms(2) this] assms(3,4)
  have "create_router (we_hash (se_ws env)) table1 st0 rq st = create_router (we_hash (se_ws env)) table2 st0 rq st"
    for table1 table2
    by (simp add: create_router_def authenticated_router_def dispatch_route_of)
  with assms(1) show False unfolding reaches_endpoint_def by blast
qed

text \<open>C3. The whole way to the DHT. On a linker with authentication, after any interleaving of requests,
  connections and network events from an empty store: a request that reaches a DHT endpoint is for a DNA
  that one connection asked for on behalf of an agent whose key it had proved by signing a challenge,
  and that very agent was granted the endpoint's capability by a request with the admin's secret.\<close>

theorem dht_access_is_earned:
  assumes "auth_invar store" and "auth_abs store = abs_empty"
    and "st_auth_store st0 = Some store" and "ls_agent_proxy st0 = ap_new"
    and "route_of True rq = Some (r, params)" and "gate_of r = DnaGate cap"
    and "reaches_endpoint env st0 rq (sv_state (service_run env st0 evs))"
  shows "\<exists>a s d w g. map_of params ''dna_hash'' = Some s \<and> dna_try_from (we_hash (se_ws env)) s = Inr d \<and>
    proved_key (se_ws env) (socket_events evs) w a \<and> asked_cell (se_ws env) (socket_events evs) w a d \<and>
    granted env (st_admin_secret st0) evs g \<and> aa_agent_pubkey g = a \<and> cap \<in> aa_capabilities g"
proof -
  let ?st = "sv_state (service_run env st0 evs)"
  obtain store' where st: "st_auth_store ?st = Some store'" and inv: "auth_invar store'"
    using run_auth_invar [OF assms(1,3,4)] by blast
  have "app_invar ?st" using st inv by (simp add: app_invar_def)
  from reaches_authorised [OF assms(7) this _ assms(5)] assms(3,6)
  have auth: "capable cap ?st (rq\<lparr>rq_params := params\<rparr>)" "in_dna_scope (we_hash (se_ws env)) ?st (rq\<lparr>rq_params := params\<rparr>)"
    by (simp_all add: authorised_def)
  then obtain tok j where j: "ab_sessions (auth_abs store') tok = Some j" "cap \<in> si_capabilities j"
    and sess: "session_of_request ?st (rq\<lparr>rq_params := params\<rparr>) = Some j"
    using st by (auto simp: capable_def session_of_request_def bind_eq_Some_conv split: option.splits)
  obtain s d where d: "map_of params ''dna_hash'' = Some s" "dna_try_from (we_hash (se_ws env)) s = Inr d"
      "d \<in> si_registered_dnas j"
    using auth(2) sess by (auto simp: in_dna_scope_def)
  note e = run_session_evidence [OF assms(1-4) st j(1)]
  from e(2) e(3) [OF d(3)] d(1,2) j(2) show ?thesis by blast
qed

subsection \<open>A login over the whole linker\<close>

definition plain_extract :: "add_agent_request option extractors" where
  "plain_extract = (let bad = (\<lambda>_. reply BAD_REQUEST EmptyBody) in
     \<lparr>ex_links_query = Inl \<circ> bad, ex_activity_query = Inl \<circ> bad, ex_must_get_body = Inl \<circ> bad,
      ex_publish_body = Inl \<circ> bad, ex_payload = Inl \<circ> bad, ex_test_signal = Inl \<circ> bad,
      ex_add_agent = (\<lambda>rq. case rq_body rq of None \<Rightarrow> Inl (bad rq) | Some b \<Rightarrow> Inr b),
      ex_remove_agent = Inl \<circ> bad, ex_upgrade = (\<lambda>_. Inr ())\<rparr>)"

definition plain_json :: json_forms where
  "plain_json = \<lparr>jf_space = (\<lambda>s. case s of SpaceId b \<Rightarrow> text_of_bytes b),
     jf_agent = (\<lambda>a. case a of AgentId b \<Rightarrow> text_of_bytes b), jf_dht_value = (\<lambda>_. JNull), jf_links = (\<lambda>_. JNull), jf_count = (\<lambda>_. Inr (JArray [])),
     jf_activity = (\<lambda>_. JNull), jf_must_get = (\<lambda>_. JNull), jf_transport_stats = (\<lambda>_. JNull)\<rparr>"

definition plain_service :: "(unit, nat, add_agent_request option) service_env" where
  "plain_service = \<lparr>se_ws = plain_env, se_ops = plain_ops, se_zome = plain_zome, se_conductor = sample_conductor,
     se_extract = plain_extract, se_json = plain_json, se_space_b64 = (\<lambda>s. Inr (bytes_of_text s)), se_version = ''0''\<rparr>"

definition silent_view :: kitsune_view where
  "silent_view = \<lparr>kv_list_spaces = [], kv_space_exists = (\<lambda>_. False), kv_peers = (\<lambda>_. Inr []),
     kv_local_agents = (\<lambda>_. Inr []), kv_transport = Inr (), kv_network_stats = Inl ''none''\<rparr>"

definition silent_inputs :: inputs where
  "silent_inputs = \<lparr>in_clock = (\<lambda>_. 0), in_get = (\<lambda>_ _ _. JoinFailed), in_links = (\<lambda>_ _ _. JoinFailed),
     in_count = (\<lambda>_ _ _. JoinFailed), in_activity = (\<lambda>_ _ _ _ _. JoinFailed), in_must_get = (\<lambda>_ _ _ _. JoinFailed),
     in_arrange = (\<lambda>m. m), in_view = silent_view\<rparr>"

definition fresh_linker :: "(unit, nat, unit) linker_state" where
  "fresh_linker = \<lparr>st_admin_secret = Some ''s'', st_auth_store = Some auth_new, ls_configuration = default_configuration,
     ls_agent_proxy = ap_new, ls_gateway = Some (gk_new ()),
     ls_kitsune = \<lparr>kn_enabled = True, kn_bootstrap_url = None, kn_relay_url = None, kn_kitsune = None\<rparr>,
     ls_app_conn = None, ls_op_store = Some op_store_new\<rparr>"

definition plain_request :: "http_method \<Rightarrow> string list \<Rightarrow> string \<Rightarrow> add_agent_request option \<Rightarrow>
    add_agent_request option request" where
  "plain_request m path tok body = \<lparr>rq_method = m, rq_path = path, rq_headers = [(''authorization'', ''Bearer '' @ tok)],
     rq_params = [], rq_context = None, rq_body = body\<rparr>"

definition grant_body :: add_agent_request where
  "grant_body = \<lparr>ar_agent_pubkey = agent_to_string plain_holo_hash agent_a, ar_capability_list = [DhtRead], ar_agent_label = None\<rparr>"

definition login_requests :: "(unit, add_agent_request option) service_event list" where
  "login_requests = [
     SvRequest (plain_request POST [''admin'', ''agents''] ''s'' (Some grant_body)) silent_inputs conn_2 0,
     SvRequest (plain_request GET [''ws''] [] None) silent_inputs conn_1 0]"

definition login_messages :: "(unit, add_agent_request option) service_event list" where
  "login_messages = [
     SvSocket conn_1 (EvText 1 (Inr (CmAuth (agent_to_string plain_holo_hash agent_a))) [5] []),
     SvSocket conn_1 EvReply,
     SvSocket conn_1 (EvText 2 (Inr (CmAuthChallengeResponse signed_nonce)) [] ''t''),
     SvSocket conn_1 EvReply,
     SvSocket conn_1 (EvText 3 (Inr (CmRegister (dna_to_string plain_holo_hash dna_a)
        (agent_to_string plain_holo_hash agent_a))) [] [])]"

lemmas service_eval = service_run_def service_new_def service_request_def serve_def create_router_def
  authenticated_router_def dispatch_route_def find_endpoints_def common_routes_def dht_routes_def dht_publish_route_def
  kitsune_routes_def admin_routes_def or_else_def method_serves_def guard_def gate_of_def require_admin_secret_def
  extract_bearer_token_def header_str_def visible_ascii_def strip_prefix_def extracted_def ws_handler_def
  start_connection_def service_socket_def plain_request_def admin_add_agent_def SWITCHING_PROTOCOLS_def

definition after_upgrade :: "(unit, nat, unit) service" where
  "after_upgrade = \<lparr>sv_state = fresh_linker\<lparr>st_auth_store := Some (auth_add_agent
       \<lparr>aa_agent_pubkey = agent_a, aa_capabilities = {DhtRead}, aa_label = None\<rparr> auth_new),
       ls_agent_proxy := ap_connect conn_1 ap_new\<rparr>,
     sv_sockets = [(conn_1, \<lparr>sk_conn = connection_default 0, sk_last_pong = 0, sk_phase = SkListening\<rparr>)],
     sv_signs = []\<rparr>"

lemma login_requests_run:
  "fold (service_step plain_service fresh_linker) login_requests (service_new fresh_linker) = after_upgrade"
  by (simp add: login_requests_def service_eval plain_service_def plain_extract_def fresh_linker_def grant_body_def
    handle_socket_def linker_of_def put_linker_def after_upgrade_def Let_def plain_env_def plain_holo_hash_ok
    hm_insert_def hm_remove_def hm_get_def)

lemma login_messages_run:
  "\<exists>sv. fold (service_step plain_service fresh_linker) login_messages after_upgrade = sv \<and>
     st_admin_secret (sv_state sv) = Some ''s'' \<and> (\<exists>store. st_auth_store (sv_state sv) = Some store \<and>
     auth_validate_session ''t'' store = (store, Some \<lparr>si_agent_pubkey = agent_a, si_capabilities = {DhtRead},
       si_registered_dnas = {dna_a}\<rparr>))"
  by (simp add: login_messages_def after_upgrade_def service_socket_def plain_service_def fresh_linker_def
    linker_of_def put_linker_def system_eval auth_run_eval)

definition own_read_request :: "add_agent_request option request" where
  "own_read_request = plain_request GET [''dht'', dna_to_string plain_holo_hash dna_a, ''record'', ''hash''] ''t'' None"

lemma own_read_route: "route_of True own_read_request =
    Some (RDhtRecord, [(''dna_hash'', dna_to_string plain_holo_hash dna_a), (''hash'', ''hash'')])"
  by (simp add: own_read_request_def route_of_def service_eval dna_a_text)

lemma dna_a_nonempty: "dna_to_string plain_holo_hash dna_a \<noteq> []"
  by (simp add: dna_a_text)

lemma own_read_answer:
  assumes "st_auth_store st = Some store"
    and "auth_validate_session ''t'' store = (store, Some \<lparr>si_agent_pubkey = agent_a, si_capabilities = {DhtRead},
       si_registered_dnas = {dna_a}\<rparr>)"
  shows "snd (create_router plain_holo_hash (\<lambda>_ _ st. (st, reply n EmptyBody)) fresh_linker own_read_request st) =
    reply n EmptyBody"
  using assms by (simp add: own_read_request_def service_eval fresh_linker_def require_dht_read_def check_capability_def
    si_has_capability_def require_dna_scope_def ac_has_dna_def dna_a_nonempty plain_holo_hash_ok)

lemma own_read_reaches:
  "reaches_endpoint plain_service fresh_linker own_read_request
     (sv_state (service_run plain_service fresh_linker (login_requests @ login_messages)))"
proof -
  let ?sv = "fold (service_step plain_service fresh_linker) login_messages after_upgrade"
  have run: "service_run plain_service fresh_linker (login_requests @ login_messages) = ?sv"
    unfolding service_run_def fold_append comp_apply login_requests_run ..
  obtain store where st: "st_auth_store (sv_state ?sv) = Some store"
    and v: "auth_validate_session ''t'' store = (store, Some \<lparr>si_agent_pubkey = agent_a, si_capabilities = {DhtRead},
       si_registered_dnas = {dna_a}\<rparr>)"
    using login_messages_run by blast
  let ?table = "\<lambda>n _ _ st. (st, reply n EmptyBody)"
  have "we_hash (se_ws plain_service) = plain_holo_hash" by (simp add: plain_service_def plain_env_def)
  then have "create_router (we_hash (se_ws plain_service)) (?table 200) fresh_linker own_read_request (sv_state ?sv) \<noteq>
      create_router (we_hash (se_ws plain_service)) (?table 201) fresh_linker own_read_request (sv_state ?sv)"
    using own_read_answer [OF st v, of 200] own_read_answer [OF st v, of 201] by auto
  then show ?thesis unfolding reaches_endpoint_def run by blast
qed

theorem dht_access_is_earned_witness:
  "\<exists>w g. proved_key plain_env (socket_events (login_requests @ login_messages)) w (aa_agent_pubkey g) \<and>
     asked_cell plain_env (socket_events (login_requests @ login_messages)) w (aa_agent_pubkey g) dna_a \<and>
     granted plain_service (Some ''s'') (login_requests @ login_messages) g \<and> DhtRead \<in> aa_capabilities g"
proof -
  have st: "st_auth_store fresh_linker = Some auth_new" "ls_agent_proxy fresh_linker = ap_new"
    and secret: "st_admin_secret fresh_linker = Some ''s''" by (simp_all add: fresh_linker_def)
  have gate: "gate_of RDhtRecord = DnaGate DhtRead" by (simp add: gate_of_def)
  have env: "se_ws plain_service = plain_env" "we_hash plain_env = plain_holo_hash"
    by (simp_all add: plain_service_def plain_env_def)
  from dht_access_is_earned [OF auth_new_invar auth_new_abs st own_read_route gate own_read_reaches]
  show ?thesis unfolding env secret by (auto simp: plain_holo_hash_ok)
qed

section \<open>Requests without credentials\<close>

text \<open>What the two routes without a gate can do: append the test signal of the request's body to the queue of
  the browser registered for its DNA and agent, and use the conductor for the one zome call of the request.\<close>

definition test_signal_put :: "('w, 'c, 'b) service_env \<Rightarrow> 'b request \<Rightarrow> ('w, 'c, 'a) linker_state \<Rightarrow>
    ('w, 'c, 'a) linker_state \<Rightarrow> bool" where
  "test_signal_put env rq st st' \<longleftrightarrow> (\<exists>body d a w ch. ex_test_signal (se_extract env) rq = Inr body \<and>
     dna_try_from (we_hash (se_ws env)) (tq_dna_hash body) = Inr d \<and>
     agent_try_from (we_hash (se_ws env)) (tq_agent_pubkey body) = Inr a \<and>
     hm_get (ap_registrations (ls_agent_proxy st)) (reg_key d a) = Some w \<and>
     hm_get (ap_channels (ls_agent_proxy st)) w = Some ch \<and> ch_open ch \<and> length (ch_queue ch) < channel_capacity \<and>
     st' = st\<lparr>ls_agent_proxy := (ls_agent_proxy st)\<lparr>ap_channels := hm_insert w (ch\<lparr>ch_queue := ch_queue ch @
       [SmSignal (tq_dna_hash body) (tq_agent_pubkey body) ''test'' (tq_zome_name body) (tq_signal body)]\<rparr>)
       (ap_channels (ls_agent_proxy st))\<rparr>\<rparr>)"

definition zome_call_made :: "('w, 'c, 'b) service_env \<Rightarrow> 'b request \<Rightarrow> ('w, 'c, 'a) linker_state \<Rightarrow>
    ('w, 'c, 'a) linker_state \<Rightarrow> bool" where
  "zome_call_made env rq st st' \<longleftrightarrow> (\<exists>payload. ex_payload (se_extract env) rq = Inr payload \<and>
     st' = st\<lparr>ls_app_conn := fst (zome_call (we_hash (se_ws env)) (se_zome env) (se_conductor env) (zome_path_of rq)
       payload (ls_app_conn st))\<rparr>)"

lemma send_signal_put:
  obtains (same) "fst (ap_send_signal d a m p) = p"
  | (put) w ch where "hm_get (ap_registrations p) (reg_key d a) = Some w" "hm_get (ap_channels p) w = Some ch"
      "ch_open ch" "length (ch_queue ch) < channel_capacity"
      "fst (ap_send_signal d a m p) = p\<lparr>ap_channels := hm_insert w (ch\<lparr>ch_queue := ch_queue ch @ [m]\<rparr>) (ap_channels p)\<rparr>"
proof (cases "hm_get (ap_registrations p) (reg_key d a)")
  case (Some w)
  show thesis
  proof (cases "hm_get (ap_channels p) w")
    case ch: (Some ch)
    show thesis
    proof (cases "ch_open ch \<and> length (ch_queue ch) < channel_capacity")
      case True
      with Some ch show thesis by (intro put) (auto simp: send_signal_fst try_send_message_def)
    qed (use same Some ch in \<open>auto simp: send_signal_fst try_send_message_def\<close>)
  qed (use same Some in \<open>simp add: send_signal_fst try_send_message_def\<close>)
qed (use same in \<open>simp add: send_signal_fst\<close>)

lemma test_signal_changes:
  assumes "ex_test_signal (se_extract env) rq = Inr body"
  shows "fst (test_signal_endpoint env body st) = st \<or> test_signal_put env rq st (fst (test_signal_endpoint env body st))"
proof (cases "\<exists>d a. dna_try_from (we_hash (se_ws env)) (tq_dna_hash body) = Inr d \<and>
    agent_try_from (we_hash (se_ws env)) (tq_agent_pubkey body) = Inr a")
  case False
  then show ?thesis by (auto simp: test_signal_endpoint_def test_signal_def split: sum.split)
next
  case True
  then obtain d a where k: "dna_try_from (we_hash (se_ws env)) (tq_dna_hash body) = Inr d"
    "agent_try_from (we_hash (se_ws env)) (tq_agent_pubkey body) = Inr a" by blast
  let ?m = "SmSignal (tq_dna_hash body) (tq_agent_pubkey body) ''test'' (tq_zome_name body) (tq_signal body)"
  have run: "fst (test_signal_endpoint env body st) =
      st\<lparr>ls_agent_proxy := fst (ap_send_signal d a ?m (ls_agent_proxy st))\<rparr>"
    using k by (simp add: test_signal_endpoint_def test_signal_def split: prod.split bool.split)
  show ?thesis
  proof (cases rule: send_signal_put [of d a ?m "ls_agent_proxy st"])
    case (put w ch)
    show ?thesis unfolding run put(5) test_signal_put_def
      by (rule disjI2, intro exI conjI, rule assms, rule k(1), rule k(2), rule put(1), rule put(2), rule put(3),
        rule put(4), rule refl)
  qed (simp add: run)
qed

text \<open>What a request without credentials leaves on an open route.\<close>

definition harmless :: "('w, 'c, 'b) service_env \<Rightarrow> route \<Rightarrow> 'b request \<Rightarrow> ('w, 'c, 'a) linker_state \<Rightarrow>
    ('w, 'c, 'a) linker_state \<Rightarrow> bool" where
  "harmless env r rq st st' \<longleftrightarrow> st' = st \<or> (r = RTestSignal \<and> test_signal_put env rq st st') \<or>
     (r = RZomeCall \<and> zome_call_made env rq st st')"

lemma open_route_changes:
  assumes "gate_of r = Open"
  shows "harmless env r rq st (fst (handle_route env inp r rq st))"
proof (cases r)
  case RTestSignal
  then show ?thesis using test_signal_changes [of env rq]
    by (cases "ex_test_signal (se_extract env) rq") (auto simp: harmless_def extracted_def)
next
  case RZomeCall
  then show ?thesis
    by (cases "ex_payload (se_extract env) rq")
      (auto simp: harmless_def extracted_def zome_call_made_def zome_call_endpoint_def split: prod.split)
qed (use assms in \<open>auto simp: harmless_def gate_of_def reads_def ws_handler_def extracted_def split: sum.split\<close>)

lemma anonymous_refused:
  assumes "gate_of r \<noteq> Open" and "st_auth_store st \<noteq> None" and "extract_bearer_token rq = None"
  shows "\<exists>msg. guard h r handler rq st = (st, reply UNAUTHORIZED msg)"
  using assms
  by (cases "gate_of r") (auto simp: guard_def require_dht_read_def require_dht_write_def require_k2_def
    check_capability_def require_admin_secret_def split: capability.split option.split)

text \<open>C10. Without a token, on a linker with authentication, nothing of value changes, whatever the path,
  method and body. A request on a gated route is answered 401 and leaves the whole state as it is, and so
  does one on no route. Of the routes without a gate, the health check and the upgrade leave the state as
  it is; the test signal can only append its one message to the queue of the browser registered for the
  DNA and agent it names, when that connection is open and has room; and a zome call can only do to the
  conductor's connection what that one call does.\<close>

theorem anonymous_requests_change_nothing:
  assumes "st_auth_store st0 \<noteq> None" and "st_auth_store st \<noteq> None" and "extract_bearer_token rq = None"
  shows "case route_of True rq of
     None \<Rightarrow> fst (serve env st0 inp rq st) = st
   | Some (r, params) \<Rightarrow>
       if gate_of r = Open then harmless env r (rq\<lparr>rq_params := params\<rparr>) st (fst (serve env st0 inp rq st))
       else fst (serve env st0 inp rq st) = st \<and> rs_status (snd (serve env st0 inp rq st)) = UNAUTHORIZED"
proof (cases "route_of True rq")
  case None
  with assms(1) show ?thesis
    by (simp add: serve_def create_router_def authenticated_router_def dispatch_route_of)
next
  case (Some rp)
  obtain r params where rp: "rp = (r, params)" by fastforce
  have run: "serve env st0 inp rq st = guard (we_hash (se_ws env)) r (handle_route env inp r) (rq\<lparr>rq_params := params\<rparr>) st"
    using assms(1) Some rp by (simp add: serve_def create_router_def authenticated_router_def dispatch_route_of)
  show ?thesis
  proof (cases "gate_of r = Open")
    case True
    with Some rp open_route_changes [OF True] show ?thesis unfolding run by (simp add: guard_def)
  next
    case False
    have "extract_bearer_token (rq\<lparr>rq_params := params\<rparr>) = None"
      using assms(3) by (simp add: extract_bearer_token_def header_str_def)
    from anonymous_refused [OF False assms(2) this] obtain msg where
      "serve env st0 inp rq st = (st, reply UNAUTHORIZED msg)" unfolding run by blast
    with Some rp False show ?thesis by simp
  qed
qed

definition no_token_request :: "add_agent_request option request" where
  "no_token_request = own_read_request\<lparr>rq_headers := []\<rparr>"

theorem anonymous_requests_change_nothing_witness:
  "fst (serve plain_service fresh_linker silent_inputs no_token_request fresh_linker) = fresh_linker \<and>
   rs_status (snd (serve plain_service fresh_linker silent_inputs no_token_request fresh_linker)) = UNAUTHORIZED"
proof -
  have a: "st_auth_store fresh_linker \<noteq> None" by (simp add: fresh_linker_def)
  have t: "extract_bearer_token no_token_request = None"
    by (simp add: no_token_request_def extract_bearer_token_def header_str_def)
  have same: "rq_method no_token_request = rq_method own_read_request" "rq_path no_token_request = rq_path own_read_request"
    by (simp_all add: no_token_request_def)
  have "route_of True no_token_request = route_of True own_read_request" unfolding route_of_def same ..
  with anonymous_requests_change_nothing [OF a a t, of plain_service silent_inputs] own_read_route
  show ?thesis by (simp add: gate_of_def)
qed

end
