(* ===== verification/Wire_Preflight.thy ===== *)
theory Wire_Preflight imports Gateway_Kitsune begin

text \<open>
  The handshake of kitsune2 peers (\<open>src/wire_preflight.rs\<close> and the preflight methods of
  \<open>src/gateway_kitsune.rs\<close>): the message, the cache of it that follows the agents kitsune2 publishes,
  and the check of a peer's message. MessagePack and the encoding of a signed agent info are the
  parameter \<open>preflight_api\<close>; a mutex is held for one definition's state change at a time.
\<close>

section \<open>The message\<close>

record network_compat_params =
  np_proto_ver :: u32

definition HCP2P_PROTO_VER :: u32 where "HCP2P_PROTO_VER = 2"

definition compat_default :: network_compat_params where
  "compat_default = \<lparr>np_proto_ver = HCP2P_PROTO_VER\<rparr>"

record wire_preflight_message =
  wp_compat :: network_compat_params
  wp_agents :: "string list"

definition preflight_new :: wire_preflight_message where
  "preflight_new = \<lparr>wp_compat = compat_default, wp_agents = []\<rparr>"

record agent_info_signed =
  as_info :: agent_info
  as_signature :: bytes

record preflight_api =
  encode_preflight :: "wire_preflight_message \<Rightarrow> string + bytes"
  decode_preflight :: "bytes \<Rightarrow> string + wire_preflight_message"
  encode_agent :: "agent_info_signed \<Rightarrow> string + string"

text \<open>What the crate documents of the codec: a message encodes, and decodes to itself.\<close>

definition preflight_ok :: "preflight_api \<Rightarrow> bool" where
  "preflight_ok pa \<longleftrightarrow> (\<forall>m. \<exists>b. encode_preflight pa m = Inr b \<and> decode_preflight pa b = Inr m)"

section \<open>The cache\<close>

record preflight_cache =
  pc_preflight :: bytes
  pc_compat :: network_compat_params
  pc_agents :: "agent_info_signed list"

text \<open>\<open>None\<close> is the panic of the \<open>expect\<close> on the empty message.\<close>

definition cache_new :: "preflight_api \<Rightarrow> preflight_cache option" where
  "cache_new pa = (case encode_preflight pa preflight_new of
     Inl _ \<Rightarrow> None
   | Inr initial \<Rightarrow> Some \<lparr>pc_preflight = initial, pc_compat = compat_default, pc_agents = []\<rparr>)"

definition same_cell :: "agent_info_signed \<Rightarrow> agent_info_signed \<Rightarrow> bool" where
  "same_cell a b \<longleftrightarrow> ai_agent (as_info a) = ai_agent (as_info b) \<and> ai_space (as_info a) = ai_space (as_info b)"

definition encode_agents :: "preflight_api \<Rightarrow> agent_info_signed list \<Rightarrow> string list" where
  "encode_agents pa agents = List.map_filter
     (\<lambda>a. case encode_agent pa a of Inr s \<Rightarrow> Some s | Inl _ \<Rightarrow> None) agents"

text \<open>\<open>add_agent\<close> holds the lock of the agents for its first part and that of the message for its
  second; between the two another task may run.\<close>

definition add_agent_update ::
    "preflight_api \<Rightarrow> int \<Rightarrow> agent_info_signed \<Rightarrow> preflight_cache \<Rightarrow> preflight_cache \<times> string list" where
  "add_agent_update pa now info c =
     (let agents = filter (\<lambda>a. \<not> ai_expires_at (as_info a) < now \<and> \<not> same_cell a info) (pc_agents c) @ [info]
      in (c\<lparr>pc_agents := agents\<rparr>, encode_agents pa agents))"

definition add_agent_publish :: "preflight_api \<Rightarrow> string list \<Rightarrow> preflight_cache \<Rightarrow> preflight_cache" where
  "add_agent_publish pa encoded c =
     (case encode_preflight pa \<lparr>wp_compat = pc_compat c, wp_agents = encoded\<rparr> of
        Inl _ \<Rightarrow> c
      | Inr b \<Rightarrow> c\<lparr>pc_preflight := b\<rparr>)"

definition cache_add_agent ::
    "preflight_api \<Rightarrow> int \<Rightarrow> agent_info_signed \<Rightarrow> preflight_cache \<Rightarrow> preflight_cache" where
  "cache_add_agent pa now info c = (case add_agent_update pa now info c of
     (c', encoded) \<Rightarrow> add_agent_publish pa encoded c')"

definition cache_agent_count :: "preflight_cache \<Rightarrow> nat" where
  "cache_agent_count c = length (pc_agents c)"

section \<open>The bootstrap wrapper\<close>

text \<open>The wrapped bootstrap is a function on a world of its own.\<close>

definition boot_put :: "preflight_api \<Rightarrow> (agent_info_signed \<Rightarrow> 'w \<Rightarrow> 'w) \<Rightarrow> int \<Rightarrow> agent_info_signed \<Rightarrow>
    preflight_cache \<times> 'w \<Rightarrow> preflight_cache \<times> 'w" where
  "boot_put pa orig now info st = (case st of (c, w) \<Rightarrow> (cache_add_agent pa now info c, orig info w))"

definition boot_create :: "(space_id \<Rightarrow> string + (agent_info_signed \<Rightarrow> 'w \<Rightarrow> 'w)) \<Rightarrow> preflight_api \<Rightarrow> space_id \<Rightarrow>
    string + (int \<Rightarrow> agent_info_signed \<Rightarrow> preflight_cache \<times> 'w \<Rightarrow> preflight_cache \<times> 'w)" where
  "boot_create orig_create pa sp = (case orig_create sp of
     Inl e \<Rightarrow> Inl e
   | Inr orig \<Rightarrow> Inr (boot_put pa orig))"

section \<open>The handshake\<close>

definition preflight_gather_outgoing :: "preflight_cache \<Rightarrow> url \<Rightarrow> string + bytes" where
  "preflight_gather_outgoing c peer_url = Inr (pc_preflight c)"

definition preflight_validate_incoming :: "preflight_api \<Rightarrow> url \<Rightarrow> bytes \<Rightarrow> string + unit" where
  "preflight_validate_incoming pa peer_url data = (case decode_preflight pa data of
     Inl e \<Rightarrow> Inl (''Invalid preflight from peer: '' @ e)
   | Inr m \<Rightarrow> (if np_proto_ver (wp_compat m) \<noteq> 2
       then Inl (''Incompatible protocol version from '' @ peer_url @ '': expected 2, got '' @
         show_nat (unat (np_proto_ver (wp_compat m))))
       else Inr ()))"

section \<open>Properties\<close>

text \<open>One put per time and info, in the order in which the tasks finish.\<close>

definition cache_run :: "preflight_api \<Rightarrow> (int \<times> agent_info_signed) list \<Rightarrow> preflight_cache \<Rightarrow> preflight_cache" where
  "cache_run pa puts c = fold (\<lambda>p. cache_add_agent pa (fst p) (snd p)) puts c"

text \<open>The message is the encoding of the cached agents, of which there is one per agent and space.\<close>

definition cache_ok :: "preflight_api \<Rightarrow> preflight_cache \<Rightarrow> bool" where
  "cache_ok pa c \<longleftrightarrow> pc_compat c = compat_default \<and>
     distinct (map (\<lambda>a. (ai_agent (as_info a), ai_space (as_info a))) (pc_agents c)) \<and>
     decode_preflight pa (pc_preflight c) = Inr \<lparr>wp_compat = compat_default, wp_agents = encode_agents pa (pc_agents c)\<rparr>"

lemma cache_new_ok:
  assumes "preflight_ok pa"
  obtains c where "cache_new pa = Some c" "cache_ok pa c" "pc_agents c = []"
proof -
  obtain b where "encode_preflight pa preflight_new = Inr b" "decode_preflight pa b = Inr preflight_new"
    using assms unfolding preflight_ok_def by blast
  then show thesis
    by (intro that [of "\<lparr>pc_preflight = b, pc_compat = compat_default, pc_agents = []\<rparr>"])
      (simp_all add: cache_new_def cache_ok_def preflight_new_def encode_agents_def List.map_filter_def)
qed

lemma cache_add_agents:
  "pc_agents (cache_add_agent pa now info c) =
     filter (\<lambda>a. \<not> ai_expires_at (as_info a) < now \<and> \<not> same_cell a info) (pc_agents c) @ [info]"
  by (simp add: cache_add_agent_def add_agent_update_def add_agent_publish_def Let_def split: sum.split)

lemma cache_add_agent_ok:
  assumes "preflight_ok pa" and "cache_ok pa c"
  shows "cache_ok pa (cache_add_agent pa now info c)"
proof -
  let ?c = "cache_add_agent pa now info c"
  let ?agents = "filter (\<lambda>a. \<not> ai_expires_at (as_info a) < now \<and> \<not> same_cell a info) (pc_agents c) @ [info]"
  let ?key = "\<lambda>a. (ai_agent (as_info a), ai_space (as_info a))"
  have compat: "pc_compat c = compat_default" using assms(2) by (simp add: cache_ok_def)
  obtain b where b: "encode_preflight pa \<lparr>wp_compat = compat_default, wp_agents = encode_agents pa ?agents\<rparr> = Inr b"
      "decode_preflight pa b = Inr \<lparr>wp_compat = compat_default, wp_agents = encode_agents pa ?agents\<rparr>"
    using assms(1) unfolding preflight_ok_def by blast
  have "pc_preflight ?c = b" and "pc_compat ?c = compat_default"
    by (simp_all add: cache_add_agent_def add_agent_update_def add_agent_publish_def Let_def compat b(1)
      split: sum.split)
  then have "decode_preflight pa (pc_preflight ?c) =
      Inr \<lparr>wp_compat = compat_default, wp_agents = encode_agents pa (pc_agents ?c)\<rparr>" and "pc_compat ?c = compat_default"
    using b(2) by (simp_all add: cache_add_agents)
  moreover have "distinct (map ?key (pc_agents ?c))"
    using assms(2) by (auto simp: cache_add_agents cache_ok_def same_cell_def distinct_map_filter)
  ultimately show ?thesis unfolding cache_ok_def by blast
qed

lemma cache_run_ok: "preflight_ok pa \<Longrightarrow> cache_ok pa c \<Longrightarrow> cache_ok pa (cache_run pa puts c)"
  by (induction puts arbitrary: c) (simp_all add: cache_run_def cache_add_agent_ok)

text \<open>An info is current after some puts when it was put and no later one replaced it or came after
  its expiry.\<close>

definition current_after :: "agent_info_signed \<Rightarrow> (int \<times> agent_info_signed) list \<Rightarrow> bool" where
  "current_after a puts \<longleftrightarrow> (\<exists>before t later. puts = before @ (t, a) # later \<and>
     (\<forall>p \<in> set later. \<not> same_cell a (snd p) \<and> \<not> ai_expires_at (as_info a) < fst p))"

lemma current_after_snoc:
  "current_after a (puts @ [(t, i)]) \<longleftrightarrow>
     a = i \<or> (current_after a puts \<and> \<not> same_cell a i \<and> \<not> ai_expires_at (as_info a) < t)"
proof
  assume "current_after a (puts @ [(t, i)])"
  then obtain before u later where eq: "puts @ [(t, i)] = before @ (u, a) # later"
    and l: "\<forall>p \<in> set later. \<not> same_cell a (snd p) \<and> \<not> ai_expires_at (as_info a) < fst p"
    unfolding current_after_def by blast
  show "a = i \<or> (current_after a puts \<and> \<not> same_cell a i \<and> \<not> ai_expires_at (as_info a) < t)"
  proof (cases later rule: rev_cases)
    case Nil
    with eq show ?thesis by simp
  next
    case (snoc later' p)
    with eq have "puts = before @ (u, a) # later'" "p = (t, i)" by auto
    with l snoc show ?thesis unfolding current_after_def by fastforce
  qed
next
  assume "a = i \<or> (current_after a puts \<and> \<not> same_cell a i \<and> \<not> ai_expires_at (as_info a) < t)"
  then show "current_after a (puts @ [(t, i)])"
  proof
    assume "a = i"
    then have "puts @ [(t, i)] = puts @ (t, a) # []" by simp
    then show ?thesis unfolding current_after_def by fastforce
  next
    assume c: "current_after a puts \<and> \<not> same_cell a i \<and> \<not> ai_expires_at (as_info a) < t"
    then obtain before u later where "puts = before @ (u, a) # later"
      and "\<forall>p \<in> set later. \<not> same_cell a (snd p) \<and> \<not> ai_expires_at (as_info a) < fst p"
      unfolding current_after_def by blast
    with c have "puts @ [(t, i)] = before @ (u, a) # (later @ [(t, i)])"
      and "\<forall>p \<in> set (later @ [(t, i)]). \<not> same_cell a (snd p) \<and> \<not> ai_expires_at (as_info a) < fst p" by auto
    then show ?thesis unfolding current_after_def by blast
  qed
qed

lemma cache_run_agents:
  "pc_agents c = [] \<Longrightarrow> set (pc_agents (cache_run pa puts c)) = {a. current_after a puts}"
proof (induction puts rule: rev_induct)
  case Nil
  then show ?case by (simp add: cache_run_def current_after_def)
next
  case (snoc p puts)
  obtain t i where p: "p = (t, i)" by (cases p)
  have "cache_run pa (puts @ [p]) c = cache_add_agent pa t i (cache_run pa puts c)" by (simp add: cache_run_def p)
  then have "set (pc_agents (cache_run pa (puts @ [p]) c)) =
      {a \<in> set (pc_agents (cache_run pa puts c)). \<not> ai_expires_at (as_info a) < t \<and> \<not> same_cell a i} \<union> {i}"
    by (simp add: cache_add_agents)
  also have "\<dots> = {a. current_after a (puts @ [p])}"
    unfolding p current_after_snoc using snoc by blast
  finally show ?case .
qed

lemma distinct_singleton_list: "distinct xs \<Longrightarrow> set xs = {x} \<Longrightarrow> xs = [x]"
proof (cases xs)
  case (Cons y ys)
  assume "distinct xs" "set xs = {x}"
  with Cons have "y = x" "ys = []" by (cases ys; force)+
  with Cons show ?thesis by simp
qed simp

text \<open>C32. The handshake: after any sequence of published agent infos, the message handed to a peer passes
  the peer's check, and it lists the cached infos, one per agent and space: exactly those that were
  published and since neither replaced nor, at the time of a later put, expired.\<close>

theorem preflight_follows_agents:
  assumes "preflight_ok pa" and "cache_new pa = Some c0"
  shows "\<exists>data agents. preflight_gather_outgoing (cache_run pa puts c0) u = Inr data \<and>
    preflight_validate_incoming pa u' data = Inr () \<and>
    decode_preflight pa data = Inr \<lparr>wp_compat = compat_default, wp_agents = encode_agents pa agents\<rparr> \<and>
    set agents = {a. current_after a puts} \<and>
    distinct (map (\<lambda>a. (ai_agent (as_info a), ai_space (as_info a))) agents)"
proof -
  obtain c where c: "cache_new pa = Some c" "cache_ok pa c" "pc_agents c = []"
    using cache_new_ok [OF assms(1)] .
  with assms(2) have c0: "c0 = c" by simp
  let ?c = "cache_run pa puts c"
  have ok: "cache_ok pa ?c" by (rule cache_run_ok [OF assms(1) c(2)])
  then have "decode_preflight pa (pc_preflight ?c) =
      Inr \<lparr>wp_compat = compat_default, wp_agents = encode_agents pa (pc_agents ?c)\<rparr>" by (simp add: cache_ok_def)
  then have "preflight_validate_incoming pa u' (pc_preflight ?c) = Inr ()"
    by (simp add: preflight_validate_incoming_def compat_default_def HCP2P_PROTO_VER_def)
  with ok cache_run_agents [OF c(3), of pa puts] show ?thesis unfolding c0
    by (intro exI [of _ "pc_preflight ?c"] exI [of _ "pc_agents ?c"])
      (simp add: preflight_gather_outgoing_def cache_ok_def)
qed

text \<open>A codec to evaluate on: the version, then each agent's text with its length.\<close>

fun text_bytes :: "string list \<Rightarrow> bytes" where
  "text_bytes [] = []"
| "text_bytes (s # ss) = replicate (length s) 1 @ 0 # bytes_of_text s @ text_bytes ss"

function read_texts :: "bytes \<Rightarrow> string list" where
  "read_texts b = (if b = [] then [] else
     (let n = length (takeWhile (\<lambda>x. x = 1) b); r = drop (Suc n) b
      in text_of_bytes (take n r) # read_texts (drop n r)))"
  by pat_completeness auto
termination
  by (relation "measure length") auto

declare read_texts.simps [simp del]

lemma text_of_bytes_of_text: "text_of_bytes (bytes_of_text s) = s"
proof (induction s)
  case (Cons c s)
  have "char_of (unat (word_of_nat (of_char c) :: byte)) = c"
  proof -
    have "(of_char c :: nat) < 256" by (rule nat_of_char_less_256)
    then have "unat (word_of_nat (of_char c) :: byte) = of_char c" by (simp add: unat_of_nat take_bit_eq_mod)
    then show ?thesis by simp
  qed
  with Cons show ?case by (simp add: text_of_bytes_def bytes_of_text_def)
qed (simp add: text_of_bytes_def bytes_of_text_def)

lemma read_text_bytes: "read_texts (text_bytes ss) = ss"
proof (induction ss)
  case (Cons s ss)
  have l: "length (bytes_of_text s) = length s" by (simp add: bytes_of_text_def)
  have t: "takeWhile (\<lambda>x. x = 1) (replicate (length s) 1 @ 0 # rest) = replicate (length s) (1 :: byte)" for rest
    by (induction s) simp_all
  show ?case
    by (subst read_texts.simps) (simp add: Let_def t l Cons.IH text_of_bytes_of_text)
qed (simp add: read_texts.simps)

definition plain_preflight :: preflight_api where
  "plain_preflight = \<lparr>
     encode_preflight = (\<lambda>m. Inr (text_bytes (show_nat (unat (np_proto_ver (wp_compat m))) # wp_agents m))),
     decode_preflight = (\<lambda>b. case read_texts b of
        [] \<Rightarrow> Inl ''eof''
      | v # ss \<Rightarrow> (case parse_uint (2 ^ 32) v of None \<Rightarrow> Inl ''version''
          | Some n \<Rightarrow> Inr \<lparr>wp_compat = \<lparr>np_proto_ver = word_of_nat n\<rparr>, wp_agents = ss\<rparr>)),
     encode_agent = (\<lambda>a. Inr (show_nat (nat (ai_expires_at (as_info a)))))\<rparr>"

lemma plain_preflight_ok: "preflight_ok plain_preflight"
  unfolding preflight_ok_def
proof
  fix m :: wire_preflight_message
  have "unat (np_proto_ver (wp_compat m)) < 2 ^ LENGTH(32)" by (rule unsigned_less)
  then have "parse_uint (2 ^ 32) (show_nat (unat (np_proto_ver (wp_compat m)))) = Some (unat (np_proto_ver (wp_compat m)))"
    by (intro parse_show_uint) simp
  then show "\<exists>b. encode_preflight plain_preflight m = Inr b \<and> decode_preflight plain_preflight b = Inr m"
    by (simp add: plain_preflight_def read_text_bytes del: text_bytes.simps)
qed

definition info_of :: "agent_id \<Rightarrow> int \<Rightarrow> agent_info_signed" where
  "info_of a expires = \<lparr>as_info = \<lparr>ai_agent = a, ai_space = SpaceId [7], ai_created_at = 0, ai_expires_at = expires,
     ai_is_tombstone = False, ai_url = None, ai_storage_arc = ArcEmpty\<rparr>, as_signature = []\<rparr>"

theorem preflight_follows_agents_witness:
  "\<exists>c0 data. cache_new plain_preflight = Some c0 \<and>
     preflight_gather_outgoing (cache_run plain_preflight
       [(1, info_of (AgentId [1]) 5), (6, info_of (AgentId [2]) 9)] c0) ''u'' = Inr data \<and>
     decode_preflight plain_preflight data = Inr \<lparr>wp_compat = compat_default, wp_agents = [''9'']\<rparr>"
proof -
  obtain c0 where c0: "cache_new plain_preflight = Some c0" using cache_new_ok [OF plain_preflight_ok] .
  let ?puts = "[(1, info_of (AgentId [1]) 5), (6, info_of (AgentId [2]) 9)]"
  have none: "\<not> current_after a []" for a by (simp add: current_after_def)
  have "current_after a ?puts \<longleftrightarrow> a = info_of (AgentId [2]) 9" for a
    using current_after_snoc [of a "[(1, info_of (AgentId [1]) 5)]" 6 "info_of (AgentId [2]) 9"]
      current_after_snoc [of a "[]" 1 "info_of (AgentId [1]) 5"] none [of a]
    by (cases "a = info_of (AgentId [1]) 5") (simp_all add: info_of_def)
  then have "{a. current_after a ?puts} = {info_of (AgentId [2]) 9}" by auto
  with preflight_follows_agents [OF plain_preflight_ok c0, of ?puts "''u''" "''v''"]
  obtain data agents where d: "preflight_gather_outgoing (cache_run plain_preflight ?puts c0) ''u'' = Inr data"
      "decode_preflight plain_preflight data = Inr \<lparr>wp_compat = compat_default, wp_agents = encode_agents plain_preflight agents\<rparr>"
      "set agents = {info_of (AgentId [2]) 9}"
      "distinct (map (\<lambda>a. (ai_agent (as_info a), ai_space (as_info a))) agents)" by auto
  from d(4) have "distinct agents" by (simp add: distinct_map)
  from distinct_singleton_list [OF this d(3)] have "agents = [info_of (AgentId [2]) 9]" .
  moreover have "show_nat 9 = ''9''" by code_simp
  ultimately have "encode_agents plain_preflight agents = [''9'']"
    by (simp add: encode_agents_def List.map_filter_def plain_preflight_def info_of_def)
  with c0 d(1,2) show ?thesis by metis
qed

text \<open>The cache can fall behind: when a second agent is published between the two locks of a first
  one's \<open>add_agent\<close>, the first task writes its older list over the newer message, so the second agent is
  cached and yet not in what peers are sent.\<close>

lemma preflight_race:
  assumes "preflight_ok pa" and "add_agent_update pa t1 first c = (c1, enc1)"
    and "add_agent_update pa t2 second c1 = (c2, enc2)"
    and "encode_agent pa second = Inr s" and "s \<notin> set enc1"
  shows "\<exists>m. decode_preflight pa (pc_preflight (add_agent_publish pa enc1 (add_agent_publish pa enc2 c2))) = Inr m \<and>
    s \<notin> set (wp_agents m) \<and>
    s \<in> set (encode_agents pa (pc_agents (add_agent_publish pa enc1 (add_agent_publish pa enc2 c2))))"
proof -
  obtain b where b: "encode_preflight pa \<lparr>wp_compat = pc_compat (add_agent_publish pa enc2 c2), wp_agents = enc1\<rparr> = Inr b"
      "decode_preflight pa b = Inr \<lparr>wp_compat = pc_compat (add_agent_publish pa enc2 c2), wp_agents = enc1\<rparr>"
    using assms(1) unfolding preflight_ok_def by blast
  have "second \<in> set (pc_agents c2)" using assms(3) by (auto simp: add_agent_update_def Let_def)
  moreover have "pc_agents (add_agent_publish pa e d) = pc_agents d" for e d
    by (simp add: add_agent_publish_def split: sum.split)
  ultimately have "s \<in> set (encode_agents pa (pc_agents (add_agent_publish pa enc1 (add_agent_publish pa enc2 c2))))"
    using assms(4) by (force simp: encode_agents_def List.map_filter_def)
  moreover have "pc_preflight (add_agent_publish pa enc1 (add_agent_publish pa enc2 c2)) = b"
    using b(1) by (simp add: add_agent_publish_def [of pa enc1])
  ultimately show ?thesis using b(2) assms(5) by simp
qed

lemma preflight_race_example:
  "\<exists>c0 c1 enc1 c2 enc2 m. cache_new plain_preflight = Some c0 \<and>
     add_agent_update plain_preflight 1 (info_of (AgentId [1]) 5) c0 = (c1, enc1) \<and>
     add_agent_update plain_preflight 1 (info_of (AgentId [2]) 9) c1 = (c2, enc2) \<and>
     decode_preflight plain_preflight (pc_preflight
       (add_agent_publish plain_preflight enc1 (add_agent_publish plain_preflight enc2 c2))) = Inr m \<and>
     show_nat 9 \<notin> set (wp_agents m)"
proof -
  obtain c0 where c0: "cache_new plain_preflight = Some c0" "pc_agents c0 = []"
    using cache_new_ok [OF plain_preflight_ok] by metis
  obtain c1 enc1 where u1: "add_agent_update plain_preflight 1 (info_of (AgentId [1]) 5) c0 = (c1, enc1)" by fastforce
  obtain c2 enc2 where u2: "add_agent_update plain_preflight 1 (info_of (AgentId [2]) 9) c1 = (c2, enc2)" by fastforce
  have e: "encode_agent plain_preflight (info_of (AgentId [2]) 9) = Inr (show_nat 9)"
    by (simp add: plain_preflight_def info_of_def)
  have "enc1 = [show_nat 5]"
    using u1 c0(2) by (auto simp: add_agent_update_def Let_def encode_agents_def List.map_filter_def plain_preflight_def
      info_of_def)
  then have n: "show_nat 9 \<notin> set enc1" by simp
  show ?thesis using preflight_race [OF plain_preflight_ok u1 u2 e n] c0(1) u1 u2 by blast
qed

end
