(* ===== verification/Linker_Report.thy ===== *)
theory Linker_Report imports Gateway_Kitsune "HOL-Library.Multiset" begin

text \<open>
  The report writer (\<open>src/linker_report.rs\<close>): fetched ops go into a bounded channel, a timer drains it,
  adds them up by space and writes a signed line for each. The signature, the encodings and the texts of
  ids are the parameter \<open>report_api\<close>; the order in which the map of spaces is iterated is an argument.
  Sums are kept at 64 bits, where they wrap. The rolling file behind the writer is \<open>tracing_appender\<close>'s:
  the lines handed to it are the log of the model.
\<close>

section \<open>Entries\<close>

record fetched_ops_entry =
  fe_timestamp :: string
  fe_space :: string
  fe_op_count :: string
  fe_total_bytes :: string
  fe_agent_pubkeys :: "string list"
  fe_signatures :: "string list"

datatype report_entry = ReportStart | FetchedOps fetched_ops_entry

record report_api =
  ra_space_text :: "space_id \<Rightarrow> string"
  ra_base64_url :: "bytes \<Rightarrow> string"
  ra_raw_39 :: "bytes \<Rightarrow> bytes"
  ra_verifying_key :: bytes
  ra_encode_for_verification :: "fetched_ops_entry \<Rightarrow> bytes"
  ra_sign :: "bytes \<Rightarrow> bytes"
  ra_entry_json :: "report_entry \<Rightarrow> string + string"

record hc_report_config =
  hr_days_retained :: nat
  hr_path :: string
  hr_fetched_op_interval_s :: nat

definition report_config_default :: hc_report_config where
  "report_config_default = \<lparr>hr_days_retained = 5, hr_path = ''/tmp/h2hc-linker-reports'',
     hr_fetched_op_interval_s = 60\<rparr>"

section \<open>The report\<close>

datatype report_cmd = FetchedOp space_id u64

record linker_report =
  lr_agent_pubkey_str :: string
  lr_queue :: "report_cmd list"
  lr_lines :: "string list"

definition report_channel_capacity :: nat where "report_channel_capacity = 4096"

definition write_raw :: "string \<Rightarrow> linker_report \<Rightarrow> linker_report" where
  "write_raw b s = s\<lparr>lr_lines := lr_lines s @ [b]\<rparr>"

definition write_entry :: "report_api \<Rightarrow> report_entry \<Rightarrow> linker_report \<Rightarrow> linker_report" where
  "write_entry ra e s = (case ra_entry_json ra e of
     Inl _ \<Rightarrow> s
   | Inr data \<Rightarrow> write_raw (data @ [char_of (10 :: nat)]) s)"

definition report_start :: "report_api \<Rightarrow> linker_report" where
  "report_start ra = write_entry ra ReportStart
     \<lparr>lr_agent_pubkey_str = ''u'' @ ra_base64_url ra (ra_raw_39 ra (ra_verifying_key ra)),
      lr_queue = [], lr_lines = []\<rparr>"

text \<open>The rolling file may fail to open.\<close>

definition report_create :: "report_api \<Rightarrow> string + unit \<Rightarrow> string + linker_report" where
  "report_create ra file = (case file of Inl e \<Rightarrow> Inl e | Inr _ \<Rightarrow> Inr (report_start ra))"

definition fetched_op :: "space_id \<Rightarrow> u64 \<Rightarrow> linker_report \<Rightarrow> linker_report" where
  "fetched_op sp size_bytes s = (if report_channel_capacity \<le> length (lr_queue s) then s
     else s\<lparr>lr_queue := lr_queue s @ [FetchedOp sp size_bytes]\<rparr>)"

section \<open>Draining\<close>

fun add_fetched :: "report_cmd \<Rightarrow> (space_id, u64 \<times> u64) hashmap \<Rightarrow> (space_id, u64 \<times> u64) hashmap" where
  "add_fetched (FetchedOp sp size_bytes) m = (case (case hm_get m sp of None \<Rightarrow> (0, 0) | Some e \<Rightarrow> e) of
     (op_count, total_bytes) \<Rightarrow> hm_insert sp (op_count + 1, total_bytes + size_bytes) m)"

definition aggregate :: "report_cmd list \<Rightarrow> (space_id, u64 \<times> u64) hashmap" where
  "aggregate cmds = fold add_fetched cmds []"

definition show_micros :: "int \<Rightarrow> string" where
  "show_micros t = (if t < 0 then ''-'' @ show_nat (nat (- t)) else show_nat (nat t))"

definition fetched_entry :: "report_api \<Rightarrow> string \<Rightarrow> int \<Rightarrow> space_id \<times> (u64 \<times> u64) \<Rightarrow> fetched_ops_entry" where
  "fetched_entry ra agent now e = (case e of (sp, (op_count, total_bytes)) \<Rightarrow>
     (let entry = \<lparr>fe_timestamp = show_micros now, fe_space = ra_space_text ra sp,
            fe_op_count = show_nat (unat op_count), fe_total_bytes = show_nat (unat total_bytes),
            fe_agent_pubkeys = [agent], fe_signatures = []\<rparr>
      in entry\<lparr>fe_signatures := [ra_base64_url ra (ra_sign ra (ra_encode_for_verification ra entry))]\<rparr>))"

fun write_entries :: "report_api \<Rightarrow> (space_id \<Rightarrow> int) \<Rightarrow> (space_id \<times> (u64 \<times> u64)) list \<Rightarrow>
    linker_report \<Rightarrow> linker_report" where
  "write_entries ra now [] s = s"
| "write_entries ra now (e # es) s = write_entries ra now es
     (write_entry ra (FetchedOps (fetched_entry ra (lr_agent_pubkey_str s) (now (fst e)) e)) s)"

definition process_reports :: "report_api \<Rightarrow> (space_id \<Rightarrow> int) \<Rightarrow>
    ((space_id \<times> (u64 \<times> u64)) list \<Rightarrow> (space_id \<times> (u64 \<times> u64)) list) \<Rightarrow> linker_report \<Rightarrow> linker_report" where
  "process_reports ra now arrange s = (let fetched = aggregate (lr_queue s); s1 = s\<lparr>lr_queue := []\<rparr>
     in if fetched = [] then s1 else write_entries ra now (arrange fetched) s1)"

section \<open>Nothing is counted twice or lost\<close>

definition cmd_space :: "report_cmd \<Rightarrow> space_id" where
  "cmd_space c = (case c of FetchedOp sp _ \<Rightarrow> sp)"

definition cmd_size :: "report_cmd \<Rightarrow> u64" where
  "cmd_size c = (case c of FetchedOp _ n \<Rightarrow> n)"

definition sums_of :: "report_cmd list \<Rightarrow> space_id \<Rightarrow> (u64 \<times> u64) option" where
  "sums_of cmds sp = (let cs = filter (\<lambda>c. cmd_space c = sp) cmds in
     if cs = [] then None else Some (of_nat (length cs), sum_list (map cmd_size cs)))"

lemma aggregate_sums: "hm_wf (aggregate cmds) \<and> hm_get (aggregate cmds) sp = sums_of cmds sp"
proof (induction cmds arbitrary: sp rule: rev_induct)
  case (snoc c cmds)
  obtain sp' n where c: "c = FetchedOp sp' n" by (cases c)
  have wf: "hm_wf (aggregate cmds)" using snoc by blast
  have step: "aggregate (cmds @ [c]) = add_fetched c (aggregate cmds)" by (simp add: aggregate_def)
  show ?case
    using snoc [of sp] snoc [of sp'] wf unfolding step
    by (auto simp: c sums_of_def Let_def cmd_space_def cmd_size_def split: option.split)
qed (simp add: aggregate_def sums_of_def)

text \<open>The life of a report: ops fetched and ticks of its timer.\<close>

datatype report_event =
    RepFetched space_id u64
  | RepTick "space_id \<Rightarrow> int" "(space_id \<times> (u64 \<times> u64)) list \<Rightarrow> (space_id \<times> (u64 \<times> u64)) list"

fun report_step :: "report_api \<Rightarrow> report_event \<Rightarrow> linker_report \<Rightarrow> linker_report" where
  "report_step ra (RepFetched sp n) s = fetched_op sp n s"
| "report_step ra (RepTick now arrange) s = process_reports ra now arrange s"

definition report_run :: "report_api \<Rightarrow> report_event list \<Rightarrow> linker_report \<Rightarrow> linker_report" where
  "report_run ra evs s = fold (report_step ra) evs s"

lemma write_entry_keeps [simp]:
  "lr_queue (write_entry ra e s) = lr_queue s" "lr_agent_pubkey_str (write_entry ra e s) = lr_agent_pubkey_str s"
  by (simp_all add: write_entry_def write_raw_def split: sum.split)

definition entry_line :: "report_api \<Rightarrow> report_entry \<Rightarrow> string option" where
  "entry_line ra e = (case ra_entry_json ra e of Inl _ \<Rightarrow> None | Inr data \<Rightarrow> Some (data @ [char_of (10 :: nat)]))"

lemma write_entry_lines: "lr_lines (write_entry ra e s) = lr_lines s @ List.map_filter (entry_line ra) [e]"
  by (simp add: write_entry_def write_raw_def entry_line_def List.map_filter_simps split: sum.split)

lemma write_entries_effect:
  "lr_queue (write_entries ra now es s) = lr_queue s \<and>
   lr_lines (write_entries ra now es s) = lr_lines s @ List.map_filter
     (\<lambda>e. entry_line ra (FetchedOps (fetched_entry ra (lr_agent_pubkey_str s) (now (fst e)) e))) es"
proof (induction es arbitrary: s)
  case (Cons e es)
  then show ?case by (auto simp: write_entry_lines List.map_filter_simps split: option.split)
qed (simp add: List.map_filter_simps)

lemma report_queue_bounded: "length (lr_queue (report_run ra evs (report_start ra))) \<le> report_channel_capacity"
proof -
  have "length (lr_queue (report_step ra ev s)) \<le> report_channel_capacity"
    if "length (lr_queue s) \<le> report_channel_capacity" for ev s
    using that by (cases ev) (auto simp: fetched_op_def process_reports_def Let_def write_entries_effect)
  then have "length (lr_queue s) \<le> report_channel_capacity \<Longrightarrow>
      length (lr_queue (report_run ra evs s)) \<le> report_channel_capacity" for s
    by (induction evs arbitrary: s) (simp_all add: report_run_def)
  then show ?thesis by (simp add: report_start_def)
qed

lemma map_filter_keys:
  "(\<And>x. x \<in> set xs \<Longrightarrow> f x = g (fst x)) \<Longrightarrow> List.map_filter f xs = List.map_filter g (map fst xs)"
  by (induction xs) (auto simp: List.map_filter_simps split: option.split)

text \<open>The drained map in any order: its keys are the spaces fetched from, its values their sums.\<close>

lemma aggregate_arranged:
  assumes "mset es = mset (aggregate cmds)"
  shows "distinct (map fst es)" and "set (map fst es) = cmd_space ` set cmds"
    and "e \<in> set es \<Longrightarrow> snd e = (of_nat (length (filter (\<lambda>c. cmd_space c = fst e) cmds)),
      sum_list (map cmd_size (filter (\<lambda>c. cmd_space c = fst e) cmds)))"
proof -
  have wf: "hm_wf (aggregate cmds)" using aggregate_sums by blast
  from assms have "mset (map fst es) = mset (map fst (aggregate cmds))" by simp
  then show "distinct (map fst es)" using wf mset_eq_imp_distinct_iff unfolding hm_wf_def by blast
  have mem: "e \<in> set es \<longleftrightarrow> sums_of cmds (fst e) = Some (snd e)" for e
    using mset_eq_setD [OF assms] hm_get_iff_mem [OF wf, of "fst e" "snd e"] aggregate_sums [of cmds "fst e"] by simp
  show "set (map fst es) = cmd_space ` set cmds"
  proof (rule set_eqI)
    fix sp
    have "sp \<in> set (map fst es) \<longleftrightarrow> (\<exists>v. sums_of cmds sp = Some v)" using mem by force
    also have "\<dots> \<longleftrightarrow> sp \<in> cmd_space ` set cmds" by (auto simp: sums_of_def Let_def filter_empty_conv)
    finally show "sp \<in> set (map fst es) \<longleftrightarrow> sp \<in> cmd_space ` set cmds" .
  qed
  show "e \<in> set es \<Longrightarrow> snd e = (of_nat (length (filter (\<lambda>c. cmd_space c = fst e) cmds)),
      sum_list (map cmd_size (filter (\<lambda>c. cmd_space c = fst e) cmds)))"
    using mem [of e] by (simp add: sums_of_def Let_def split: if_splits)
qed

lemma process_reports_effect:
  assumes "mset (arrange (aggregate (lr_queue s))) = mset (aggregate (lr_queue s))"
  shows "lr_queue (process_reports ra now arrange s) = []"
    and "lr_lines (process_reports ra now arrange s) = lr_lines s @ List.map_filter
      (\<lambda>e. entry_line ra (FetchedOps (fetched_entry ra (lr_agent_pubkey_str s) (now (fst e)) e)))
      (arrange (aggregate (lr_queue s)))"
  using assms by (cases "aggregate (lr_queue s) = []";
      simp add: process_reports_def Let_def write_entries_effect List.map_filter_simps)+

text \<open>C33. A tick reports everything that was fetched since the last one: for each space with fetched ops
  one line, in some order, which says how many of them there were and their size (modulo 64 bits),
  signed with the linker's key over the entry without its signature; and the channel is empty. At any
  time at most 4096 ops wait there, a further one is dropped, so the counts never wrap.\<close>

theorem tick_reports_fetched_ops:
  fixes evs :: "report_event list" and ra :: report_api
  defines "s \<equiv> report_run ra evs (report_start ra)"
  assumes "\<And>m. mset (arrange m) = mset m"
  shows "lr_queue (process_reports ra now arrange s) = [] \<and> length (lr_queue s) \<le> 4096 \<and>
    (\<exists>sps. distinct sps \<and> set sps = cmd_space ` set (lr_queue s) \<and>
       lr_lines (process_reports ra now arrange s) = lr_lines s @ List.map_filter (\<lambda>sp.
         let cs = filter (\<lambda>c. cmd_space c = sp) (lr_queue s);
             entry = \<lparr>fe_timestamp = show_micros (now sp), fe_space = ra_space_text ra sp,
               fe_op_count = show_nat (length cs), fe_total_bytes = show_nat (unat (sum_list (map cmd_size cs))),
               fe_agent_pubkeys = [lr_agent_pubkey_str s], fe_signatures = []\<rparr>
         in entry_line ra (FetchedOps (entry\<lparr>fe_signatures :=
              [ra_base64_url ra (ra_sign ra (ra_encode_for_verification ra entry))]\<rparr>))) sps)"
proof -
  let ?es = "arrange (aggregate (lr_queue s))"
  let ?cs = "\<lambda>sp. filter (\<lambda>c. cmd_space c = sp) (lr_queue s)"
  let ?entry = "\<lambda>sp. \<lparr>fe_timestamp = show_micros (now sp), fe_space = ra_space_text ra sp,
      fe_op_count = show_nat (length (?cs sp)), fe_total_bytes = show_nat (unat (sum_list (map cmd_size (?cs sp)))),
      fe_agent_pubkeys = [lr_agent_pubkey_str s], fe_signatures = []\<rparr>"
  let ?line = "\<lambda>sp. entry_line ra (FetchedOps ((?entry sp)\<lparr>fe_signatures :=
      [ra_base64_url ra (ra_sign ra (ra_encode_for_verification ra (?entry sp)))]\<rparr>))"
  have bound: "length (lr_queue s) \<le> 4096"
    using report_queue_bounded [of ra evs] by (simp add: s_def report_channel_capacity_def)
  note es = assms(2) [of "aggregate (lr_queue s)"]
  have line: "entry_line ra (FetchedOps (fetched_entry ra (lr_agent_pubkey_str s) (now (fst e)) e)) = ?line (fst e)"
    if "e \<in> set ?es" for e
  proof -
    obtain sp v where e: "e = (sp, v)" by (cases e)
    have "length (?cs sp) \<le> 4096" using bound length_filter_le le_trans by blast
    then have "unat (of_nat (length (?cs sp)) :: u64) = length (?cs sp)" by (simp add: unat_of_nat take_bit_eq_mod)
    with aggregate_arranged(3) [OF es that] show ?thesis by (simp add: e fetched_entry_def Let_def)
  qed
  have "lr_lines (process_reports ra now arrange s) = lr_lines s @ List.map_filter ?line (map fst ?es)"
    unfolding process_reports_effect(2) [of arrange s, OF es] by (simp only: map_filter_keys [of ?es _ ?line, OF line])
  with process_reports_effect(1) [of arrange s, OF es] bound aggregate_arranged(1,2) [OF es] show ?thesis
    unfolding Let_def by blast
qed

definition sample_report :: report_api where
  "sample_report = \<lparr>ra_space_text = (\<lambda>sp. case sp of SpaceId b \<Rightarrow> text_of_bytes b), ra_base64_url = text_of_bytes,
     ra_raw_39 = id, ra_verifying_key = [], ra_encode_for_verification = (\<lambda>_. []), ra_sign = id,
     ra_entry_json = (\<lambda>e. case e of ReportStart \<Rightarrow> Inr ''start'' | FetchedOps f \<Rightarrow> Inr (fe_op_count f))\<rparr>"

theorem tick_reports_fetched_ops_witness:
  "lr_queue (process_reports sample_report (\<lambda>_. 0) rev (report_run sample_report
     [RepFetched (SpaceId [7]) 5, RepFetched (SpaceId [8]) 6] (report_start sample_report))) = []"
proof -
  have "mset (rev m) = mset m" for m :: "(space_id \<times> (u64 \<times> u64)) list" by simp
  from tick_reports_fetched_ops [OF this] show ?thesis by blast
qed

end
