(* ===== verification/Kitsune_Builder.thy ===== *)
theory Kitsune_Builder imports Wire_Preflight Linker_Report Pending_Dht begin

text \<open>
  Setting up kitsune2 (\<open>KitsuneProxy\<close>, \<open>KitsuneProxyBuilder\<close> in \<open>src/gateway_kitsune.rs\<close>, and the minimal
  instance of \<open>src/kitsune.rs\<close>). The code shares its state through \<open>Arc\<close>s, and which part holds which
  \<open>Arc\<close> is what a set-up can get wrong: an \<open>Arc\<close> is a number, drawn fresh where the code makes a new one
  and passed on where it clones one. Kitsune2's builder is a record of the calls made on it; whether
  a call is accepted, and what the finished instance does, is the parameter \<open>k2_setup\<close>.
\<close>

section \<open>Shared state\<close>

datatype shared = Shared nat

definition new_shared :: "nat \<Rightarrow> nat \<times> shared" where
  "new_shared n = (Suc n, Shared n)"

section \<open>The handlers\<close>

record kitsune_proxy =
  kp_agent_proxy :: shared
  kp_pending_dht_responses :: shared
  kp_preflight_cache :: shared

definition kitsune_proxy_new :: "shared \<Rightarrow> nat \<Rightarrow> nat \<times> kitsune_proxy" where
  "kitsune_proxy_new agent_proxy n = (case new_shared n of (n1, pending) \<Rightarrow> (case new_shared n1 of (n2, cache) \<Rightarrow>
     (n2, \<lparr>kp_agent_proxy = agent_proxy, kp_pending_dht_responses = pending, kp_preflight_cache = cache\<rparr>)))"

definition with_pending_responses :: "shared \<Rightarrow> shared \<Rightarrow> nat \<Rightarrow> nat \<times> kitsune_proxy" where
  "with_pending_responses agent_proxy pending n = (case new_shared n of (n', cache) \<Rightarrow>
     (n', \<lparr>kp_agent_proxy = agent_proxy, kp_pending_dht_responses = pending, kp_preflight_cache = cache\<rparr>))"

record proxy_space_handler =
  ph_space_id :: space_id
  ph_agent_proxy :: shared
  ph_pending_dht_responses :: shared

definition create_space :: "kitsune_proxy \<Rightarrow> space_id \<Rightarrow> string + proxy_space_handler" where
  "create_space kp sp = Inr \<lparr>ph_space_id = sp, ph_agent_proxy = kp_agent_proxy kp,
     ph_pending_dht_responses = kp_pending_dht_responses kp\<rparr>"

section \<open>Kitsune2's builder\<close>

datatype op_store_factory = MemOpStoreFactory | TempOpStoreFactory shared
datatype 'k report_factory = NoReportFactory | LinkerReportFactory 'k
datatype bootstrap_factory = CoreBootstrapFactory | BootstrapWrapper shared bootstrap_factory

datatype module_config =
    CoreBootstrapMod string nat
  | HcReportMod hc_report_config
  | CoreSpaceMod nat nat
  | IrohTransportMod bool "string option"

record 'k k2_builder =
  kb_op_store :: op_store_factory
  kb_report :: "'k report_factory"
  kb_bootstrap :: bootstrap_factory
  kb_modules :: "module_config list"

definition default_builder :: "'k k2_builder" where
  "default_builder = \<lparr>kb_op_store = MemOpStoreFactory, kb_report = NoReportFactory, kb_bootstrap = CoreBootstrapFactory,
     kb_modules = []\<rparr>"

text \<open>A call that fails names its error. A finished instance takes a handler.\<close>

record ('k, 'w, 'h) k2_setup =
  ks_default_config :: "'k k2_builder \<Rightarrow> string option"
  ks_set_module :: "'k k2_builder \<Rightarrow> module_config \<Rightarrow> string option"
  ks_build :: "'k k2_builder \<Rightarrow> 'w \<Rightarrow> 'w \<times> (string + unit)"
  ks_register_handler :: "'h \<Rightarrow> 'w \<Rightarrow> 'w \<times> (string + unit)"

definition with_default_config :: "('k, 'w, 'h) k2_setup \<Rightarrow> 'k k2_builder \<Rightarrow> string + 'k k2_builder" where
  "with_default_config ks b = (case ks_default_config ks b of Some e \<Rightarrow> Inl e | None \<Rightarrow> Inr b)"

definition set_module_config :: "('k, 'w, 'h) k2_setup \<Rightarrow> module_config \<Rightarrow> 'k k2_builder \<Rightarrow> string + 'k k2_builder" where
  "set_module_config ks m b = (case ks_set_module ks b m of
     Some e \<Rightarrow> Inl e | None \<Rightarrow> Inr (b\<lparr>kb_modules := kb_modules b @ [m]\<rparr>))"

definition set_if_some :: "('k, 'w, 'h) k2_setup \<Rightarrow> module_config option \<Rightarrow> 'k k2_builder \<Rightarrow> string + 'k k2_builder" where
  "set_if_some ks m b = (case m of None \<Rightarrow> Inr b | Some c \<Rightarrow> set_module_config ks c b)"

definition build_and_register :: "('k, 'w, 'h) k2_setup \<Rightarrow> 'h \<Rightarrow> 'k k2_builder \<Rightarrow> 'w \<Rightarrow> 'w \<times> (string + 'k k2_builder)" where
  "build_and_register ks handler b w = (case ks_build ks b w of
     (w1, Inl e) \<Rightarrow> (w1, Inl e)
   | (w1, Inr _) \<Rightarrow> (case ks_register_handler ks handler w1 of
        (w2, Inl e) \<Rightarrow> (w2, Inl e)
      | (w2, Inr _) \<Rightarrow> (w2, Inr b)))"

section \<open>The linker's builder\<close>

record 'k proxy_builder =
  pb_handler :: kitsune_proxy
  pb_bootstrap_url :: "string option"
  pb_relay_url :: "string option"
  pb_op_store_factory :: "op_store_factory option"
  pb_report_factory :: "'k report_factory option"
  pb_report_config :: "hc_report_config option"

definition proxy_builder_new :: "kitsune_proxy \<Rightarrow> 'k proxy_builder" where
  "proxy_builder_new handler = \<lparr>pb_handler = handler, pb_bootstrap_url = None, pb_relay_url = None,
     pb_op_store_factory = None, pb_report_factory = None, pb_report_config = None\<rparr>"

definition with_bootstrap_url :: "string \<Rightarrow> 'k proxy_builder \<Rightarrow> 'k proxy_builder" where
  "with_bootstrap_url url b = b\<lparr>pb_bootstrap_url := Some url\<rparr>"

definition with_relay_url :: "string \<Rightarrow> 'k proxy_builder \<Rightarrow> 'k proxy_builder" where
  "with_relay_url url b = b\<lparr>pb_relay_url := Some url\<rparr>"

definition with_op_store :: "op_store_factory \<Rightarrow> 'k proxy_builder \<Rightarrow> 'k proxy_builder" where
  "with_op_store factory b = b\<lparr>pb_op_store_factory := Some factory\<rparr>"

definition with_report :: "'k report_factory \<Rightarrow> hc_report_config \<Rightarrow> 'k proxy_builder \<Rightarrow> 'k proxy_builder" where
  "with_report factory config b = b\<lparr>pb_report_factory := Some factory, pb_report_config := Some config\<rparr>"

text \<open>The factories, then the configuration of the modules in its order.\<close>

definition set_factories :: "'k proxy_builder \<Rightarrow> 'k k2_builder \<Rightarrow> 'k k2_builder" where
  "set_factories pb b =
     (let b1 = (case pb_op_store_factory pb of None \<Rightarrow> b | Some f \<Rightarrow> b\<lparr>kb_op_store := f\<rparr>);
          b2 = (case pb_report_factory pb of None \<Rightarrow> b1 | Some f \<Rightarrow> b1\<lparr>kb_report := f\<rparr>)
      in b2\<lparr>kb_bootstrap := BootstrapWrapper (kp_preflight_cache (pb_handler pb)) (kb_bootstrap b2)\<rparr>)"

definition configure_modules :: "('k, 'w, 'h) k2_setup \<Rightarrow> 'k proxy_builder \<Rightarrow> 'k k2_builder \<Rightarrow> string + 'k k2_builder" where
  "configure_modules ks pb b =
     bind_result (with_default_config ks b) (\<lambda>b1.
     bind_result (set_if_some ks (map_option (\<lambda>url. CoreBootstrapMod url 10000) (pb_bootstrap_url pb)) b1) (\<lambda>b2.
     bind_result (set_if_some ks (map_option HcReportMod (pb_report_config pb)) b2) (\<lambda>b3.
     bind_result (set_module_config ks (CoreSpaceMod 10000 10000) b3) (\<lambda>b4.
     set_module_config ks (IrohTransportMod True (pb_relay_url pb)) b4))))"

definition proxy_build :: "('k, 'w, kitsune_proxy) k2_setup \<Rightarrow> 'k proxy_builder \<Rightarrow> 'w \<Rightarrow> 'w \<times> (string + 'k k2_builder)" where
  "proxy_build ks pb w = (case configure_modules ks pb (set_factories pb default_builder) of
     Inl e \<Rightarrow> (w, Inl e)
   | Inr b \<Rightarrow> build_and_register ks (pb_handler pb) b w)"

section \<open>The factory of the reports\<close>

text \<open>What kitsune2's configuration holds for the report module, and whether the rolling file opens, are
  arguments; \<open>ra\<close> gives what is computed with a signing key.\<close>

definition report_default_config :: "('k, 'w, 'h) k2_setup \<Rightarrow> 'k k2_builder \<Rightarrow> string + 'k k2_builder" where
  "report_default_config ks b = set_module_config ks (HcReportMod report_config_default) b"

definition report_factory_create :: "('k \<Rightarrow> report_api) \<Rightarrow> 'k \<Rightarrow> string + hc_report_config \<Rightarrow>
    (hc_report_config \<Rightarrow> string + unit) \<Rightarrow> string + linker_report" where
  "report_factory_create ra signing_key config file = bind_result config (\<lambda>c. report_create (ra signing_key) (file c))"

section \<open>The minimal instance\<close>

text \<open>The minimal handler has its own preflight message, whose agents are units; its codec is serde's.\<close>

record minimal_api =
  mi_encode :: "u32 \<Rightarrow> string + bytes"
  mi_decode :: "bytes \<Rightarrow> string + u32"

datatype minimal_space_handler = MinimalSpaceHandler space_id

definition minimal_create_space :: "space_id \<Rightarrow> string + minimal_space_handler" where
  "minimal_create_space sp = Inr (MinimalSpaceHandler sp)"

definition minimal_gather_outgoing :: "minimal_api \<Rightarrow> url \<Rightarrow> string + bytes" where
  "minimal_gather_outgoing mi peer_url = map_error (\<lambda>e. ''Failed to encode preflight: '' @ e) (mi_encode mi 2)"

definition minimal_validate_incoming :: "minimal_api \<Rightarrow> url \<Rightarrow> bytes \<Rightarrow> string + unit" where
  "minimal_validate_incoming mi peer_url data = (case mi_decode mi data of
     Inl e \<Rightarrow> Inl (''Invalid preflight from peer: '' @ e)
   | Inr ver \<Rightarrow> (if ver \<noteq> 2
       then Inl (''Incompatible protocol version from '' @ peer_url @ '': expected 2, got '' @ show_nat (unat ver))
       else Inr ()))"

definition minimal_recv_notify :: "minimal_space_handler \<Rightarrow> url \<Rightarrow> space_id \<Rightarrow> bytes \<Rightarrow> string + unit" where
  "minimal_recv_notify h from_peer sp data = Inr ()"

record kitsune_builder =
  kbu_bootstrap_url :: "string option"
  kbu_relay_url :: "string option"

definition kitsune_builder_new :: kitsune_builder where
  "kitsune_builder_new = \<lparr>kbu_bootstrap_url = None, kbu_relay_url = None\<rparr>"

definition kbu_with_bootstrap_url :: "string \<Rightarrow> kitsune_builder \<Rightarrow> kitsune_builder" where
  "kbu_with_bootstrap_url url b = b\<lparr>kbu_bootstrap_url := Some url\<rparr>"

definition kbu_with_relay_url :: "string \<Rightarrow> kitsune_builder \<Rightarrow> kitsune_builder" where
  "kbu_with_relay_url url b = b\<lparr>kbu_relay_url := Some url\<rparr>"

datatype minimal_handler = MinimalKitsuneHandler

definition kitsune_build :: "('k, 'w, minimal_handler) k2_setup \<Rightarrow> kitsune_builder \<Rightarrow> 'w \<Rightarrow> 'w \<times> (string + 'k k2_builder)" where
  "kitsune_build ks kb w = (case
     bind_result (with_default_config ks default_builder) (\<lambda>b1.
     bind_result (set_if_some ks (map_option (\<lambda>url. CoreBootstrapMod url 10000) (kbu_bootstrap_url kb)) b1) (\<lambda>b2.
     bind_result (set_module_config ks (CoreSpaceMod 10000 10000) b2) (\<lambda>b3.
     set_module_config ks (IrohTransportMod True (kbu_relay_url kb)) b3))) of
     Inl e \<Rightarrow> (w, Inl e)
   | Inr b \<Rightarrow> build_and_register ks MinimalKitsuneHandler b w)"

section \<open>What is built\<close>

text \<open>A report that is made carries the key of its factory and begins with the start entry.\<close>

lemma report_factory_create_Inr:
  "report_factory_create ra key config file = Inr r \<longleftrightarrow>
   (\<exists>c. config = Inr c \<and> file c = Inr ()) \<and> r = report_start (ra key)"
proof (cases config)
  case (Inr c)
  then show ?thesis by (cases "file c") (auto simp: report_factory_create_def bind_result_Inr report_create_def)
qed (simp add: report_factory_create_def)

lemma with_default_config_Inr: "with_default_config ks b = Inr c \<longleftrightarrow> ks_default_config ks b = None \<and> c = b"
  by (auto simp: with_default_config_def split: option.split)

lemma set_module_config_Inr: "set_module_config ks m b = Inr c \<longleftrightarrow>
    ks_set_module ks b m = None \<and> c = b\<lparr>kb_modules := kb_modules b @ [m]\<rparr>"
  by (auto simp: set_module_config_def split: option.split)

definition modules_of :: "'k proxy_builder \<Rightarrow> module_config list" where
  "modules_of pb = (case pb_bootstrap_url pb of None \<Rightarrow> [] | Some url \<Rightarrow> [CoreBootstrapMod url 10000]) @
     (case pb_report_config pb of None \<Rightarrow> [] | Some c \<Rightarrow> [HcReportMod c]) @
     [CoreSpaceMod 10000 10000, IrohTransportMod True (pb_relay_url pb)]"

lemma configure_modules_Inr:
  assumes "configure_modules ks pb b = Inr c"
  shows "c = b\<lparr>kb_modules := kb_modules b @ modules_of pb\<rparr>"
  using assms
  by (auto simp: configure_modules_def set_if_some_def bind_result_Inr with_default_config_Inr
    set_module_config_Inr modules_of_def split: option.splits)

lemma proxy_build_Inr:
  assumes "proxy_build ks pb w = (w', Inr b)"
  shows "b = (set_factories pb default_builder)\<lparr>kb_modules := modules_of pb\<rparr>"
    and "\<exists>w1. ks_build ks b w = (w1, Inr ()) \<and> ks_register_handler ks (pb_handler pb) w1 = (w', Inr ())"
proof -
  obtain c where c: "configure_modules ks pb (set_factories pb default_builder) = Inr c"
    using assms by (cases "configure_modules ks pb (set_factories pb default_builder)") (simp_all add: proxy_build_def)
  have "c = b" and "\<exists>w1. ks_build ks c w = (w1, Inr ()) \<and> ks_register_handler ks (pb_handler pb) w1 = (w', Inr ())"
    using assms c by (auto simp: proxy_build_def build_and_register_def split: prod.splits sum.splits)
  moreover have "kb_modules (set_factories pb default_builder) = []"
    by (simp add: set_factories_def default_builder_def Let_def split: option.split)
  ultimately show "b = (set_factories pb default_builder)\<lparr>kb_modules := modules_of pb\<rparr>"
    and "\<exists>w1. ks_build ks b w = (w1, Inr ()) \<and> ks_register_handler ks (pb_handler pb) w1 = (w', Inr ())"
    using configure_modules_Inr [OF c] by simp_all
qed

text \<open>Both handlers check the same version: where the two codecs read the same version out of a message,
  they give the same verdict.\<close>

lemma minimal_validates_same:
  "mi_decode mi data = map_sum id (\<lambda>m. np_proto_ver (wp_compat m)) (decode_preflight pa data) \<Longrightarrow>
     minimal_validate_incoming mi peer_url data = preflight_validate_incoming pa peer_url data"
  by (cases "decode_preflight pa data") (simp_all add: minimal_validate_incoming_def preflight_validate_incoming_def)

end
