(* ===== verification/Identity.thy ===== *)
theory Identity imports Config begin

text \<open>
  The linker's key (\<open>src/identity.rs\<close>): from the environment, from the key file, or generated and
  written to that file. The file system is the parameter \<open>fs_api\<close> on an abstract world, ed25519 the
  function from a seed to its key; the random seed is an argument.
\<close>

type_synonym seed = "byte list"

record 'f fs_api =
  fs_exists :: "string \<Rightarrow> 'f \<Rightarrow> bool"
  fs_read :: "string \<Rightarrow> 'f \<Rightarrow> string + byte list"
  fs_parent :: "string \<Rightarrow> string option"
  fs_create_dir_all :: "string \<Rightarrow> 'f \<Rightarrow> 'f \<times> (string + unit)"
  fs_write :: "string \<Rightarrow> byte list \<Rightarrow> 'f \<Rightarrow> 'f \<times> (string + unit)"
  fs_set_mode :: "string \<Rightarrow> nat \<Rightarrow> 'f \<Rightarrow> 'f \<times> (string + unit)"

record 'k key_api =
  ka_base64_decode :: "string \<Rightarrow> string + byte list"
  ka_base64_encode :: "byte list \<Rightarrow> string"
  ka_from_seed :: "seed \<Rightarrow> 'k"
  ka_to_seed :: "'k \<Rightarrow> seed"
  ka_verifying_key :: "'k \<Rightarrow> byte list"

definition encode_pubkey :: "'k key_api \<Rightarrow> 'k \<Rightarrow> string" where
  "encode_pubkey ka key = ka_base64_encode ka (ka_verifying_key ka key)"

definition load_from_file :: "'k key_api \<Rightarrow> 'f fs_api \<Rightarrow> string \<Rightarrow> 'f \<Rightarrow> string + 'k" where
  "load_from_file ka fs path w = (case fs_read fs path w of
     Inl e \<Rightarrow> Inl (''Failed to read key file '' @ path @ '': '' @ e)
   | Inr bytes \<Rightarrow> (if length bytes \<noteq> 32
       then Inl (''Key file '' @ path @ '' must contain exactly 32 bytes, got '' @ show_nat (length bytes))
       else Inr (ka_from_seed ka bytes)))"

definition ensure_parent :: "'f fs_api \<Rightarrow> string \<Rightarrow> 'f \<Rightarrow> 'f \<times> (string + unit)" where
  "ensure_parent fs path w = (case fs_parent fs path of
     None \<Rightarrow> (w, Inr ())
   | Some parent \<Rightarrow> (if parent = [] then (w, Inr ()) else fs_create_dir_all fs parent w))"

definition write_to_file :: "'k key_api \<Rightarrow> 'f fs_api \<Rightarrow> string \<Rightarrow> 'k \<Rightarrow> 'f \<Rightarrow> 'f \<times> (string + unit)" where
  "write_to_file ka fs path key w = (case ensure_parent fs path w of
     (w1, Inl e) \<Rightarrow> (w1, Inl (''Failed to create directory for key file '' @ path @ '': '' @ e))
   | (w1, Inr _) \<Rightarrow> (case fs_write fs path (ka_to_seed ka key) w1 of
        (w2, Inl e) \<Rightarrow> (w2, Inl (''Failed to write key file '' @ path @ '': '' @ e))
      | (w2, Inr _) \<Rightarrow> (case fs_set_mode fs path 0x180 w2 of
           (w3, Inl e) \<Rightarrow> (w3, Inl (''Failed to set permissions on '' @ path @ '': '' @ e))
         | (w3, Inr _) \<Rightarrow> (w3, Inr ()))))"

definition load_from_env :: "'k key_api \<Rightarrow> string \<Rightarrow> string + 'k" where
  "load_from_env ka b64 = (case ka_base64_decode ka b64 of
     Inl e \<Rightarrow> Inl (''H2HC_LINKER_PRIVATE_KEY is not valid base64: '' @ e)
   | Inr bytes \<Rightarrow> (if length bytes \<noteq> 32
       then Inl (''H2HC_LINKER_PRIVATE_KEY must decode to 32 bytes, got '' @ show_nat (length bytes))
       else Inr (ka_from_seed ka bytes)))"

definition identity_load ::
    "'k key_api \<Rightarrow> 'f fs_api \<Rightarrow> identity_config \<Rightarrow> seed \<Rightarrow> 'f \<Rightarrow> 'f \<times> (string + 'k)" where
  "identity_load ka fs cfg secret w = (case id_private_key_base64 cfg of
     Some b64 \<Rightarrow> (w, load_from_env ka b64)
   | None \<Rightarrow> (if fs_exists fs (id_key_file cfg) w
       then (w, load_from_file ka fs (id_key_file cfg) w)
       else (let key = ka_from_seed ka secret
             in case write_to_file ka fs (id_key_file cfg) key w of
                  (w', Inl e) \<Rightarrow> (w', Inl e)
                | (w', Inr _) \<Rightarrow> (w', Inr key))))"

section \<open>Properties\<close>

text \<open>What the standard library documents of the calls that succeed: a written file exists and reads back
  as written, and changing its mode does not change that. Of a key: it gives back the 32 bytes it was made from.\<close>

definition fs_ok :: "'f fs_api \<Rightarrow> bool" where
  "fs_ok fs \<longleftrightarrow>
     (\<forall>p b w w'. fs_write fs p b w = (w', Inr ()) \<longrightarrow> fs_exists fs p w' \<and> fs_read fs p w' = Inr b) \<and>
     (\<forall>p m w w' r. fs_set_mode fs p m w = (w', r) \<longrightarrow> fs_exists fs p w' = fs_exists fs p w \<and> fs_read fs p w' = fs_read fs p w)"

definition keys_ok :: "'k key_api \<Rightarrow> bool" where
  "keys_ok ka \<longleftrightarrow> (\<forall>s. length s = 32 \<longrightarrow> ka_to_seed ka (ka_from_seed ka s) = s)"

lemma fs_okD:
  assumes "fs_ok fs"
  shows "fs_write fs p b w = (w', Inr ()) \<Longrightarrow> fs_exists fs p w' \<and> fs_read fs p w' = Inr b"
    and "fs_set_mode fs p m w = (w', r) \<Longrightarrow> fs_exists fs p w' = fs_exists fs p w \<and> fs_read fs p w' = fs_read fs p w"
  using assms unfolding fs_ok_def by blast+

lemma write_to_file_written:
  assumes "fs_ok fs" and "write_to_file ka fs path key w = (w', r)"
    and "r = Inr () \<or> (\<exists>e. r = Inl (''Failed to set permissions on '' @ path @ '': '' @ e))"
  shows "fs_exists fs path w' \<and> fs_read fs path w' = Inr (ka_to_seed ka key)"
proof -
  obtain w1 q1 where q1: "ensure_parent fs path w = (w1, q1)" by fastforce
  have q1r: "q1 = Inr ()" using assms(2,3) q1 by (cases q1) (auto simp: write_to_file_def)
  obtain w2 q2 where q2: "fs_write fs path (ka_to_seed ka key) w1 = (w2, q2)" by fastforce
  have q2r: "q2 = Inr ()" using assms(2,3) q1 q1r q2 by (cases q2) (auto simp: write_to_file_def)
  obtain w3 q3 where q3: "fs_set_mode fs path 0x180 w2 = (w3, q3)" by fastforce
  have "w' = w3" using assms(2) q1 q1r q2 q2r q3 by (cases q3) (auto simp: write_to_file_def)
  with fs_okD(1) [OF assms(1) q2 [unfolded q2r]] fs_okD(2) [OF assms(1) q3] show ?thesis by simp
qed

text \<open>C34. The identity survives restarts: once a start has loaded or generated a key, every later start on
  the file system it left, with whatever random seed, loads the same key and changes nothing.\<close>

theorem identity_survives_restart:
  assumes "fs_ok fs" and "keys_ok ka" and "length secret = 32" and "identity_load ka fs cfg secret w = (w', Inr key)"
  shows "identity_load ka fs cfg secret' w' = (w', Inr key)"
proof (cases "id_private_key_base64 cfg")
  case (Some b64)
  with assms(4) show ?thesis by (auto simp: identity_load_def)
next
  case None
  show ?thesis
  proof (cases "fs_exists fs (id_key_file cfg) w")
    case True
    with None assms(4) show ?thesis by (auto simp: identity_load_def)
  next
    case False
    obtain w1 r where r: "write_to_file ka fs (id_key_file cfg) (ka_from_seed ka secret) w = (w1, r)" by fastforce
    with assms(4) None False have k: "r = Inr ()" "w' = w1" "key = ka_from_seed ka secret"
      by (auto simp: identity_load_def Let_def split: sum.splits)
    with write_to_file_written [OF assms(1) r] have "fs_exists fs (id_key_file cfg) w'"
      "fs_read fs (id_key_file cfg) w' = Inr (ka_to_seed ka key)" by simp_all
    with None assms(2,3) k(3) show ?thesis by (simp add: identity_load_def load_from_file_def keys_ok_def)
  qed
qed

text \<open>A failed change of mode loses nothing of the key, and nothing of its readability: the start fails,
  the next one takes the file as it is.\<close>

lemma unprotected_key_is_loaded:
  assumes "fs_ok fs" and "keys_ok ka" and "length secret = 32" and "id_private_key_base64 cfg = None"
    and "identity_load ka fs cfg secret w = (w', Inl (''Failed to set permissions on '' @ id_key_file cfg @ '': '' @ e))"
    and "\<not> fs_exists fs (id_key_file cfg) w"
  shows "identity_load ka fs cfg secret' w' = (w', Inr (ka_from_seed ka secret))"
proof -
  obtain w1 r where r: "write_to_file ka fs (id_key_file cfg) (ka_from_seed ka secret) w = (w1, r)" by fastforce
  with assms(4-6) have k: "r = Inl (''Failed to set permissions on '' @ id_key_file cfg @ '': '' @ e)" "w' = w1"
    by (auto simp: identity_load_def Let_def split: sum.splits)
  with write_to_file_written [OF assms(1) r] have "fs_exists fs (id_key_file cfg) w'"
    "fs_read fs (id_key_file cfg) w' = Inr (ka_to_seed ka (ka_from_seed ka secret))" by auto
  with assms(2-4) show ?thesis by (simp add: identity_load_def load_from_file_def keys_ok_def)
qed

text \<open>A file system of one map, and keys that are their seeds.\<close>

definition map_fs :: "(string \<Rightarrow> byte list option) fs_api" where
  "map_fs = \<lparr>fs_exists = (\<lambda>p w. w p \<noteq> None),
     fs_read = (\<lambda>p w. case w p of None \<Rightarrow> Inl ''not found'' | Some b \<Rightarrow> Inr b),
     fs_parent = (\<lambda>_. None), fs_create_dir_all = (\<lambda>_ w. (w, Inr ())),
     fs_write = (\<lambda>p b w. (w(p \<mapsto> b), Inr ())), fs_set_mode = (\<lambda>_ _ w. (w, Inr ()))\<rparr>"

lemma map_fs_ok: "fs_ok map_fs"
  by (auto simp: fs_ok_def map_fs_def)

definition plain_keys :: "seed key_api" where
  "plain_keys = \<lparr>ka_base64_decode = (\<lambda>_. Inl ''''), ka_base64_encode = (\<lambda>_. []), ka_from_seed = id,
     ka_to_seed = id, ka_verifying_key = id\<rparr>"

theorem identity_survives_restart_witness:
  "identity_load plain_keys map_fs default_identity [] [id_key_file default_identity \<mapsto> replicate 32 7] =
     ([id_key_file default_identity \<mapsto> replicate 32 7], Inr (replicate 32 7))"
proof -
  have k: "keys_ok plain_keys" by (simp add: keys_ok_def plain_keys_def)
  have first: "identity_load plain_keys map_fs default_identity (replicate 32 7) Map.empty =
      ([id_key_file default_identity \<mapsto> replicate 32 7], Inr (replicate 32 7))"
    by (simp add: identity_load_def default_identity_def write_to_file_def ensure_parent_def map_fs_def plain_keys_def Let_def)
  show ?thesis by (rule identity_survives_restart [OF map_fs_ok k _ first]) simp
qed

end
