(* ===== verification/Registration.thy ===== *)
theory Registration imports Config "HOL-Library.Char_ord" "HOL-Library.List_Lexorder" begin

text \<open>
  The joining-service client (\<open>src/registration.rs\<close>): canonical JSON and its signature, the heartbeat
  and deregistration requests, and the heartbeat loop raced against shutdown. The HTTP client, the
  clock and the identity's key are parameters; a string is the list of its UTF-8 bytes.
\<close>

section \<open>Canonical JSON\<close>

definition hex_lower :: "nat \<Rightarrow> char" where
  "hex_lower n = char_of (if n < 10 then 48 + n else 87 + n)"

definition hex_upper :: "nat \<Rightarrow> char" where
  "hex_upper n = char_of (if n < 10 then 48 + n else 55 + n)"

text \<open>\<open>serde_json\<close> escapes the quote, the backslash and the control characters, and nothing else.\<close>

definition escape_char :: "char \<Rightarrow> string" where
  "escape_char c = (let n = of_char c :: nat in
     if n = 0x22 then map char_of [0x5C :: nat, 0x22]
     else if n = 0x5C then map char_of [0x5C :: nat, 0x5C]
     else if n = 8 then map char_of [0x5C :: nat, 0x62]
     else if n = 9 then map char_of [0x5C :: nat, 0x74]
     else if n = 10 then map char_of [0x5C :: nat, 0x6E]
     else if n = 12 then map char_of [0x5C :: nat, 0x66]
     else if n = 13 then map char_of [0x5C :: nat, 0x72]
     else if n < 0x20 then map char_of [0x5C :: nat, 0x75, 0x30, 0x30] @ [hex_lower (n div 16), hex_lower (n mod 16)]
     else [c])"

definition quote_char :: char where "quote_char = char_of (0x22 :: nat)"

definition json_string :: "string \<Rightarrow> string" where
  "json_string s = quote_char # concat (map escape_char s) @ [quote_char]"

fun json_fields :: "(string \<times> string) list \<Rightarrow> string" where
  "json_fields [] = []"
| "json_fields [(k, v)] = json_string k @ '':'' @ json_string v"
| "json_fields ((k, v) # e # es) = json_string k @ '':'' @ json_string v @ '','' @ json_fields (e # es)"

text \<open>A \<open>BTreeMap\<close> is the list of its entries in the order of their keys.\<close>

fun btree_insert :: "string \<Rightarrow> string \<Rightarrow> (string \<times> string) list \<Rightarrow> (string \<times> string) list" where
  "btree_insert k v [] = [(k, v)]"
| "btree_insert k v ((k', v') # m) =
     (if k < k' then (k, v) # (k', v') # m
      else if k = k' then (k, v) # m
      else (k', v') # btree_insert k v m)"

definition btree_collect :: "(string \<times> string) list \<Rightarrow> (string \<times> string) list" where
  "btree_collect entries = fold (\<lambda>(k, v). btree_insert k v) entries []"

definition canonical_json :: "(string \<times> string) list \<Rightarrow> string" where
  "canonical_json entries = CHR ''{'' # json_fields (btree_collect entries) @ ''}''"

section \<open>Path segments\<close>

definition unreserved :: "char \<Rightarrow> bool" where
  "unreserved c = (let n = of_char c :: nat in
     (65 \<le> n \<and> n \<le> 90) \<or> (97 \<le> n \<and> n \<le> 122) \<or> (48 \<le> n \<and> n \<le> 57) \<or> n = 45 \<or> n = 46 \<or> n = 95 \<or> n = 126)"

fun url_encode_path_segment :: "string \<Rightarrow> string" where
  "url_encode_path_segment [] = []"
| "url_encode_path_segment (c # s) =
     (if unreserved c then c # url_encode_path_segment s
      else CHR ''%'' # hex_upper (of_char c div 16) # hex_upper (of_char c mod 16) # url_encode_path_segment s)"

section \<open>The client\<close>

record linker_identity =
  li_pubkey_base64 :: string
  li_sign :: "string \<Rightarrow> bytes"
  li_base64 :: "bytes \<Rightarrow> string"

definition sign_canonical :: "linker_identity \<Rightarrow> (string \<times> string) list \<Rightarrow> string" where
  "sign_canonical i entries = li_base64 i (li_sign i (canonical_json entries))"

record registration_client =
  rg_config :: registration_config
  rg_admin_secret :: string
  rg_is_registered :: bool

definition registration_new :: "registration_config \<Rightarrow> string \<Rightarrow> registration_client" where
  "registration_new cfg secret = \<lparr>rg_config = cfg, rg_admin_secret = secret, rg_is_registered = False\<rparr>"

record heartbeat_response =
  hb_registered :: bool
  hb_ttl_seconds :: nat
  hb_interval_seconds :: "nat option"

record http_response =
  hp_status :: nat
  hp_status_text :: string
  hp_text :: string
  hp_json :: "string + heartbeat_response"

definition is_success :: "http_response \<Rightarrow> bool" where
  "is_success r \<longleftrightarrow> 200 \<le> hp_status r \<and> hp_status r < 300"

datatype http_request = HttpPost string json | HttpDelete string json

definition heartbeat_signature :: "linker_identity \<Rightarrow> registration_client \<Rightarrow> string \<Rightarrow> string" where
  "heartbeat_signature i c timestamp = (if \<not> rg_is_registered c
     then sign_canonical i [(''admin_secret'', rg_admin_secret c), (''admin_url'', admin_url (rg_config c)),
       (''linker_url'', rc_public_url (rg_config c)), (''pubkey'', li_pubkey_base64 i), (''timestamp'', timestamp)]
     else sign_canonical i [(''admin_url'', admin_url (rg_config c)),
       (''linker_url'', rc_public_url (rg_config c)), (''pubkey'', li_pubkey_base64 i), (''timestamp'', timestamp)])"

definition heartbeat_request :: "linker_identity \<Rightarrow> registration_client \<Rightarrow> string \<Rightarrow> http_request" where
  "heartbeat_request i c timestamp = HttpPost (rc_joining_service_url (rg_config c) @ ''/v1/linkers/heartbeat'')
     (JObject ([(''pubkey'', JString (li_pubkey_base64 i))]
       @ (case rc_invite_token (rg_config c) of None \<Rightarrow> [] | Some token \<Rightarrow> [(''invite_token'', JString token)])
       @ [(''linker_url'', JString (rc_public_url (rg_config c))),
          (''admin_url'', JString (admin_url (rg_config c)))]
       @ (if \<not> rg_is_registered c then [(''admin_secret'', JString (rg_admin_secret c))] else [])
       @ [(''rotate_secret'', JBool False), (''timestamp'', JString timestamp),
          (''signature'', JString (heartbeat_signature i c timestamp))]))"

definition heartbeat_result :: "string + http_response \<Rightarrow> string + heartbeat_response" where
  "heartbeat_result outcome = (case outcome of
     Inl e \<Rightarrow> Inl (''Heartbeat request failed: '' @ e)
   | Inr resp \<Rightarrow>
      (if \<not> is_success resp then Inl (''Heartbeat rejected: '' @ hp_status_text resp @ '' '' @ hp_text resp)
       else case hp_json resp of
         Inl e \<Rightarrow> Inl (''Failed to parse heartbeat response: '' @ e)
       | Inr hb \<Rightarrow> (if \<not> hb_registered hb then Inl ''Heartbeat response: registered=false'' else Inr hb)))"

definition send_heartbeat :: "linker_identity \<Rightarrow> string \<Rightarrow> string + http_response \<Rightarrow> registration_client \<Rightarrow>
    registration_client \<times> http_request \<times> (string + heartbeat_response)" where
  "send_heartbeat i timestamp outcome c = (let result = heartbeat_result outcome
     in (c\<lparr>rg_is_registered := (case result of Inl _ \<Rightarrow> False | Inr _ \<Rightarrow> True)\<rparr>,
         heartbeat_request i c timestamp, result))"

definition deregister_request :: "linker_identity \<Rightarrow> registration_client \<Rightarrow> string \<Rightarrow> http_request" where
  "deregister_request i c timestamp = HttpDelete
     (rc_joining_service_url (rg_config c) @ ''/v1/linkers/'' @ url_encode_path_segment (li_pubkey_base64 i))
     (JObject [(''timestamp'', JString timestamp),
       (''signature'', JString (sign_canonical i [(''pubkey'', li_pubkey_base64 i), (''timestamp'', timestamp)]))])"

definition deregister_result :: "string + http_response \<Rightarrow> string + unit" where
  "deregister_result outcome = (case outcome of
     Inl e \<Rightarrow> Inl (''Deregister request failed: '' @ e)
   | Inr resp \<Rightarrow> (if \<not> is_success resp
       then Inl (''Deregister rejected: '' @ hp_status_text resp @ '' '' @ hp_text resp) else Inr ()))"

definition deregister ::
    "linker_identity \<Rightarrow> string \<Rightarrow> string + http_response \<Rightarrow> registration_client \<Rightarrow> http_request \<times> (string + unit)" where
  "deregister i timestamp outcome c = (deregister_request i c timestamp, deregister_result outcome)"

section \<open>The loop\<close>

text \<open>What the loop has sent: heartbeats with whether they succeeded, one that was cut off by the
  shutdown, and the deregistration.\<close>

datatype reg_entry = Heartbeat http_request bool | HeartbeatCut http_request | Deregister http_request

datatype reg_phase = RegHeartbeat | RegSleeping nat | RegStopped

record reg_loop =
  rl_client :: registration_client
  rl_interval :: nat
  rl_phase :: reg_phase
  rl_log :: "reg_entry list"

text \<open>\<open>RegReply\<close> ends a heartbeat, \<open>RegTimer\<close> a sleep; \<open>RegShutdown\<close> wins either race, and tells whether a
  heartbeat in flight had left.\<close>

datatype reg_event =
    RegReply string "string + http_response"
  | RegTimer
  | RegShutdown "string option" string "string + http_response"

definition reg_loop_new :: "registration_client \<Rightarrow> reg_loop" where
  "reg_loop_new c = \<lparr>rl_client = c, rl_interval = rc_initial_heartbeat_interval_secs (rg_config c),
     rl_phase = RegHeartbeat, rl_log = []\<rparr>"

definition next_interval :: "string + heartbeat_response \<Rightarrow> nat \<Rightarrow> nat" where
  "next_interval result interval = (case result of
     Inl _ \<Rightarrow> 30
   | Inr resp \<Rightarrow> (case hb_interval_seconds resp of
        None \<Rightarrow> interval
      | Some server_interval \<Rightarrow> if 0 < server_interval then server_interval else interval))"

text \<open>The answer to the deregistration, or the timeout that cuts it off, is only logged.\<close>

definition handle_shutdown :: "linker_identity \<Rightarrow> string \<Rightarrow> string + http_response \<Rightarrow> reg_loop \<Rightarrow> reg_loop" where
  "handle_shutdown i timestamp outcome l = l\<lparr>rl_phase := RegStopped,
     rl_log := rl_log l @ (if \<not> rg_is_registered (rl_client l) then []
       else [Deregister (fst (deregister i timestamp outcome (rl_client l)))])\<rparr>"

definition reg_step :: "linker_identity \<Rightarrow> reg_event \<Rightarrow> reg_loop \<Rightarrow> reg_loop" where
  "reg_step i ev l = (case (rl_phase l, ev) of
     (RegHeartbeat, RegReply timestamp outcome) \<Rightarrow>
       (case send_heartbeat i timestamp outcome (rl_client l) of (c, request, result) \<Rightarrow>
          \<lparr>rl_client = c, rl_interval = next_interval result (rl_interval l),
           rl_phase = RegSleeping (next_interval result (rl_interval l)),
           rl_log = rl_log l @ [Heartbeat request (case result of Inl _ \<Rightarrow> False | Inr _ \<Rightarrow> True)]\<rparr>)
   | (RegHeartbeat, RegShutdown in_flight timestamp outcome) \<Rightarrow>
       handle_shutdown i timestamp outcome (case in_flight of
          None \<Rightarrow> l
        | Some t \<Rightarrow> l\<lparr>rl_log := rl_log l @ [HeartbeatCut (heartbeat_request i (rl_client l) t)]\<rparr>)
   | (RegSleeping _, RegTimer) \<Rightarrow> l\<lparr>rl_phase := RegHeartbeat\<rparr>
   | (RegSleeping _, RegShutdown _ timestamp outcome) \<Rightarrow> handle_shutdown i timestamp outcome l
   | _ \<Rightarrow> l)"

definition reg_run :: "linker_identity \<Rightarrow> reg_event list \<Rightarrow> reg_loop \<Rightarrow> reg_loop" where
  "reg_run i evs l = fold (reg_step i) evs l"

section \<open>Canonical JSON determines its fields\<close>

lemma btree_insert_map: "map_of (btree_insert k v m) = (map_of m)(k \<mapsto> v)"
  by (induction k v m rule: btree_insert.induct) (auto simp: fun_eq_iff)

lemma btree_insert_keys: "fst ` set (btree_insert k v m) = insert k (fst ` set m)"
  by (induction k v m rule: btree_insert.induct) auto

lemma btree_insert_sorted:
  "sorted_wrt (<) (map fst m) \<Longrightarrow> sorted_wrt (<) (map fst (btree_insert k v m))"
proof (induction k v m rule: btree_insert.induct)
  case (2 k v k' v' m)
  have keys: "set (map fst (btree_insert k v m)) = insert k (set (map fst m))" by (simp add: btree_insert_keys)
  show ?case
  proof (cases "k < k'")
    case True
    with "2.prems" show ?thesis by (auto intro: less_trans)
  next
    case False
    with "2.prems" "2.IH" keys show ?thesis by (cases "k = k'") auto
  qed
qed simp

lemma btree_collect_props:
  "sorted_wrt (<) (map fst (btree_collect entries)) \<and> map_of (btree_collect entries) = map_of (rev entries)"
proof (induction entries rule: rev_induct)
  case (snoc e es)
  obtain k v where e: "e = (k, v)" by (cases e)
  with snoc btree_insert_sorted [of "btree_collect es" k v] show ?case
    by (auto simp: btree_collect_def btree_insert_map e)
qed (simp add: btree_collect_def)

lemma sorted_assoc_unique:
  assumes "sorted_wrt (<) (map fst xs)" and "sorted_wrt (<) (map fst ys)" and "map_of xs = map_of ys"
  shows "xs = (ys :: (string \<times> string) list)"
proof -
  have d: "distinct (map fst xs)" "distinct (map fst ys)" "sorted (map fst xs)" "sorted (map fst ys)"
    using assms(1,2) by (simp_all add: strict_sorted_iff)
  have "set (map fst xs) = dom (map_of xs)" "set (map fst ys) = dom (map_of ys)"
    by (simp_all add: dom_map_of_conv_image_fst)
  then have "set (map fst xs) = set (map fst ys)" using assms(3) by simp
  then have keys: "map fst xs = map fst ys" using d by (intro sorted_distinct_set_unique)
  have val: "map (\<lambda>k. (k, the (map_of zs k))) (map fst zs) = zs" if "distinct (map fst zs)" for zs :: "(string \<times> string) list"
    unfolding map_map using that by (intro map_idI) (auto simp: map_of_is_SomeI)
  show ?thesis using val [OF d(1)] val [OF d(2)] keys assms(3) by simp
qed

lemma hex_digits:
  "n < 16 \<Longrightarrow> (of_char (hex_lower n) :: nat) = (if n < 10 then 48 + n else 87 + n)"
  "n < 16 \<Longrightarrow> (of_char (hex_upper n) :: nat) = (if n < 10 then 48 + n else 55 + n)"
  by (simp_all add: hex_lower_def hex_upper_def)

text \<open>Reading back one escaped character.\<close>

definition hex_value :: "char \<Rightarrow> nat" where
  "hex_value c = (let n = of_char c :: nat in if n < 58 then n - 48 else if n < 71 then n - 55 else n - 87)"

lemma hex_value_hex [simp]:
  "n < 16 \<Longrightarrow> hex_value (hex_lower n) = n" "n < 16 \<Longrightarrow> hex_value (hex_upper n) = n"
  by (simp_all add: hex_value_def hex_digits)

definition unescape :: "string \<Rightarrow> (char \<times> string) option" where
  "unescape s = (case s of
     [] \<Rightarrow> None
   | c # r \<Rightarrow> (if c = quote_char then None
       else if (of_char c :: nat) \<noteq> 0x5C then Some (c, r)
       else case r of
         [] \<Rightarrow> None
       | e # r' \<Rightarrow> (let n = of_char e :: nat in
           if n = 0x62 then Some (char_of (8 :: nat), r')
           else if n = 0x74 then Some (char_of (9 :: nat), r')
           else if n = 0x6E then Some (char_of (10 :: nat), r')
           else if n = 0x66 then Some (char_of (12 :: nat), r')
           else if n = 0x72 then Some (char_of (13 :: nat), r')
           else if n = 0x75 then Some (char_of (16 * hex_value (r' ! 2) + hex_value (r' ! 3)), drop 4 r')
           else Some (e, r'))))"

lemma char_of_of [simp]: "char_of (of_char c :: nat) = c"
  by simp

lemma unescape_escape: "unescape (escape_char c @ r) = Some (c, r)"
proof -
  define n where "n = (of_char c :: nat)"
  have c: "c = char_of n" by (simp add: n_def)
  have q: "(c = quote_char) = (n = 0x22)"
  proof -
    have "(c = quote_char) = ((of_char c :: nat) = of_char quote_char)" by simp
    then show ?thesis by (simp add: quote_char_def n_def)
  qed
  show ?thesis
  proof (cases "n < 0x20 \<and> n \<noteq> 8 \<and> n \<noteq> 9 \<and> n \<noteq> 10 \<and> n \<noteq> 12 \<and> n \<noteq> 13")
    case True
    then have "16 * (n div 16) + n mod 16 = n" "n div 16 < 16" "n mod 16 < 16" by (simp, linarith, simp)
    with True show ?thesis
      by (simp add: escape_char_def unescape_def Let_def n_def [symmetric] quote_char_def c)
  next
    case False
    then show ?thesis
      by (auto simp: escape_char_def unescape_def Let_def n_def [symmetric] q quote_char_def c)
  qed
qed

lemma escaped_unique:
  "concat (map escape_char s) @ quote_char # r = concat (map escape_char t) @ quote_char # r' \<Longrightarrow> s = t \<and> r = r'"
proof (induction s arbitrary: t)
  case Nil
  have none: "unescape (quote_char # x) = None" for x by (simp add: unescape_def)
  show ?case
  proof (cases t)
    case (Cons c t')
    with Nil have "quote_char # r = escape_char c @ concat (map escape_char t') @ quote_char # r'" by simp
    then have "unescape (quote_char # r) = Some (c, concat (map escape_char t') @ quote_char # r')"
      by (metis unescape_escape)
    with none show ?thesis by simp
  qed (use Nil in simp)
next
  case (Cons c s)
  have none: "unescape (quote_char # x) = None" for x by (simp add: unescape_def)
  have l: "unescape (concat (map escape_char (c # s)) @ quote_char # r) =
      Some (c, concat (map escape_char s) @ quote_char # r)"
    by (simp add: unescape_escape)
  show ?case
  proof (cases t)
    case Nil
    with Cons.prems l none [of r'] show ?thesis by (metis concat.simps(1) list.simps(8) append_Nil option.distinct(1))
  next
    case (Cons d t')
    have "unescape (concat (map escape_char t) @ quote_char # r') =
        Some (d, concat (map escape_char t') @ quote_char # r')"
      by (simp add: Cons unescape_escape)
    with l Cons.prems have "c = d" "concat (map escape_char s) @ quote_char # r = concat (map escape_char t') @ quote_char # r'"
      by simp_all
    with Cons.IH Cons show ?thesis by blast
  qed
qed

lemma json_string_unique: "json_string s @ r = json_string t @ r' \<Longrightarrow> s = t \<and> r = r'"
  using escaped_unique [of s r t r'] by (simp add: json_string_def)

lemma quote_char_eq: "quote_char = CHR 0x22"
  by code_simp

lemma json_string_not: "json_string s @ r \<noteq> CHR ''}'' # r'"
  by (simp add: json_string_def quote_char_eq)

lemma json_fields_entry:
  "json_fields ((k, v) # es) @ ''}'' = json_string k @ '':'' @ json_string v @
     (case es of [] \<Rightarrow> ''}'' | _ \<Rightarrow> '','' @ json_fields es @ ''}'')"
  by (cases es) simp_all

lemma json_fields_unique: "json_fields xs @ ''}'' = json_fields ys @ ''}'' \<Longrightarrow> xs = ys"
proof (induction xs arbitrary: ys)
  case Nil
  show ?case
  proof (cases ys)
    case (Cons e es)
    obtain k v where e: "e = (k, v)" by (cases e)
    from Nil have "json_fields (e # es) @ ''}'' = ''}''" by (simp add: Cons)
    then show ?thesis unfolding e json_fields_entry using json_string_not [of k] by metis
  qed simp
next
  case (Cons e es)
  obtain k v where e: "e = (k, v)" by (cases e)
  show ?case
  proof (cases ys)
    case Nil
    with Cons.prems have "json_fields (e # es) @ ''}'' = ''}''" by simp
    then show ?thesis unfolding e json_fields_entry using json_string_not [of k] by metis
  next
    case (Cons f fs)
    obtain k' v' where f: "f = (k', v')" by (cases f)
    let ?tail = "\<lambda>es. case es of [] \<Rightarrow> ''}'' | _ \<Rightarrow> '','' @ json_fields es @ ''}''"
    from Cons.prems have "json_string k @ '':'' @ json_string v @ ?tail es = json_string k' @ '':'' @ json_string v' @ ?tail fs"
      unfolding Cons e f json_fields_entry .
    then have kv: "k = k'" "v = v'" and t: "?tail es = ?tail fs"
      by (auto dest!: json_string_unique)
    from t have "(es = [] \<and> fs = []) \<or> json_fields es @ ''}'' = json_fields fs @ ''}''"
      by (cases es; cases fs) simp_all
    then have "es = fs" using Cons.IH [of fs] by blast
    with kv Cons e f show ?thesis by simp
  qed
qed

section \<open>Properties\<close>

text \<open>C28. A signature over canonical JSON covers exactly the fields: two field lists have the same text
  when, and only when, they say the same of every key. Their order does not matter, the last value of a
  repeated key counts, and no value can imitate another field by its quotes or control characters.\<close>

theorem canonical_json_determines_fields:
  "canonical_json xs = canonical_json ys \<longleftrightarrow> map_of (rev xs) = map_of (rev ys)"
proof
  assume "canonical_json xs = canonical_json ys"
  then have "btree_collect xs = btree_collect ys" by (intro json_fields_unique) (simp add: canonical_json_def)
  then show "map_of (rev xs) = map_of (rev ys)" using btree_collect_props [of xs] btree_collect_props [of ys] by simp
next
  assume "map_of (rev xs) = map_of (rev ys)"
  then have "btree_collect xs = btree_collect ys"
    using btree_collect_props [of xs] btree_collect_props [of ys] by (intro sorted_assoc_unique) auto
  then show "canonical_json xs = canonical_json ys" by (simp add: canonical_json_def)
qed

fun percent_decode :: "string \<Rightarrow> string" where
  "percent_decode [] = []"
| "percent_decode (c # s) = (if c = CHR ''%''
     then (case s of a # b # r \<Rightarrow> char_of (16 * hex_value a + hex_value b) # percent_decode r | _ \<Rightarrow> [])
     else c # percent_decode s)"

text \<open>The public key in the path of a deregistration: percent-decoding gives it back, and no character
  of it can end the path segment, whatever the base64 text holds.\<close>

lemma url_encode_round_trip:
  "percent_decode (url_encode_path_segment s) = s \<and>
   list_all (\<lambda>c. unreserved c \<or> c = CHR ''%'') (url_encode_path_segment s) \<and>
   \<not> unreserved (CHR ''/'') \<and> \<not> unreserved (CHR ''?'') \<and> \<not> unreserved (CHR ''#'')"
proof (induction s)
  case (Cons c s)
  have n: "(of_char c :: nat) div 16 < 16" "(of_char c :: nat) mod 16 < 16"
    using nat_of_char_less_256 [of c] by (linarith, simp)
  have up: "unreserved (hex_upper n)" if "n < 16" for n
    using that by (auto simp: unreserved_def Let_def hex_digits)
  have "\<not> unreserved (CHR ''%'')" by code_simp
  then have "unreserved c \<Longrightarrow> c \<noteq> CHR ''%''" by auto
  with Cons n up show ?case by (cases "unreserved c") simp_all
qed code_simp

text \<open>What a log of the loop may look like, from a client that is registered or not: a heartbeat carries
  the admin secret exactly when the one before it did not succeed, and a deregistration is sent only
  while registered, and last.\<close>

definition carries_secret :: "http_request \<Rightarrow> bool" where
  "carries_secret rq = (case rq of HttpPost _ (JObject entries) \<Rightarrow> ''admin_secret'' \<in> fst ` set entries | _ \<Rightarrow> False)"

fun protocol_ok :: "bool \<Rightarrow> reg_entry list \<Rightarrow> bool" where
  "protocol_ok registered [] = True"
| "protocol_ok registered (Heartbeat rq ok # es) = (carries_secret rq = (\<not> registered) \<and> protocol_ok ok es)"
| "protocol_ok registered (HeartbeatCut rq # es) = (carries_secret rq = (\<not> registered) \<and>
     (case es of [] \<Rightarrow> \<not> registered | [Deregister _] \<Rightarrow> registered | _ \<Rightarrow> False))"
| "protocol_ok registered (Deregister rq # es) = (registered \<and> es = [])"

fun registered_after :: "bool \<Rightarrow> reg_entry list \<Rightarrow> bool" where
  "registered_after registered [] = registered"
| "registered_after registered (Heartbeat rq ok # es) = registered_after ok es"
| "registered_after registered (_ # es) = registered_after registered es"

definition only_heartbeats :: "reg_entry list \<Rightarrow> bool" where
  "only_heartbeats es = list_all (\<lambda>e. case e of Heartbeat _ _ \<Rightarrow> True | _ \<Rightarrow> False) es"

lemma heartbeat_carries: "carries_secret (heartbeat_request i c t) = (\<not> rg_is_registered c)"
  by (auto simp: heartbeat_request_def carries_secret_def split: option.split)

lemma protocol_append:
  "only_heartbeats es \<Longrightarrow> protocol_ok r (es @ fs) = (protocol_ok r es \<and> protocol_ok (registered_after r es) fs)"
  by (induction r es rule: protocol_ok.induct) (auto simp: only_heartbeats_def)

lemma registered_append: "registered_after r (es @ fs) = registered_after (registered_after r es) fs"
  by (induction r es rule: registered_after.induct) simp_all

definition reg_inv :: "bool \<Rightarrow> reg_loop \<Rightarrow> bool" where
  "reg_inv r l \<longleftrightarrow> protocol_ok r (rl_log l) \<and>
     (rl_phase l = RegStopped \<or>
      (only_heartbeats (rl_log l) \<and> registered_after r (rl_log l) = rg_is_registered (rl_client l)))"

lemma reg_inv_running:
  "reg_inv r l \<Longrightarrow> rl_phase l \<noteq> RegStopped \<Longrightarrow>
   protocol_ok r (rl_log l) \<and> only_heartbeats (rl_log l) \<and> registered_after r (rl_log l) = rg_is_registered (rl_client l)"
  by (simp add: reg_inv_def)

lemma reg_step_inv:
  assumes "reg_inv r l"
  shows "reg_inv r (reg_step i ev l)"
proof (cases "rl_phase l")
  case RegHeartbeat
  with reg_inv_running [OF assms] have log: "protocol_ok r (rl_log l)" "only_heartbeats (rl_log l)"
      "registered_after r (rl_log l) = rg_is_registered (rl_client l)" by simp_all
  note app = protocol_append [OF log(2)] registered_append heartbeat_carries log
  show ?thesis
  proof (cases ev)
    case (RegReply t outcome)
    show ?thesis
      by (cases "heartbeat_result outcome")
        (simp_all add: reg_inv_def reg_step_def RegHeartbeat RegReply send_heartbeat_def Let_def app
          only_heartbeats_def log(2) [unfolded only_heartbeats_def])
  next
    case RegTimer
    with RegHeartbeat assms show ?thesis by (simp add: reg_step_def)
  next
    case (RegShutdown in_flight t outcome)
    show ?thesis
      by (cases in_flight; cases "rg_is_registered (rl_client l)")
        (simp_all add: reg_inv_def reg_step_def RegHeartbeat RegShutdown handle_shutdown_def app)
  qed
next
  case (RegSleeping n)
  with reg_inv_running [OF assms] have log: "protocol_ok r (rl_log l)" "only_heartbeats (rl_log l)"
      "registered_after r (rl_log l) = rg_is_registered (rl_client l)" by simp_all
  note app = protocol_append [OF log(2)] log
  show ?thesis
    by (cases ev; cases "rg_is_registered (rl_client l)")
      (use assms in \<open>simp_all add: reg_inv_def reg_step_def RegSleeping handle_shutdown_def app\<close>)
qed (use assms in \<open>simp add: reg_step_def\<close>)

text \<open>C20. The joining service's view, in every run of the loop, whatever the service answers and whenever
  the shutdown comes: the admin secret is sent in the first heartbeat and again in each one after a
  failure, and in no other; a deregistration is sent at most once, as the last request, and only when
  the last heartbeat that was answered succeeded, then also when a further one was cut off.\<close>

theorem secret_until_registered:
  "protocol_ok False (rl_log (reg_run i evs (reg_loop_new (registration_new cfg secret))))"
proof -
  have "reg_inv False l \<Longrightarrow> reg_inv False (reg_run i evs l)" for l
    by (induction evs arbitrary: l) (simp_all add: reg_run_def reg_step_inv)
  moreover have "reg_inv False (reg_loop_new (registration_new cfg secret))"
    by (simp add: reg_inv_def reg_loop_new_def registration_new_def only_heartbeats_def)
  ultimately show ?thesis by (simp add: reg_inv_def)
qed

text \<open>The interval of a failure outlives it: a success that names none keeps sleeping thirty seconds,
  whatever the configured interval.\<close>

lemma failure_interval_sticks:
  assumes "rl_phase l = RegHeartbeat" and "heartbeat_result bad = Inl e" and "heartbeat_result good = Inr hb"
    and "hb_interval_seconds hb = None"
  shows "rl_phase (reg_run i [RegReply t bad, RegTimer, RegReply t' good] l) = RegSleeping 30"
  using assms by (simp add: reg_run_def reg_step_def send_heartbeat_def Let_def next_interval_def)

end
