(* ===== verification/Linker_Service.thy ===== *)
theory Linker_Service imports Service_System Kitsune_Builder Identity Registration begin

text \<open>
  Putting the linker together and running it (\<open>src/service.rs\<close>, \<open>src/bin/h2hc-linker.rs\<close>). \<open>linker_new\<close>
  makes every part in the order of the code and fails where the code fails; beside the state it starts
  from, it records which \<open>Arc\<close> each part holds. \<open>run_step\<close> is the life of the process: the registration
  loop starts, the listener binds, the server serves until the shutdown, and the process waits for the
  registration loop to deregister. Files, kitsune2 and SQLite are parameters.
\<close>

section \<open>Setting up\<close>

record ('k, 'f, 'w, 'c) setup_env =
  su_keys :: "'k key_api"
  su_files :: "'f fs_api"
  su_preflight :: preflight_api
  su_k2 :: "('k, 'w, kitsune_proxy) k2_setup"
  su_open_sqlite :: "string \<Rightarrow> 'f \<Rightarrow> 'f \<times> (string + sqlite_store)"
  su_conductor :: 'c
  su_view :: kitsune_view

datatype 'x start_result = Started 'x | StartFailed linker_error | StartPanicked

text \<open>Who holds which shared part.\<close>

record 'k wiring =
  wr_proxy :: kitsune_proxy
  wr_builder :: "'k k2_builder"
  wr_state_agent_proxy :: shared
  wr_gateway_agent_proxy :: shared
  wr_query_pending :: shared
  wr_op_store_handle :: shared

record ('k, 'w, 'c, 'a, 'i) linker_service =
  lv_addr :: "'i \<times> nat"
  lv_state :: "('w, 'c, 'a) linker_state"
  lv_identity :: 'k
  lv_wiring :: "'k wiring"

definition op_store_factory_create :: "nat \<Rightarrow> nat \<times> (op_store_factory \<times> shared)" where
  "op_store_factory_create n = (case new_shared n of (n', inner) \<Rightarrow> (n', (TempOpStoreFactory inner, inner)))"

definition report_settings :: "'a configuration \<Rightarrow> hc_report_config option" where
  "report_settings config = (case cf_report config of
     ReportNone \<Rightarrow> None
   | ReportJsonLines days interval \<Rightarrow> Some \<lparr>hr_days_retained = days, hr_path = cf_report_path config,
       hr_fetched_op_interval_s = interval\<rparr>)"

definition linker_builder :: "'a configuration \<Rightarrow> 'k \<Rightarrow> kitsune_proxy \<Rightarrow> op_store_factory \<Rightarrow> 'k proxy_builder" where
  "linker_builder config key proxy factory =
     (let b = with_bootstrap_url (cf_bootstrap_url config) (with_op_store factory (proxy_builder_new proxy));
          b1 = (case cf_relay_url config of None \<Rightarrow> b | Some url \<Rightarrow> with_relay_url url b)
      in case report_settings config of
           None \<Rightarrow> b1
         | Some settings \<Rightarrow> with_report (LinkerReportFactory key) settings b1)"

definition open_session_store :: "('k, 'f, 'w, 'c) setup_env \<Rightarrow> session_store_config \<Rightarrow> 'f \<Rightarrow> 'f \<times> (string + backend)" where
  "open_session_store su cfg f = (case cfg of
     StoreMemory \<Rightarrow> (f, Inr (MemoryBackend mem_new))
   | StoreSqlite path \<Rightarrow> (case su_open_sqlite su path f of
        (f', Inl e) \<Rightarrow> (f', Inl (''Failed to open session store: '' @ e))
      | (f', Inr s) \<Rightarrow> (f', Inr (SqliteBackend s))))"

definition open_auth_store :: "('k, 'f, 'w, 'c) setup_env \<Rightarrow> 'a configuration \<Rightarrow> 'f \<Rightarrow> 'f \<times> (string + auth_store option)" where
  "open_auth_store su config f = (if auth_enabled config
     then (case open_session_store su (cf_session_store config) f of
         (f', Inl e) \<Rightarrow> (f', Inl e)
       | (f', Inr b) \<Rightarrow> (f', Inr (Some (auth_with_store b))))
     else (f, Inr None))"

definition first_state :: "('k, 'f, 'w, 'c) setup_env \<Rightarrow> 'a configuration \<Rightarrow> 'w \<Rightarrow> auth_store option \<Rightarrow> ('w, 'c, 'a) linker_state" where
  "first_state su config w auth = \<lparr>st_admin_secret = cf_admin_secret config, st_auth_store = auth,
     ls_configuration = config, ls_agent_proxy = ap_new, ls_gateway = Some (gk_new w),
     ls_kitsune = \<lparr>kn_enabled = True, kn_bootstrap_url = Some (cf_bootstrap_url config),
       kn_relay_url = cf_relay_url config, kn_kitsune = Some (su_view su)\<rparr>,
     ls_app_conn = map_option (\<lambda>_. app_conn_new (su_conductor su)) (cf_conductor_url config),
     ls_op_store = Some op_store_new\<rparr>"

text \<open>Kitsune2 with the parts it shares; \<open>None\<close> is the panic of the preflight cache.\<close>

definition start_kitsune :: "('k, 'f, 'w, 'c) setup_env \<Rightarrow> 'a configuration \<Rightarrow> 'k \<Rightarrow> 'w \<Rightarrow>
    'w \<times> (string + 'k wiring) option" where
  "start_kitsune su config key w =
     (case new_shared 0 of (n1, agent_proxy) \<Rightarrow>
      case new_shared n1 of (n2, pending) \<Rightarrow>
      case op_store_factory_create n2 of (n3, (factory, handle)) \<Rightarrow>
      case with_pending_responses agent_proxy pending n3 of (n4, proxy) \<Rightarrow>
      case cache_new (su_preflight su) of
        None \<Rightarrow> (w, None)
      | Some _ \<Rightarrow> (case proxy_build (su_k2 su) (linker_builder config key proxy factory) w of
          (w', Inl e) \<Rightarrow> (w', Some (Inl e))
        | (w', Inr b) \<Rightarrow> (w', Some (Inr \<lparr>wr_proxy = proxy, wr_builder = b, wr_state_agent_proxy = agent_proxy,
            wr_gateway_agent_proxy = agent_proxy, wr_query_pending = pending, wr_op_store_handle = handle\<rparr>))))"

definition linker_new :: "('k, 'f, 'w, 'c) setup_env \<Rightarrow> 'i \<Rightarrow> nat \<Rightarrow> 'a configuration \<Rightarrow> seed \<Rightarrow> 'f \<times> 'w \<Rightarrow>
    ('f \<times> 'w) \<times> ('k, 'w, 'c, 'a, 'i) linker_service start_result" where
  "linker_new su address port config secret st = (case st of (f, w) \<Rightarrow>
     (case identity_load (su_keys su) (su_files su) (cf_identity config) secret f of
        (f1, Inl e) \<Rightarrow> ((f1, w), StartFailed (Internal (''Failed to load linker identity: '' @ e)))
      | (f1, Inr key) \<Rightarrow>
     (if \<not> kitsune_enabled config then ((f1, w), StartPanicked)
      else case start_kitsune su config key w of
        (w1, None) \<Rightarrow> ((f1, w1), StartPanicked)
      | (w1, Some (Inl e)) \<Rightarrow> ((f1, w1), StartFailed (Internal (''Failed to create Kitsune2 instance: '' @ e)))
      | (w1, Some (Inr wires)) \<Rightarrow>
     (case open_auth_store su config f1 of
        (f2, Inl e) \<Rightarrow> ((f2, w1), StartFailed (Internal e))
      | (f2, Inr auth) \<Rightarrow> ((f2, w1), Started \<lparr>lv_addr = (address, port),
          lv_state = first_state su config w1 auth, lv_identity = key, lv_wiring = wires\<rparr>)))))"

section \<open>Running\<close>

datatype run_phase = RunStarting | RunServing | RunWaiting | RunDone "unit linker_result"

record run_state =
  rn_phase :: run_phase
  rn_shutdown :: bool
  rn_registration :: "reg_loop option"

text \<open>\<open>RunBound\<close> and \<open>RunServed\<close> are the outcomes of binding and serving, \<open>RunShutdown\<close> the signal, or the
  loss of its sender. \<open>RunTaskEnded\<close> is the registration task seen to have ended, \<open>RunTaskPanicked\<close> to
  have panicked, \<open>RunTimeout\<close> the five seconds granted to it.\<close>

datatype run_event =
    RunBound "string + unit"
  | RunServed "string + unit"
  | RunShutdown
  | RunRegistration reg_event
  | RunTaskEnded
  | RunTaskPanicked
  | RunTimeout

definition run_begin :: "'a configuration \<Rightarrow> run_state" where
  "run_begin config = \<lparr>rn_phase = RunStarting, rn_shutdown = False,
     rn_registration = map_option (\<lambda>cfg. reg_loop_new (registration_new cfg
       (case cf_admin_secret config of None \<Rightarrow> [] | Some secret \<Rightarrow> secret))) (cf_registration config)\<rparr>"

definition is_reg_shutdown :: "reg_event \<Rightarrow> bool" where
  "is_reg_shutdown ev \<longleftrightarrow> (case ev of RegShutdown _ _ _ \<Rightarrow> True | _ \<Rightarrow> False)"

definition task_ended :: "run_state \<Rightarrow> bool" where
  "task_ended s \<longleftrightarrow> (case rn_registration s of None \<Rightarrow> True | Some l \<Rightarrow> rl_phase l = RegStopped)"

text \<open>The server ends well only once the shutdown was signalled; the loop sees a shutdown only then.\<close>

definition run_step :: "linker_identity \<Rightarrow> run_event \<Rightarrow> run_state \<Rightarrow> run_state" where
  "run_step i ev s = (case (rn_phase s, ev) of
     (RunDone _, _) \<Rightarrow> s
   | (_, RunShutdown) \<Rightarrow> s\<lparr>rn_shutdown := True\<rparr>
   | (_, RunRegistration e) \<Rightarrow> (if is_reg_shutdown e \<and> \<not> rn_shutdown s then s
       else s\<lparr>rn_registration := map_option (reg_step i e) (rn_registration s)\<rparr>)
   | (RunStarting, RunBound (Inl e)) \<Rightarrow> s\<lparr>rn_phase := RunDone (Inl (Network e))\<rparr>
   | (RunStarting, RunBound (Inr _)) \<Rightarrow> s\<lparr>rn_phase := RunServing\<rparr>
   | (RunServing, RunServed (Inl e)) \<Rightarrow> s\<lparr>rn_phase := RunDone (Inl (Network e))\<rparr>
   | (RunServing, RunServed (Inr _)) \<Rightarrow> (if \<not> rn_shutdown s then s
       else s\<lparr>rn_phase := (if rn_registration s = None then RunDone (Inr ()) else RunWaiting)\<rparr>)
   | (RunWaiting, RunTaskEnded) \<Rightarrow> (if task_ended s then s\<lparr>rn_phase := RunDone (Inr ())\<rparr> else s)
   | (RunWaiting, RunTaskPanicked) \<Rightarrow> s\<lparr>rn_phase := RunDone (Inr ())\<rparr>
   | (RunWaiting, RunTimeout) \<Rightarrow> s\<lparr>rn_phase := RunDone (Inr ())\<rparr>
   | _ \<Rightarrow> s)"

definition run_all :: "linker_identity \<Rightarrow> run_event list \<Rightarrow> run_state \<Rightarrow> run_state" where
  "run_all i evs s = fold (run_step i) evs s"

text \<open>\<open>main\<close>: a bad configuration and a failed start end the process before anything is served.\<close>

datatype ('k, 'w, 'c, 'a, 'i) main_result = MainConfigError config_error | MainStart "('k, 'w, 'c, 'a, 'i) linker_service start_result"

definition linker_main :: "'a env_parsers \<Rightarrow> environment \<Rightarrow> ('k, 'f, 'w, 'c) setup_env \<Rightarrow> 'i \<Rightarrow> nat \<Rightarrow> seed \<Rightarrow> 'f \<times> 'w \<Rightarrow>
    ('f \<times> 'w) \<times> ('k, 'w, 'c, 'a, 'i) main_result" where
  "linker_main p vars su address port secret st = (case from_env p vars of
     Inl e \<Rightarrow> (st, MainConfigError e)
   | Inr config \<Rightarrow> (case linker_new su address port config secret st of (st', r) \<Rightarrow> (st', MainStart r)))"

end
