(* ===== verification/Gateway_System.thy ===== *)
theory Gateway_System imports Gateway_Kitsune begin

text \<open>
  Joins and leaves at once (\<open>src/gateway_kitsune.rs\<close>). Every method of the gateway takes the locks of its
  two maps for a moment only and awaits kitsune2 in between, so it is a task cut there: a join checks the
  agents, gets or creates the space, joins the network and stores the agent; a leave takes the agent out,
  looks the space up, leaves the network, looks for other agents and drops the space. Tasks interleave in
  any order, the network changes under them, and a task may be dropped.

  \<open>Gateway_Kitsune\<close> has the same methods run without anything in between; \<open>join_alone\<close> and
  \<open>leave_alone\<close> say that a task which nothing disturbs does just that.
\<close>

section \<open>Tasks\<close>

text \<open>Where \<open>get_or_create_space\<close> is: reading the spaces, awaiting kitsune2, or storing the new space.\<close>

datatype space_stage = SpaceRead | SpaceMake | SpaceKeep space_id | SpaceReady space_id | SpaceFailed string

datatype gateway_task =
    JoinCheck dna_hash agent_pubkey
  | JoinSpace dna_hash agent_pubkey space_stage
  | JoinNetwork dna_hash agent_pubkey space_id
  | JoinKeep dna_hash agent_pubkey proxy_agent
  | JoinEnded "string + unit"
  | LeaveRemove dna_hash agent_pubkey
  | LeaveLookup dna_hash agent_pubkey
  | LeaveNetwork dna_hash agent_pubkey space_id
  | LeaveCheck dna_hash
  | LeaveDrop dna_hash
  | LeaveEnded
  | UseSpace dna_hash space_stage

fun space_step :: "k2_api \<Rightarrow> 'w network \<Rightarrow> dna_hash \<Rightarrow> space_stage \<Rightarrow> 'w gateway \<Rightarrow> 'w gateway \<times> space_stage" where
  "space_step k2 net d SpaceRead g = (g, case hm_get (gk_spaces g) d of Some sp \<Rightarrow> SpaceReady sp | None \<Rightarrow> SpaceMake)"
| "space_step k2 net d SpaceMake g = (let sp = dna_to_space k2 d in case nw_space net sp (gk_world g) of
     (w, Inl e) \<Rightarrow> (g\<lparr>gk_world := w\<rparr>, SpaceFailed (''Failed to create space: '' @ e))
   | (w, Inr _) \<Rightarrow> (g\<lparr>gk_world := w\<rparr>, SpaceKeep sp))"
| "space_step k2 net d (SpaceKeep sp) g = (g\<lparr>gk_spaces := hm_insert d sp (gk_spaces g)\<rparr>, SpaceReady sp)"
| "space_step k2 net d stage g = (g, stage)"

definition join_on :: "dna_hash \<Rightarrow> agent_pubkey \<Rightarrow> space_stage \<Rightarrow> gateway_task" where
  "join_on d a stage = (case stage of
     SpaceReady sp \<Rightarrow> JoinNetwork d a sp | SpaceFailed e \<Rightarrow> JoinEnded (Inl e) | _ \<Rightarrow> JoinSpace d a stage)"

text \<open>A task's next step: one critical section, or one call of the network.\<close>

fun gw_task_step :: "k2_api \<Rightarrow> 'w network \<Rightarrow> gateway_task \<Rightarrow> 'w gateway \<Rightarrow> 'w gateway \<times> gateway_task" where
  "gw_task_step k2 net (JoinCheck d a) g =
     (g, if hm_contains (gk_agents g) (d, a) then JoinEnded (Inr ()) else JoinSpace d a SpaceRead)"
| "gw_task_step k2 net (JoinSpace d a stage) g = (case space_step k2 net d stage g of (g', stage') \<Rightarrow> (g', join_on d a stage'))"
| "gw_task_step k2 net (JoinNetwork d a sp) g = (let pa = proxy_agent_new k2 a in case nw_join net sp pa (gk_world g) of
     (w, Inl e) \<Rightarrow> (g\<lparr>gk_world := w\<rparr>, JoinEnded (Inl (''Failed to join agent to space: '' @ e)))
   | (w, Inr _) \<Rightarrow> (g\<lparr>gk_world := w\<rparr>, JoinKeep d a pa))"
| "gw_task_step k2 net (JoinKeep d a pa) g = (g\<lparr>gk_agents := hm_insert (d, a) pa (gk_agents g)\<rparr>, JoinEnded (Inr ()))"
| "gw_task_step k2 net (LeaveRemove d a) g =
     (if hm_contains (gk_agents g) (d, a) then (g\<lparr>gk_agents := hm_remove (d, a) (gk_agents g)\<rparr>, LeaveLookup d a)
      else (g, LeaveEnded))"
| "gw_task_step k2 net (LeaveLookup d a) g =
     (g, case hm_get (gk_spaces g) d of Some sp \<Rightarrow> LeaveNetwork d a sp | None \<Rightarrow> LeaveCheck d)"
| "gw_task_step k2 net (LeaveNetwork d a sp) g =
     (g\<lparr>gk_world := nw_leave net sp (AgentId (raw_32 k2 a)) (gk_world g)\<rparr>, LeaveCheck d)"
| "gw_task_step k2 net (LeaveCheck d) g =
     (g, if list_ex (\<lambda>e. fst (fst e) = d) (gk_agents g) then LeaveEnded else LeaveDrop d)"
| "gw_task_step k2 net (LeaveDrop d) g = (g\<lparr>gk_spaces := hm_remove d (gk_spaces g)\<rparr>, LeaveEnded)"
| "gw_task_step k2 net (UseSpace d stage) g = (case space_step k2 net d stage g of (g', stage') \<Rightarrow> (g', UseSpace d stage'))"
| "gw_task_step k2 net t g = (g, t)"

section \<open>The system\<close>

record 'w gateway_system =
  gs_gateway :: "'w gateway"
  gs_tasks :: "gateway_task list"

datatype 'w gateway_event =
    GwJoin dna_hash agent_pubkey
  | GwLeave dna_hash agent_pubkey
  | GwSpace dna_hash
  | GwStep nat
  | GwDrop nat
  | GwNetwork 'w

definition drop_task :: "nat \<Rightarrow> 'x list \<Rightarrow> 'x list" where
  "drop_task i xs = take i xs @ drop (Suc i) xs"

fun gw_step :: "k2_api \<Rightarrow> 'w network \<Rightarrow> 'w gateway_event \<Rightarrow> 'w gateway_system \<Rightarrow> 'w gateway_system" where
  "gw_step k2 net (GwJoin d a) s = s\<lparr>gs_tasks := gs_tasks s @ [JoinCheck d a]\<rparr>"
| "gw_step k2 net (GwLeave d a) s = s\<lparr>gs_tasks := gs_tasks s @ [LeaveRemove d a]\<rparr>"
| "gw_step k2 net (GwSpace d) s = s\<lparr>gs_tasks := gs_tasks s @ [UseSpace d SpaceRead]\<rparr>"
| "gw_step k2 net (GwStep i) s = (if i < length (gs_tasks s)
     then (case gw_task_step k2 net (gs_tasks s ! i) (gs_gateway s) of
       (g, t) \<Rightarrow> \<lparr>gs_gateway = g, gs_tasks = (gs_tasks s)[i := t]\<rparr>) else s)"
| "gw_step k2 net (GwDrop i) s = s\<lparr>gs_tasks := drop_task i (gs_tasks s)\<rparr>"
| "gw_step k2 net (GwNetwork w) s = s\<lparr>gs_gateway := (gs_gateway s)\<lparr>gk_world := w\<rparr>\<rparr>"

definition gw_run :: "k2_api \<Rightarrow> 'w network \<Rightarrow> 'w gateway_event list \<Rightarrow> 'w gateway_system \<Rightarrow> 'w gateway_system" where
  "gw_run k2 net es s = fold (gw_step k2 net) es s"

definition gs_new :: "'w \<Rightarrow> 'w gateway_system" where
  "gs_new w = \<lparr>gs_gateway = gk_new w, gs_tasks = []\<rparr>"

section \<open>A task alone\<close>

fun alone :: "k2_api \<Rightarrow> 'w network \<Rightarrow> nat \<Rightarrow> gateway_task \<Rightarrow> 'w gateway \<Rightarrow> 'w gateway \<times> gateway_task" where
  "alone k2 net 0 t g = (g, t)"
| "alone k2 net (Suc n) t g = (case gw_task_step k2 net t g of (g', t') \<Rightarrow> alone k2 net n t' g')"

lemma join_alone:
  "alone k2 net 6 (JoinCheck d a) g = (case agent_join k2 net d a g of (g', r) \<Rightarrow> (g', JoinEnded r))"
  by (auto simp: numeral_eq_Suc agent_join_def get_or_create_space_def join_on_def Let_def
    split: option.split prod.split sum.split)

lemma leave_alone: "alone k2 net 5 (LeaveRemove d a) g = (agent_leave k2 net d a g, LeaveEnded)"
  by (auto simp: numeral_eq_Suc agent_leave_def maybe_cleanup_space_def Let_def split: option.split)

lemma use_alone:
  "alone k2 net 3 (UseSpace d SpaceRead) g = (case get_or_create_space k2 net d g of
     (g', r) \<Rightarrow> (g', UseSpace d (case r of Inl e \<Rightarrow> SpaceFailed e | Inr sp \<Rightarrow> SpaceReady sp)))"
  by (auto simp: numeral_eq_Suc get_or_create_space_def Let_def split: option.split prod.split sum.split)

section \<open>What every interleaving keeps\<close>

text \<open>A join that has its space, and a leave that has found no other agent.\<close>

fun joining :: "dna_hash \<Rightarrow> gateway_task \<Rightarrow> bool" where
  "joining d (JoinNetwork d' a sp) = (d' = d)"
| "joining d (JoinKeep d' a pa) = (d' = d)"
| "joining d t = False"

definition clash :: "dna_hash \<Rightarrow> 'w gateway_system \<Rightarrow> bool" where
  "clash d s \<longleftrightarrow> list_ex (\<lambda>t. t = LeaveDrop d) (gs_tasks s) \<and> list_ex (joining d) (gs_tasks s)"

fun clash_free :: "k2_api \<Rightarrow> 'w network \<Rightarrow> dna_hash \<Rightarrow> 'w gateway_event list \<Rightarrow> 'w gateway_system \<Rightarrow> bool" where
  "clash_free k2 net d [] s = True"
| "clash_free k2 net d (e # es) s = (\<not> clash d s \<and> clash_free k2 net d es (gw_step k2 net e s))"

text \<open>What a task holds: the space and the proxy agent it will store are its own.\<close>

fun gw_task_ok :: "k2_api \<Rightarrow> gateway_task \<Rightarrow> bool" where
  "gw_task_ok k2 (JoinSpace d a (SpaceKeep sp)) = (sp = dna_to_space k2 d)"
| "gw_task_ok k2 (JoinSpace d a (SpaceReady sp)) = False"
| "gw_task_ok k2 (UseSpace d (SpaceKeep sp)) = (sp = dna_to_space k2 d)"
| "gw_task_ok k2 (JoinKeep d a pa) = (pa = proxy_agent_new k2 a)"
| "gw_task_ok k2 t = True"

definition agents_own :: "k2_api \<Rightarrow> 'w gateway \<Rightarrow> bool" where
  "agents_own k2 g \<longleftrightarrow> hm_wf (gk_agents g) \<and>
     (\<forall>d a pa. hm_get (gk_agents g) (d, a) = Some pa \<longrightarrow> pa = proxy_agent_new k2 a)"

definition system_ok :: "k2_api \<Rightarrow> 'w gateway_system \<Rightarrow> bool" where
  "system_ok k2 s \<longleftrightarrow> spaces_ok k2 (gk_spaces (gs_gateway s)) \<and> agents_own k2 (gs_gateway s) \<and>
     (\<forall>t \<in> set (gs_tasks s). gw_task_ok k2 t)"

text \<open>What holds for a DNA until a leave and a join of it clash.\<close>

definition housed :: "dna_hash \<Rightarrow> 'w gateway_system \<Rightarrow> bool" where
  "housed d s \<longleftrightarrow>
     ((\<exists>a. is_agent_joined d a (gs_gateway s)) \<or> (\<exists>t \<in> set (gs_tasks s). joining d t) \<longrightarrow>
        hm_get (gk_spaces (gs_gateway s)) d \<noteq> None) \<and>
     (LeaveDrop d \<in> set (gs_tasks s) \<longrightarrow> (\<nexists>a. is_agent_joined d a (gs_gateway s)))"

lemma task_step_ok:
  assumes "gw_task_ok k2 t" and "spaces_ok k2 (gk_spaces g)" and "agents_own k2 g" and "gw_task_step k2 net t g = (g', t')"
  shows "gw_task_ok k2 t' \<and> spaces_ok k2 (gk_spaces g') \<and> agents_own k2 g'"
proof (cases t)
  case (JoinSpace d a stage)
  with assms show ?thesis
    by (cases stage) (auto simp: join_on_def Let_def spaces_ok_insert agents_own_def split: option.splits prod.splits sum.splits)
next
  case (UseSpace d stage)
  with assms show ?thesis
    by (cases stage) (auto simp: Let_def spaces_ok_insert agents_own_def split: option.splits prod.splits sum.splits)
next
  case (LeaveDrop d)
  have "spaces_ok k2 (hm_remove d (gk_spaces g))" using assms(2) by (simp add: spaces_ok_def)
  with LeaveDrop assms show ?thesis by (auto simp: agents_own_def)
qed (use assms in \<open>auto simp: Let_def agents_own_def split: if_splits option.splits prod.splits sum.splits\<close>)

lemma system_ok_step:
  assumes "system_ok k2 s"
  shows "system_ok k2 (gw_step k2 net e s)"
proof (cases e)
  case (GwStep i)
  show ?thesis
  proof (cases "i < length (gs_tasks s)")
    case True
    obtain g t where t: "gw_task_step k2 net (gs_tasks s ! i) (gs_gateway s) = (g, t)" by fastforce
    have "gw_task_ok k2 (gs_tasks s ! i)" using assms True by (simp add: system_ok_def)
    from task_step_ok [OF this _ _ t] assms have "gw_task_ok k2 t \<and> spaces_ok k2 (gk_spaces g) \<and> agents_own k2 g"
      by (simp add: system_ok_def)
    with GwStep True t assms set_update_subset_insert [of "gs_tasks s" i t] show ?thesis
      by (auto simp: system_ok_def)
  qed (use GwStep assms in simp)
next
  case (GwDrop i)
  with assms show ?thesis by (auto simp: system_ok_def drop_task_def dest: in_set_takeD in_set_dropD)
qed (use assms in \<open>auto simp: system_ok_def agents_own_def\<close>)

lemma system_ok_run: "system_ok k2 s \<Longrightarrow> system_ok k2 (gw_run k2 net es s)"
  by (induction es arbitrary: s) (simp_all add: gw_run_def system_ok_step)

lemma system_ok_new: "system_ok k2 (gs_new w)"
  by (simp add: system_ok_def gs_new_def gk_new_def spaces_ok_def agents_own_def)

lemma space_step_effects:
  assumes "space_step k2 net d stage g = (g', stage')"
  shows "gk_agents g' = gk_agents g" and "hm_get (gk_spaces g) d' \<noteq> None \<Longrightarrow> hm_get (gk_spaces g') d' \<noteq> None"
    and "stage' = SpaceReady sp \<Longrightarrow> stage = SpaceReady sp \<or> hm_get (gk_spaces g') d \<noteq> None"
  using assms by (cases stage; auto simp: Let_def split: option.splits prod.splits sum.splits)+

text \<open>What a step of a task does for a DNA: it stores an agent only as a join that had its space, comes to
  have a space only where there is one, drops one only as \<open>LeaveDrop\<close>, and gets there only when it saw
  nobody joined.\<close>

lemma task_step_effects:
  assumes "gw_task_step k2 net t g = (g', t')" and "\<And>d a sp. t \<noteq> JoinSpace d a (SpaceReady sp)"
  shows "is_agent_joined d a g' \<Longrightarrow> is_agent_joined d a g \<or> joining d t"
    and "hm_get (gk_spaces g) d \<noteq> None \<Longrightarrow> hm_get (gk_spaces g') d = None \<Longrightarrow> t = LeaveDrop d"
    and "joining d t' \<Longrightarrow> joining d t \<or> hm_get (gk_spaces g') d \<noteq> None"
    and "t' = LeaveDrop d \<Longrightarrow> t = LeaveDrop d \<or> \<not> is_agent_joined d a g'"
proof -
  note splits = if_splits option.splits prod.splits sum.splits
  show "is_agent_joined d a g \<or> joining d t" if "is_agent_joined d a g'"
    using assms(1) that
    by (cases t) (auto simp: is_agent_joined_def Let_def dest: space_step_effects(1) split: splits)
  show "t = LeaveDrop d" if "hm_get (gk_spaces g) d \<noteq> None" "hm_get (gk_spaces g') d = None"
  proof (cases t)
    case (JoinSpace d' a' stage)
    with assms(1) that space_step_effects(2) [of k2 net d' stage g _ _ d] show ?thesis by (auto split: prod.splits)
  next
    case (UseSpace d' stage)
    with assms(1) that space_step_effects(2) [of k2 net d' stage g _ _ d] show ?thesis by (auto split: prod.splits)
  qed (use assms(1) that in \<open>auto simp: Let_def split: splits\<close>)
  show "joining d t \<or> hm_get (gk_spaces g') d \<noteq> None" if j: "joining d t'"
  proof (cases t)
    case (JoinSpace d' a' stage)
    obtain stage' where st: "space_step k2 net d' stage g = (g', stage')" and t': "t' = join_on d' a' stage'"
      using assms(1) JoinSpace by (auto split: prod.splits)
    from j t' obtain sp where "stage' = SpaceReady sp" "d' = d" by (auto simp: join_on_def split: space_stage.splits)
    with space_step_effects(3) [OF st] assms(2) JoinSpace show ?thesis by blast
  qed (use assms(1) j in \<open>auto simp: Let_def split: splits\<close>)
  show "t = LeaveDrop d \<or> \<not> is_agent_joined d a g'" if j: "t' = LeaveDrop d"
  proof (cases t)
    case (JoinSpace d' a' stage)
    with assms(1) j show ?thesis by (auto simp: join_on_def split: prod.splits space_stage.splits)
  next
    case (LeaveCheck d')
    with assms(1) j have "g' = g" "d' = d" "\<not> list_ex (\<lambda>e. fst (fst e) = d) (gk_agents g)" by (auto split: if_splits)
    then show ?thesis by (fastforce simp: is_agent_joined_def list_ex_iff dest: fst_mem_hm_get)
  qed (use assms(1) j in \<open>auto simp: Let_def split: splits\<close>)
qed

text \<open>Until a clash, every joined agent is housed, and so is every join that has looked its space up.\<close>

lemma housed_step:
  assumes "housed d s" and "\<not> clash d s" and "system_ok k2 s"
  shows "housed d (gw_step k2 net e s)"
proof (cases e)
  case (GwStep i)
  show ?thesis
  proof (cases "i < length (gs_tasks s)")
    case True
    let ?t = "gs_tasks s ! i" and ?g = "gs_gateway s"
    have t: "?t \<in> set (gs_tasks s)" using True by simp
    obtain g' t' where step: "gw_task_step k2 net ?t ?g = (g', t')" by fastforce
    have "?t \<noteq> JoinSpace d a (SpaceReady sp)" for d a sp using assms(3) t by (auto simp: system_ok_def)
    note eff = task_step_effects [OF step this]
    have s': "gw_step k2 net e s = \<lparr>gs_gateway = g', gs_tasks = (gs_tasks s)[i := t']\<rparr>"
      using GwStep True step by simp
    have tasks: "u = t' \<or> u \<in> set (gs_tasks s)" if "u \<in> set ((gs_tasks s)[i := t'])" for u
      using that set_update_subset_insert [of "gs_tasks s" i t'] by blast
    have quiet: "\<not> joining d u" if "LeaveDrop d \<in> set (gs_tasks s)" "u \<in> set (gs_tasks s)" for u
      using assms(2) that by (auto simp: clash_def list_ex_iff)
    have alone: "\<not> is_agent_joined d a ?g" if "LeaveDrop d \<in> set (gs_tasks s)" for a
      using assms(1) that by (auto simp: housed_def)
    have home: "hm_get (gk_spaces g') d \<noteq> None"
      if "is_agent_joined d a ?g \<or> (u \<in> set (gs_tasks s) \<and> joining d u)" for a u
    proof -
      have "hm_get (gk_spaces ?g) d \<noteq> None" using assms(1) that by (auto simp: housed_def)
      moreover have "?t \<noteq> LeaveDrop d" using that quiet [of u] alone [of a] t by metis
      ultimately show ?thesis using eff(2) by blast
    qed
    have "hm_get (gk_spaces g') d \<noteq> None" if "is_agent_joined d a g'" for a
      using eff(1) [OF that] home [of a] home [of _ ?t] t by blast
    moreover have "hm_get (gk_spaces g') d \<noteq> None" if "u \<in> set ((gs_tasks s)[i := t'])" "joining d u" for u
      using tasks [OF that(1)] that(2) eff(3) home [of _ ?t] home [of _ u] t by blast
    moreover have "\<not> is_agent_joined d a g'" if "LeaveDrop d \<in> set ((gs_tasks s)[i := t'])" for a
    proof -
      have "\<not> is_agent_joined d a g'" if "LeaveDrop d \<in> set (gs_tasks s)"
        using eff(1) [of d a] alone [OF that] quiet [OF that t] by blast
      with tasks [OF that] eff(4) [of d a] t show ?thesis by metis
    qed
    ultimately show ?thesis unfolding s' housed_def by (auto simp: option.split_sel)
  qed (use GwStep assms in simp)
next
  case (GwDrop i)
  with assms(1) show ?thesis by (auto simp: housed_def drop_task_def dest: in_set_takeD in_set_dropD)
qed (use assms(1) in \<open>auto simp: housed_def is_agent_joined_def\<close>)

lemma housed_run:
  assumes "housed d s" and "clash_free k2 net d es s" and "system_ok k2 s"
  shows "housed d (gw_run k2 net es s)"
  using assms
proof (induction es arbitrary: s)
  case (Cons e es)
  then show ?case using housed_step [of d s k2 net e] system_ok_step [of k2 s net e] by (simp add: gw_run_def)
qed (simp add: gw_run_def)

section \<open>Properties\<close>

text \<open>C24. However joins, leaves and requests for spaces interleave, with any of the network's calls failing
  and any task dropped: a space is kept under its own DNA only, an agent only with its own proxy agent; and
  unless a leave that has found its DNA empty meets a join of that DNA that has already looked its space up,
  every joined agent's DNA has its space.\<close>

theorem joined_agent_is_housed:
  assumes "is_agent_joined d a (gs_gateway (gw_run k2 net es (gs_new w)))"
  shows "let g = gs_gateway (gw_run k2 net es (gs_new w)) in
    (\<forall>d' sp. hm_get (gk_spaces g) d' = Some sp \<longrightarrow> sp = dna_to_space k2 d') \<and>
    hm_get (gk_agents g) (d, a) = Some (proxy_agent_new k2 a) \<and>
    (clash_free k2 net d es (gs_new w) \<longrightarrow> hm_get (gk_spaces g) d = Some (dna_to_space k2 d))"
proof -
  let ?s = "gw_run k2 net es (gs_new w)"
  have ok: "system_ok k2 ?s" by (rule system_ok_run [OF system_ok_new])
  have spaces: "sp = dna_to_space k2 d'" if "hm_get (gk_spaces (gs_gateway ?s)) d' = Some sp" for d' sp
    using ok that spaces_ok_get by (auto simp: system_ok_def)
  have "hm_get (gk_agents (gs_gateway ?s)) (d, a) = Some (proxy_agent_new k2 a)"
    using ok assms by (auto simp: system_ok_def agents_own_def is_agent_joined_def)
  moreover have "hm_get (gk_spaces (gs_gateway ?s)) d = Some (dna_to_space k2 d)" if "clash_free k2 net d es (gs_new w)"
  proof -
    have "housed d (gs_new w)" by (simp add: housed_def gs_new_def gk_new_def is_agent_joined_def)
    from housed_run [OF this that system_ok_new] assms have "hm_get (gk_spaces (gs_gateway ?s)) d \<noteq> None"
      by (auto simp: housed_def)
    with spaces show ?thesis by blast
  qed
  ultimately show ?thesis unfolding Let_def using spaces by blast
qed

text \<open>Two agents join the same DNA at once, and one of them leaves while the other has already joined the
  network but is not stored yet: the leave finds another agent only if that one is stored before it looks.\<close>

definition overlapping :: "unit gateway_event list" where
  "overlapping = [GwJoin dna_a agent_a, GwStep 0, GwStep 0, GwStep 0, GwStep 0, GwStep 0, GwStep 0,
     GwJoin dna_a agent_b, GwStep 1, GwStep 1, GwLeave dna_a agent_a, GwStep 2, GwStep 1, GwStep 2, GwStep 2,
     GwStep 1, GwStep 2]"

lemmas system_eval = gw_run_def gs_new_def gk_new_def join_on_def quiet_network_def Let_def hm_insert_def
  hm_remove_def hm_get_Cons hm_contains_def agent_a_def agent_b_def clash_def is_agent_joined_def numeral_2_eq_2

lemma joined_agent_is_housed_witness:
  "hm_get (gk_spaces (gs_gateway (gw_run plain_k2 quiet_network overlapping (gs_new ())))) dna_a = Some (SpaceId [7])"
proof -
  have sp: "dna_to_space plain_k2 dna_a = SpaceId [7]" by (simp add: plain_k2_def dna_a_def)
  have joined: "is_agent_joined dna_a agent_b (gs_gateway (gw_run plain_k2 quiet_network overlapping (gs_new ())))"
    by (simp add: overlapping_def system_eval)
  have "clash_free plain_k2 quiet_network dna_a overlapping (gs_new ())"
    by (simp add: overlapping_def system_eval)
  with joined_agent_is_housed [OF joined] sp show ?thesis by (simp only: Let_def)
qed

text \<open>The clash itself, on a network where every call succeeds: the second agent is joined and has no
  space, and when it leaves in its turn nothing tells the network (the log holds the first leave only).\<close>

definition clashing :: "(space_id \<times> agent_id) list gateway_event list" where
  "clashing = [GwJoin dna_a agent_a, GwStep 0, GwStep 0, GwStep 0, GwStep 0, GwStep 0, GwStep 0,
     GwJoin dna_a agent_b, GwStep 1, GwStep 1, GwStep 1, GwLeave dna_a agent_a, GwStep 2, GwStep 2, GwStep 2, GwStep 2,
     GwStep 2, GwStep 1]"

lemma clash_leaves_agent_unhoused:
  "let s = gw_run plain_k2 leave_log clashing (gs_new []);
       left = gw_run plain_k2 leave_log [GwLeave dna_a agent_b, GwStep 3, GwStep 3, GwStep 3] s
   in is_agent_joined dna_a agent_b (gs_gateway s) \<and> hm_get (gk_spaces (gs_gateway s)) dna_a = None \<and>
     gs_tasks left = [JoinEnded (Inr ()), JoinEnded (Inr ()), LeaveEnded, LeaveDrop dna_a] \<and>
     gk_world (gs_gateway left) = [(SpaceId [7], AgentId (raw_32 plain_k2 agent_a))]"
proof -
  have sp: "dna_to_space plain_k2 dna_a = SpaceId [7]" by (simp add: plain_k2_def dna_a_def)
  show ?thesis by (simp add: clashing_def leave_log_def sp system_eval numeral_3_eq_3)
qed

end
