(* ===== verification/Auth_Answers.thy ===== *)
theory Auth_Answers imports Auth_Store begin

text \<open>
  What a caller of the authentication store sees: the answer of every call. A call on the SQLite backend
  whose statements all take effect answers exactly what the contract says and has exactly its effect; one
  in which a statement failed (an entry of \<open>sq_faults\<close> it used up, or a session token that is already in
  the table) answers the denying default and loses at most sessions or their DNAs. The in-memory backend
  never fails. So a run of the store is a run of the abstract one, call by call and answer by answer.
\<close>

section \<open>Answers\<close>

datatype auth_answer =
    AnsNothing
  | AnsBool bool
  | AnsAgents "allowed_agent list"
  | AnsAgent "allowed_agent option"
  | AnsToken "session_token option"
  | AnsSession "session_info option"
  | AnsCount nat

text \<open>The result of a call, as a value.\<close>

definition answering :: "('a \<Rightarrow> auth_answer) \<Rightarrow> auth_store \<times> 'a \<Rightarrow> auth_store \<times> auth_answer" where
  "answering f r = (fst r, f (snd r))"

lemma answering_simps [simp]: "fst (answering f r) = fst r" "snd (answering f r) = f (snd r)"
  by (simp_all add: answering_def)

fun auth_call :: "auth_command \<Rightarrow> auth_store \<Rightarrow> auth_store \<times> auth_answer" where
  "auth_call (CmdAddAgent g) s = (auth_add_agent g s, AnsNothing)"
| "auth_call (CmdRemoveAgent k) s = answering AnsBool (auth_remove_agent k s)"
| "auth_call CmdListAgents s = answering AnsAgents (auth_list_agents s)"
| "auth_call (CmdIsAgentAllowed k) s = answering AnsBool (auth_is_agent_allowed k s)"
| "auth_call (CmdGetAgent k) s = answering AnsAgent (auth_get_agent k s)"
| "auth_call (CmdCreateSession tok k) s = answering AnsToken (auth_create_session tok k s)"
| "auth_call (CmdValidateSession tok) s = answering AnsSession (auth_validate_session tok s)"
| "auth_call (CmdRevokeSession tok) s = answering AnsBool (auth_revoke_session tok s)"
| "auth_call (CmdRegisterDna k d) s = (auth_register_dna_for_agent k d s, AnsNothing)"
| "auth_call (CmdRevokeSessionsFor k) s = answering AnsCount (auth_revoke_sessions_for_agent k s)"
| "auth_call CmdSessionCount s = answering AnsCount (auth_session_count s)"
| "auth_call (CmdRegisterWs k w) s = (auth_register_ws_sender k w s, AnsNothing)"
| "auth_call (CmdUnregisterWs k w) s = (auth_unregister_ws_sender k w s, AnsNothing)"

lemma auth_call_step: "fst (auth_call c s) = auth_step c s"
  by (cases c) simp_all

text \<open>The contract, with its answer.\<close>

fun exact_answer :: "auth_command \<Rightarrow> abs_store \<Rightarrow> auth_answer \<Rightarrow> abs_store \<Rightarrow> bool" where
  "exact_answer (CmdAddAgent g) a r b \<longleftrightarrow> r = AnsNothing \<and> spec_add_agent g a () b"
| "exact_answer (CmdRemoveAgent k) a r b \<longleftrightarrow> (\<exists>x. r = AnsBool x \<and> spec_remove_agent k a x b)"
| "exact_answer CmdListAgents a r b \<longleftrightarrow> (\<exists>x. r = AnsAgents x \<and> spec_list_agents a x b)"
| "exact_answer (CmdIsAgentAllowed k) a r b \<longleftrightarrow> (\<exists>x. r = AnsBool x \<and> spec_is_agent_allowed k a x b)"
| "exact_answer (CmdGetAgent k) a r b \<longleftrightarrow> (\<exists>x. r = AnsAgent x \<and> spec_get_agent k a x b)"
| "exact_answer (CmdCreateSession tok k) a r b \<longleftrightarrow> (\<exists>x. r = AnsToken x \<and> spec_create_session tok k a x b)"
| "exact_answer (CmdValidateSession tok) a r b \<longleftrightarrow> r = AnsSession (ab_sessions a tok) \<and> b = a"
| "exact_answer (CmdRevokeSession tok) a r b \<longleftrightarrow> (\<exists>x. r = AnsBool x \<and> spec_revoke_session tok a x b)"
| "exact_answer (CmdRegisterDna k d) a r b \<longleftrightarrow> r = AnsNothing \<and> spec_register_dna k d a () b"
| "exact_answer (CmdRevokeSessionsFor k) a r b \<longleftrightarrow>
     (\<exists>x. r = AnsCount x \<and> spec_revoke_sessions_for_agent k a x b)"
| "exact_answer CmdSessionCount a r b \<longleftrightarrow> (\<exists>x. r = AnsCount x \<and> spec_session_count a x b)"
| "exact_answer (CmdRegisterWs k w) a r b \<longleftrightarrow> r = AnsNothing \<and> b = a"
| "exact_answer (CmdUnregisterWs k w) a r b \<longleftrightarrow> r = AnsNothing \<and> b = a"

text \<open>What a caller is told when the backend fails: nothing, nobody, no session.\<close>

fun denied :: "auth_command \<Rightarrow> auth_answer" where
  "denied (CmdRemoveAgent k) = AnsBool False"
| "denied CmdListAgents = AnsAgents []"
| "denied (CmdIsAgentAllowed k) = AnsBool False"
| "denied (CmdGetAgent k) = AnsAgent None"
| "denied (CmdCreateSession tok k) = AnsToken None"
| "denied (CmdValidateSession tok) = AnsSession None"
| "denied (CmdRevokeSession tok) = AnsBool False"
| "denied (CmdRevokeSessionsFor k) = AnsCount 0"
| "denied CmdSessionCount = AnsCount 0"
| "denied _ = AnsNothing"

text \<open>A failing validation may also answer the session with fewer DNAs: rows it could not fetch.\<close>

definition lesser_answer :: "auth_command \<Rightarrow> abs_store \<Rightarrow> auth_answer \<Rightarrow> bool" where
  "lesser_answer c a r \<longleftrightarrow> r = denied c \<or>
     (\<exists>tok i j. c = CmdValidateSession tok \<and> r = AnsSession (Some i) \<and> ab_sessions a tok = Some j \<and> session_le i j)"

definition failing_answer :: "auth_command \<Rightarrow> abs_store \<Rightarrow> auth_answer \<Rightarrow> abs_store \<Rightarrow> bool" where
  "failing_answer c a r b \<longleftrightarrow> exact_answer c a r b \<or> (degrades a b \<and> lesser_answer c a r)"

section \<open>Which calls fail\<close>

text \<open>The entries of the fault list a call has used up.\<close>

definition used_faults :: "sqlite_store \<Rightarrow> sqlite_store \<Rightarrow> string option list" where
  "used_faults s s' = take (length (sq_faults s) - length (sq_faults s')) (sq_faults s)"

fun token_taken :: "auth_command \<Rightarrow> sqlite_store \<Rightarrow> bool" where
  "token_taken (CmdCreateSession tok k) q = hm_contains (db_sessions (sq_conn q)) tok"
| "token_taken _ q = False"

definition statement_failed :: "auth_command \<Rightarrow> auth_store \<Rightarrow> bool" where
  "statement_failed c s = (case au_store s of
     MemoryBackend m \<Rightarrow> False
   | SqliteBackend q \<Rightarrow> token_taken c q \<or> (case au_store (fst (auth_call c s)) of
        MemoryBackend m \<Rightarrow> False
      | SqliteBackend q' \<Rightarrow> list_ex (\<lambda>f. f \<noteq> None) (used_faults q q')))"


section \<open>A call without failures\<close>

text \<open>The store with an environment that fails nothing any more.\<close>

abbreviation (input) no_faults :: "sqlite_store \<Rightarrow> sqlite_store" where
  "no_faults s \<equiv> s\<lparr>sq_faults := []\<rparr>"

text \<open>A method that used up no failure does what it does in an environment that has none.\<close>

definition calm :: "'a sq \<Rightarrow> bool" where
  "calm f \<longleftrightarrow> (\<forall>s s' r. f s = (s', r) \<longrightarrow> (\<exists>ns. sq_faults s = ns @ sq_faults s' \<and>
     ((\<forall>x \<in> set ns. x = None) \<longrightarrow> f (no_faults s) = (no_faults s', r))))"

named_theorems calm_intros \<open>methods that fail only with a statement\<close>

lemma calmE:
  assumes "calm f" and "f s = (s', r)"
  obtains ns where "sq_faults s = ns @ sq_faults s'"
    and "(\<forall>x \<in> set ns. x = None) \<longrightarrow> f (no_faults s) = (no_faults s', r)"
  using assms unfolding calm_def by metis

lemma no_faults_id [simp]: "sq_faults s = [] \<Longrightarrow> s\<lparr>sq_faults := []\<rparr> = s"
  by (cases s) simp

lemma calm_statement [calm_intros]: "calm (sq_statement stmt)"
  unfolding calm_def
proof (intro allI impI)
  fix s s' r assume run: "sq_statement stmt s = (s', r)"
  show "\<exists>ns. sq_faults s = ns @ sq_faults s' \<and>
     ((\<forall>x \<in> set ns. x = None) \<longrightarrow> sq_statement stmt (no_faults s) = (no_faults s', r))"
  proof (cases "sq_faults s")
    case Nil
    with run show ?thesis by (auto simp: sq_statement_def Let_def split: sum.splits prod.splits)
  next
    case (Cons f fs)
    with run have "sq_faults s' = fs"
      by (auto simp: sq_statement_def Let_def split: sum.splits prod.splits option.splits)
    with Cons run show ?thesis
      by (intro exI [of _ "[f]"]; cases s; cases s')
        (auto simp: sq_statement_def Let_def split: sum.splits prod.splits)
  qed
qed

lemma calm_returns [calm_intros]: "calm (returns x)"
  by (simp add: calm_def)

lemma calm_and_then [calm_intros]:
  assumes f: "calm f" and g: "\<And>x. calm (g x)"
  shows "calm (and_then f g)"
  unfolding calm_def
proof (intro allI impI)
  fix s s' r assume run: "and_then f g s = (s', r)"
  obtain s1 q where q: "f s = (s1, q)" by fastforce
  obtain ns where ns: "sq_faults s = ns @ sq_faults s1"
    and clean: "(\<forall>x \<in> set ns. x = None) \<longrightarrow> f (no_faults s) = (no_faults s1, q)"
    by (rule calmE [OF f q])
  show "\<exists>ns. sq_faults s = ns @ sq_faults s' \<and>
     ((\<forall>x \<in> set ns. x = None) \<longrightarrow> and_then f g (no_faults s) = (no_faults s', r))"
  proof (cases q)
    case (Inl e)
    with run q ns clean show ?thesis by (intro exI [of _ ns]) (auto simp: and_then_def)
  next
    case (Inr x)
    with run q have "g x s1 = (s', r)" by (simp add: and_then_def)
    from calmE [OF g this] obtain ms where "sq_faults s1 = ms @ sq_faults s'"
      "(\<forall>x \<in> set ms. x = None) \<longrightarrow> g x (no_faults s1) = (no_faults s', r)" by metis
    with Inr ns clean show ?thesis by (intro exI [of _ "ns @ ms"]) (auto simp: and_then_def)
  qed
qed

lemma calm_fetch [calm_intros]: "calm sq_fetch"
  unfolding sq_fetch_def by (rule calm_statement)

lemma sq_rows_Cons: "sq_rows (r # rs) = and_then sq_fetch (\<lambda>_. and_then (sq_rows rs) (\<lambda>xs. returns (r # xs)))"
  by (rule ext) (simp add: and_then_def split: prod.split sum.split)

lemma calm_rows [calm_intros]: "calm (sq_rows rows)"
proof (induction rows)
  case Nil
  show ?case by (simp add: calm_def)
next
  case (Cons r rows)
  then show ?case unfolding sq_rows_Cons by (intro calm_intros)
qed

text \<open>Rows that cannot be fetched are skipped; with no failure none is.\<close>

lemma rows_flatten_calm:
  assumes "sq_rows_flatten rows s = (s', xs)"
  shows "\<exists>ns. sq_faults s = ns @ sq_faults s' \<and>
    ((\<forall>x \<in> set ns. x = None) \<longrightarrow> sq_rows_flatten rows (no_faults s) = (no_faults s', xs))"
  using assms
proof (induction rows arbitrary: s xs)
  case (Cons r rows)
  obtain s1 f where f: "sq_fetch s = (s1, f)" by fastforce
  obtain ys where ys: "sq_rows_flatten rows s1 = (s', ys)" and xs: "xs = (case f of Inl _ \<Rightarrow> ys | Inr _ \<Rightarrow> r # ys)"
    using Cons.prems f by (auto split: prod.splits)
  obtain ns where ns: "sq_faults s = ns @ sq_faults s1"
    "(\<forall>x \<in> set ns. x = None) \<longrightarrow> sq_fetch (no_faults s) = (no_faults s1, f)"
    using calmE [OF calm_fetch f] by metis
  obtain ms where ms: "sq_faults s1 = ms @ sq_faults s'"
    "(\<forall>x \<in> set ms. x = None) \<longrightarrow> sq_rows_flatten rows (no_faults s1) = (no_faults s', ys)"
    using Cons.IH [OF ys] by blast
  from ns ms xs show ?case by (intro exI [of _ "ns @ ms"]) auto
qed simp

lemma rows_without_faults [simp]:
  "sq_faults s = [] \<Longrightarrow> sq_rows_flatten rows s = (s, rows)"
  by (induction rows) (auto simp: sq_fetch_def sq_statement_def Let_def)

lemma rows_all_without_faults [simp]: "sq_faults s = [] \<Longrightarrow> sq_rows rows s = (s, Inr rows)"
  by (induction rows) (auto simp: sq_fetch_def sq_statement_def Let_def)

text \<open>A method that takes the codecs from the store it starts on.\<close>

lemma calm_codecs:
  assumes "\<And>s. f s = g (sq_hash s) (sq_serde s) s" and "\<And>h c. calm (g h c)"
  shows "calm f"
  unfolding calm_def assms(1)
proof (intro allI impI)
  fix s s' r assume "g (sq_hash s) (sq_serde s) s = (s', r)"
  from calmE [OF assms(2) this]
  show "\<exists>ns. sq_faults s = ns @ sq_faults s' \<and> ((\<forall>x \<in> set ns. x = None) \<longrightarrow>
      g (sq_hash (no_faults s)) (sq_serde (no_faults s)) (no_faults s) = (no_faults s', r))" by (metis sqlite_store.select_convs(3,4) sqlite_store.surjective sqlite_store.update_convs(2))
qed

lemma calm_methods:
  "calm (sq_add_agent g)" "calm (sq_remove_agent k)" "calm sq_list_agents" "calm (sq_is_agent_allowed k)"
  "calm (sq_get_agent k)" "calm (sq_create_session tok k)" "calm (sq_validate_session tok)"
  "calm (sq_revoke_session tok)" "calm (sq_register_dna k d)" "calm (sq_revoke_sessions_for_agent k)"
  "calm sq_session_count"
proof -
  show "calm (sq_add_agent g)"
    by (rule calm_codecs [of _ "\<lambda>h c. sq_statement (sql_upsert_agent (agent_to_string h (aa_agent_pubkey g))
        (caps_to_json c (aa_capabilities g)) (aa_label g))"]) (simp add: sq_add_agent_def, rule calm_intros)
  show "calm (sq_remove_agent k)"
    by (rule calm_codecs [of _ "\<lambda>h c. and_then (sq_statement (sql_delete_agent_dnas (agent_to_string h k))) (\<lambda>_.
        and_then (sq_statement (sql_delete_agent_sessions (agent_to_string h k))) (\<lambda>_.
        and_then (sq_statement (sql_delete_agent (agent_to_string h k))) (\<lambda>rows. returns (rows > 0))))"])
      (simp add: sq_remove_agent_def Let_def, intro calm_intros)
  show "calm sq_list_agents"
    by (rule calm_codecs [of _ list_agents_chain],
        simp only: sq_list_agents_def list_agents_chain_def sq_decode_agents_codecs [symmetric])
      (unfold list_agents_chain_def, intro calm_intros)
  show "calm (sq_is_agent_allowed k)"
    by (rule calm_codecs [of _ "\<lambda>h c. and_then (sq_statement (sql_count_agent (agent_to_string h k)))
        (\<lambda>count. returns (count > 0))"]) (simp add: sq_is_agent_allowed_def, intro calm_intros)
  show "calm (sq_get_agent k)"
    by (rule calm_codecs [of _ "\<lambda>h c. and_then (sq_statement (sql_select_agent (agent_to_string h k)))
        (\<lambda>row. returns (map_option (agent_of_row h c k) row))"], simp add: sq_get_agent_def agent_of_row_def [abs_def])
      (intro calm_intros)
  show "calm (sq_create_session tok k)"
    by (rule calm_codecs [of _ "\<lambda>h c. create_session_chain tok k h"],
        simp only: sq_create_session_def create_session_chain_def Let_def)
      (unfold create_session_chain_def, intro calm_intros, simp split: option.split, intro conjI allI impI calm_intros)
  have read: "calm (validate_session_read tok h c r a)" for h c r a
    unfolding validate_session_read_def
  proof (intro calm_intros)
    fix rows
    show "calm (\<lambda>s1. case sq_rows_flatten rows s1 of (s2, ds) \<Rightarrow> (s2, Inr (Some \<lparr>si_agent_pubkey = a,
        si_capabilities = caps_from_json c (sr_capabilities r), si_registered_dnas = sq_decode_dnas (sq_new [] h c) ds\<rparr>)))"
      unfolding calm_def
    proof (intro allI impI)
      fix s s' q assume run: "(case sq_rows_flatten rows s of (s2, ds) \<Rightarrow> (s2, Inr (Some \<lparr>si_agent_pubkey = a,
        si_capabilities = caps_from_json c (sr_capabilities r), si_registered_dnas = sq_decode_dnas (sq_new [] h c) ds\<rparr>))) = (s', q)"
      then obtain ds where "sq_rows_flatten rows s = (s', ds)" by (auto split: prod.splits)
      from rows_flatten_calm [OF this] this run
      show "\<exists>ns. sq_faults s = ns @ sq_faults s' \<and> ((\<forall>x \<in> set ns. x = None) \<longrightarrow>
          (case sq_rows_flatten rows (no_faults s) of (s2, ds) \<Rightarrow> (s2, Inr (Some \<lparr>si_agent_pubkey = a,
             si_capabilities = caps_from_json c (sr_capabilities r), si_registered_dnas = sq_decode_dnas (sq_new [] h c) ds\<rparr>))) =
            (no_faults s', q))"
        by auto
    qed
  qed
  show "calm (sq_validate_session tok)"
    by (rule calm_codecs [of _ "validate_session_chain tok"],
        simp only: sq_validate_session_def validate_session_chain_def validate_session_read_def sq_decode_dnas_codecs [symmetric])
      (unfold validate_session_chain_def, intro calm_intros, simp split: option.split sum.split,
       intro conjI allI impI calm_intros read)
  show "calm (sq_revoke_session tok)" unfolding sq_revoke_session_def by (intro calm_intros)
  show "calm (sq_register_dna k d)"
    by (rule calm_codecs [of _ "\<lambda>h c. sq_statement (sql_insert_dnas (dna_to_string h d) (agent_to_string h k))"])
      (simp add: sq_register_dna_def, intro calm_intros)
  show "calm (sq_revoke_sessions_for_agent k)"
    by (rule calm_codecs [of _ "\<lambda>h c. sq_statement (sql_delete_agent_sessions (agent_to_string h k))"])
      (simp add: sq_revoke_sessions_for_agent_def, intro calm_intros)
  show "calm sq_session_count" unfolding sq_session_count_def by (rule calm_intros)
qed

text \<open>With nothing failing every method has a result, and only a taken token is an error.\<close>

lemmas fault_free_eval = and_then_def sq_statement_def Let_def sq_fetch_def

lemma fault_free_results:
  assumes "sq_faults s = []"
  shows "\<not> isl (snd (sq_add_agent g s))" "\<not> isl (snd (sq_remove_agent k s))"
    "\<not> isl (snd (sq_list_agents s))" "\<not> isl (snd (sq_is_agent_allowed k s))"
    "\<not> isl (snd (sq_get_agent k s))" "\<not> isl (snd (sq_revoke_session tok s))"
    "\<not> isl (snd (sq_register_dna k d s))" "\<not> isl (snd (sq_revoke_sessions_for_agent k s))"
    "\<not> isl (snd (sq_session_count s))"
    "\<not> hm_contains (db_sessions (sq_conn s)) tok \<Longrightarrow> \<not> isl (snd (sq_create_session tok k s))"
  using assms by (auto simp: sq_add_agent_def sq_remove_agent_def sq_list_agents_def sq_is_agent_allowed_def
    sq_get_agent_def sq_revoke_session_def sq_register_dna_def sq_revoke_sessions_for_agent_def
    sq_session_count_def sq_create_session_def fault_free_eval sql_upsert_agent_def sql_delete_agent_dnas_def
    sql_delete_agent_sessions_def sql_delete_agent_def sql_select_agents_def sql_count_agent_def
    sql_select_agent_def sql_insert_session_def sql_delete_session_def sql_insert_dnas_def
    sql_count_sessions_def split: option.split)

lemma used_faults_prefix:
  assumes "sq_faults s = ns @ sq_faults s'"
  shows "used_faults s s' = ns"
  by (simp add: used_faults_def assms)

lemma calm_exact:
  assumes "calm f" and "implements sq_invar sq_abs f spec" and "sq_invar s" and "f s = (s', r)"
    and "\<not> list_ex (\<lambda>x. x \<noteq> None) (used_faults s s')" and "\<not> isl (snd (f (no_faults s)))"
  obtains x where "r = Inr x" and "spec (sq_abs s) x (sq_abs s')"
proof -
  obtain ns where ns: "sq_faults s = ns @ sq_faults s'"
    and clean: "(\<forall>x \<in> set ns. x = None) \<longrightarrow> f (no_faults s) = (no_faults s', r)"
    by (rule calmE [OF assms(1,4)])
  have "f (no_faults s) = (no_faults s', r)"
    using clean assms(5) unfolding used_faults_prefix [OF ns] by (auto simp: list_ex_iff)
  with assms(6) obtain x where x: "r = Inr x" by (cases r) auto
  with implements_ok [OF assms(2,3)] assms(4) that show ?thesis by blast
qed

lemma map_filter_set: "set (List.map_filter f xs) = {y. \<exists>x \<in> set xs. f x = Some y}"
  by (induction xs) (auto simp: map_filter_simps split: option.splits)

text \<open>Without a failure a validation reads every DNA of the session.\<close>

lemma decoded_dnas_exact:
  assumes "db_wf h db"
  shows "sq_decode_dnas (sq_new [] h c) (map (snd \<circ> fst) (filter (\<lambda>e. fst (fst e) = tok) (db_session_dnas db))) =
    {d. \<exists>x p. hm_get (db_session_dnas db) (tok, x) = Some p \<and> dna_try_from h x = Inr d}"
proof -
  have rows: "x \<in> set (map (snd \<circ> fst) (filter (\<lambda>e. fst (fst e) = tok) (db_session_dnas db))) \<longleftrightarrow>
      (\<exists>p. hm_get (db_session_dnas db) (tok, x) = Some p)" for x
    using hm_get_iff_mem [OF db_wfD(3) [OF assms]] by force
  have parsed: "(case r of Inl e \<Rightarrow> None | Inr d \<Rightarrow> Some d) = Some d \<longleftrightarrow> r = Inr d" for r :: "string + dna_hash" and d
    by (cases r) simp_all
  show ?thesis
    unfolding sq_decode_dnas_def sq_new_sel map_filter_set parsed Bex_def rows by blast
qed

lemma validate_without_faults:
  assumes "sq_invar s" and "sq_faults s = []"
  shows "sq_validate_session tok s = (s, Inr (ab_sessions (sq_abs s) tok))"
proof -
  have wf: "db_wf (sq_hash s) (sq_conn s)" and h: "holo_hash_ok (sq_hash s)"
    using assms(1) by (simp_all add: sq_invar_def sq_wf_def)
  have dnas: "sq_decode_dnas s = sq_decode_dnas (sq_new [] (sq_hash s) (sq_serde s))"
    by (rule ext) (rule sq_decode_dnas_codecs)
  show ?thesis
  proof (cases "hm_get (db_sessions (sq_conn s)) tok")
    case None
    with assms(2) show ?thesis
      by (simp add: sq_validate_session_def fault_free_eval sql_select_session_def sq_abs_def db_abs_def)
  next
    case (Some r)
    with assms(2) show ?thesis
      by (simp add: sq_validate_session_def fault_free_eval sql_select_session_def sql_select_dnas_def sq_abs_def
        db_abs_def session_of_row_def dnas decoded_dnas_exact [OF wf] split: sum.split)
  qed
qed

lemma validate_exact:
  assumes "sq_invar s" and "sq_validate_session tok s = (s', r)"
    and "\<not> list_ex (\<lambda>x. x \<noteq> None) (used_faults s s')"
  shows "r = Inr (ab_sessions (sq_abs s) tok)" and "sq_abs s' = sq_abs s"
proof -
  have inv: "sq_invar (no_faults s)" and same: "sq_abs (no_faults s) = sq_abs s"
    using assms(1) by (simp_all add: sq_invar_def sq_wf_def sq_abs_def)
  have free: "sq_validate_session tok (no_faults s) = (no_faults s, Inr (ab_sessions (sq_abs s) tok))"
    using validate_without_faults [OF inv, of tok] same by simp
  obtain ns where ns: "sq_faults s = ns @ sq_faults s'"
    and clean: "(\<forall>x \<in> set ns. x = None) \<longrightarrow> sq_validate_session tok (no_faults s) = (no_faults s', r)"
    by (rule calmE [OF calm_methods(7) assms(2)])
  have "sq_validate_session tok (no_faults s) = (no_faults s', r)"
    using clean assms(3) unfolding used_faults_prefix [OF ns] by (auto simp: list_ex_iff)
  then show r: "r = Inr (ab_sessions (sq_abs s) tok)" using free by simp
  show "sq_abs s' = sq_abs s"
    using implements_ok [OF sq.validate_session assms(1)] assms(2) r by (auto simp: store_specs)
qed

section \<open>Every call\<close>

text \<open>A delegated call: what the backend's contract gives when nothing failed, and when something did.\<close>

lemma delegate_failing:
  assumes "implements be_invar be_abs f spec" and "auth_invar s"
    and "\<And>x b. spec (auth_abs s) x b \<Longrightarrow> exact_answer c (auth_abs s) (g x) b" and "g d = denied c"
  shows "failing_answer c (auth_abs s) (g (snd (delegate d f s))) (auth_abs (fst (delegate d f s)))"
  using delegate_cases [OF assms(1,2) prod.collapse [symmetric], of d] assms(3,4)
  unfolding failing_answer_def lesser_answer_def by metis

lemma call_may_fail:
  assumes "auth_invar s" and "auth_call c s = (s', r)"
  shows "failing_answer c (auth_abs s) r (auth_abs s')"
proof (cases c)
  case (CmdRemoveAgent k)
  with assms auth_remove_agent_cases [OF assms(1), of k] show ?thesis
    by (cases "auth_remove_agent k s") (auto simp: failing_answer_def lesser_answer_def answering_def)
next
  case (CmdValidateSession tok)
  obtain v where v: "auth_validate_session tok s = (s', v)" and r: "r = AnsSession v"
    using assms(2) CmdValidateSession by (cases "auth_validate_session tok s") (auto simp: answering_def)
  from delegate_cases [OF be.validate_session assms(1), of None tok s' v] v
  have "(spec_validate_session tok (auth_abs s) v (auth_abs s')) \<or> (v = None \<and> degrades (auth_abs s) (auth_abs s'))"
    unfolding auth_validate_session_def by blast
  with CmdValidateSession r show ?thesis
    by (auto simp: failing_answer_def lesser_answer_def store_specs split: option.splits)
next
  case (CmdRegisterWs k w)
  with assms show ?thesis by (auto simp: failing_answer_def auth_register_ws_sender_def)
next
  case (CmdUnregisterWs k w)
  with assms show ?thesis
    by (auto simp: failing_answer_def auth_unregister_ws_sender_def Let_def split: option.split)
next
  case (CmdAddAgent g)
  with assms delegate_failing [OF be.add_agent [of g] assms(1), where c = c and g = "\<lambda>_. AnsNothing" and d = "()"] show ?thesis
    by (auto simp: auth_add_agent_def)
next
  case CmdListAgents
  with assms delegate_failing [OF be.list_agents assms(1), where c = c and g = AnsAgents and d = "[]"] show ?thesis
    by (auto simp: auth_list_agents_def answering_def)
next
  case (CmdIsAgentAllowed k)
  with assms delegate_failing [OF be.is_agent_allowed [of k] assms(1), where c = c and g = AnsBool and d = False] show ?thesis
    by (auto simp: auth_is_agent_allowed_def answering_def)
next
  case (CmdGetAgent k)
  with assms delegate_failing [OF be.get_agent [of k] assms(1), where c = c and g = AnsAgent and d = None] show ?thesis
    by (auto simp: auth_get_agent_def answering_def)
next
  case (CmdCreateSession tok k)
  with assms delegate_failing [OF be.create_session [of tok k] assms(1), where c = c and g = AnsToken and d = None] show ?thesis
    by (auto simp: auth_create_session_def answering_def)
next
  case (CmdRevokeSession tok)
  with assms delegate_failing [OF be.revoke_session [of tok] assms(1), where c = c and g = AnsBool and d = False] show ?thesis
    by (auto simp: auth_revoke_session_def answering_def)
next
  case (CmdRegisterDna k d)
  with assms delegate_failing [OF be.register_dna [of k d] assms(1), where c = c and g = "\<lambda>_. AnsNothing" and d = "()"] show ?thesis
    by (auto simp: auth_register_dna_for_agent_def)
next
  case (CmdRevokeSessionsFor k)
  with assms delegate_failing [OF be.revoke_sessions_for_agent [of k] assms(1), where c = c and g = AnsCount and d = 0] show ?thesis
    by (auto simp: auth_revoke_sessions_for_agent_def answering_def)
next
  case CmdSessionCount
  with assms delegate_failing [OF be.session_count assms(1), where c = c and g = AnsCount and d = 0] show ?thesis
    by (auto simp: auth_session_count_def answering_def)
qed

text \<open>When no statement failed, the backend has a result.\<close>

definition undisturbed :: "auth_command \<Rightarrow> (sqlite_store \<Rightarrow> sqlite_store) \<Rightarrow> backend \<Rightarrow> bool" where
  "undisturbed c f b \<longleftrightarrow> (case b of MemoryBackend m \<Rightarrow> True
   | SqliteBackend q \<Rightarrow> \<not> token_taken c q \<and> \<not> list_ex (\<lambda>x. x \<noteq> None) (used_faults q (f q)))"

lemma token_taken_faults [simp]: "token_taken c (no_faults q) = token_taken c q"
  by (cases c) simp_all

lemma undisturbed_result:
  assumes "undisturbed c (\<lambda>q. fst (fs q)) b" and "calm fs" and "\<And>m. \<not> isl (snd (fm m))"
    and "\<And>q. sq_faults q = [] \<Longrightarrow> \<not> token_taken c q \<Longrightarrow> \<not> isl (snd (fs q))"
  shows "\<not> isl (snd (dispatch fm fs b))"
proof (cases b)
  case (MemoryBackend m)
  with assms(3) [of m] show ?thesis by (auto simp: dispatch_def split: prod.split)
next
  case (SqliteBackend q)
  obtain q' r where q': "fs q = (q', r)" by fastforce
  obtain ns where ns: "sq_faults q = ns @ sq_faults q'"
    and clean: "(\<forall>x \<in> set ns. x = None) \<longrightarrow> fs (no_faults q) = (no_faults q', r)"
    by (rule calmE [OF assms(2) q'])
  have "fs (no_faults q) = (no_faults q', r)"
    using clean assms(1) SqliteBackend q' used_faults_prefix [OF ns] by (auto simp: undisturbed_def list_ex_iff)
  with assms(4) [of "no_faults q"] assms(1) SqliteBackend q' show ?thesis
    by (auto simp: undisturbed_def dispatch_def)
qed

lemma delegate_exact:
  assumes "implements be_invar be_abs f spec" and "auth_invar s" and "\<not> isl (snd (f (au_store s)))"
    and "\<And>x b. spec (auth_abs s) x b \<Longrightarrow> exact_answer c (auth_abs s) (g x) b"
  shows "exact_answer c (auth_abs s) (g (snd (delegate d f s))) (auth_abs (fst (delegate d f s)))"
proof -
  have inv: "be_invar (au_store s)" using assms(2) by (simp add: auth_invar_def)
  obtain b r where r: "f (au_store s) = (b, r)" by fastforce
  with assms(3) obtain x where f: "f (au_store s) = (b, Inr x)" by (cases r) auto
  from assms(4) [OF implements_ok [OF assms(1) inv f]] show ?thesis by (simp add: delegate_def f)
qed

lemma mem_results:
  "\<not> isl (snd (mem_add_agent g m))" "\<not> isl (snd (mem_remove_agent k m))"
  "\<not> isl (snd (mem_list_agents m))" "\<not> isl (snd (mem_is_agent_allowed k m))"
  "\<not> isl (snd (mem_get_agent k m))" "\<not> isl (snd (mem_create_session tok k m))"
  "\<not> isl (snd (mem_validate_session tok m))" "\<not> isl (snd (mem_revoke_session tok m))"
  "\<not> isl (snd (mem_register_dna k d m))" "\<not> isl (snd (mem_revoke_sessions_for_agent k m))"
  "\<not> isl (snd (mem_session_count m))"
  by (auto simp: mem_defs Let_def split: option.split)

lemma delegated_undisturbed:
  assumes "\<not> statement_failed c s" and "au_store (fst (auth_call c s)) = fst (dispatch fm fs (au_store s))"
  shows "undisturbed c (\<lambda>q. fst (fs q)) (au_store s)"
  using assms by (auto simp: undisturbed_def statement_failed_def dispatch_def split: backend.splits prod.splits)

lemma be_results:
  assumes "\<not> statement_failed c s"
  shows "c = CmdAddAgent g \<Longrightarrow> \<not> isl (snd (be_add_agent g (au_store s)))"
    and "c = CmdRemoveAgent k \<Longrightarrow> \<not> isl (snd (be_remove_agent k (au_store s)))"
    and "c = CmdListAgents \<Longrightarrow> \<not> isl (snd (be_list_agents (au_store s)))"
    and "c = CmdIsAgentAllowed k \<Longrightarrow> \<not> isl (snd (be_is_agent_allowed k (au_store s)))"
    and "c = CmdGetAgent k \<Longrightarrow> \<not> isl (snd (be_get_agent k (au_store s)))"
    and "c = CmdCreateSession tok k \<Longrightarrow> \<not> isl (snd (be_create_session tok k (au_store s)))"
    and "c = CmdRevokeSession tok \<Longrightarrow> \<not> isl (snd (be_revoke_session tok (au_store s)))"
    and "c = CmdRegisterDna k d \<Longrightarrow> \<not> isl (snd (be_register_dna k d (au_store s)))"
    and "c = CmdRevokeSessionsFor k \<Longrightarrow> \<not> isl (snd (be_revoke_sessions_for_agent k (au_store s)))"
    and "c = CmdSessionCount \<Longrightarrow> \<not> isl (snd (be_session_count (au_store s)))"
proof -
  note u = delegated_undisturbed [OF assms] and rs = undisturbed_result [where c = c and b = "au_store s"]
  have st: "au_store (fst (delegate d f s)) = fst (f (au_store s))" for d :: 'x and f
    by (simp add: delegate_def split: prod.split)
  have rm: "au_store (fst (auth_remove_agent k s)) = fst (be_remove_agent k (au_store s))" for k
    by (auto simp: auth_remove_agent_def split: prod.split sum.split)
  note calls = st rm be_defs auth_add_agent_def auth_list_agents_def auth_is_agent_allowed_def
    auth_get_agent_def auth_create_session_def auth_revoke_session_def auth_register_dna_for_agent_def
    auth_revoke_sessions_for_agent_def auth_session_count_def
  show "c = CmdAddAgent g \<Longrightarrow> \<not> isl (snd (be_add_agent g (au_store s)))"
    unfolding be_defs by (rule rs [OF u calm_methods(1) mem_results(1)]) (simp_all add: calls fault_free_results)
  show "c = CmdRemoveAgent k \<Longrightarrow> \<not> isl (snd (be_remove_agent k (au_store s)))"
    unfolding be_defs by (rule rs [OF u calm_methods(2) mem_results(2)]) (simp_all add: calls fault_free_results)
  show "c = CmdListAgents \<Longrightarrow> \<not> isl (snd (be_list_agents (au_store s)))"
    unfolding be_defs by (rule rs [OF u calm_methods(3) mem_results(3)]) (simp_all add: calls fault_free_results)
  show "c = CmdIsAgentAllowed k \<Longrightarrow> \<not> isl (snd (be_is_agent_allowed k (au_store s)))"
    unfolding be_defs by (rule rs [OF u calm_methods(4) mem_results(4)]) (simp_all add: calls fault_free_results)
  show "c = CmdGetAgent k \<Longrightarrow> \<not> isl (snd (be_get_agent k (au_store s)))"
    unfolding be_defs by (rule rs [OF u calm_methods(5) mem_results(5)]) (simp_all add: calls fault_free_results)
  show "c = CmdCreateSession tok k \<Longrightarrow> \<not> isl (snd (be_create_session tok k (au_store s)))"
    unfolding be_defs by (rule rs [OF u calm_methods(6) mem_results(6)]) (simp_all add: calls fault_free_results)
  show "c = CmdRevokeSession tok \<Longrightarrow> \<not> isl (snd (be_revoke_session tok (au_store s)))"
    unfolding be_defs by (rule rs [OF u calm_methods(8) mem_results(8)]) (simp_all add: calls fault_free_results)
  show "c = CmdRegisterDna k d \<Longrightarrow> \<not> isl (snd (be_register_dna k d (au_store s)))"
    unfolding be_defs by (rule rs [OF u calm_methods(9) mem_results(9)]) (simp_all add: calls fault_free_results)
  show "c = CmdRevokeSessionsFor k \<Longrightarrow> \<not> isl (snd (be_revoke_sessions_for_agent k (au_store s)))"
    unfolding be_defs by (rule rs [OF u calm_methods(10) mem_results(10)]) (simp_all add: calls fault_free_results)
  show "c = CmdSessionCount \<Longrightarrow> \<not> isl (snd (be_session_count (au_store s)))"
    unfolding be_defs by (rule rs [OF u calm_methods(11) mem_results(11)]) (simp_all add: calls fault_free_results)
qed

lemma call_exact:
  assumes inv: "auth_invar s" and run: "auth_call c s = (s', r)" and ok: "\<not> statement_failed c s"
  shows "exact_answer c (auth_abs s) r (auth_abs s')"
proof (cases c)
  case (CmdAddAgent g)
  have "exact_answer c (auth_abs s) ((\<lambda>_. AnsNothing) (snd (delegate () (be_add_agent g) s))) (auth_abs (fst (delegate () (be_add_agent g) s)))"
    by (rule delegate_exact [OF be.add_agent inv be_results(1) [OF ok CmdAddAgent]]) (simp add: CmdAddAgent)
  then show ?thesis using run by (auto simp: CmdAddAgent auth_add_agent_def answering_def)
next
  case (CmdRemoveAgent k)
  have be: "be_invar (au_store s)" using inv by (simp add: auth_invar_def)
  obtain b q where q: "be_remove_agent k (au_store s) = (b, q)" by fastforce
  with be_results(2) [OF ok CmdRemoveAgent] obtain x where x: "be_remove_agent k (au_store s) = (b, Inr x)" by (cases q) auto
  have "spec_remove_agent k (auth_abs s) x (be_abs b)" by (rule implements_ok [OF be.remove_agent be x])
  moreover have "au_store s' = b" and "r = AnsBool x"
    using run by (auto simp: CmdRemoveAgent auth_remove_agent_def answering_def x)
  ultimately show ?thesis by (simp add: CmdRemoveAgent)
next
  case CmdListAgents
  have "exact_answer c (auth_abs s) (AnsAgents (snd (delegate [] be_list_agents s))) (auth_abs (fst (delegate [] be_list_agents s)))"
    by (rule delegate_exact [OF be.list_agents inv be_results(3) [OF ok CmdListAgents]]) (simp add: CmdListAgents)
  then show ?thesis using run by (auto simp: CmdListAgents auth_list_agents_def answering_def)
next
  case (CmdIsAgentAllowed k)
  have "exact_answer c (auth_abs s) (AnsBool (snd (delegate False (be_is_agent_allowed k) s))) (auth_abs (fst (delegate False (be_is_agent_allowed k) s)))"
    by (rule delegate_exact [OF be.is_agent_allowed inv be_results(4) [OF ok CmdIsAgentAllowed]]) (simp add: CmdIsAgentAllowed)
  then show ?thesis using run by (auto simp: CmdIsAgentAllowed auth_is_agent_allowed_def answering_def)
next
  case (CmdGetAgent k)
  have "exact_answer c (auth_abs s) (AnsAgent (snd (delegate None (be_get_agent k) s))) (auth_abs (fst (delegate None (be_get_agent k) s)))"
    by (rule delegate_exact [OF be.get_agent inv be_results(5) [OF ok CmdGetAgent]]) (simp add: CmdGetAgent)
  then show ?thesis using run by (auto simp: CmdGetAgent auth_get_agent_def answering_def)
next
  case (CmdCreateSession tok k)
  have "exact_answer c (auth_abs s) (AnsToken (snd (delegate None (be_create_session tok k) s))) (auth_abs (fst (delegate None (be_create_session tok k) s)))"
    by (rule delegate_exact [OF be.create_session inv be_results(6) [OF ok CmdCreateSession]]) (simp add: CmdCreateSession)
  then show ?thesis using run by (auto simp: CmdCreateSession auth_create_session_def answering_def)
next
  case (CmdValidateSession tok)
  have b: "be_invar (au_store s)" using inv by (simp add: auth_invar_def)
  have "r = AnsSession (ab_sessions (auth_abs s) tok) \<and> auth_abs s' = auth_abs s"
  proof (cases "au_store s")
    case (MemoryBackend m)
    with CmdValidateSession run show ?thesis
      by (auto simp: auth_validate_session_def delegate_def be_validate_session_def dispatch_def
        mem_validate_session_def mem_abs_def answering_def)
  next
    case (SqliteBackend q)
    obtain q' v where v: "sq_validate_session tok q = (q', v)" by fastforce
    have "sq_invar q" using b SqliteBackend by simp
    moreover have "\<not> list_ex (\<lambda>x. x \<noteq> None) (used_faults q q')"
      using ok CmdValidateSession SqliteBackend v
      by (auto simp: statement_failed_def auth_validate_session_def delegate_def be_validate_session_def dispatch_def)
    ultimately have "v = Inr (ab_sessions (sq_abs q) tok)" "sq_abs q' = sq_abs q"
      using validate_exact [OF _ v] by blast+
    with CmdValidateSession run SqliteBackend v show ?thesis
      by (auto simp: auth_validate_session_def delegate_def be_validate_session_def dispatch_def answering_def)
  qed
  with CmdValidateSession show ?thesis by simp
next
  case (CmdRevokeSession tok)
  have "exact_answer c (auth_abs s) (AnsBool (snd (delegate False (be_revoke_session tok) s))) (auth_abs (fst (delegate False (be_revoke_session tok) s)))"
    by (rule delegate_exact [OF be.revoke_session inv be_results(7) [OF ok CmdRevokeSession]]) (simp add: CmdRevokeSession)
  then show ?thesis using run by (auto simp: CmdRevokeSession auth_revoke_session_def answering_def)
next
  case (CmdRegisterDna k d)
  have "exact_answer c (auth_abs s) ((\<lambda>_. AnsNothing) (snd (delegate () (be_register_dna k d) s))) (auth_abs (fst (delegate () (be_register_dna k d) s)))"
    by (rule delegate_exact [OF be.register_dna inv be_results(8) [OF ok CmdRegisterDna]]) (simp add: CmdRegisterDna)
  then show ?thesis using run by (auto simp: CmdRegisterDna auth_register_dna_for_agent_def answering_def)
next
  case (CmdRevokeSessionsFor k)
  have "exact_answer c (auth_abs s) (AnsCount (snd (delegate 0 (be_revoke_sessions_for_agent k) s))) (auth_abs (fst (delegate 0 (be_revoke_sessions_for_agent k) s)))"
    by (rule delegate_exact [OF be.revoke_sessions_for_agent inv be_results(9) [OF ok CmdRevokeSessionsFor]]) (simp add: CmdRevokeSessionsFor)
  then show ?thesis using run by (auto simp: CmdRevokeSessionsFor auth_revoke_sessions_for_agent_def answering_def)
next
  case CmdSessionCount
  have "exact_answer c (auth_abs s) (AnsCount (snd (delegate 0 be_session_count s))) (auth_abs (fst (delegate 0 be_session_count s)))"
    by (rule delegate_exact [OF be.session_count inv be_results(10) [OF ok CmdSessionCount]]) (simp add: CmdSessionCount)
  then show ?thesis using run by (auto simp: CmdSessionCount auth_session_count_def answering_def)
next
  case (CmdRegisterWs k w)
  with run show ?thesis by (auto simp: auth_register_ws_sender_def)
next
  case (CmdUnregisterWs k w)
  with run show ?thesis by (auto simp: auth_unregister_ws_sender_def Let_def split: option.split)
qed

lemma dispatch_memory: "b = MemoryBackend m \<Longrightarrow> \<exists>m'. fst (dispatch fm fs b) = MemoryBackend m'"
  by (simp add: dispatch_def split: prod.split)

lemma delegate_memory:
  "au_store s = MemoryBackend m \<Longrightarrow> \<exists>m'. au_store (fst (delegate d (dispatch fm fs) s)) = MemoryBackend m'"
  by (simp add: delegate_def dispatch_def split: prod.split)

lemma memory_stays:
  assumes "au_store s = MemoryBackend m"
  shows "\<exists>m'. au_store (auth_step c s) = MemoryBackend m'"
proof (cases c)
  case (CmdRemoveAgent k)
  with assms show ?thesis
    by (auto simp: auth_remove_agent_def be_remove_agent_def dispatch_def split: prod.split sum.split)
next
  case (CmdUnregisterWs k w)
  with assms show ?thesis by (auto simp: auth_unregister_ws_sender_def Let_def split: option.split)
qed (use assms in \<open>simp_all add: be_defs auth_add_agent_def auth_list_agents_def
    auth_is_agent_allowed_def auth_get_agent_def auth_create_session_def auth_validate_session_def
    auth_revoke_session_def auth_register_dna_for_agent_def auth_revoke_sessions_for_agent_def
    auth_session_count_def auth_register_ws_sender_def delegate_memory\<close>)

section \<open>Runs of calls and their answers\<close>

text \<open>A run, and its trace: each call with whether a statement of it failed and what it answered.\<close>

fun auth_calls :: "auth_command list \<Rightarrow> auth_store \<Rightarrow> auth_store \<times> (auth_command \<times> bool \<times> auth_answer) list" where
  "auth_calls [] s = (s, [])"
| "auth_calls (c # cs) s = (case auth_call c s of (s1, r) \<Rightarrow>
     (case auth_calls cs s1 of (s2, tr) \<Rightarrow> (s2, (c, statement_failed c s, r) # tr)))"

text \<open>The same trace on the abstract store.\<close>

fun abs_run :: "(auth_command \<times> bool \<times> auth_answer) list \<Rightarrow> abs_store \<Rightarrow> abs_store \<Rightarrow> bool" where
  "abs_run [] a b = (b = a)"
| "abs_run ((c, failed, r) # tr) a b =
     (\<exists>m. (if failed then failing_answer c a r m else exact_answer c a r m) \<and> abs_run tr m b)"

text \<open>C13. The auth store refines the abstract store, answer by answer. Whatever sequence of calls either
  backend meets, the trace of its calls and answers is a trace of the abstract store: a call none of whose
  statements failed has exactly the contract's effect and answer (an added agent is listed, a session of an
  allowed agent is created and validates with all its DNAs, a removed agent and its sessions are gone, and
  the answers say so); a call with a failed statement either does the same or answers the denying default
  (a validation: the session with no more DNAs than it has) and adds no agent, session, capability or DNA.
  On the in-memory backend no call fails.\<close>

theorem auth_store_refines:
  assumes "auth_invar s"
  shows "case auth_calls cs s of (s', tr) \<Rightarrow>
    s' = auth_run cs s \<and> map fst tr = cs \<and> abs_run tr (auth_abs s) (auth_abs s') \<and>
    (\<forall>m. au_store s = MemoryBackend m \<longrightarrow> (\<forall>(c, failed, r) \<in> set tr. \<not> failed))"
  using assms
proof (induction cs arbitrary: s)
  case (Cons c cs)
  obtain s1 r where one: "auth_call c s = (s1, r)" by fastforce
  obtain s2 tr where rest: "auth_calls cs s1 = (s2, tr)" by fastforce
  have s1: "s1 = auth_step c s" using auth_call_step [of c s] one by simp
  have inv: "auth_invar s1" unfolding s1 by (rule auth_step_invar [OF Cons.prems])
  have IH: "s2 = auth_run cs s1" "map fst tr = cs" "abs_run tr (auth_abs s1) (auth_abs s2)"
    "\<And>m. au_store s1 = MemoryBackend m \<Longrightarrow> \<forall>(c, failed, r) \<in> set tr. \<not> failed"
    using Cons.IH [OF inv] rest by auto
  have "if statement_failed c s then failing_answer c (auth_abs s) r (auth_abs s1)
      else exact_answer c (auth_abs s) r (auth_abs s1)"
    using call_may_fail [OF Cons.prems one] call_exact [OF Cons.prems one] by simp
  with IH(3) have run: "abs_run ((c, statement_failed c s, r) # tr) (auth_abs s) (auth_abs s2)" by auto
  have mem: "\<forall>(c, failed, r) \<in> set ((c, statement_failed c s, r) # tr). \<not> failed" if m: "au_store s = MemoryBackend m" for m
  proof -
    obtain m' where "au_store s1 = MemoryBackend m'" using memory_stays [OF m, of c] s1 by auto
    from IH(4) [OF this] m show ?thesis by (simp add: statement_failed_def)
  qed
  show ?case using one rest IH(1,2) run mem s1 by (auto simp: auth_run_def)
qed (simp add: auth_run_def)

definition plain_serde :: caps_serde where
  "plain_serde = \<lparr>
     caps_to_json = (\<lambda>s. (if DhtRead \<in> s then ''r'' else []) @ (if DhtWrite \<in> s then ''w'' else []) @ (if K2 \<in> s then ''k'' else [])),
     caps_parse = (\<lambda>j. Inr {c. case c of DhtRead \<Rightarrow> CHR ''r'' \<in> set j | DhtWrite \<Rightarrow> CHR ''w'' \<in> set j | K2 \<Rightarrow> CHR ''k'' \<in> set j})\<rparr>"

lemma plain_serde_ok: "caps_serde_ok plain_serde"
  unfolding caps_serde_ok_def
proof
  fix s :: "capability set"
  have "Collect (case_capability (DhtRead \<in> s) (DhtWrite \<in> s) (K2 \<in> s)) = s"
  proof (rule set_eqI)
    fix c show "c \<in> Collect (case_capability (DhtRead \<in> s) (DhtWrite \<in> s) (K2 \<in> s)) \<longleftrightarrow> c \<in> s" by (cases c) simp_all
  qed
  then show "caps_parse plain_serde (caps_to_json plain_serde s) = Inr s" by (simp add: plain_serde_def)
qed

definition failing_sqlite :: auth_store where
  "failing_sqlite = auth_with_store (SqliteBackend (sq_new [None, None, None, Some ''busy''] plain_holo_hash plain_serde))"


lemma failing_sqlite_invar: "auth_invar failing_sqlite"
  unfolding failing_sqlite_def by (rule auth_sqlite_invar [OF plain_holo_hash_ok plain_serde_ok])

theorem auth_store_refines_witness:
  "abs_run (snd (auth_calls (login_run @ [CmdRemoveAgent agent_a]) failing_sqlite)) (auth_abs failing_sqlite)
     (auth_abs (auth_run (login_run @ [CmdRemoveAgent agent_a]) failing_sqlite))"
proof -
  obtain s' tr where c: "auth_calls (login_run @ [CmdRemoveAgent agent_a]) failing_sqlite = (s', tr)" by fastforce
  from auth_store_refines [OF failing_sqlite_invar, of "login_run @ [CmdRemoveAgent agent_a]"] show ?thesis
    unfolding c by auto
qed

text \<open>In that run the database is busy when the DNA is registered: that call alone fails.\<close>

lemma failing_sqlite_trace:
  "map snd (snd (auth_calls (login_run @ [CmdRemoveAgent agent_a]) failing_sqlite)) =
     [(False, AnsNothing), (False, AnsToken (Some ''t'')), (True, AnsNothing), (False, AnsBool True)]"
  by (simp add: login_run_def failing_sqlite_def auth_run_eval answering_def statement_failed_def used_faults_def
    sq_new_def sq_empty_db_def sq_add_agent_def sq_create_session_def sq_register_dna_def sq_remove_agent_def
    fault_free_eval sql_upsert_agent_def sql_select_agent_def sql_insert_session_def sql_delete_agent_dnas_def
    sql_delete_agent_sessions_def sql_delete_agent_def grant_a_def plain_holo_hash_def)

end
