(* ===== verification/Shapes.thy ===== *)
theory Shapes imports Gateway_System Auth_Answers begin

text \<open>
  What stays well-formed in the auth store and in the gateway when the critical sections of several calls
  interleave. It is less than their invariants: a memory store may hold a session of an agent that was
  removed while the session was made, and the gateway a joined agent whose space a leave has just dropped.
\<close>

section \<open>The gateway\<close>

text \<open>Each space is kept under its own DNA, each proxy agent under its own key.\<close>

definition gk_shape :: "k2_api \<Rightarrow> 'w gateway \<Rightarrow> bool" where
  "gk_shape k2 g \<longleftrightarrow> spaces_ok k2 (gk_spaces g) \<and> agents_own k2 g"

lemma gk_shape_world [simp]: "gk_shape k2 (g\<lparr>gk_world := w\<rparr>) = gk_shape k2 g"
  by (simp add: gk_shape_def agents_own_def)

lemma gk_new_shape: "gk_shape k2 (gk_new w)"
  by (simp add: gk_shape_def gk_new_def spaces_ok_def agents_own_def)

text \<open>The critical sections on the two tables.\<close>

definition store_space :: "k2_api \<Rightarrow> dna_hash \<Rightarrow> 'w gateway \<Rightarrow> 'w gateway" where
  "store_space k2 d g = g\<lparr>gk_spaces := hm_insert d (dna_to_space k2 d) (gk_spaces g)\<rparr>"

definition drop_space :: "dna_hash \<Rightarrow> 'w gateway \<Rightarrow> 'w gateway" where
  "drop_space d g = g\<lparr>gk_spaces := hm_remove d (gk_spaces g)\<rparr>"

definition store_agent :: "k2_api \<Rightarrow> dna_hash \<Rightarrow> agent_pubkey \<Rightarrow> 'w gateway \<Rightarrow> 'w gateway" where
  "store_agent k2 d a g = g\<lparr>gk_agents := hm_insert (d, a) (proxy_agent_new k2 a) (gk_agents g)\<rparr>"

definition drop_agent :: "dna_hash \<Rightarrow> agent_pubkey \<Rightarrow> 'w gateway \<Rightarrow> 'w gateway" where
  "drop_agent d a g = g\<lparr>gk_agents := hm_remove (d, a) (gk_agents g)\<rparr>"

lemmas gateway_section_defs = store_space_def drop_space_def store_agent_def drop_agent_def

lemma gk_shape_sections:
  assumes "gk_shape k2 g"
  shows "gk_shape k2 (store_space k2 d g)" and "gk_shape k2 (drop_space d g)"
    and "gk_shape k2 (store_agent k2 d a g)" and "gk_shape k2 (drop_agent d a g)"
  using assms by (auto simp: gk_shape_def gateway_section_defs agents_own_def spaces_ok_def)

lemma get_or_create_shape:
  assumes "gk_shape k2 g" and "get_or_create_space k2 net d g = (g', r)"
  shows "gk_shape k2 g'"
  using assms(2)
proof (cases rule: get_or_create_cases)
  case (made w)
  then have "g' = (store_space k2 d g)\<lparr>gk_world := w\<rparr>" by (simp add: store_space_def)
  with gk_shape_sections(1) [OF assms(1)] show ?thesis by simp
qed (use assms in simp_all)

lemma agent_join_shape:
  assumes "gk_shape k2 g"
  shows "gk_shape k2 (fst (agent_join k2 net d a g))"
proof (cases "hm_contains (gk_agents g) (d, a)")
  case False
  obtain g1 q where q: "get_or_create_space k2 net d g = (g1, q)" by fastforce
  note s = get_or_create_shape [OF assms q]
  show ?thesis
  proof (cases q)
    case (Inr sp)
    obtain w j where j: "nw_join net sp (proxy_agent_new k2 a) (gk_world g1) = (w, j)" by fastforce
    have "g1\<lparr>gk_world := w, gk_agents := hm_insert (d, a) (proxy_agent_new k2 a) (gk_agents g1)\<rparr> =
        (store_agent k2 d a g1)\<lparr>gk_world := w\<rparr>" by (simp add: store_agent_def)
    with False q Inr j s gk_shape_sections(3) [OF s] show ?thesis
      by (cases j) (simp_all add: agent_join_def Let_def)
  qed (use False q s in \<open>simp add: agent_join_def\<close>)
qed (use assms in \<open>simp add: agent_join_def\<close>)

lemma agent_leave_shape:
  assumes "gk_shape k2 g"
  shows "gk_shape k2 (agent_leave k2 net d a g)"
proof -
  have cleanup: "gk_shape k2 (maybe_cleanup_space d g1)" if "gk_shape k2 g1" for g1
    using that gk_shape_sections(2) [OF that, of d] by (simp add: maybe_cleanup_space_def drop_space_def)
  have one: "gk_shape k2 (g\<lparr>gk_agents := hm_remove (d, a) (gk_agents g)\<rparr>)"
    using gk_shape_sections(4) [OF assms, of d a] by (simp add: drop_agent_def)
  then have "gk_shape k2 (g\<lparr>gk_agents := hm_remove (d, a) (gk_agents g), gk_world := w\<rparr>)" for w
    by (simp add: gk_shape_def agents_own_def)
  note left = cleanup [OF one] cleanup [OF this]
  with assms show ?thesis by (cases "hm_get (gk_spaces g) d") (auto simp: agent_leave_def Let_def)
qed

lemma leaves_shape:
  "gk_shape k2 g \<Longrightarrow> gk_shape k2 (fold (\<lambda>k. agent_leave k2 net (fst k) (snd k)) ks g)"
  by (induction ks arbitrary: g) (simp_all add: agent_leave_shape)

lemma signal_over_network_shape:
  assumes "gk_shape k2 g"
  shows "gk_shape k2 (fst (signal_over_network k2 wa net d t sig g))"
proof -
  obtain g1 q where q: "get_or_create_space k2 net d g = (g1, q)" by fastforce
  with signal_over_network_frame [OF q, of wa t sig] get_or_create_shape [OF assms q]
  show ?thesis by (metis gk_shape_world)
qed

section \<open>The auth store\<close>

text \<open>The memory backend lets go of its lock in the middle of making a session, so that sessions belong to
  allowed agents is lost; each agent stays under its own key. A call on the SQLite backend holds the one
  connection from start to end, so there the whole invariant stays.\<close>

definition mem_shape :: "memory_store \<Rightarrow> bool" where
  "mem_shape m \<longleftrightarrow> mem_wf m \<and> (\<forall>k g. hm_get (ms_allowed_agents m) k = Some g \<longrightarrow> aa_agent_pubkey g = k)"

definition be_shape :: "backend \<Rightarrow> bool" where
  "be_shape b = (case b of MemoryBackend m \<Rightarrow> mem_shape m | SqliteBackend q \<Rightarrow> sq_invar q)"

definition auth_shape :: "auth_store \<Rightarrow> bool" where
  "auth_shape s \<longleftrightarrow> be_shape (au_store s) \<and> hm_wf (au_ws_senders s) \<and>
     (\<forall>k l. hm_get (au_ws_senders s) k = Some l \<longrightarrow> l \<noteq> [])"

text \<open>The critical sections of the calls that take more than one lock: a session written with capabilities
  read before, and the connections of an agent dropped after the agent.\<close>

definition on_memory :: "(memory_store \<Rightarrow> memory_store) \<Rightarrow> auth_store \<Rightarrow> auth_store" where
  "on_memory f s = (case au_store s of
     MemoryBackend m \<Rightarrow> s\<lparr>au_store := MemoryBackend (f m)\<rparr> | SqliteBackend _ \<Rightarrow> s)"

definition drop_senders :: "agent_pubkey \<Rightarrow> auth_store \<Rightarrow> auth_store" where
  "drop_senders k s = s\<lparr>au_ws_senders := hm_remove k (au_ws_senders s)\<rparr>"

lemma auth_shape_sections:
  assumes "auth_shape s"
  shows "auth_shape (on_memory (mem_create_session_write tok k caps) s)"
    and "auth_shape (drop_senders k s)"
  using assms
  by (auto simp: auth_shape_def be_shape_def on_memory_def mem_shape_def mem_wf_def mem_create_session_write_def
    drop_senders_def split: backend.splits)

text \<open>A call.\<close>

definition keeps_shape :: "(backend, session_store_error, 'a) fallible \<Rightarrow> bool" where
  "keeps_shape f \<longleftrightarrow> (\<forall>b. be_shape b \<longrightarrow> be_shape (fst (f b)))"

lemma keeps_shapeI:
  assumes "\<And>m. mem_shape m \<Longrightarrow> mem_shape (fst (fm m))" and "implements sq_invar sq_abs fs spec"
  shows "keeps_shape (dispatch fm fs)"
  using assms(1) implements_invar [OF assms(2)]
  by (auto simp: keeps_shape_def dispatch_def be_shape_def split: backend.splits prod.splits) (metis fst_conv)

lemma calls_shape:
  "keeps_shape (be_add_agent g)" "keeps_shape (be_remove_agent k)" "keeps_shape be_list_agents"
  "keeps_shape (be_is_agent_allowed k)" "keeps_shape (be_get_agent k)" "keeps_shape (be_create_session tok k)"
  "keeps_shape (be_validate_session tok)" "keeps_shape (be_revoke_session tok)" "keeps_shape (be_register_dna k d)"
  "keeps_shape (be_revoke_sessions_for_agent k)" "keeps_shape be_session_count"
  unfolding be_defs
  by (rule keeps_shapeI, simp add: mem_defs mem_shape_def mem_wf_def Let_def split: option.split,
    rule sq_add_agent_laws sq_remove_agent_laws sq_list_agents_laws sq_is_agent_allowed_laws sq_get_agent_laws
      sq_create_session_laws sq_validate_session_laws sq_revoke_session_laws sq_register_dna_laws
      sq_revoke_sessions_laws sq_session_count_laws)+

lemma delegate_shape: "keeps_shape f \<Longrightarrow> auth_shape s \<Longrightarrow> auth_shape (fst (delegate d f s))"
  by (auto simp: delegate_def auth_shape_def keeps_shape_def split: prod.split) (metis fst_conv)?

lemma remove_agent_shape:
  assumes "auth_shape s"
  shows "auth_shape (fst (auth_remove_agent k s))"
proof -
  obtain b r where b: "be_remove_agent k (au_store s) = (b, r)" by fastforce
  with assms calls_shape(2) [of k] have "be_shape b"
    unfolding auth_shape_def keeps_shape_def by (metis fst_conv)
  with assms b show ?thesis
    by (cases r) (auto simp: auth_remove_agent_def auth_shape_def split: if_splits)
qed

lemma auth_step_shape: "auth_shape s \<Longrightarrow> auth_shape (auth_step c s)"
proof (cases c)
  case (CmdRegisterWs k w)
  moreover assume "auth_shape s"
  ultimately show ?thesis
    by (auto simp: auth_register_ws_sender_def auth_shape_def split: option.split)
next
  case (CmdUnregisterWs k w)
  moreover assume "auth_shape s"
  ultimately show ?thesis
    by (auto simp: auth_unregister_ws_sender_def auth_shape_def Let_def split: option.splits if_splits)
qed (simp_all add: auth_add_agent_def auth_list_agents_def auth_is_agent_allowed_def
    auth_get_agent_def auth_create_session_def auth_validate_session_def auth_revoke_session_def
    auth_register_dna_for_agent_def auth_revoke_sessions_for_agent_def auth_session_count_def
    calls_shape delegate_shape remove_agent_shape)

end
