(* ===== verification/Service_Types.thy ===== *)
theory Service_Types imports Service_System Shapes begin

text \<open>
  What is well-formed in a linker's state, component by component, and that every endpoint, every step of
  a connection and every event keeps it: with authentication off as well as on, and whatever the network,
  the codecs and the clients do. It is stated with the predicates of \<open>Shapes\<close>, which hold between the
  awaits of a handler as well.
\<close>

section \<open>Well-formed states\<close>

definition store_ok :: "bool \<Rightarrow> auth_store option \<Rightarrow> bool" where
  "store_ok auth store \<longleftrightarrow> (store \<noteq> None \<longleftrightarrow> auth) \<and> pred_option auth_shape store"

definition gateway_ok :: "k2_api \<Rightarrow> 'w gateway option \<Rightarrow> bool" where
  "gateway_ok k2 gw \<longleftrightarrow> (\<exists>g. gw = Some g \<and> gk_shape k2 g)"

definition linker_ok :: "'w ws_env \<Rightarrow> bool \<Rightarrow> 'w linker \<Rightarrow> bool" where
  "linker_ok env auth app \<longleftrightarrow> store_ok auth (ln_auth_store app) \<and> gateway_ok (we_k2 env) (ln_gateway app) \<and>
     queues_bounded (ln_agent_proxy app)"

text \<open>Without an auth store no challenge is ever pending, so none is ever answered.\<close>

definition conn_ok :: "bool \<Rightarrow> connection_state \<Rightarrow> bool" where
  "conn_ok auth cs \<longleftrightarrow> auth \<or> cs_pending_auth_agent cs = None"

definition socket_ok :: "bool \<Rightarrow> socket \<Rightarrow> bool" where
  "socket_ok auth sk \<longleftrightarrow> conn_ok auth (sk_conn sk) \<and> sk_phase sk \<noteq> SkCrashed"

section \<open>The parts of the state\<close>

lemma store_ok_step: "store_ok auth (Some store) \<Longrightarrow> store_ok auth (Some (auth_step c store))"
  by (simp add: store_ok_def auth_step_shape)

lemmas store_ok_steps =
  store_ok_step [of _ _ "CmdIsAgentAllowed k" for k, simplified]
  store_ok_step [of _ _ "CmdCreateSession t k" for t k, simplified]
  store_ok_step [of _ _ "CmdRegisterDna k d" for k d, simplified]
  store_ok_step [of _ _ "CmdRegisterWs k w" for k w, simplified]
  store_ok_step [of _ _ "CmdUnregisterWs k w" for k w, simplified]

lemma gateway_ok_Some [simp]: "gateway_ok k2 (Some g) = gk_shape k2 g"
  by (simp add: gateway_ok_def)

lemma gateway_okE:
  assumes "gateway_ok k2 gw"
  obtains g where "gw = Some g" "gk_shape k2 g"
  using assms by (auto simp: gateway_ok_def)

lemma proxy_ok:
  assumes "queues_bounded p"
  shows "queues_bounded (ap_register d a w p)" and "queues_bounded (ap_unregister d a p)"
    and "queues_bounded (ap_unregister_all w p)" and "queues_bounded (ap_connect w p)"
    and "queues_bounded (ap_receive w p)" and "queues_bounded (ap_disconnect w p)"
    and "queues_bounded (fst (ap_send_signal d a m p))" and "queues_bounded (ap_deliver_signature k r p)"
    and "queues_bounded (fst (sign_begin h k2 t debug a info p))"
  using step_bounded [OF assms, of h k2 "ApRegister d a w"] step_bounded [OF assms, of h k2 "ApUnregister d a"]
    step_bounded [OF assms, of h k2 "ApUnregisterAll w"] step_bounded [OF assms, of h k2 "ApConnect w"]
    step_bounded [OF assms, of h k2 "ApReceive w"] step_bounded [OF assms, of h k2 "ApDisconnect w"]
    step_bounded [OF assms, of h k2 "ApSignal d a m"] step_bounded [OF assms, of h k2 "ApDeliver k r"]
    assms
  by (simp_all, simp add: queues_bounded_def other_events_channels)

lemma remote_signal_ok:
  assumes "queues_bounded p" and "gk_shape k2 g"
  shows "queues_bounded (fst (fst (send_remote_signal h k2 wa net d sig (p, g)))) \<and>
    gk_shape k2 (snd (fst (send_remote_signal h k2 wa net d sig (p, g))))"
proof (cases "agent_from_raw_39 k2 (ss_target_agent sig)")
  case (Inr target)
  obtain p' sent where p: "ap_send_signal d target (remote_signal h k2 d target (ss_zome_call_params sig)) p = (p', sent)"
    by fastforce
  obtain g' sent' where g: "signal_over_network k2 wa net d target sig g = (g', sent')" by fastforce
  have "queues_bounded p'" using proxy_ok(7) [OF assms(1)] p by (metis fst_conv)
  moreover have "gk_shape k2 g'" using signal_over_network_shape [OF assms(2), of wa net d target sig] g by simp
  ultimately show ?thesis using assms Inr p g by (simp add: send_remote_signal_def)
qed (use assms in \<open>simp add: send_remote_signal_def\<close>)

lemma remote_signals_ok:
  assumes "queues_bounded p" and "gk_shape k2 g"
  shows "queues_bounded (fst (fst (send_remote_signals h k2 wa net d sigs (p, g)))) \<and>
    gk_shape k2 (snd (fst (send_remote_signals h k2 wa net d sigs (p, g))))"
  using assms
proof (induction sigs arbitrary: p g)
  case (Cons sig sigs)
  obtain p1 g1 sent where one: "send_remote_signal h k2 wa net d sig (p, g) = ((p1, g1), sent)"
    by (metis surj_pair)
  obtain p2 g2 ok bad where rest: "send_remote_signals h k2 wa net d sigs (p1, g1) = ((p2, g2), (ok, bad))"
    by (metis surj_pair)
  from one rest remote_signal_ok [OF Cons.prems, of h wa net d sig] Cons.IH [of p1 g1] show ?case by simp
qed simp

section \<open>Connections\<close>

text \<open>What a message leaves: a well-formed linker and connection, and no panic.\<close>

definition message_ok :: "'w ws_env \<Rightarrow> bool \<Rightarrow> 'w conn \<times> outcome \<Rightarrow> bool" where
  "message_ok env auth r \<longleftrightarrow> conn_ok auth (fst (fst r)) \<and> linker_ok env auth (snd (fst r)) \<and> snd r \<noteq> Panicked"

lemma message_ok_unchanged [simp]:
  "message_ok env auth ((cs, app), Reply m) \<longleftrightarrow> conn_ok auth cs \<and> linker_ok env auth app"
  by (simp add: message_ok_def)

lemma linker_okD:
  assumes "linker_ok env auth app"
  shows "store_ok auth (ln_auth_store app)" and "gateway_ok (we_k2 env) (ln_gateway app)"
    and "queues_bounded (ln_agent_proxy app)"
  using assms by (simp_all add: linker_ok_def)

lemma store_okD: "store_ok auth (Some store) \<Longrightarrow> auth" "store_ok auth None \<Longrightarrow> \<not> auth"
  by (simp_all add: store_ok_def)

lemma handle_auth_ok:
  assumes "linker_ok env auth app" and "conn_ok auth cs"
  shows "message_ok env auth (handle_auth env key challenge (cs, app))"
proof (cases "ln_auth_store app")
  case None
  with assms show ?thesis by (simp add: handle_auth_def conn_ok_def split: sum.split)
next
  case (Some store)
  with assms(1) have ok: "store_ok auth (Some store)" using linker_okD(1) by metis
  have "store_ok auth (Some (fst (auth_is_agent_allowed k store)))" for k
    using store_ok_step [OF ok, of "CmdIsAgentAllowed k"] by simp
  with assms Some store_okD(1) [OF ok] show ?thesis
    by (auto simp: handle_auth_def Let_def conn_ok_def linker_ok_def split: sum.split prod.split) (metis fst_conv)+
qed

lemma handle_challenge_ok:
  assumes "linker_ok env auth app" and "conn_ok auth cs"
  shows "message_ok env auth (handle_auth_challenge_response env sig token sender (cs, app))"
proof (cases "cs_pending_auth_agent cs")
  case (Some agent)
  with assms(2) have auth by (simp add: conn_ok_def)
  then obtain store where store: "ln_auth_store app = Some store" and ok: "store_ok auth (Some store)"
    using linker_okD(1) [OF assms(1)] by (cases "ln_auth_store app") (auto simp: store_ok_def)
  obtain store' t where t: "auth_create_session token agent store = (store', t)" by fastforce
  have one: "store_ok auth (Some store')" using store_ok_step [OF ok, of "CmdCreateSession token agent"] t by simp
  from store_ok_step [OF one, of "CmdRegisterWs agent sender"]
  have "store_ok auth (Some (auth_register_ws_sender agent sender store'))" by simp
  with assms one Some store t show ?thesis
    by (auto simp: handle_auth_challenge_response_def Let_def conn_ok_def linker_ok_def
      split: option.split sum.split)
qed (use assms in \<open>simp add: handle_auth_challenge_response_def\<close>)

lemma handle_register_ok:
  assumes "linker_ok env auth app" and "conn_ok auth cs"
  shows "message_ok env auth (handle_register env dna key sender (cs, app))"
proof -
  obtain g where g: "ln_gateway app = Some g" "gk_shape (we_k2 env) g"
    using gateway_okE linker_okD(2) [OF assms(1)] by metis
  have s: "store_ok auth (map_option (auth_register_dna_for_agent a d) (ln_auth_store app))" for a d
    using linker_okD(1) [OF assms(1)] store_ok_step [of auth _ "CmdRegisterDna a d"]
    by (cases "ln_auth_store app") simp_all
  show ?thesis
    using assms g s agent_join_shape [OF g(2)] proxy_ok [OF linker_okD(3) [OF assms(1)]]
    by (auto simp: handle_register_def Let_def conn_ok_def linker_ok_def split: sum.split option.splits)
qed

lemma handle_unregister_ok:
  assumes "linker_ok env auth app" and "conn_ok auth cs"
  shows "message_ok env auth (handle_unregister env dna key (cs, app))"
proof -
  obtain g where g: "ln_gateway app = Some g" "gk_shape (we_k2 env) g"
    using gateway_okE linker_okD(2) [OF assms(1)] by metis
  show ?thesis
    using assms g agent_leave_shape [OF g(2)] proxy_ok [OF linker_okD(3) [OF assms(1)]]
    by (auto simp: handle_unregister_def Let_def conn_ok_def linker_ok_def split: sum.split)
qed

lemma handle_signals_ok:
  assumes "linker_ok env auth app" and "conn_ok auth cs"
  shows "message_ok env auth (handle_send_remote_signal env dna sigs (cs, app))"
proof -
  obtain g where g: "ln_gateway app = Some g" "gk_shape (we_k2 env) g"
    using gateway_okE linker_okD(2) [OF assms(1)] by metis
  show ?thesis
    using assms g remote_signals_ok [OF linker_okD(3) [OF assms(1)] g(2)]
    by (auto simp: handle_send_remote_signal_def linker_ok_def split: sum.split prod.split) (metis fst_conv snd_conv)+
qed

lemma handle_message_ok:
  assumes "linker_ok env auth app" and "conn_ok auth cs"
  shows "message_ok env auth (handle_client_message env msg challenge token sender (cs, app))"
  using assms
  by (cases msg) (simp_all add: handle_client_message_def handle_auth_ok handle_challenge_ok handle_register_ok
    handle_unregister_ok handle_signals_ok, simp add: linker_ok_def proxy_ok)

section \<open>The socket loop\<close>

definition running_ok :: "'w ws_env \<Rightarrow> bool \<Rightarrow> 'w running \<Rightarrow> bool" where
  "running_ok env auth r \<longleftrightarrow> socket_ok auth (fst r) \<and> linker_ok env auth (snd r)"

lemma running_okI:
  "conn_ok auth (sk_conn sk) \<Longrightarrow> sk_phase sk \<noteq> SkCrashed \<Longrightarrow> linker_ok env auth app \<Longrightarrow> running_ok env auth (sk, app)"
  by (simp add: running_ok_def socket_ok_def)

lemma cleanup_ok:
  assumes "linker_ok env auth app"
  shows "linker_ok env auth (connection_cleanup env w cs app)"
proof -
  obtain g where g: "ln_gateway app = Some g" "gk_shape (we_k2 env) g"
    using gateway_okE linker_okD(2) [OF assms] by metis
  have "store_ok auth (map_option (auth_unregister_ws_sender a w) (ln_auth_store app))" for a
    using linker_okD(1) [OF assms] store_ok_step [of auth _ "CmdUnregisterWs a w"]
    by (cases "ln_auth_store app") simp_all
  moreover have "gk_shape k2 g' \<Longrightarrow> gk_shape k2 (fold (\<lambda>r. agent_leave k2 net (fst r) (snd r)) rs g')" for k2 net rs g'
    by (rule leaves_shape)
  ultimately show ?thesis
    using assms g proxy_ok
    by (auto simp: linker_ok_def cleanup_auth cleanup_proxy cleanup_gateway split: option.split)
qed

lemma end_socket_ok: "running_ok env auth (sk, app) \<Longrightarrow> running_ok env auth (end_socket env w (sk, app))"
  by (simp add: running_ok_def socket_ok_def end_socket_def cleanup_ok)

lemma handle_text_ok:
  assumes "running_ok env auth (sk, app)"
  shows "running_ok env auth (handle_text env w now parsed challenge token (sk, app))"
proof (cases parsed)
  case (Inl e)
  with assms show ?thesis by (simp add: handle_text_def running_ok_def socket_ok_def conn_ok_def)
next
  case (Inr msg)
  let ?cs = "(sk_conn sk)\<lparr>cs_last_activity := now\<rparr>"
  obtain cs' app' out where o: "handle_client_message env msg challenge token w (?cs, app) = ((cs', app'), out)"
    by (metis surj_pair)
  have "message_ok env auth ((cs', app'), out)"
    using handle_message_ok [of env auth app ?cs msg challenge token w] assms o
    by (simp add: running_ok_def socket_ok_def conn_ok_def)
  with Inr o show ?thesis
    by (auto simp: handle_text_def Let_def running_ok_def socket_ok_def message_ok_def split: outcome.split option.split)
qed

lemma replying_ok':
  assumes "running_ok env auth (sk, app)"
  shows "running_ok env auth (replying_step env w m ends (sk, app))"
proof -
  obtain p t where t: "try_send_message m w (ln_agent_proxy app) = (p, t)" by fastforce
  have "queues_bounded p"
    using try_send_bounded [of "ln_agent_proxy app" m w] assms t by (simp add: running_ok_def linker_ok_def)
  with assms t end_socket_ok [OF assms] show ?thesis
    by (cases t) (simp_all add: replying_step_def running_ok_def socket_ok_def linker_ok_def)
qed

lemma socket_step_keeps:
  assumes "running_ok env auth (sk, app)"
  shows "running_ok env auth (socket_step env cfg w ev (sk, app))"
proof -
  have recv: "running_ok env auth (sk, app\<lparr>ln_agent_proxy := ap_receive w (ln_agent_proxy app)\<rparr>)"
    "running_ok env auth (sk, app\<lparr>ln_agent_proxy := ap_disconnect w (ln_agent_proxy app)\<rparr>)"
    using assms by (simp_all add: running_ok_def linker_ok_def proxy_ok)
  show ?thesis
  proof (cases "sk_phase sk")
    case SkListening
    with assms recv end_socket_ok [OF assms] handle_text_ok [OF assms] show ?thesis
      by (cases ev) (simp_all add: socket_step_def listening_step_def, simp add: running_ok_def socket_ok_def conn_ok_def)
  next
    case (SkReplying m ends)
    with assms recv replying_ok' [OF assms] show ?thesis by (cases ev) (simp_all add: socket_step_def)
  qed (use assms in \<open>simp_all add: socket_step_def\<close>)
qed

section \<open>The whole state\<close>

text \<open>What a step keeps: the configuration, a well-formed linker, whether there is a conductor, and an op
  store that changed by stores and clean-ups of the given times alone.\<close>

definition keeps :: "('w, 'c, 'b) service_env \<Rightarrow> nat set \<Rightarrow> ('w, 'c, 'a) linker_state \<Rightarrow> ('w, 'c, 'a) linker_state \<Rightarrow> bool" where
  "keeps env ts st st' \<longleftrightarrow> st_admin_secret st' = st_admin_secret st \<and> ls_configuration st' = ls_configuration st \<and>
     ls_kitsune st' = ls_kitsune st \<and> (ls_app_conn st' = None \<longleftrightarrow> ls_app_conn st = None) \<and>
     (\<forall>auth. linker_ok (se_ws env) auth (linker_of st) \<longrightarrow> linker_ok (se_ws env) auth (linker_of st')) \<and>
     (\<exists>es. ls_op_store st' = map_option (op_run (se_ops env) es) (ls_op_store st) \<and> (\<forall>ev \<in> set es. op_event_time ev \<in> ts))"

lemma op_run_nil [simp]: "op_run oa [] ops = ops"
  by (simp add: op_run_def)

lemma map_op_run_nil [simp]: "map_option (op_run oa []) ops = ops" "map_option (\<lambda>s. s) ops = ops"
  by (cases ops, simp_all)+

lemma op_run_append: "op_run oa (es @ fs) ops = op_run oa fs (op_run oa es ops)"
  by (simp add: op_run_def)

lemma keeps_same_ops:
  assumes "st_admin_secret st' = st_admin_secret st" and "ls_configuration st' = ls_configuration st"
    and "ls_kitsune st' = ls_kitsune st" and "ls_app_conn st' = None \<longleftrightarrow> ls_app_conn st = None"
    and "\<And>auth. linker_ok (se_ws env) auth (linker_of st) \<Longrightarrow> linker_ok (se_ws env) auth (linker_of st')"
    and "ls_op_store st' = ls_op_store st"
  shows "keeps env ts st st'"
  unfolding keeps_def
  by (intro conjI exI [of _ "[]"]) (use assms in simp_all)

lemma keeps_refl [simp]: "keeps env ts st st"
  by (rule keeps_same_ops) simp_all

lemma keeps_trans:
  assumes "keeps env ts st st1" and "keeps env ts st1 st'"
  shows "keeps env ts st st'"
proof -
  obtain es where es: "ls_op_store st1 = map_option (op_run (se_ops env) es) (ls_op_store st)"
      "\<forall>ev \<in> set es. op_event_time ev \<in> ts"
    using assms(1) unfolding keeps_def by blast
  obtain fs where fs: "ls_op_store st' = map_option (op_run (se_ops env) fs) (ls_op_store st1)"
      "\<forall>ev \<in> set fs. op_event_time ev \<in> ts"
    using assms(2) unfolding keeps_def by blast
  have "ls_op_store st' = map_option (op_run (se_ops env) (es @ fs)) (ls_op_store st)"
    using es(1) fs(1) by (simp add: op_run_append [abs_def] option.map_comp comp_def)
  moreover have "\<forall>ev \<in> set (es @ fs). op_event_time ev \<in> ts" using es(2) fs(2) by auto
  ultimately show ?thesis using assms unfolding keeps_def by metis
qed

lemma keeps_more: "keeps env ts st st' \<Longrightarrow> ts \<subseteq> us \<Longrightarrow> keeps env us st st'"
  unfolding keeps_def by blast

lemma keepsD_ops:
  "keeps env ts st st' \<Longrightarrow> ls_op_store st = Some s \<Longrightarrow> ls_op_store st' = Some s' \<Longrightarrow> ops_ok (se_ops env) s \<Longrightarrow>
     ops_ok (se_ops env) s'"
  using op_run_ok by (auto simp: keeps_def)

lemma keeps_gateway:
  assumes "gateway_ok (we_k2 (se_ws env)) (ls_gateway st) \<Longrightarrow> gateway_ok (we_k2 (se_ws env)) gw"
  shows "keeps env ts st (st\<lparr>ls_gateway := gw\<rparr>)"
  by (rule keeps_same_ops) (use assms in \<open>auto simp: linker_ok_def linker_of_def\<close>)

lemma keeps_proxy:
  assumes "queues_bounded (ls_agent_proxy st) \<Longrightarrow> queues_bounded p"
  shows "keeps env ts st (st\<lparr>ls_agent_proxy := p\<rparr>)"
  by (rule keeps_same_ops) (use assms in \<open>auto simp: linker_ok_def linker_of_def\<close>)

lemma keeps_store:
  assumes "st_auth_store st = Some store"
  shows "keeps env ts st (st\<lparr>st_auth_store := Some (auth_step c store)\<rparr>)"
  by (rule keeps_same_ops) (use assms store_ok_step in \<open>auto simp: linker_ok_def linker_of_def\<close>)

section \<open>Endpoints\<close>

definition keeps_gateway_ok :: "k2_api \<Rightarrow> ('w gateway option \<Rightarrow> 'w gateway option \<times> 'r) \<Rightarrow> bool" where
  "keeps_gateway_ok k2 f \<longleftrightarrow> (\<forall>gw. gateway_ok k2 gw \<longrightarrow> gateway_ok k2 (fst (f gw)))"

lemma run_query_shape: "gk_shape k2 g \<Longrightarrow> gk_shape k2 (fst (run_query k2 wa net useful d loc asks g))"
proof -
  assume g: "gk_shape k2 g"
  obtain g1 r where r: "get_or_create_space k2 net d g = (g1, r)" by fastforce
  from get_or_create_shape [OF g r] show ?thesis
    by (auto simp: run_query_def r split: sum.split)
qed

lemma with_query_ok:
  fixes query :: "'q \<Rightarrow> 'w gateway \<Rightarrow> 'w gateway \<times> 'r peer_result"
  assumes "\<And>q g. gk_shape k2 g \<Longrightarrow> gk_shape k2 (fst (query q g))"
  shows "keeps_gateway_ok k2 (\<lambda>gw. with_query gw arguments query render)"
  unfolding keeps_gateway_ok_def
proof (intro allI impI)
  fix gw :: "'w gateway option" assume "gateway_ok k2 gw"
  then obtain g where g: "gw = Some g" "gk_shape k2 g" by (rule gateway_okE)
  have "gk_shape k2 (fst (query q g))" for q by (rule assms [OF g(2)])
  then show "gateway_ok k2 (fst (with_query gw arguments query render))"
    using g by (auto simp: with_query_def split: sum.split prod.split) (metis fst_conv)+
qed

lemma queries_ok:
  "keeps_gateway_ok k2 (dht_get_record h k2 wa net asks1 p)" "keeps_gateway_ok k2 (dht_get_details h k2 wa net asks2 p)"
  "keeps_gateway_ok k2 (dht_get_links h k2 wa net asks3 s q)" "keeps_gateway_ok k2 (dht_count_links h k2 wa net tv asks4 s q)"
  "keeps_gateway_ok k2 (dht_get_agent_activity h k2 wa net asks5 s t u)"
  "keeps_gateway_ok k2 (dht_must_get_agent_activity h k2 wa net asks6 s b)"
  unfolding dht_get_record_def [abs_def] dht_get_details_def [abs_def] dht_get_links_def [abs_def]
    dht_count_links_def [abs_def] dht_get_agent_activity_def [abs_def] dht_must_get_agent_activity_def [abs_def]
  by (rule with_query_ok, simp add: dq_get_def dq_get_links_def dq_count_links_def dq_get_agent_activity_def
    dq_must_get_agent_activity_def run_query_shape split: prod.split)+

lemma on_gateway_keeps:
  assumes "keeps_gateway_ok (we_k2 (se_ws env)) f"
  shows "keeps env ts st (fst (on_gateway f render st))"
proof -
  obtain gw r where f: "f (ls_gateway st) = (gw, r)" by fastforce
  have "keeps env ts st (st\<lparr>ls_gateway := gw\<rparr>)"
    by (rule keeps_gateway) (use assms f in \<open>auto simp: keeps_gateway_ok_def dest: spec [of _ "ls_gateway st"]\<close>)
  with f show ?thesis by (simp add: on_gateway_def)
qed

lemma extracted_keeps:
  "(\<And>x. r = Inr x \<Longrightarrow> keeps env ts st (fst (k x st))) \<Longrightarrow> keeps env ts st (fst (extracted r k st))"
  by (cases r) (simp_all add: extracted_def)

lemma publish_ops_shape:
  assumes "gk_shape k2 g"
  shows "gk_shape k2 (fst (publish_ops k2 net d ops loc g))"
proof -
  obtain g1 r where r: "get_or_create_space k2 net d g = (g1, r)" by fastforce
  from get_or_create_shape [OF assms r] show ?thesis
    by (auto simp: publish_ops_def r Let_def split: sum.split prod.split)
qed

lemma publish_groups_shape:
  "gk_shape (pe_k2 env) g \<Longrightarrow> gk_shape (pe_k2 env) (fst (publish_groups env d groups g n))"
proof (induction env d groups g n rule: publish_groups.induct)
  case (2 env d l ids groups g n)
  obtain g1 r where r: "publish_ops (pe_k2 env) (pe_network env) d ids l g = (g1, r)" by fastforce
  have "gk_shape (pe_k2 env) g1" using publish_ops_shape [OF "2.prems"] r by (metis fst_conv)
  with "2.IH" [OF r [symmetric]] r show ?case by (cases r) simp_all
qed simp

lemma phase_two_ok:
  assumes "gateway_ok (pe_k2 env) gw"
  shows "gateway_ok (pe_k2 env) (fst (publish_phase_two env arrange d ps gw))"
proof -
  obtain g where g: "gw = Some g" "gk_shape (pe_k2 env) g" using assms by (rule gateway_okE)
  with publish_groups_shape [OF g(2), of d "arrange (ops_by_loc ps)" 0] show ?thesis
    by (auto simp: publish_phase_two_def split: prod.split)
qed

text \<open>Storing the ops of a request is a run of the op store, at the times of the ops.\<close>

lemma process_run:
  assumes "process_signed_op env now sop store = (store', r)"
  shows "\<exists>es. store' = map_option (op_run (pe_ops env) es) store \<and> (\<forall>ev \<in> set es. op_event_time ev = now)"
proof (cases "store' = store")
  case True
  then show ?thesis by (intro exI [of _ "[]"]) simp
next
  case False
  then obtain b l ops where "check_signed_op env sop = Inr (b, l)" and ops: "store = Some ops"
    using assms by (auto simp: process_signed_op_def split: sum.splits option.splits)
  with assms have "store' = Some (fst (store_op (pe_ops env) now b ops))"
    by (auto simp: process_signed_op_def split: sum.splits prod.splits)
  with ops show ?thesis by (intro exI [of _ "[OpStored now b]"]) (simp add: op_run_def)
qed

lemma store_all_run:
  assumes "store_all env ops (store, p) = (store', p')"
  shows "\<exists>es. store' = map_option (op_run (pe_ops env) es) store \<and> (\<forall>ev \<in> set es. op_event_time ev \<in> fst ` set ops)"
  using assms
proof (induction ops arbitrary: store p)
  case Nil
  then show ?case by (intro exI [of _ "[]"]) simp
next
  case (Cons e ops)
  obtain now sop where e: "e = (now, sop)" by (cases e)
  obtain store1 r where one: "process_signed_op env now sop store = (store1, r)" by fastforce
  obtain es where es: "store1 = map_option (op_run (pe_ops env) es) store" "\<forall>ev \<in> set es. op_event_time ev = now"
    using process_run [OF one] by blast
  obtain p1 where "store_all env ops (store1, p1) = (store', p')"
    using Cons.prems by (cases r) (simp_all add: e one)
  from Cons.IH [OF this] obtain fs where fs: "store' = map_option (op_run (pe_ops env) fs) store1"
      "\<forall>ev \<in> set fs. op_event_time ev \<in> fst ` set ops" by blast
  have "store' = map_option (op_run (pe_ops env) (es @ fs)) store"
    using es(1) fs(1) by (simp add: op_run_append [abs_def] option.map_comp comp_def)
  moreover have "\<forall>ev \<in> set (es @ fs). op_event_time ev \<in> fst ` set (e # ops)" using es(2) fs(2) by (auto simp: e)
  ultimately show ?case by blast
qed

definition request_times :: "inputs \<Rightarrow> nat set" where
  "request_times inp = range (in_clock inp)"

lemma publish_keeps: "keeps env (request_times inp) st (fst (publish_endpoint env inp rq ops st))"
proof -
  let ?env = "publish_env_of env"
  let ?ops = "zip (map (in_clock inp) [0..<length ops]) ops"
  obtain store gw r where r: "dht_publish ?env (in_arrange inp) (path_param rq ''dna_hash'') ?ops
      (ls_op_store st, ls_gateway st) = ((store, gw), r)" by (metis surj_pair)
  have env: "pe_ops ?env = se_ops env" "pe_k2 ?env = we_k2 (se_ws env)" by (simp_all add: publish_env_of_def)
  have st: "(\<exists>es. store = map_option (op_run (se_ops env) es) (ls_op_store st) \<and>
        (\<forall>ev \<in> set es. op_event_time ev \<in> request_times inp)) \<and>
      (gateway_ok (we_k2 (se_ws env)) (ls_gateway st) \<longrightarrow> gateway_ok (we_k2 (se_ws env)) gw)"
  proof (cases "dna_try_from (pe_hash ?env) (path_param rq ''dna_hash'')")
    case (Inl e)
    with r show ?thesis by (auto simp: dht_publish_def intro!: exI [of _ "[]"])
  next
    case (Inr d)
    obtain store' p where p: "store_all ?env ?ops (ls_op_store st, phase_one_new) = (store', p)" by fastforce
    with r Inr have s: "store = store'" and g: "gw = fst (publish_phase_two ?env (in_arrange inp) d (ph_processed p) (ls_gateway st))"
      by (auto simp: dht_publish_def split: prod.splits)
    have "fst ` set ?ops \<subseteq> request_times inp" by (auto simp: request_times_def dest!: set_zip_leftD)
    with store_all_run [OF p] phase_two_ok [of ?env "ls_gateway st" "in_arrange inp" d "ph_processed p"] env s g
    show ?thesis by (metis subsetD)
  qed
  then have "keeps env (request_times inp) st (st\<lparr>ls_op_store := store, ls_gateway := gw\<rparr>)"
    unfolding keeps_def by (auto simp: linker_ok_def linker_of_def)
  with r show ?thesis by (simp add: publish_endpoint_def)
qed

lemma test_signal_keeps: "keeps env ts st (fst (test_signal_endpoint env body st))"
proof -
  obtain p r where p: "test_signal (we_hash (se_ws env)) body (ls_agent_proxy st) = (p, r)" by fastforce
  then have "p = ls_agent_proxy st \<or> (\<exists>d a m. p = fst (ap_send_signal d a m (ls_agent_proxy st)))"
    by (auto simp: test_signal_def split: sum.splits prod.splits bool.splits) (metis fst_conv)+
  then have "keeps env ts st (st\<lparr>ls_agent_proxy := p\<rparr>)"
    by (intro keeps_proxy) (use proxy_ok(7) in blast)
  with p show ?thesis by (simp add: test_signal_endpoint_def)
qed

lemma zome_call_presence:
  assumes "zome_call h za cd path payload s = (conn, r)"
  shows "conn = None \<longleftrightarrow> s = None"
  using assms by (cases s) (auto simp: zome_call_def split: sum.splits prod.splits)

lemma zome_keeps: "keeps env ts st (fst (zome_call_endpoint env rq payload st))"
proof -
  obtain conn r where c: "zome_call (we_hash (se_ws env)) (se_zome env) (se_conductor env) (zome_path_of rq) payload
      (ls_app_conn st) = (conn, r)" by fastforce
  with zome_call_presence [OF c] show ?thesis by (auto simp: zome_call_endpoint_def linker_of_def intro: keeps_same_ops)
qed

lemma admin_keeps:
  "keeps env ts st (fst (admin_add_agent h body st))" "keeps env ts st (fst (admin_remove_agent h a st))"
  "keeps env ts st (fst (admin_list_agents h st))"
proof -
  show "keeps env ts st (fst (admin_add_agent h body st))"
    using keeps_store [of st _ env ts "CmdAddAgent g" for g]
    by (auto simp: admin_add_agent_def split: option.split sum.split)
  have "keeps env ts st (st\<lparr>st_auth_store := Some s\<rparr>)"
    if "st_auth_store st = Some store" "auth_remove_agent k store = (s, r)" for store k s r
    using keeps_store [OF that(1), of env ts "CmdRemoveAgent k"] that(2) by simp
  then show "keeps env ts st (fst (admin_remove_agent h a st))"
    by (auto simp: admin_remove_agent_def split: option.split sum.split prod.split)
  have "keeps env ts st (st\<lparr>st_auth_store := Some s\<rparr>)"
    if "st_auth_store st = Some store" "auth_list_agents store = (s, r)" for store s r
    using keeps_store [OF that(1), of env ts CmdListAgents] that(2) by simp
  then show "keeps env ts st (fst (admin_list_agents h st))"
    by (auto simp: admin_list_agents_def split: option.split prod.split)
qed

lemma route_keeps: "keeps env (request_times inp) st (fst (handle_route env inp r rq st))"
  by (cases r) (auto intro!: extracted_keeps on_gateway_keeps queries_ok publish_keeps test_signal_keeps zome_keeps
    admin_keeps simp: reads_def ws_handler_def)

section \<open>Requests\<close>

lemma check_keeps:
  assumes "\<And>rq st. keeps env ts st (fst (next rq st))"
  shows "keeps env ts st (fst (check_capability c next rq st))"
proof (cases "st_auth_store st")
  case (Some store)
  show ?thesis
  proof (cases "extract_bearer_token rq")
    case token: (Some token)
    obtain store' v where v: "auth_validate_session token store = (store', v)" by fastforce
    have e: "keeps env ts st (st\<lparr>st_auth_store := Some store'\<rparr>)"
      using keeps_store [OF Some, of env ts "CmdValidateSession token"] v by simp
    show ?thesis
      using e keeps_trans [OF e assms] by (cases v) (simp_all add: check_capability_def Some token v)
  qed (simp add: check_capability_def Some)
qed (simp add: check_capability_def)

lemma guard_keeps:
  assumes "\<And>rq st. keeps env ts st (fst (next rq st))"
  shows "keeps env ts st (fst (guard h r next rq st))"
proof -
  have scope: "keeps env ts st (fst (require_dna_scope h next rq st))" for rq st
    using assms by (auto simp: require_dna_scope_def split: option.split sum.split)
  have secret: "keeps env ts st (fst (require_admin_secret next rq st))"
    using assms by (auto simp: require_admin_secret_def split: option.split)
  show ?thesis
    using assms scope secret check_keeps [of env ts "require_dna_scope h next"] check_keeps [of env ts "next"]
    by (cases "gate_of r") (auto simp: guard_def require_dht_read_def require_dht_write_def require_k2_def
      split: capability.split)
qed

lemma serve_keeps: "keeps env (request_times inp) st (fst (serve env st0 inp rq st))"
  by (cases "st_auth_store st0"; cases "route_of (st_auth_store st0 \<noteq> None) rq")
    (auto simp: serve_def create_router_def authenticated_router_def open_router_def dispatch_route_of
      intro: guard_keeps route_keeps)

section \<open>Every event\<close>

definition service_ok :: "('w, 'c, 'b) service_env \<Rightarrow> bool \<Rightarrow> ('w, 'c, 'a) service \<Rightarrow> bool" where
  "service_ok env auth sv \<longleftrightarrow> linker_ok (se_ws env) auth (linker_of (sv_state sv)) \<and>
     (\<forall>w sk. hm_get (sv_sockets sv) w = Some sk \<longrightarrow> socket_ok auth sk)"

text \<open>The times an event puts into the op store.\<close>

definition event_times :: "('w, 'b) service_event \<Rightarrow> nat set" where
  "event_times ev = (case ev of SvRequest rq inp w now \<Rightarrow> request_times inp | SvCleanup now \<Rightarrow> {now} | _ \<Rightarrow> {})"

text \<open>Both facts of a step: it keeps the state, and the sockets.\<close>

definition step_keeps :: "('w, 'c, 'b) service_env \<Rightarrow> bool \<Rightarrow> nat set \<Rightarrow> ('w, 'c, 'a) service \<Rightarrow> ('w, 'c, 'a) service \<Rightarrow> bool" where
  "step_keeps env auth ts sv sv' \<longleftrightarrow> service_ok env auth sv' \<and> keeps env ts (sv_state sv) (sv_state sv')"

lemma step_keeps_refl: "service_ok env auth sv \<Longrightarrow> step_keeps env auth ts sv sv"
  by (simp add: step_keeps_def)

lemma step_keeps_trans:
  "step_keeps env auth ts sv sv1 \<Longrightarrow> step_keeps env auth ts sv1 sv' \<Longrightarrow> step_keeps env auth ts sv sv'"
  unfolding step_keeps_def using keeps_trans by blast

lemma step_keeps_more: "step_keeps env auth ts sv sv' \<Longrightarrow> ts \<subseteq> us \<Longrightarrow> step_keeps env auth us sv sv'"
  unfolding step_keeps_def using keeps_more by blast

lemma step_keeps_state:
  assumes "service_ok env auth sv" and "keeps env ts (sv_state sv) st"
  shows "step_keeps env auth ts sv (sv\<lparr>sv_state := st\<rparr>)"
  using assms by (simp add: step_keeps_def service_ok_def keeps_def)

lemma linker_ok_auth: "linker_ok env auth app \<Longrightarrow> auth \<longleftrightarrow> ln_auth_store app \<noteq> None"
  by (auto simp: linker_ok_def store_ok_def)

text \<open>A step of a connection, on its socket and the linker.\<close>

lemma step_keeps_socket:
  assumes "service_ok env auth sv" and "running_ok (se_ws env) auth (sk, app)"
  shows "step_keeps env auth ts sv (sv\<lparr>sv_state := put_linker app (sv_state sv), sv_sockets := hm_insert w sk (sv_sockets sv)\<rparr>)"
proof -
  have "keeps env ts (sv_state sv) (put_linker app (sv_state sv))"
  proof (rule keeps_same_ops)
    fix auth' assume a: "linker_ok (se_ws env) auth' (linker_of (sv_state sv))"
    moreover have "linker_ok (se_ws env) auth (linker_of (sv_state sv))" using assms(1) by (simp add: service_ok_def)
    ultimately have "auth' = auth" by (auto dest: linker_ok_auth)
    with assms(2) show "linker_ok (se_ws env) auth' (linker_of (put_linker app (sv_state sv)))"
      by (simp add: running_ok_def)
  qed simp_all
  with assms show ?thesis by (auto simp: step_keeps_def service_ok_def running_ok_def split: if_splits)
qed

lemma connection_keeps:
  assumes "service_ok env auth sv"
  shows "step_keeps env auth ts sv (start_connection w now sv)"
proof (cases "hm_get (sv_sockets sv) w")
  case None
  obtain sk app where r: "handle_socket w now (linker_of (sv_state sv)) = (sk, app)" by fastforce
  then have "running_ok (se_ws env) auth (sk, app)"
    using assms by (auto simp: handle_socket_def running_ok_def socket_ok_def conn_ok_def connection_default_def
      service_ok_def linker_ok_def proxy_ok)
  from step_keeps_socket [OF assms this, of ts w] None r show ?thesis by (simp add: start_connection_def)
qed (use assms in \<open>simp add: start_connection_def step_keeps_refl\<close>)

lemma service_request_keeps:
  assumes "service_ok env auth sv"
  shows "step_keeps env auth (request_times inp) sv (service_request env st0 rq inp w now sv)"
proof -
  obtain st r where r: "serve env st0 inp rq (sv_state sv) = (st, r)" by fastforce
  have one: "step_keeps env auth (request_times inp) sv (sv\<lparr>sv_state := st\<rparr>)"
    using step_keeps_state [OF assms serve_keeps [of env inp "sv_state sv" st0 rq]] r by simp
  then have "service_ok env auth (sv\<lparr>sv_state := st\<rparr>)" by (simp add: step_keeps_def)
  from step_keeps_trans [OF one connection_keeps [OF this]] one r show ?thesis
    by (simp add: service_request_def)
qed

lemma service_socket_keeps:
  assumes "service_ok env auth sv"
  shows "step_keeps env auth T sv (service_socket env cfg w e sv)"
proof (cases "hm_get (sv_sockets sv) w")
  case None
  with assms show ?thesis by (simp add: service_socket_def step_keeps_refl)
next
  case (Some sk)
  obtain sk' app where r: "socket_step (se_ws env) cfg w e (sk, linker_of (sv_state sv)) = (sk', app)"
    by fastforce
  have "running_ok (se_ws env) auth (sk, linker_of (sv_state sv))"
    using assms Some by (simp add: running_ok_def service_ok_def)
  from socket_step_keeps [OF this, of cfg w e]
  have "running_ok (se_ws env) auth (sk', app)" by (simp add: r)
  from step_keeps_socket [OF assms this, of _ w] Some r show ?thesis
    by (simp add: service_socket_def)
qed

text \<open>The steps of signing tasks.\<close>

lemma step_keeps_proxy:
  assumes "service_ok env auth sv" and "queues_bounded (ls_agent_proxy (sv_state sv)) \<Longrightarrow> queues_bounded p"
  shows "step_keeps env auth ts sv (sv\<lparr>sv_state := (sv_state sv)\<lparr>ls_agent_proxy := p\<rparr>, sv_signs := ss\<rparr>)"
  using step_keeps_state [OF assms(1) keeps_proxy [OF assms(2)], of ts] by (simp add: step_keeps_def service_ok_def)

lemma sign_steps_bounded:
  "queues_bounded p \<Longrightarrow> sign_send e t p = Some (p', t') \<Longrightarrow> queues_bounded p'"
  "queues_bounded p \<Longrightarrow> sign_finish timed_out debug t p = Some (p', t') \<Longrightarrow> queues_bounded p'"
proof -
  assume p: "queues_bounded p" "sign_send e t p = Some (p', t')"
  then obtain k c w m where t: "t = SignSending k c w m" by (cases t) (simp_all add: sign_send_def)
  obtain q r where q: "try_send_message m w p = (q, r)" by fastforce
  have "queues_bounded q" using try_send_bounded [OF p(1), of m w] q by simp
  with p(2) t q show "queues_bounded p'"
    by (cases r) (auto simp: sign_send_def queues_bounded_def other_events_channels)
next
  show "queues_bounded p \<Longrightarrow> sign_finish timed_out debug t p = Some (p', t') \<Longrightarrow> queues_bounded p'"
    by (auto simp: sign_finish_def queues_bounded_def other_events_channels
      split: sign_task.splits oneshot.splits if_splits)
qed

lemma service_sign_keeps:
  assumes "service_ok env auth sv" and "\<And>t p p' t'. queues_bounded p \<Longrightarrow> step t p = Some (p', t') \<Longrightarrow> queues_bounded p'"
  shows "step_keeps env auth ts sv (service_sign step k sv)"
  using step_keeps_proxy [OF assms(1)] assms step_keeps_refl [OF assms(1)]
  by (auto simp: service_sign_def split: option.split)

lemma service_step_keeps:
  assumes "service_ok env auth sv"
  shows "step_keeps env auth (event_times ev) sv (service_step env st0 ev sv)"
proof (cases ev)
  case (SvRequest rq inp w now)
  with service_request_keeps [OF assms] show ?thesis by (simp add: event_times_def)
next
  case (SvSocket w e)
  with service_socket_keeps [OF assms] show ?thesis by (simp add: event_times_def)
next
  case (SvSignal d a m)
  then show ?thesis
    using step_keeps_state [OF assms keeps_proxy] proxy_ok(7) by (auto simp: event_times_def)
next
  case (SvSign t debug a info)
  then show ?thesis
    using step_keeps_proxy [OF assms] proxy_ok(9) by (auto simp: event_times_def split: prod.split) (metis fst_conv)
next
  case (SvSignSend k e)
  then show ?thesis using service_sign_keeps [OF assms] sign_steps_bounded(1) by (simp add: event_times_def)
next
  case (SvSignFinish k timed_out debug)
  then show ?thesis using service_sign_keeps [OF assms] sign_steps_bounded(2) by (simp add: event_times_def)
next
  case (SvNetwork w)
  have "keeps env {} (sv_state sv) ((sv_state sv)\<lparr>ls_gateway := map_option (\<lambda>g. g\<lparr>gk_world := w\<rparr>) (ls_gateway (sv_state sv))\<rparr>)"
    by (rule keeps_gateway) (auto simp: gateway_ok_def)
  with SvNetwork step_keeps_state [OF assms] show ?thesis by (simp add: event_times_def)
next
  case (SvCleanup now)
  have c: "op_step (se_ops env) (OpCleanup now) = cleanup_expired now" by (simp add: fun_eq_iff)
  have "keeps env {now} (sv_state sv) ((sv_state sv)\<lparr>ls_op_store := map_option (cleanup_expired now) (ls_op_store (sv_state sv))\<rparr>)"
    unfolding keeps_def by (intro conjI exI [of _ "[OpCleanup now]"]) (simp_all add: linker_of_def op_run_def [abs_def] c)
  with SvCleanup step_keeps_state [OF assms] show ?thesis by (simp add: event_times_def)
qed

lemma service_run_keeps:
  assumes "service_ok env auth sv"
  shows "step_keeps env auth (\<Union>ev \<in> set evs. event_times ev) sv (fold (service_step env st0) evs sv)"
  using assms
proof (induction evs arbitrary: sv)
  case (Cons ev evs)
  have one: "step_keeps env auth (event_times ev) sv (service_step env st0 ev sv)"
    by (rule service_step_keeps [OF Cons.prems])
  then have "service_ok env auth (service_step env st0 ev sv)" by (simp add: step_keeps_def)
  note rest = Cons.IH [OF this]
  have "event_times ev \<subseteq> (\<Union>e \<in> set (ev # evs). event_times e)"
    "(\<Union>e \<in> set evs. event_times e) \<subseteq> (\<Union>e \<in> set (ev # evs). event_times e)" by auto
  from step_keeps_trans [OF step_keeps_more [OF one this(1)] step_keeps_more [OF rest this(2)]]
  show ?case by simp
qed (simp add: step_keeps_refl)

end
