(* ===== verification/Sections.thy ===== *)
theory Sections imports Service_Types begin

text \<open>
  Handlers cut at their awaits. A run here mixes whole events of \<open>Service_System\<close> with the critical
  sections that handlers are made of, each on its own and in any order: the calls and half-calls of the
  auth store, of the agent proxy, of the gateway's two tables and of the op store, and the move of a
  connection that has read the shared state at other times than now. Whatever a run of interleaved
  handlers does to the shared state is such a list of sections.
\<close>

section \<open>Critical sections\<close>

datatype ('w, 'c, 'b) section_event =
    Whole "('w, 'b) service_event"
  | AuthCall auth_command
  | SessionWritten session_token agent_pubkey "capability set"
  | SendersDropped agent_pubkey
  | ProxyCall ap_event
  | SpaceStored dna_hash
  | SpaceDropped dna_hash
  | AgentStored dna_hash agent_pubkey
  | AgentDropped dna_hash agent_pubkey
  | OpCall op_event
  | ConductorMoved "'c app_conn"
  | ConnectionMoved ws_sender socket_event "'w linker"

definition store_section :: "(auth_store \<Rightarrow> auth_store) \<Rightarrow> ('w, 'c, 'a) service \<Rightarrow> ('w, 'c, 'a) service" where
  "store_section f sv = sv\<lparr>sv_state := (sv_state sv)\<lparr>st_auth_store := map_option f (st_auth_store (sv_state sv))\<rparr>\<rparr>"

definition gateway_section :: "('w gateway \<Rightarrow> 'w gateway) \<Rightarrow> ('w, 'c, 'a) service \<Rightarrow> ('w, 'c, 'a) service" where
  "gateway_section f sv = sv\<lparr>sv_state := (sv_state sv)\<lparr>ls_gateway := map_option f (ls_gateway (sv_state sv))\<rparr>\<rparr>"

text \<open>A connection's own state after an event for which its handler met the linker as \<open>seen\<close>. Whether there
  is an auth store never changes, so it saw what is so now.\<close>

definition moved_connection :: "('w, 'c, 'b) service_env \<Rightarrow> websocket_config \<Rightarrow> ws_sender \<Rightarrow> socket_event \<Rightarrow> 'w linker \<Rightarrow>
    ('w, 'c, 'a) service \<Rightarrow> ('w, 'c, 'a) service" where
  "moved_connection env cfg w ev seen sv = (case hm_get (sv_sockets sv) w of
     None \<Rightarrow> sv
   | Some sk \<Rightarrow> if (ln_auth_store seen = None) = (st_auth_store (sv_state sv) = None)
       then sv\<lparr>sv_sockets := hm_insert w (fst (socket_step (se_ws env) cfg w ev (sk, seen))) (sv_sockets sv)\<rparr>
       else sv)"

fun section_step :: "('w, 'c, 'b) service_env \<Rightarrow> ('w, 'c, 'a) linker_state \<Rightarrow> ('w, 'c, 'b) section_event \<Rightarrow>
    ('w, 'c, 'a) service \<Rightarrow> ('w, 'c, 'a) service" where
  "section_step env st0 (Whole ev) sv = service_step env st0 ev sv"
| "section_step env st0 (AuthCall c) sv = store_section (auth_step c) sv"
| "section_step env st0 (SessionWritten tok k caps) sv =
     store_section (on_memory (mem_create_session_write tok k caps)) sv"
| "section_step env st0 (SendersDropped k) sv = store_section (drop_senders k) sv"
| "section_step env st0 (ProxyCall e) sv = sv\<lparr>sv_state := (sv_state sv)\<lparr>ls_agent_proxy :=
     ap_step (we_hash (se_ws env)) (we_k2 (se_ws env)) e (ls_agent_proxy (sv_state sv))\<rparr>\<rparr>"
| "section_step env st0 (SpaceStored d) sv = gateway_section (store_space (we_k2 (se_ws env)) d) sv"
| "section_step env st0 (SpaceDropped d) sv = gateway_section (drop_space d) sv"
| "section_step env st0 (AgentStored d a) sv = gateway_section (store_agent (we_k2 (se_ws env)) d a) sv"
| "section_step env st0 (AgentDropped d a) sv = gateway_section (drop_agent d a) sv"
| "section_step env st0 (OpCall e) sv = sv\<lparr>sv_state := (sv_state sv)\<lparr>ls_op_store :=
     map_option (op_step (se_ops env) e) (ls_op_store (sv_state sv))\<rparr>\<rparr>"
| "section_step env st0 (ConductorMoved c) sv = sv\<lparr>sv_state := (sv_state sv)\<lparr>ls_app_conn :=
     map_option (\<lambda>_. c) (ls_app_conn (sv_state sv))\<rparr>\<rparr>"
| "section_step env st0 (ConnectionMoved w ev seen) sv =
     moved_connection env (cf_websocket (ls_configuration st0)) w ev seen sv"

definition section_run :: "('w, 'c, 'b) service_env \<Rightarrow> ('w, 'c, 'a) linker_state \<Rightarrow> ('w, 'c, 'b) section_event list \<Rightarrow>
    ('w, 'c, 'a) service" where
  "section_run env st0 evs = fold (section_step env st0) evs (service_new st0)"

section \<open>What each section keeps\<close>

text \<open>A connection whose handler met an auth store exactly when there is one does not panic.\<close>

definition calm_conn :: "bool \<Rightarrow> 'w conn \<times> outcome \<Rightarrow> bool" where
  "calm_conn auth r \<longleftrightarrow> conn_ok auth (fst (fst r)) \<and> snd r \<noteq> Panicked"

lemma handle_message_calm:
  assumes "conn_ok auth cs" and "(ln_auth_store app \<noteq> None) = auth"
  shows "calm_conn auth (handle_client_message env msg challenge token sender (cs, app))"
proof (cases msg)
  case (CmAuthChallengeResponse sig)
  show ?thesis
  proof (cases "cs_pending_auth_agent cs")
    case (Some agent)
    with assms obtain store where "ln_auth_store app = Some store" "auth" by (auto simp: conn_ok_def)
    with CmAuthChallengeResponse Some show ?thesis
      by (auto simp: handle_client_message_def handle_auth_challenge_response_def calm_conn_def conn_ok_def Let_def
        split: option.split sum.split prod.split)
  qed (use CmAuthChallengeResponse assms in \<open>simp add: handle_client_message_def
    handle_auth_challenge_response_def calm_conn_def\<close>)
next
  case (CmAuth key)
  with assms show ?thesis
    by (cases "ln_auth_store app") (auto simp: handle_client_message_def handle_auth_def calm_conn_def conn_ok_def Let_def
      split: option.split sum.split prod.split)
qed (use assms in \<open>auto simp: handle_client_message_def handle_register_def handle_unregister_def
    handle_send_remote_signal_def calm_conn_def conn_ok_def Let_def split: option.split sum.split prod.split\<close>)

lemma socket_step_calm:
  assumes "socket_ok auth sk" and "(ln_auth_store app \<noteq> None) = auth"
  shows "socket_ok auth (fst (socket_step env cfg w ev (sk, app)))"
proof (cases "\<exists>now parsed challenge token. sk_phase sk = SkListening \<and> ev = EvText now parsed challenge token")
  case True
  then obtain now parsed challenge token where ev: "sk_phase sk = SkListening" "ev = EvText now parsed challenge token"
    by blast
  show ?thesis
  proof (cases parsed)
    case (Inl e)
    with ev assms show ?thesis by (simp add: socket_step_def listening_step_def handle_text_def socket_ok_def conn_ok_def)
  next
    case (Inr msg)
    let ?cs = "(sk_conn sk)\<lparr>cs_last_activity := now\<rparr>"
    obtain cs' app' out where o: "handle_client_message env msg challenge token w (?cs, app) = ((cs', app'), out)"
      by (metis surj_pair)
    have "calm_conn auth ((cs', app'), out)"
      using handle_message_calm [of auth ?cs app env msg challenge token w] assms o
      by (simp add: socket_ok_def conn_ok_def)
    with ev Inr o show ?thesis
      by (auto simp: socket_step_def listening_step_def handle_text_def Let_def calm_conn_def socket_ok_def
        split: outcome.split option.split)
  qed
next
  case False
  with assms show ?thesis
    by (cases "sk_phase sk"; cases ev)
      (auto simp: socket_step_def listening_step_def replying_step_def end_socket_def socket_ok_def conn_ok_def
        split: prod.split try_send.split)
qed

lemma section_keeps_state:
  assumes "service_ok env auth sv"
    and "keeps env UNIV (sv_state sv) st"
  shows "step_keeps env auth UNIV sv (sv\<lparr>sv_state := st\<rparr>)"
  by (rule step_keeps_state [OF assms])

lemma store_section_keeps:
  assumes "service_ok env auth sv" and "\<And>s. auth_shape s \<Longrightarrow> auth_shape (f s)"
  shows "step_keeps env auth UNIV sv (store_section f sv)"
  unfolding store_section_def
  by (rule step_keeps_state [OF assms(1)], rule keeps_same_ops)
    (use assms(2) in \<open>auto simp: linker_ok_def linker_of_def store_ok_def option.pred_map comp_def
      elim: option.pred_mono_strong\<close>)

lemma gateway_section_keeps:
  fixes sv :: "('w, 'c, 'a) service"
  assumes "service_ok env auth sv" and "\<And>g :: 'w gateway. gk_shape (we_k2 (se_ws env)) g \<Longrightarrow> gk_shape (we_k2 (se_ws env)) (f g)"
  shows "step_keeps env auth UNIV sv (gateway_section f sv)"
  unfolding gateway_section_def
  by (rule step_keeps_state [OF assms(1)], rule keeps_gateway) (use assms(2) in \<open>auto simp: gateway_ok_def\<close>)

lemma moved_connection_keeps:
  assumes "service_ok env auth sv"
  shows "step_keeps env auth UNIV sv (moved_connection env cfg w ev seen sv)"
proof (cases "hm_get (sv_sockets sv) w")
  case (Some sk)
  have "socket_ok auth sk" "(st_auth_store (sv_state sv) \<noteq> None) = auth"
    using assms Some by (auto simp: service_ok_def linker_ok_def linker_of_def store_ok_def)
  with socket_step_calm [of auth sk seen] assms Some show ?thesis
    by (auto simp: moved_connection_def step_keeps_def service_ok_def)
qed (use assms in \<open>simp add: moved_connection_def step_keeps_refl\<close>)

lemma section_step_keeps:
  assumes "service_ok env auth sv"
  shows "step_keeps env auth UNIV sv (section_step env st0 e sv)"
proof (cases e)
  case (Whole ev)
  with step_keeps_more [OF service_step_keeps [OF assms]] show ?thesis by simp
next
  case (ProxyCall ev)
  then show ?thesis using step_keeps_state [OF assms keeps_proxy] step_bounded by simp
next
  case (OpCall ev)
  have "keeps env UNIV (sv_state sv) ((sv_state sv)\<lparr>ls_op_store := map_option (op_step (se_ops env) ev) (ls_op_store (sv_state sv))\<rparr>)"
    unfolding keeps_def by (intro conjI exI [of _ "[ev]"]) (simp_all add: linker_of_def op_run_def [abs_def])
  with OpCall step_keeps_state [OF assms] show ?thesis by simp
next
  case (ConductorMoved c)
  have "keeps env UNIV (sv_state sv) ((sv_state sv)\<lparr>ls_app_conn := map_option (\<lambda>_. c) (ls_app_conn (sv_state sv))\<rparr>)"
    by (rule keeps_same_ops) (simp_all add: linker_of_def)
  with ConductorMoved step_keeps_state [OF assms] show ?thesis by simp
next
  case (ConnectionMoved w ev seen)
  with moved_connection_keeps [OF assms] show ?thesis by simp
qed (simp_all add: store_section_keeps [OF assms] gateway_section_keeps [OF assms] auth_step_shape auth_shape_sections
    gk_shape_sections)

lemma section_run_keeps:
  assumes "service_ok env auth sv"
  shows "step_keeps env auth UNIV sv (fold (section_step env st0) evs sv)"
  using assms
proof (induction evs arbitrary: sv)
  case (Cons e evs)
  note one = section_step_keeps [OF Cons.prems, of st0 e]
  then have "service_ok env auth (section_step env st0 e sv)" by (simp add: step_keeps_def)
  from step_keeps_trans [OF one Cons.IH [OF this]] show ?case by simp
qed (simp add: step_keeps_refl)

text \<open>A run of whole events is a run of sections.\<close>

lemma service_run_sections: "service_run env st0 evs = section_run env st0 (map Whole evs)"
proof -
  have "fold (section_step env st0) (map Whole evs) sv = fold (service_step env st0) evs sv" for sv
    by (induction evs arbitrary: sv) simp_all
  then show ?thesis by (simp add: service_run_def section_run_def)
qed

end
