(* ===== verification/Linker_Properties.thy ===== *)
theory Linker_Properties imports Linker_Service Sections begin

text \<open>
  The properties of the assembled linker: how its parts are wired, how a start can fail, that every
  part stays well-formed as long as it runs, also between the awaits of its handlers, and how it ends.
\<close>

section \<open>A start\<close>

lemma start_kitsune_cases:
  assumes "start_kitsune su config key w = (w', Some (Inr wires))"
  shows "wires = \<lparr>wr_proxy = \<lparr>kp_agent_proxy = Shared 0, kp_pending_dht_responses = Shared 1, kp_preflight_cache = Shared 3\<rparr>,
      wr_builder = wr_builder wires, wr_state_agent_proxy = Shared 0, wr_gateway_agent_proxy = Shared 0,
      wr_query_pending = Shared 1, wr_op_store_handle = Shared 2\<rparr>"
    and "proxy_build (su_k2 su) (linker_builder config key (wr_proxy wires) (TempOpStoreFactory (Shared 2))) w =
      (w', Inr (wr_builder wires))"
proof -
  let ?proxy = "\<lparr>kp_agent_proxy = Shared 0, kp_pending_dht_responses = Shared 1, kp_preflight_cache = Shared 3\<rparr>"
  obtain c where "cache_new (su_preflight su) = Some c"
    using assms by (cases "cache_new (su_preflight su)")
      (simp_all add: start_kitsune_def new_shared_def op_store_factory_create_def with_pending_responses_def)
  moreover obtain w1 r where "proxy_build (su_k2 su) (linker_builder config key ?proxy (TempOpStoreFactory (Shared 2))) w = (w1, r)"
    by fastforce
  ultimately show "wires = \<lparr>wr_proxy = \<lparr>kp_agent_proxy = Shared 0, kp_pending_dht_responses = Shared 1, kp_preflight_cache = Shared 3\<rparr>,
      wr_builder = wr_builder wires, wr_state_agent_proxy = Shared 0, wr_gateway_agent_proxy = Shared 0,
      wr_query_pending = Shared 1, wr_op_store_handle = Shared 2\<rparr>"
    and "proxy_build (su_k2 su) (linker_builder config key (wr_proxy wires) (TempOpStoreFactory (Shared 2))) w =
      (w', Inr (wr_builder wires))"
    using assms by (cases r; auto simp: start_kitsune_def new_shared_def op_store_factory_create_def
      with_pending_responses_def numeral_eq_Suc)+
qed

lemma linker_new_Started:
  assumes "linker_new su address port config secret (f, w) = ((f', w'), Started sv)"
  obtains f1 key wires auth where "identity_load (su_keys su) (su_files su) (cf_identity config) secret f = (f1, Inr key)"
    "start_kitsune su config key w = (w', Some (Inr wires))" "open_auth_store su config f1 = (f', Inr auth)"
    "sv = \<lparr>lv_addr = (address, port), lv_state = first_state su config w' auth, lv_identity = key, lv_wiring = wires\<rparr>"
  using assms by (auto simp: linker_new_def kitsune_enabled_def split: sum.splits prod.splits option.splits)

section \<open>Properties\<close>

text \<open>C8. In a linker that started, the parts share what they have to share and nothing else. Each space's
  handler, made by the handler that kitsune2 was given, routes answers into the very table the queries wait on
  and signals into the agent proxy the WebSocket endpoint registers in; kitsune2 serves ops from the very
  store the publish endpoint fills; the wrapped bootstrap feeds the very cache the handshake reads. These
  are four different things. And the modules are set from the configuration.\<close>

theorem started_linker_is_wired:
  assumes "linker_new su address port config secret (f, w) = ((f', w'), Started sv)"
  shows "(\<forall>sp. create_space (wr_proxy (lv_wiring sv)) sp = Inr \<lparr>ph_space_id = sp,
        ph_agent_proxy = wr_state_agent_proxy (lv_wiring sv), ph_pending_dht_responses = wr_query_pending (lv_wiring sv)\<rparr>) \<and>
    wr_gateway_agent_proxy (lv_wiring sv) = wr_state_agent_proxy (lv_wiring sv) \<and>
    kb_op_store (wr_builder (lv_wiring sv)) = TempOpStoreFactory (wr_op_store_handle (lv_wiring sv)) \<and>
    kb_bootstrap (wr_builder (lv_wiring sv)) =
      BootstrapWrapper (kp_preflight_cache (wr_proxy (lv_wiring sv))) CoreBootstrapFactory \<and>
    distinct [wr_state_agent_proxy (lv_wiring sv), wr_query_pending (lv_wiring sv), wr_op_store_handle (lv_wiring sv),
      kp_preflight_cache (wr_proxy (lv_wiring sv))] \<and>
    kb_modules (wr_builder (lv_wiring sv)) = [CoreBootstrapMod (cf_bootstrap_url config) 10000] @
      (case report_settings config of None \<Rightarrow> [] | Some c \<Rightarrow> [HcReportMod c]) @
      [CoreSpaceMod 10000 10000, IrohTransportMod True (cf_relay_url config)] \<and>
    (\<exists>w1. ks_build (su_k2 su) (wr_builder (lv_wiring sv)) w = (w1, Inr ()) \<and>
      ks_register_handler (su_k2 su) (wr_proxy (lv_wiring sv)) w1 = (w', Inr ()))"
proof -
  obtain f1 key wires auth where s: "start_kitsune su config key w = (w', Some (Inr wires))" "lv_wiring sv = wires"
    using assms by (rule linker_new_Started) simp
  note c = start_kitsune_cases [OF s(1)]
  let ?pb = "linker_builder config key (wr_proxy wires) (TempOpStoreFactory (Shared 2))"
  have pb: "pb_handler ?pb = wr_proxy wires" "pb_op_store_factory ?pb = Some (TempOpStoreFactory (Shared 2))"
    "pb_bootstrap_url ?pb = Some (cf_bootstrap_url config)" "pb_relay_url ?pb = cf_relay_url config"
    "pb_report_config ?pb = report_settings config"
    by (simp_all add: linker_builder_def with_bootstrap_url_def with_op_store_def proxy_builder_new_def
      with_relay_url_def with_report_def Let_def split: option.split)
  have b: "wr_builder wires = (set_factories ?pb default_builder)\<lparr>kb_modules := modules_of ?pb\<rparr>"
    by (rule proxy_build_Inr(1) [OF c(2)])
  have k: "kb_op_store (wr_builder wires) = TempOpStoreFactory (Shared 2)"
    "kb_bootstrap (wr_builder wires) = BootstrapWrapper (kp_preflight_cache (wr_proxy wires)) CoreBootstrapFactory"
    "kb_modules (wr_builder wires) = [CoreBootstrapMod (cf_bootstrap_url config) 10000] @
      (case report_settings config of None \<Rightarrow> [] | Some c \<Rightarrow> [HcReportMod c]) @
      [CoreSpaceMod 10000 10000, IrohTransportMod True (cf_relay_url config)]"
    unfolding b by (simp_all add: set_factories_def default_builder_def modules_of_def pb Let_def split: option.split)
  have a: "kp_agent_proxy (wr_proxy wires) = Shared 0" "kp_pending_dht_responses (wr_proxy wires) = Shared 1"
    "kp_preflight_cache (wr_proxy wires) = Shared 3" "wr_state_agent_proxy wires = Shared 0"
    "wr_gateway_agent_proxy wires = Shared 0" "wr_query_pending wires = Shared 1" "wr_op_store_handle wires = Shared 2"
    by (subst c(1), simp)+
  show ?thesis
    using k a proxy_build_Inr(2) [OF c(2)] unfolding s(2) pb(1) by (simp add: create_space_def)
qed

section \<open>Starting from the environment\<close>

lemma loaded_admin_secret:
  assumes "from_env p vars = Inr c"
  shows "cf_admin_secret c = vars ''H2HC_LINKER_ADMIN_SECRET''"
proof -
  obtain c1 c2 c3 c4 c5 c6 where r: "read_conductor_url p vars default_configuration = Inr c1"
    "read_kitsune vars c1 = Inr c2" "read_payload_limit vars c2 = Inr c3" "read_zome_call_timeout vars c3 = Inr c4"
    "read_report vars c4 = Inr c5" "read_registration p vars (read_auth vars (read_identity vars c5)) = Inr c6"
    "read_session_store vars c6 = Inr c"
    using assms unfolding from_env_def bind_result_Inr by blast
  have "cf_admin_secret c1 = None" using r(1) by (auto simp: read_conductor_url_def default_configuration_def split: read_splits)
  moreover have "cf_admin_secret c2 = cf_admin_secret c1" using r(2) by (auto simp: read_kitsune_def Let_def split: read_splits)
  moreover have "cf_admin_secret c3 = cf_admin_secret c2" using r(3) by (auto simp: read_payload_limit_def split: read_splits)
  moreover have "cf_admin_secret c4 = cf_admin_secret c3" using r(4) by (auto simp: read_zome_call_timeout_def split: read_splits)
  moreover have "cf_admin_secret c5 = cf_admin_secret c4"
    using r(5) by (auto simp: read_report_def Let_def bind_result_Inr split: read_splits)
  ultimately have "cf_admin_secret (read_auth vars (read_identity vars c5)) = vars ''H2HC_LINKER_ADMIN_SECRET''"
    by (simp add: read_auth_def read_identity_def Let_def split: option.split)
  moreover have "cf_admin_secret c6 = cf_admin_secret (read_auth vars (read_identity vars c5))"
    using r(6) by (cases rule: read_registration_cases) simp_all
  moreover have "cf_admin_secret c = cf_admin_secret c6" using r(7) by (auto simp: read_session_store_def split: read_splits)
  ultimately show ?thesis by simp
qed

lemma start_kitsune_total:
  "preflight_ok (su_preflight su) \<Longrightarrow> snd (start_kitsune su config key w) \<noteq> None"
  by (erule cache_new_ok) (simp add: start_kitsune_def new_shared_def op_store_factory_create_def
    with_pending_responses_def split: prod.split sum.split)

lemma open_auth_store_presence:
  "open_auth_store su config f = (f', Inr auth) \<Longrightarrow> (auth = None) = (cf_admin_secret config = None)"
  by (auto simp: open_auth_store_def auth_enabled_def split: if_splits prod.splits sum.splits)

definition starts_with_one_of :: "string list \<Rightarrow> string \<Rightarrow> bool" where
  "starts_with_one_of ps s \<longleftrightarrow> list_ex (\<lambda>p. starts_with p s) ps"

text \<open>C15. What a start from the environment can come to. A bad configuration touches nothing. The linker never
  panics while starting, as long as the codec can encode an empty preflight; it fails with an internal
  error that names the identity, kitsune2 or the session store, and when it fails for its identity,
  the network has not been touched. Once started, it asks for authentication exactly when the
  admin's secret was set, and then with that secret.\<close>

theorem start_outcomes:
  assumes "preflight_ok (su_preflight su)"
  shows "case linker_main p vars su address port secret (f, w) of
     ((f', w'), MainConfigError e) \<Rightarrow> f' = f \<and> w' = w \<and> from_env p vars = Inl e
   | ((f', w'), MainStart StartPanicked) \<Rightarrow> False
   | ((f', w'), MainStart (StartFailed e)) \<Rightarrow> (\<exists>msg. e = Internal msg \<and>
       starts_with_one_of [''Failed to load linker identity: '', ''Failed to create Kitsune2 instance: '',
         ''Failed to open session store: ''] msg \<and> (starts_with ''Failed to load linker identity: '' msg \<longrightarrow> w' = w))
   | ((f', w'), MainStart (Started sv)) \<Rightarrow> st_admin_secret (lv_state sv) = vars ''H2HC_LINKER_ADMIN_SECRET'' \<and>
       (st_auth_store (lv_state sv) = None \<longleftrightarrow> vars ''H2HC_LINKER_ADMIN_SECRET'' = None)"
proof (cases "from_env p vars")
  case (Inl e)
  then show ?thesis by (simp add: linker_main_def)
next
  case (Inr config)
  note secret = loaded_admin_secret [OF Inr]
  obtain f1 r where id: "identity_load (su_keys su) (su_files su) (cf_identity config) secret f = (f1, r)" by fastforce
  show ?thesis
  proof (cases r)
    case (Inl e)
    with Inr id show ?thesis by (simp add: linker_main_def linker_new_def starts_with_one_of_def starts_with_def)
  next
    case key: (Inr key)
    obtain w1 k where k: "start_kitsune su config key w = (w1, Some k)"
      using start_kitsune_total [OF assms, of config key w] by (metis option.exhaust_sel prod.collapse)
    obtain f2 a where a: "open_auth_store su config f1 = (f2, a)" by fastforce
    have "a = Inl e \<Longrightarrow> \<exists>e'. e = ''Failed to open session store: '' @ e'" for e
      using a by (auto simp: open_auth_store_def open_session_store_def split: if_splits
        prod.splits sum.splits session_store_config.splits)
    then show ?thesis
      using Inr id key k a secret open_auth_store_presence [of su config f1 f2]
      by (cases k; cases a) (auto simp: linker_main_def linker_new_def kitsune_enabled_def starts_with_one_of_def
        starts_with_def first_state_def)
  qed
qed

section \<open>A linker that runs\<close>

lemma opened_store_ok:
  assumes "open_auth_store su config f = (f', Inr auth)" and "\<And>path f f' s. su_open_sqlite su path f = (f', Inr s) \<Longrightarrow> sq_invar s"
  shows "store_ok (cf_admin_secret config \<noteq> None) auth"
proof (cases "cf_admin_secret config")
  case None
  with assms(1) show ?thesis by (simp add: open_auth_store_def auth_enabled_def store_ok_def)
next
  case (Some secret)
  then obtain b where b: "open_session_store su (cf_session_store config) f = (f', Inr b)" "auth = Some (auth_with_store b)"
    using assms(1) by (auto simp: open_auth_store_def auth_enabled_def split: prod.splits sum.splits)
  have "mem_shape mem_new" by (simp add: mem_shape_def mem_wf_def mem_new_def)
  then have "be_shape b"
    using b(1) assms(2)
    by (cases "cf_session_store config") (auto simp: open_session_store_def be_shape_def split: prod.splits sum.splits)
  with Some b(2) show ?thesis by (simp add: store_ok_def auth_shape_def auth_with_store_def)
qed

lemma first_state_ok:
  assumes "store_ok auth store"
  shows "service_ok env auth (service_new (first_state su config w store))"
  using assms by (simp add: service_ok_def service_new_def first_state_def linker_of_def linker_ok_def ap_new_def
    queues_bounded_def gk_new_shape)

text \<open>C5. A linker that started stays whole, whatever requests, messages, network events and clean-ups it
  meets, in any order, and however the critical sections of the handlers interleave: its configuration and
  secret stay as loaded; the auth store is there exactly when a secret was configured, and each allowed
  agent is kept under its own key; the gateway is there, with every space under its own DNA and every proxy
  agent under its own key; the op store is there, each op under its own id; the conductor's connection is
  there exactly when one was configured; no queue to a browser outgrows its channel; and no connection's
  task has panicked. That a session belongs to an allowed agent and that a joined agent has its space is not
  claimed: handlers that interleave can break both.\<close>

theorem started_linker_stays_whole:
  assumes "linker_new su address port config secret (f, w) = ((f', w'), Started lv)"
    and "\<And>path f f' s. su_open_sqlite su path f = (f', Inr s) \<Longrightarrow> sq_invar s"
  shows "case section_run env (lv_state lv) evs of sv \<Rightarrow>
    ls_configuration (sv_state sv) = config \<and> st_admin_secret (sv_state sv) = cf_admin_secret config \<and>
    (st_auth_store (sv_state sv) = None \<longleftrightarrow> cf_admin_secret config = None) \<and>
    pred_option auth_shape (st_auth_store (sv_state sv)) \<and>
    (\<exists>g. ls_gateway (sv_state sv) = Some g \<and> gk_shape (we_k2 (se_ws env)) g) \<and>
    (\<exists>ops. ls_op_store (sv_state sv) = Some ops \<and> ops_ok (se_ops env) ops) \<and>
    (ls_app_conn (sv_state sv) = None \<longleftrightarrow> cf_conductor_url config = None) \<and>
    queues_bounded (ls_agent_proxy (sv_state sv)) \<and>
    (\<forall>wsender. pred_option (\<lambda>sk. sk_phase sk \<noteq> SkCrashed) (hm_get (sv_sockets sv) wsender))"
proof -
  obtain f1 auth where a: "open_auth_store su config f1 = (f', Inr auth)" and
    st: "lv_state lv = first_state su config w' auth"
    using assms(1) by (rule linker_new_Started) simp
  let ?st = "first_state su config w' auth"
  let ?sv = "section_run env ?st evs"
  let ?auth = "cf_admin_secret config \<noteq> None"
  have ok: "service_ok env ?auth (service_new ?st)"
    by (rule first_state_ok [OF opened_store_ok [OF a assms(2)]])
  have k: "service_ok env ?auth ?sv" "keeps env UNIV ?st (sv_state ?sv)"
    using section_run_keeps [OF ok, of ?st evs] by (simp_all add: step_keeps_def section_run_def service_new_def)
  have "ls_configuration (sv_state ?sv) = config" "st_admin_secret (sv_state ?sv) = cf_admin_secret config"
    "ls_app_conn (sv_state ?sv) = None \<longleftrightarrow> cf_conductor_url config = None"
    "\<exists>ops. ls_op_store (sv_state ?sv) = Some ops \<and> ops_ok (se_ops env) ops"
    using k(2) op_run_ok [OF ops_ok_new] by (auto simp: keeps_def first_state_def)
  moreover have auth: "store_ok ?auth (st_auth_store (sv_state ?sv))" and
    "gateway_ok (we_k2 (se_ws env)) (ls_gateway (sv_state ?sv))" "queues_bounded (ls_agent_proxy (sv_state ?sv))"
    using k(1) by (simp_all add: service_ok_def linker_ok_def linker_of_def)
  moreover have "st_auth_store (sv_state ?sv) = None \<longleftrightarrow> cf_admin_secret config = None"
    "pred_option auth_shape (st_auth_store (sv_state ?sv))"
    using auth unfolding store_ok_def by blast+
  moreover have "pred_option (\<lambda>sk. sk_phase sk \<noteq> SkCrashed) (hm_get (sv_sockets ?sv) v)" for v
    using k(1) by (cases "hm_get (sv_sockets ?sv) v") (auto simp: service_ok_def socket_ok_def)
  ultimately show ?thesis by (simp add: st gateway_ok_def)
qed

section \<open>The end\<close>

text \<open>The registration loop of a run, and what it has come to.\<close>

definition loop_settled :: "reg_loop \<Rightarrow> bool" where
  "loop_settled l \<longleftrightarrow> (rl_phase l = RegStopped \<longrightarrow> rg_is_registered (rl_client l) \<longrightarrow> (\<exists>log r. rl_log l = log @ [Deregister r]))"

lemma reg_step_settled: "loop_settled l \<Longrightarrow> loop_settled (reg_step i ev l)"
  by (cases "rl_phase l"; cases ev)
    (auto simp: loop_settled_def reg_step_def handle_shutdown_def split: prod.split option.split)

definition run_inv :: "run_event list \<Rightarrow> run_state \<Rightarrow> bool" where
  "run_inv evs s \<longleftrightarrow> (rn_shutdown s \<longrightarrow> RunShutdown \<in> set evs) \<and> pred_option loop_settled (rn_registration s) \<and>
     (rn_phase s = RunWaiting \<longrightarrow> rn_shutdown s) \<and>
     (rn_phase s = RunDone (Inr ()) \<longrightarrow> rn_shutdown s \<and> (RunTimeout \<in> set evs \<or> RunTaskPanicked \<in> set evs \<or> task_ended s)) \<and>
     (\<forall>l. rn_registration s = Some l \<longrightarrow> rl_phase l = RegStopped \<longrightarrow> rn_shutdown s)"

lemma reg_step_stops: "rl_phase (reg_step i ev l) = RegStopped \<Longrightarrow> rl_phase l \<noteq> RegStopped \<Longrightarrow> is_reg_shutdown ev"
  by (cases "rl_phase l"; cases ev) (auto simp: reg_step_def is_reg_shutdown_def split: prod.splits)

lemma run_step_inv:
  assumes "run_inv evs s"
  shows "run_inv (evs @ [ev]) (run_step i ev s)"
proof (cases "\<exists>r. rn_phase s = RunDone r")
  case True
  with assms show ?thesis by (auto simp: run_inv_def run_step_def)
next
  case False
  then show ?thesis
  proof (cases ev)
    case (RunRegistration e)
    with False have step: "run_step i ev s = (if is_reg_shutdown e \<and> \<not> rn_shutdown s then s
        else s\<lparr>rn_registration := map_option (reg_step i e) (rn_registration s)\<rparr>)"
      by (cases "rn_phase s") (auto simp: run_step_def)
    have "rn_shutdown s" if "rn_registration s = Some l" "rl_phase (reg_step i e l) = RegStopped"
      "\<not> (is_reg_shutdown e \<and> \<not> rn_shutdown s)" for l
      using that reg_step_stops [of i e l] assms unfolding run_inv_def by blast
    with assms False show ?thesis unfolding step
      by (auto simp: run_inv_def reg_step_settled option.pred_map comp_def elim: option.pred_mono_strong)
  qed (use assms False in \<open>cases "rn_phase s"; auto simp: run_inv_def run_step_def task_ended_def split: sum.splits option.splits\<close>)+
qed

lemma run_all_inv: "run_inv evs (run_all i evs (run_begin config))"
proof (induction evs rule: rev_induct)
  case Nil
  show ?case by (cases "cf_registration config") (auto simp: run_inv_def run_all_def run_begin_def reg_loop_new_def
    loop_settled_def)
next
  case (snoc ev evs)
  from run_step_inv [OF this] show ?case by (simp add: run_all_def)
qed

text \<open>C14. A clean exit deregisters. When the process ends without an error it was told to shut down; and
  unless the wait for the registration task ran into its five seconds or the task panicked, that task has
  stopped, and if the joining service had answered the last heartbeat well, the last thing it was sent
  is the deregistration.\<close>

theorem clean_exit_deregisters:
  assumes "rn_phase (run_all i evs (run_begin config)) = RunDone (Inr ())"
  shows "RunShutdown \<in> set evs \<and>
    (RunTimeout \<in> set evs \<or> RunTaskPanicked \<in> set evs \<or>
      (case rn_registration (run_all i evs (run_begin config)) of
         None \<Rightarrow> cf_registration config = None
       | Some l \<Rightarrow> rl_phase l = RegStopped \<and>
          (rg_is_registered (rl_client l) \<longrightarrow> (\<exists>log r. rl_log l = log @ [Deregister r]))))"
proof -
  have presence: "(rn_registration (run_all i es (run_begin config)) = None) = (cf_registration config = None)" for es
  proof (induction es rule: rev_induct)
    case (snoc e es)
    have "(rn_registration (run_step i e s) = None) = (rn_registration s = None)" for s
      by (auto simp: run_step_def split: run_phase.splits run_event.splits sum.splits)
    with snoc show ?case by (simp add: run_all_def)
  qed (simp add: run_all_def run_begin_def)
  show ?thesis
    using run_all_inv [of evs i config] assms presence [of evs]
    by (auto simp: run_inv_def task_ended_def loop_settled_def split: option.splits)
qed

text \<open>A joining service that takes every heartbeat.\<close>

definition taken :: http_response where
  "taken = \<lparr>hp_status = 200, hp_status_text = ''OK'', hp_text = [],
     hp_json = Inr \<lparr>hb_registered = True, hb_ttl_seconds = 300, hb_interval_seconds = None\<rparr>\<rparr>"

definition plain_identity :: linker_identity where
  "plain_identity = \<lparr>li_pubkey_base64 = ''key'', li_sign = (\<lambda>_. []), li_base64 = (\<lambda>_. [])\<rparr>"

definition registering :: "nat configuration" where
  "registering = default_configuration\<lparr>cf_registration := Some \<lparr>rc_joining_service_url = ''https://j'', rc_invite_token = None,
     rc_public_url = ''wss://me:1'', rc_initial_heartbeat_interval_secs = 200\<rparr>\<rparr>"

lemma registering_begin: "run_begin registering = \<lparr>rn_phase = RunStarting, rn_shutdown = False,
    rn_registration = Some (reg_loop_new (registration_new \<lparr>rc_joining_service_url = ''https://j'', rc_invite_token = None,
      rc_public_url = ''wss://me:1'', rc_initial_heartbeat_interval_secs = 200\<rparr> []))\<rparr>"
  by (simp add: run_begin_def registering_def default_configuration_def)

lemmas run_eval = run_all_def run_step_def registering_begin reg_step_def send_heartbeat_def heartbeat_result_def
  taken_def is_success_def is_reg_shutdown_def handle_shutdown_def reg_loop_new_def registration_new_def task_ended_def

theorem clean_exit_deregisters_witness:
  "\<exists>l log r. rn_registration (run_all plain_identity
      [RunRegistration (RegReply ''t'' (Inr taken)), RunBound (Inr ()), RunShutdown,
       RunRegistration (RegShutdown None ''u'' (Inr taken)), RunServed (Inr ()), RunTaskEnded] (run_begin registering)) =
     Some l \<and> rl_phase l = RegStopped \<and> rl_log l = log @ [Deregister r]"
proof -
  let ?evs = "[RunRegistration (RegReply ''t'' (Inr taken)), RunBound (Inr ()), RunShutdown,
       RunRegistration (RegShutdown None ''u'' (Inr taken)), RunServed (Inr ()), RunTaskEnded]"
  let ?s = "run_all plain_identity ?evs (run_begin registering)"
  have ended: "rn_phase ?s = RunDone (Inr ())"
    and registered: "\<exists>l. rn_registration ?s = Some l \<and> rg_is_registered (rl_client l)"
    by (simp_all add: run_eval)
  from clean_exit_deregisters [OF ended] registered show ?thesis by auto
qed

text \<open>A failed bind is no clean exit: the registration loop is started before the listener is bound, so
  when the address cannot be bound after a heartbeat has succeeded, the process ends registered, with no
  deregistration sent.\<close>

lemma bind_failure_stays_registered:
  assumes "cf_registration config = Some cfg"
  shows "\<exists>l request. run_all i [RunRegistration (RegReply t (Inr taken)), RunBound (Inl e)] (run_begin config) =
    \<lparr>rn_phase = RunDone (Inl (Network e)), rn_shutdown = False, rn_registration = Some l\<rparr> \<and>
    rg_is_registered (rl_client l) \<and> rl_log l = [Heartbeat request True]"
  using assms by (auto simp: run_begin_def run_eval)

section \<open>A start that succeeds\<close>

definition plain_k2_setup :: "(seed, unit, kitsune_proxy) k2_setup" where
  "plain_k2_setup = \<lparr>ks_default_config = (\<lambda>_. None), ks_set_module = (\<lambda>_ _. None), ks_build = (\<lambda>_ w. (w, Inr ())),
     ks_register_handler = (\<lambda>_ w. (w, Inr ()))\<rparr>"

definition plain_setup :: "(seed, string \<Rightarrow> byte list option, unit, nat) setup_env" where
  "plain_setup = \<lparr>su_keys = plain_keys, su_files = map_fs, su_preflight = plain_preflight, su_k2 = plain_k2_setup,
     su_open_sqlite = (\<lambda>_ f. (f, Inl ''disk'')), su_conductor = 0,
     su_view = \<lparr>kv_list_spaces = [], kv_space_exists = (\<lambda>_. False), kv_peers = (\<lambda>_. Inr []),
       kv_local_agents = (\<lambda>_. Inr []), kv_transport = Inr (), kv_network_stats = Inl ''none''\<rparr>\<rparr>"

definition guarded :: "nat configuration" where
  "guarded = default_configuration\<lparr>cf_bootstrap_url := ''http://b'', cf_admin_secret := Some ''s''\<rparr>"

lemma plain_cache: "\<exists>c. cache_new plain_preflight = Some c"
  using cache_new_ok [OF plain_preflight_ok] by metis

lemma plain_builds: "\<exists>b. proxy_build plain_k2_setup pb w = (w, Inr b)"
proof -
  have "with_default_config plain_k2_setup b = Inr b" for b
    by (simp add: with_default_config_def plain_k2_setup_def)
  moreover have "\<exists>c. set_module_config plain_k2_setup m b = Inr c" for m b
    by (simp add: set_module_config_def plain_k2_setup_def)
  moreover have "\<exists>c. set_if_some plain_k2_setup m b = Inr c" for m b
    by (simp add: set_if_some_def calculation(2) split: option.split)
  ultimately have "\<exists>b. configure_modules plain_k2_setup pb c = Inr b" for c
    unfolding configure_modules_def bind_result_Inr by metis
  then obtain b where "configure_modules plain_k2_setup pb (set_factories pb default_builder) = Inr b" by blast
  then show ?thesis by (simp add: proxy_build_def build_and_register_def plain_k2_setup_def)
qed

lemma plain_starts:
  assumes "cf_identity config = default_identity" and "cf_session_store config = StoreMemory"
  shows "\<exists>f' lv. linker_new plain_setup () 8090 config (replicate 32 7) (Map.empty, ()) = ((f', ()), Started lv)"
proof -
  obtain c where c: "cache_new plain_preflight = Some c" using plain_cache by blast
  have k2: "su_k2 plain_setup = plain_k2_setup" "su_preflight plain_setup = plain_preflight" by (simp_all add: plain_setup_def)
  have "\<exists>wires. start_kitsune plain_setup config key () = ((), Some (Inr wires))" for key
  proof -
    let ?proxy = "\<lparr>kp_agent_proxy = Shared 0, kp_pending_dht_responses = Shared 1, kp_preflight_cache = Shared 3\<rparr>"
    obtain b where "proxy_build plain_k2_setup (linker_builder config key ?proxy (TempOpStoreFactory (Shared 2))) () = ((), Inr b)"
      using plain_builds by blast
    with c show ?thesis by (simp add: start_kitsune_def new_shared_def op_store_factory_create_def
      with_pending_responses_def k2 numeral_eq_Suc)
  qed
  then obtain wires where k: "start_kitsune plain_setup config (replicate 32 7) () = ((), Some (Inr wires))" by blast
  have "identity_load plain_keys map_fs default_identity (replicate 32 7) Map.empty =
      ([id_key_file default_identity \<mapsto> replicate 32 7], Inr (replicate 32 7))"
    by (simp add: identity_load_def default_identity_def write_to_file_def ensure_parent_def map_fs_def plain_keys_def Let_def)
  then show ?thesis using k assms
    by (cases "cf_admin_secret config") (simp_all add: linker_new_def plain_setup_def kitsune_enabled_def
      open_auth_store_def auth_enabled_def open_session_store_def)
qed

lemma guarded_starts:
  "\<exists>f' lv. linker_new plain_setup () 8090 guarded (replicate 32 7) (Map.empty, ()) = ((f', ()), Started lv)"
  by (rule plain_starts) (simp_all add: guarded_def default_configuration_def)

theorem started_linker_is_wired_witness:
  "\<exists>f' lv. linker_new plain_setup () 8090 guarded (replicate 32 7) (Map.empty, ()) = ((f', ()), Started lv) \<and>
     create_space (wr_proxy (lv_wiring lv)) (SpaceId [1]) = Inr \<lparr>ph_space_id = SpaceId [1],
       ph_agent_proxy = wr_state_agent_proxy (lv_wiring lv), ph_pending_dht_responses = wr_query_pending (lv_wiring lv)\<rparr>"
proof -
  obtain f' lv where s: "linker_new plain_setup () 8090 guarded (replicate 32 7) (Map.empty, ()) = ((f', ()), Started lv)"
    using guarded_starts by blast
  from started_linker_is_wired [OF this] s show ?thesis by blast
qed

theorem start_outcomes_witness:
  "\<exists>f' lv. linker_main plain_parsers sample_env plain_setup () 8090 (replicate 32 7) (Map.empty, ()) =
     ((f', ()), MainStart (Started lv)) \<and> st_admin_secret (lv_state lv) = Some ''s''"
proof -
  have p: "preflight_ok (su_preflight plain_setup)" by (simp add: plain_setup_def plain_preflight_ok)
  have secret: "sample_env ''H2HC_LINKER_ADMIN_SECRET'' = Some ''s''" by (simp add: sample_env_def)
  obtain config where c: "from_env plain_parsers sample_env = Inr config"
    "cf_identity config = default_identity" "cf_session_store config = StoreMemory"
    using sample_env_loads by (simp add: default_configuration_def)
  obtain f' lv where "linker_main plain_parsers sample_env plain_setup () 8090 (replicate 32 7) (Map.empty, ()) =
     ((f', ()), MainStart (Started lv))"
    using plain_starts [OF c(2,3)] c(1) by (auto simp: linker_main_def)
  with start_outcomes [OF p, where p = plain_parsers and vars = sample_env and address = "()" and port = 8090
      and secret = "replicate 32 7" and f = Map.empty and w = "()"] secret
  show ?thesis by simp
qed

theorem started_linker_stays_whole_witness:
  "\<exists>f' lv. linker_new plain_setup () 8090 guarded (replicate 32 7) (Map.empty, ()) = ((f', ()), Started lv) \<and>
     (\<forall>(env :: (unit, nat, unit) service_env) evs. ls_op_store (sv_state (section_run env (lv_state lv) evs)) \<noteq> None \<and>
        st_auth_store (sv_state (section_run env (lv_state lv) evs)) \<noteq> None)"
proof -
  obtain f' lv where s: "linker_new plain_setup () 8090 guarded (replicate 32 7) (Map.empty, ()) = ((f', ()), Started lv)"
    using guarded_starts by blast
  have o: "sq_invar q" if "su_open_sqlite plain_setup path f = (f2, Inr q)" for path f f2 q
    using that by (simp add: plain_setup_def)
  have "cf_admin_secret guarded = Some ''s''" by (simp add: guarded_def)
  with started_linker_stays_whole [OF s o] s show ?thesis by fastforce
qed

end
