(* ===== verification/Published_Ops.thy ===== *)
theory Published_Ops imports Linker_Properties Service_Properties begin

text \<open>
  From a publish request to a fetch, over the whole linker: the route, the gate, the endpoint, the op store
  and every later event.
\<close>

section \<open>A request that is answered well\<close>

lemma refusals: "UNAUTHORIZED \<noteq> 200" "FORBIDDEN \<noteq> 200" "BAD_REQUEST \<noteq> 200" "INTERNAL_SERVER_ERROR \<noteq> 200" "NOT_FOUND \<noteq> 200"
  by simp_all

lemma check_passed:
  assumes "rs_status (snd (check_capability c next rq st)) = 200"
  shows "\<exists>ctx store. check_capability c next rq st = next (rq\<lparr>rq_context := ctx\<rparr>) (st\<lparr>st_auth_store := store\<rparr>)"
proof (cases "st_auth_store st")
  case None
  with assms refusals show ?thesis by (simp add: check_capability_def)
next
  case (Some store)
  show ?thesis
  proof (cases "extract_bearer_token rq")
    case token: (Some token)
    obtain store' v where v: "auth_validate_session token store = (store', v)" by fastforce
    with Some token assms refusals show ?thesis
      by (cases v) (auto simp: check_capability_def split: if_splits)
  qed (use assms refusals Some in \<open>simp add: check_capability_def\<close>)
qed

lemma scope_passed:
  "rs_status (snd (require_dna_scope h next rq st)) = 200 \<Longrightarrow> require_dna_scope h next rq st = next rq st"
  using refusals by (auto simp: require_dna_scope_def split: option.splits sum.splits if_splits)

lemma publish_passed:
  assumes "rs_status (snd (guard h RDhtPublish handler rq st)) = 200"
  shows "\<exists>ctx store. guard h RDhtPublish handler rq st = handler (rq\<lparr>rq_context := ctx\<rparr>) (st\<lparr>st_auth_store := store\<rparr>)"
proof -
  have g: "guard h RDhtPublish handler rq st = check_capability DhtWrite (require_dna_scope h handler) rq st"
    by (simp add: guard_def gate_of_def require_dht_write_def)
  obtain ctx store where p: "check_capability DhtWrite (require_dna_scope h handler) rq st =
      require_dna_scope h handler (rq\<lparr>rq_context := ctx\<rparr>) (st\<lparr>st_auth_store := store\<rparr>)"
    using check_passed assms unfolding g by blast
  with assms scope_passed show ?thesis unfolding g by metis
qed

lemma serve_publish:
  assumes "route_of (st_auth_store st0 \<noteq> None) rq = Some (RDhtPublish, params)"
    and "\<And>ctx. ex_publish_body (se_extract env) (rq\<lparr>rq_params := params, rq_context := ctx\<rparr>) = Inr ops"
    and "rs_status (snd (serve env st0 inp rq st)) = 200"
  shows "\<exists>ctx store. serve env st0 inp rq st =
    publish_endpoint env inp (rq\<lparr>rq_params := params, rq_context := ctx\<rparr>) ops (st\<lparr>st_auth_store := store\<rparr>)"
proof (cases "st_auth_store st0")
  case None
  with assms(1) have "serve env st0 inp rq st = handle_route env inp RDhtPublish (rq\<lparr>rq_params := params\<rparr>) st"
    by (simp add: serve_def create_router_def open_router_def dispatch_route_of)
  moreover have "rq\<lparr>rq_params := params\<rparr> = rq\<lparr>rq_params := params, rq_context := rq_context rq\<rparr>"
    "st = st\<lparr>st_auth_store := st_auth_store st\<rparr>" by simp_all
  ultimately show ?thesis using assms(2) [of "rq_context rq"] by (metis extracted_def handle_route.simps(11) old.sum.simps(6))
next
  case (Some store)
  with assms(1) have run: "serve env st0 inp rq st =
      guard (we_hash (se_ws env)) RDhtPublish (handle_route env inp RDhtPublish) (rq\<lparr>rq_params := params\<rparr>) st"
    by (simp add: serve_def create_router_def authenticated_router_def dispatch_route_of)
  obtain ctx s where "serve env st0 inp rq st = handle_route env inp RDhtPublish
      (rq\<lparr>rq_params := params, rq_context := ctx\<rparr>) (st\<lparr>st_auth_store := s\<rparr>)"
    using publish_passed assms(3) unfolding run by fastforce
  with assms(2) [of ctx] show ?thesis by (simp add: extracted_def) blast
qed

definition read_success :: "json \<Rightarrow> bool" where
  "read_success j = (case j of JObject ((_, JBool b) # _) \<Rightarrow> b | _ \<Rightarrow> False)"

lemma read_success_result: "read_success (op_result_json r) = pr_success r"
  by (simp add: read_success_def op_result_json_def)

definition read_results :: "response \<Rightarrow> json list" where
  "read_results r = (case rs_body r of JsonBody (JObject fs) \<Rightarrow> (case map_of fs ''results'' of Some (JArray rs) \<Rightarrow> rs | _ \<Rightarrow> [])
     | _ \<Rightarrow> [])"

lemma read_results_published: "read_results (json_ok (publish_response_json v)) = map op_result_json (pu_results v)"
  by (simp add: read_results_def json_ok_def publish_response_json_def)

lemma publish_json_success:
  assumes "json_ok (publish_response_json v) = json_ok (publish_response_json u)"
  shows "map pr_success (pu_results v) = map pr_success (pu_results u)"
  using arg_cong [OF assms, of "\<lambda>r. map read_success (read_results r)"]
  by (simp add: read_results_published read_success_result comp_def)

section \<open>From storing to keeping\<close>

lemma store_all_append: "store_all env (xs @ ys) st = store_all env ys (store_all env xs st)"
proof (induction env xs st rule: store_all.induct)
  case (2 env now sop ops store p)
  then show ?case by (auto split: prod.split sum.split)
qed simp

lemma process_accepted:
  assumes "accepts env sop = Some p"
  shows "\<exists>r. process_signed_op env t sop (Some ops) = (Some (hm_insert (po_op_id p) r ops), Inr p) \<and> so_stored_at r = t"
proof -
  obtain b l dop where c: "check_signed_op env sop = Inr (b, l)" "decode_op (pe_ops env) b = Inr dop"
    "p = \<lparr>po_op_id = op_id_of (pe_ops env) dop, po_basis_loc = l\<rparr>"
    using assms by (auto simp: accepts_def split: sum.splits)
  then show ?thesis
    by (cases rule: store_op_cases [of "pe_ops env" b t ops]) (auto simp: process_signed_op_def)
qed

lemma store_all_kept:
  assumes "accepts env sop = Some p" and "store_all env (pre @ (t, sop) # post) (Some ops, ph) = (store', ph')"
    and "\<And>e. e \<in> set post \<Longrightarrow> t \<le> fst e \<and> fst e < t + OP_TTL"
  shows "\<exists>ops'. store' = Some ops' \<and> kept_since t (po_op_id p) ops'"
proof -
  obtain store1 p1 where one: "store_all env pre (Some ops, ph) = (store1, p1)" by fastforce
  obtain ops1 where ops1: "store1 = Some ops1" using store_all_run [OF one] by auto
  obtain r where r: "process_signed_op env t sop (Some ops1) = (Some (hm_insert (po_op_id p) r ops1), Inr p)" "so_stored_at r = t"
    using process_accepted [OF assms(1)] by blast
  obtain p2 where two: "store_all env post (Some (hm_insert (po_op_id p) r ops1), p2) = (store', ph')"
    using assms(2) r(1) by (simp add: store_all_append one ops1)
  obtain es where es: "store' = Some (op_run (pe_ops env) es (hm_insert (po_op_id p) r ops1))"
      "\<forall>ev \<in> set es. op_event_time ev \<in> fst ` set post"
    using store_all_run [OF two] by auto
  have "kept_since t (po_op_id p) (hm_insert (po_op_id p) r ops1)"
    using r(2) by (auto simp: kept_since_def hm_insert_def)
  moreover have "\<forall>ev \<in> set es. t \<le> op_event_time ev \<and> op_event_time ev < t + OP_TTL"
    using es(2) assms(3) by fastforce
  ultimately show ?thesis using es(1) kept_run by blast
qed

text \<open>The ops of a request, each with the time at which it is stored.\<close>

definition timed_ops :: "inputs \<Rightarrow> signed_dht_op list \<Rightarrow> (nat \<times> signed_dht_op) list" where
  "timed_ops inp ops = zip (map (in_clock inp) [0..<length ops]) ops"

lemma timed_ops_split:
  assumes "k < length ops"
  shows "\<exists>pre post. timed_ops inp ops = pre @ (in_clock inp k, ops ! k) # post \<and>
    (\<forall>e \<in> set post. \<exists>j. k < j \<and> j < length ops \<and> fst e = in_clock inp j)"
proof (rule exI [of _ "take k (timed_ops inp ops)"], rule exI [of _ "drop (Suc k) (timed_ops inp ops)"],
    intro conjI ballI)
  have l: "k < length (timed_ops inp ops)" using assms by (simp add: timed_ops_def)
  show "timed_ops inp ops = take k (timed_ops inp ops) @ (in_clock inp k, ops ! k) # drop (Suc k) (timed_ops inp ops)"
    using id_take_nth_drop [OF l] assms by (simp add: timed_ops_def)
  fix e assume "e \<in> set (drop (Suc k) (timed_ops inp ops))"
  then obtain j where "j < length ops - Suc k" "e = timed_ops inp ops ! (Suc k + j)"
    by (auto simp: in_set_conv_nth timed_ops_def)
  then show "\<exists>j. k < j \<and> j < length ops \<and> fst e = in_clock inp j"
    by (intro exI [of _ "Suc k + j"]) (simp add: timed_ops_def)
qed

lemma publish_endpoint_kept:
  assumes "publish_endpoint env inp rq ops st = (st', resp)" and "ls_op_store st = Some s"
    and "resp = json_ok (publish_response_json v)" and "k < length ops" and "pr_success (pu_results v ! k)"
    and "\<And>j. k < j \<Longrightarrow> j < length ops \<Longrightarrow> in_clock inp k \<le> in_clock inp j \<and> in_clock inp j < in_clock inp k + OP_TTL"
  shows "\<exists>p s'. accepts (publish_env_of env) (ops ! k) = Some p \<and> ls_op_store st' = Some s' \<and>
    kept_since (in_clock inp k) (po_op_id p) s'"
proof -
  let ?env = "publish_env_of env"
  obtain store gw r where r: "dht_publish ?env (in_arrange inp) (path_param rq ''dna_hash'') (timed_ops inp ops)
      (Some s, ls_gateway st) = ((store, gw), r)" by (metis surj_pair)
  have st': "ls_op_store st' = store" and resp: "resp = result_into_response (\<lambda>v. json_ok (publish_response_json v)) r"
    using assms(1,2) r by (auto simp: publish_endpoint_def timed_ops_def)
  have ok: "error_into_response e \<noteq> json_ok j" for e j
    by (cases e) (simp_all add: error_into_response_def error_status_message_def json_ok_def)
  obtain u where u: "r = Inr u"
  proof (cases r)
    case (Inl e)
    with resp have "error_into_response e = json_ok (publish_response_json v)"
      unfolding assms(3) by (simp only: result_into_response_def sum.case)
    with ok show ?thesis by blast
  qed
  have same: "json_ok (publish_response_json v) = json_ok (publish_response_json u)"
    using resp unfolding assms(3) u by (simp only: result_into_response_def sum.case)
  obtain d where d: "dna_try_from (pe_hash ?env) (path_param rq ''dna_hash'') = Inr d"
    using r u by (cases "dna_try_from (pe_hash ?env) (path_param rq ''dna_hash'')") (auto simp: dht_publish_def)
  obtain p where p: "store_all ?env (timed_ops inp ops) (Some s, phase_one_new) = (store, p)" "pu_results u = ph_results p"
    using r u d by (cases "store_all ?env (timed_ops inp ops) (Some s, phase_one_new)")
      (auto simp: dht_publish_def split: prod.splits)
  have all: "map pr_success (ph_results p) = map (\<lambda>e. accepts ?env (snd e) \<noteq> None) (timed_ops inp ops)"
    using store_all_effect [OF p(1)] by (auto simp: phase_one_new_def)
  have len: "length (pu_results v) = length ops"
    using arg_cong [OF publish_json_success [OF same, unfolded p(2) all], of length] by (simp add: timed_ops_def)
  have "pr_success (pu_results v ! k) = (accepts ?env (ops ! k) \<noteq> None)"
    using arg_cong [OF publish_json_success [OF same, unfolded p(2) all], of "\<lambda>l. l ! k"] assms(4) len
    by (simp add: timed_ops_def)
  then obtain q where q: "accepts ?env (ops ! k) = Some q" using assms(5) by auto
  obtain pre post where split: "timed_ops inp ops = pre @ (in_clock inp k, ops ! k) # post"
    "\<forall>e \<in> set post. \<exists>j. k < j \<and> j < length ops \<and> fst e = in_clock inp j"
    using timed_ops_split [OF assms(4)] by blast
  have "\<exists>s'. store = Some s' \<and> kept_since (in_clock inp k) (po_op_id q) s'"
    by (rule store_all_kept [OF q p(1) [unfolded split(1)]]) (use split(2) assms(6) in metis)
  with q st' show ?thesis by blast
qed

lemma kept_get: "kept_since t i ops \<Longrightarrow> \<exists>r. hm_get ops i = Some r"
  using hm_get_None_iff [of ops i] by (cases "hm_get ops i") (force simp: kept_since_def)+

lemma retrieve_one:
  "hm_get ops i = Some r \<Longrightarrow> retrieve_ops [i] (create_op_store sp ops) = [\<lparr>mo_op_id = i, mo_op_data = so_op_data r\<rparr>]"
  by (simp add: retrieve_ops_eq create_op_store_def List.map_filter_def)

section \<open>Properties\<close>

text \<open>The three parts of an op's way: the store there is when the request comes, the op in it once it is
  answered, and the op still there later.\<close>

lemma run_op_store:
  assumes "service_ok env auth (service_new st)" and "ls_op_store st = Some op_store_new"
  shows "\<exists>s. ls_op_store (sv_state (service_run env st evs)) = Some s \<and> ops_ok (se_ops env) s"
proof -
  have "keeps env (\<Union>ev \<in> set evs. event_times ev) st (sv_state (service_run env st evs))"
    using service_run_keeps [OF assms(1), of evs st] by (simp add: step_keeps_def service_run_def service_new_def)
  with assms(2) obtain es where "ls_op_store (sv_state (service_run env st evs)) = Some (op_run (se_ops env) es op_store_new)"
    by (auto simp: keeps_def)
  then show ?thesis using op_run_ok [OF ops_ok_new] by blast
qed

lemma publish_request_kept:
  assumes "service_ok env auth sv" and "ls_op_store (sv_state sv) = Some s" and "ops_ok (se_ops env) s"
    and "route_of (st_auth_store st0 \<noteq> None) rq = Some (RDhtPublish, params)"
    and "\<And>ctx. ex_publish_body (se_extract env) (rq\<lparr>rq_params := params, rq_context := ctx\<rparr>) = Inr ops"
    and "snd (serve env st0 inp rq (sv_state sv)) = json_ok (publish_response_json v)"
    and "k < length ops" and "pr_success (pu_results v ! k)"
    and "\<And>j. k < j \<Longrightarrow> j < length ops \<Longrightarrow> in_clock inp k \<le> in_clock inp j \<and> in_clock inp j < in_clock inp k + OP_TTL"
  shows "\<exists>p s1. accepts (publish_env_of env) (ops ! k) = Some p \<and> service_ok env auth (service_request env st0 rq inp w now sv) \<and>
    ls_op_store (sv_state (service_request env st0 rq inp w now sv)) = Some s1 \<and> ops_ok (se_ops env) s1 \<and>
    kept_since (in_clock inp k) (po_op_id p) s1"
proof -
  obtain st1 resp where serve: "serve env st0 inp rq (sv_state sv) = (st1, resp)" by fastforce
  have resp: "resp = json_ok (publish_response_json v)" using assms(6) serve by simp
  have "rs_status (snd (serve env st0 inp rq (sv_state sv))) = 200" using resp serve by (simp add: json_ok_def)
  from serve_publish [OF assms(4,5) this] obtain ctx store where
    "publish_endpoint env inp (rq\<lparr>rq_params := params, rq_context := ctx\<rparr>) ops
      ((sv_state sv)\<lparr>st_auth_store := store\<rparr>) = (st1, resp)" using serve by metis
  from publish_endpoint_kept [OF this _ resp assms(7,8,9), of s] assms(2) obtain p s1 where
    p: "accepts (publish_env_of env) (ops ! k) = Some p" and s1: "ls_op_store st1 = Some s1"
      "kept_since (in_clock inp k) (po_op_id p) s1" by auto
  have "service_request env st0 rq inp w now sv = sv\<lparr>sv_state := st1\<rparr>"
    using serve resp by (simp add: service_request_def json_ok_def SWITCHING_PROTOCOLS_def)
  moreover have "service_ok env auth (service_request env st0 rq inp w now sv)"
    using service_step_keeps [OF assms(1), of "SvRequest rq inp w now" st0] by (simp add: step_keeps_def)
  moreover have "ops_ok (se_ops env) s1"
    using keepsD_ops [OF serve_keeps [of env inp "sv_state sv" st0 rq]] serve assms(2,3) s1(1) by simp
  ultimately show ?thesis using p s1 by simp
qed

lemma kept_op_is_served:
  assumes "service_ok env auth sv" and "ls_op_store (sv_state sv) = Some s" and "ops_ok (se_ops env) s" and "kept_since t i s"
    and "\<And>u. u \<in> (\<Union>ev \<in> set evs. event_times ev) \<Longrightarrow> t \<le> u \<and> u < t + OP_TTL"
  shows "\<exists>ops' data. ls_op_store (sv_state (fold (service_step env st0) evs sv)) = Some ops' \<and>
    retrieve_ops [i] (create_op_store sp ops') = [\<lparr>mo_op_id = i, mo_op_data = data\<rparr>] \<and>
    (\<exists>dop. decode_op (se_ops env) data = Inr dop \<and> op_id_of (se_ops env) dop = i)"
proof -
  have "keeps env (\<Union>ev \<in> set evs. event_times ev) (sv_state sv) (sv_state (fold (service_step env st0) evs sv))"
    using service_run_keeps [OF assms(1), of evs st0] by (simp add: step_keeps_def)
  then obtain es where es: "ls_op_store (sv_state (fold (service_step env st0) evs sv)) = Some (op_run (se_ops env) es s)"
      "\<forall>ev \<in> set es. op_event_time ev \<in> (\<Union>ev \<in> set evs. event_times ev)"
    using assms(2) by (auto simp: keeps_def)
  have "kept_since t i (op_run (se_ops env) es s)" by (rule kept_run [OF assms(4)]) (use es(2) assms(5) in blast)
  then obtain r where r: "hm_get (op_run (se_ops env) es s) i = Some r" using kept_get by blast
  have "record_ok (se_ops env) i r" by (rule ops_ok_get [OF op_run_ok [OF assms(3)] r])
  then show ?thesis using es(1) retrieve_one [OF r, of sp] unfolding record_ok_def by blast
qed

text \<open>C6. A published op is served. When the running linker answers a publish request with a 200 and reports an op
  as a success, kitsune2 can fetch that op from then on, for its whole time to live, whatever else the
  linker meets meanwhile: other requests, connections, network events and clean-ups, in any order. And
  what it fetches are bytes of that very op.\<close>

theorem published_op_is_served:
  assumes "linker_new su address port config secret (f, w0) = ((f', w'), Started lv)"
    and "\<And>path f f' s. su_open_sqlite su path f = (f', Inr s) \<Longrightarrow> sq_invar s"
    and "route_of (st_auth_store (lv_state lv) \<noteq> None) rq = Some (RDhtPublish, params)"
    and "\<And>ctx. ex_publish_body (se_extract env) (rq\<lparr>rq_params := params, rq_context := ctx\<rparr>) = Inr ops"
    and "snd (serve env (lv_state lv) inp rq (sv_state (service_run env (lv_state lv) before))) =
      json_ok (publish_response_json v)"
    and "k < length ops" and "pr_success (pu_results v ! k)"
    and "\<And>j. k < j \<Longrightarrow> j < length ops \<Longrightarrow> in_clock inp k \<le> in_clock inp j \<and> in_clock inp j < in_clock inp k + OP_TTL"
    and "\<And>t. t \<in> (\<Union>ev \<in> set later. event_times ev) \<Longrightarrow> in_clock inp k \<le> t \<and> t < in_clock inp k + OP_TTL"
  shows "\<exists>p ops' data. accepts (publish_env_of env) (ops ! k) = Some p \<and>
    ls_op_store (sv_state (service_run env (lv_state lv) (before @ SvRequest rq inp w now # later))) = Some ops' \<and>
    retrieve_ops [po_op_id p] (create_op_store sp ops') = [\<lparr>mo_op_id = po_op_id p, mo_op_data = data\<rparr>] \<and>
    (\<exists>dop. decode_op (se_ops env) data = Inr dop \<and> op_id_of (se_ops env) dop = po_op_id p)"
proof -
  obtain f1 auth where a: "open_auth_store su config f1 = (f', Inr auth)" and
    st: "lv_state lv = first_state su config w' auth"
    using assms(1) by (rule linker_new_Started) simp
  have ok: "service_ok env (cf_admin_secret config \<noteq> None) (service_new (lv_state lv))"
    unfolding st by (rule first_state_ok [OF opened_store_ok [OF a assms(2)]])
  have before: "service_ok env (cf_admin_secret config \<noteq> None) (service_run env (lv_state lv) before)"
    using service_run_keeps [OF ok, of before "lv_state lv"] by (simp add: step_keeps_def service_run_def service_new_def)
  have "ls_op_store (lv_state lv) = Some op_store_new" by (simp add: st first_state_def)
  with run_op_store [OF ok] obtain s where s: "ls_op_store (sv_state (service_run env (lv_state lv) before)) = Some s" "ops_ok (se_ops env) s"
    by blast
  obtain p s1 where p: "accepts (publish_env_of env) (ops ! k) = Some p" and
    s1: "service_ok env (cf_admin_secret config \<noteq> None) (service_request env (lv_state lv) rq inp w now (service_run env (lv_state lv) before))"
      "ls_op_store (sv_state (service_request env (lv_state lv) rq inp w now (service_run env (lv_state lv) before))) = Some s1"
      "ops_ok (se_ops env) s1" "kept_since (in_clock inp k) (po_op_id p) s1"
    using publish_request_kept [OF before s assms(3-8)] by blast
  from kept_op_is_served [OF s1 assms(9), of later "lv_state lv" sp] p show ?thesis
    by (simp add: service_run_def)
qed

subsection \<open>An op published to an open linker\<close>

definition open_door :: "nat configuration" where
  "open_door = default_configuration\<lparr>cf_bootstrap_url := ''http://b''\<rparr>"

definition publish_request :: "unit request" where
  "publish_request = \<lparr>rq_method = POST, rq_path = [''dht'', dna_to_string plain_holo_hash dna_a, ''publish''], rq_headers = [],
     rq_params = [], rq_context = None, rq_body = ()\<rparr>"

definition one_op_extract :: "unit extractors" where
  "one_op_extract = (let bad = (\<lambda>_. reply BAD_REQUEST EmptyBody) in
     \<lparr>ex_links_query = Inl \<circ> bad, ex_activity_query = Inl \<circ> bad, ex_must_get_body = Inl \<circ> bad,
      ex_publish_body = (\<lambda>_. Inr [op_text 7]), ex_payload = Inl \<circ> bad, ex_test_signal = Inl \<circ> bad,
      ex_add_agent = Inl \<circ> bad, ex_remove_agent = Inl \<circ> bad, ex_upgrade = (\<lambda>_. Inr ())\<rparr>)"

definition publishing_service :: "(unit, nat, unit) service_env" where
  "publishing_service = \<lparr>se_ws = plain_env, se_ops = plain_ops, se_zome = plain_zome, se_conductor = sample_conductor,
     se_extract = one_op_extract, se_json = plain_json, se_space_b64 = (\<lambda>s. Inr (bytes_of_text s)), se_version = ''0''\<rparr>"

lemma dht_publish_runs:
  assumes "dna_try_from (pe_hash env) dna = Inr d"
  shows "\<exists>st r. dht_publish env arrange dna ops (store, gw) = (st, Inr r) \<and>
    pu_results r = ph_results (snd (store_all env ops (store, phase_one_new)))"
  using assms by (auto simp: dht_publish_def split: prod.split)

lemma publish_route: "route_of b publish_request = Some (RDhtPublish, [(''dna_hash'', dna_to_string plain_holo_hash dna_a)])"
  by (cases b) (simp_all add: publish_request_def route_of_def service_eval dna_a_text)

lemma one_op_accepted: "accepts (publish_env_of publishing_service) (op_text 7) =
    Some \<lparr>po_op_id = [1, 7], po_basis_loc = linkable_loc (we_wire plain_env) (LinkableEntry (EntryHash [7]))\<rparr>"
  by (simp add: accepts_def check_signed_op_def read_base64_def publish_env_of_def publishing_service_def op_text_def
    plain_env_def plain_k2_def plain_ops_def op_id_of_def)

lemma one_op_stored:
  "pr_success (ph_results (snd (store_all (publish_env_of publishing_service) [(0, op_text 7)] (Some op_store_new, phase_one_new))) ! 0)"
proof -
  obtain r where "process_signed_op (publish_env_of publishing_service) 0 (op_text 7) (Some op_store_new) =
      (Some (hm_insert [1, 7] r op_store_new), Inr \<lparr>po_op_id = [1, 7],
        po_basis_loc = linkable_loc (we_wire plain_env) (LinkableEntry (EntryHash [7]))\<rparr>)"
    using process_accepted [OF one_op_accepted] by force
  then show ?thesis by (simp add: phase_one_new_def)
qed

theorem published_op_is_served_witness:
  "\<exists>f' lv ops' data. linker_new plain_setup () 8090 open_door (replicate 32 7) (Map.empty, ()) = ((f', ()), Started lv) \<and>
     ls_op_store (sv_state (service_run publishing_service (lv_state lv)
       [SvRequest publish_request silent_inputs conn_1 0, SvNetwork (), SvCleanup 5])) = Some ops' \<and>
     retrieve_ops [[1, 7]] (create_op_store (SpaceId []) ops') = [\<lparr>mo_op_id = [1, 7], mo_op_data = data\<rparr>]"
proof -
  have cfg: "cf_identity open_door = default_identity" "cf_session_store open_door = StoreMemory" "cf_admin_secret open_door = None"
    by (simp_all add: open_door_def default_configuration_def)
  obtain f' lv where s: "linker_new plain_setup () 8090 open_door (replicate 32 7) (Map.empty, ()) = ((f', ()), Started lv)"
    using plain_starts [OF cfg(1,2)] by blast
  have o: "sq_invar q" if "su_open_sqlite plain_setup path f = (f2, Inr q)" for path f f2 q
    using that by (simp add: plain_setup_def)
  obtain f1 auth where a: "open_auth_store plain_setup open_door f1 = (f', Inr auth)" and
    st: "lv_state lv = first_state plain_setup open_door () auth"
    using s by (rule linker_new_Started) simp
  have none: "auth = None" using open_auth_store_presence [OF a] cfg(3) by simp
  let ?params = "[(''dna_hash'', dna_to_string plain_holo_hash dna_a)]"
  have route: "route_of (st_auth_store (lv_state lv) \<noteq> None) publish_request = Some (RDhtPublish, ?params)"
    by (rule publish_route)
  have body: "ex_publish_body (se_extract publishing_service) rq = Inr [op_text 7]" for rq
    by (simp add: publishing_service_def one_op_extract_def Let_def)
  have "dna_try_from (pe_hash (publish_env_of publishing_service)) (dna_to_string plain_holo_hash dna_a) = Inr dna_a"
    by (simp add: publish_env_of_def publishing_service_def plain_env_def plain_holo_hash_ok)
  from dht_publish_runs [OF this, of "\<lambda>m. m" "[(0, op_text 7)]" "Some op_store_new" "Some (gk_new ())"]
  obtain st' r where r: "dht_publish (publish_env_of publishing_service) (\<lambda>m. m) (dna_to_string plain_holo_hash dna_a)
      [(0, op_text 7)] (Some op_store_new, Some (gk_new ())) = (st', Inr r)" "pr_success (pu_results r ! 0)"
    using one_op_stored by auto
  obtain store gw where st': "st' = (store, gw)" by (cases st')
  have "snd (serve publishing_service (lv_state lv) silent_inputs publish_request (lv_state lv)) = json_ok (publish_response_json r)"
    using publish_route [of False] r(1) body unfolding st st'
    by (simp add: serve_def create_router_def open_router_def dispatch_route_of first_state_def none extracted_def
      publish_endpoint_def path_param_def silent_inputs_def result_into_response_def)
  then have answer: "snd (serve publishing_service (lv_state lv) silent_inputs publish_request
      (sv_state (service_run publishing_service (lv_state lv) []))) = json_ok (publish_response_json r)"
    by (simp add: service_run_def service_new_def)
  have times: "in_clock silent_inputs 0 \<le> t \<and> t < in_clock silent_inputs 0 + OP_TTL"
    if "t \<in> (\<Union>ev \<in> set [SvNetwork (), SvCleanup 5]. event_times ev)" for t
    using that by (auto simp: event_times_def silent_inputs_def OP_TTL_def SECOND_def)
  have "\<exists>p ops' data. accepts (publish_env_of publishing_service) ([op_text 7] ! 0) = Some p \<and>
      ls_op_store (sv_state (service_run publishing_service (lv_state lv)
        ([] @ SvRequest publish_request silent_inputs conn_1 0 # [SvNetwork (), SvCleanup 5]))) = Some ops' \<and>
      retrieve_ops [po_op_id p] (create_op_store (SpaceId []) ops') = [\<lparr>mo_op_id = po_op_id p, mo_op_data = data\<rparr>] \<and>
      (\<exists>dop. decode_op (se_ops publishing_service) data = Inr dop \<and> op_id_of (se_ops publishing_service) dop = po_op_id p)"
    by (rule published_op_is_served [OF s o route body answer _ r(2) _ times]) simp_all
  with one_op_accepted s show ?thesis by auto
qed

end
