(* ===== verification/Op_Lifetime.thy ===== *)
theory Op_Lifetime imports Temp_Op_Store begin

text \<open>
  How long an op is held (\<open>start_cleanup_task\<close> in \<open>src/temp_op_store.rs\<close>): the cleanup task sleeps for the
  interval, removes what is over its time to live and sleeps again, counting from when it ran. The runtime
  may wake it late; how late at most is a parameter of what is shown.
\<close>

section \<open>The cleanup task\<close>

text \<open>The task is known by the time its sleep ends.\<close>

definition start_cleanup_task :: "nat \<Rightarrow> nat" where
  "start_cleanup_task now = now + CLEANUP_INTERVAL"

definition cleanup_turn :: "nat \<Rightarrow> nat \<times> op_store_inner \<Rightarrow> nat \<times> op_store_inner" where
  "cleanup_turn now st = (case st of (wake, ops) \<Rightarrow>
     if now < wake then st else (now + CLEANUP_INTERVAL, cleanup_expired now ops))"

section \<open>Timed runs\<close>

fun timed_step :: "op_api \<Rightarrow> op_event \<Rightarrow> nat \<times> op_store_inner \<Rightarrow> nat \<times> op_store_inner" where
  "timed_step oa (OpCleanup t) st = cleanup_turn t st"
| "timed_step oa ev (wake, ops) = (wake, op_step oa ev ops)"

text \<open>A run that starts at \<open>now\<close>: the clock does not go back, and nothing happens later than \<open>late\<close> after
  the task should have run, unless it has.\<close>

fun on_time :: "op_api \<Rightarrow> nat \<Rightarrow> nat \<Rightarrow> op_event list \<Rightarrow> nat \<times> op_store_inner \<Rightarrow> bool" where
  "on_time oa late now [] st \<longleftrightarrow> True"
| "on_time oa late now (ev # evs) st \<longleftrightarrow> now \<le> op_event_time ev \<and> op_event_time ev \<le> fst st + late \<and>
     on_time oa late (op_event_time ev) evs (timed_step oa ev st)"

definition timed_run :: "op_api \<Rightarrow> op_event list \<Rightarrow> nat \<times> op_store_inner \<Rightarrow> nat \<times> op_store_inner" where
  "timed_run oa evs st = fold (timed_step oa) evs st"

lemma timed_run_simps [simp]:
  "timed_run oa [] st = st" "timed_run oa (ev # evs) st = timed_run oa evs (timed_step oa ev st)"
  by (simp_all add: timed_run_def)

section \<open>Bounds\<close>

text \<open>The sleep is never longer than the interval, and every op in the store will be over its time to live,
  if at all, less than the interval before the sleep ends. Its bytes were stored by an event so far.\<close>

definition held_ok :: "op_api \<Rightarrow> op_event list \<Rightarrow> nat \<Rightarrow> nat \<times> op_store_inner \<Rightarrow> bool" where
  "held_ok oa past now st \<longleftrightarrow> fst st \<le> now + CLEANUP_INTERVAL \<and> (\<forall>(i, r) \<in> set (snd st).
     fst st < so_stored_at r + OP_TTL + CLEANUP_INTERVAL \<and>
     OpStored (so_stored_at r) (so_op_data r) \<in> set past \<and> record_ok oa i r)"

lemma held_step:
  assumes "held_ok oa past now st" and "now \<le> op_event_time ev"
  shows "held_ok oa (past @ [ev]) (op_event_time ev) (timed_step oa ev st)"
proof (cases ev)
  case (OpStored t b)
  obtain wake ops where st: "st = (wake, ops)" by (cases st)
  show ?thesis
  proof (cases rule: store_op_cases [of oa b t ops])
    case (bad e)
    with assms OpStored st show ?thesis by (auto simp: held_ok_def)
  next
    case (good dop r)
    have "t + CLEANUP_INTERVAL < t + OP_TTL + CLEANUP_INTERVAL" by (simp add: OP_TTL_def SECOND_def)
    with good assms OpStored st show ?thesis
      by (auto simp: held_ok_def hm_insert_def hm_remove_def dest: order.strict_trans1)
  qed
next
  case (OpCleanup t)
  with assms show ?thesis
    by (cases st) (auto simp: held_ok_def cleanup_turn_def cleanup_expired_def hm_retain_def)
next
  case (OpFetched t ids)
  with assms show ?thesis by (cases st) (auto simp: held_ok_def)
next
  case (OpIncoming t bs)
  with assms show ?thesis by (cases st) (auto simp: held_ok_def)
qed

lemma held_run:
  assumes "held_ok oa past now st" and "on_time oa late now evs st"
  shows "held_ok oa (past @ evs) (last (now # map op_event_time evs)) (timed_run oa evs st)"
  using assms
proof (induction evs arbitrary: past now st)
  case (Cons ev evs)
  then have "held_ok oa (past @ [ev]) (op_event_time ev) (timed_step oa ev st)" by (simp add: held_step)
  from Cons.IH [OF this] Cons.prems(2) show ?case by simp
qed simp

lemma on_time_end:
  assumes "now \<le> fst st + late" and "on_time oa late now evs st"
  shows "last (now # map op_event_time evs) \<le> fst (timed_run oa evs st) + late"
  using assms
proof (induction evs arbitrary: now st)
  case (Cons ev evs)
  have "op_event_time ev \<le> fst (timed_step oa ev st) + late"
    using Cons.prems(2) by (cases ev; cases st) (auto simp: cleanup_turn_def)
  from Cons.IH [OF this] Cons.prems(2) show ?case by simp
qed simp

section \<open>Properties\<close>

text \<open>C27. How long an op is held. At any time, whatever was published and fetched and however late within a bound
  the cleanup task was woken: what the op store serves is the bytes of an op that was stored under that id less
  than its time to live, one cleanup interval and that lateness ago: 70 seconds when it is never late.\<close>

theorem op_lifetime:
  assumes "on_time oa late start evs (start_cleanup_task start, op_store_new)"
    and "m \<in> set (retrieve_ops ids (create_op_store sp (snd (timed_run oa evs (start_cleanup_task start, op_store_new)))))"
  shows "\<exists>t b dop. OpStored t b \<in> set evs \<and> decode_op oa b = Inr dop \<and> mo_op_id m = op_id_of oa dop \<and> mo_op_data m = b \<and>
    last (start # map op_event_time evs) < t + 70 * SECOND + late"
proof -
  let ?st = "timed_run oa evs (start_cleanup_task start, op_store_new)"
  have "held_ok oa [] start (start_cleanup_task start, op_store_new)"
    by (simp add: held_ok_def start_cleanup_task_def op_store_new_def)
  from held_run [OF this assms(1)] have held: "held_ok oa evs (last (start # map op_event_time evs)) ?st" by simp
  from assms(2) obtain i r where r: "hm_get (snd ?st) i = Some r" and m: "m = \<lparr>mo_op_id = i, mo_op_data = so_op_data r\<rparr>"
    by (auto simp: retrieve_ops_eq create_op_store_def List.map_filter_def)
  from fst_mem_hm_get [OF r] held have wake: "fst ?st < so_stored_at r + OP_TTL + CLEANUP_INTERVAL"
    and past: "OpStored (so_stored_at r) (so_op_data r) \<in> set evs" and "record_ok oa i r"
    by (auto simp: held_ok_def)
  then obtain dop where "decode_op oa (so_op_data r) = Inr dop" "op_id_of oa dop = i" by (auto simp: record_ok_def)
  moreover have "last (start # map op_event_time evs) \<le> fst ?st + late"
    by (rule on_time_end [OF _ assms(1)]) (simp add: start_cleanup_task_def)
  with wake have "last (start # map op_event_time evs) < so_stored_at r + 70 * SECOND + late"
    by (simp add: OP_TTL_def CLEANUP_INTERVAL_def)
  ultimately show ?thesis using past m by (intro exI [of _ "so_stored_at r"] exI [of _ "so_op_data r"]) auto
qed

text \<open>An op stored after 5 seconds is still served after 65.\<close>

definition minute_events :: "op_event list" where
  "minute_events = [OpStored (5 * SECOND) [1, 7], OpCleanup (10 * SECOND), OpCleanup (20 * SECOND), OpCleanup (30 * SECOND),
     OpCleanup (40 * SECOND), OpCleanup (50 * SECOND), OpCleanup (60 * SECOND), OpFetched (64 * SECOND) [[1, 7]]]"

lemmas minute_eval = minute_events_def start_cleanup_task_def op_store_new_def cleanup_turn_def cleanup_expired_def
  hm_retain_def OP_TTL_def CLEANUP_INTERVAL_def SECOND_def store_op_def plain_ops_def op_id_of_def hm_insert_def hm_remove_def
  Let_def op_created_at_def

lemma minute_on_time: "on_time plain_ops SECOND 0 minute_events (start_cleanup_task 0, op_store_new)"
  by (simp add: minute_eval)

theorem op_lifetime_witness:
  "\<exists>t b. OpStored t b \<in> set minute_events \<and> b = [1, 7] \<and> 64 * SECOND < t + 71 * SECOND"
proof -
  have m: "\<lparr>mo_op_id = [1, 7], mo_op_data = [1, 7]\<rparr> \<in> set (retrieve_ops [[1, 7]] (create_op_store (SpaceId [])
      (snd (timed_run plain_ops minute_events (start_cleanup_task 0, op_store_new)))))"
    by (simp add: minute_eval retrieve_ops_def create_op_store_def hm_get_Cons)
  from op_lifetime [OF minute_on_time m] show ?thesis by (auto simp: minute_events_def SECOND_def)
qed

end
