(* ===== verification/Local_Agent.thy ===== *)
theory Local_Agent imports Gateway_Kitsune begin

text \<open>
  The \<open>LocalAgent\<close> side of a proxy agent (\<open>src/proxy_agent.rs\<close>): kitsune2 keeps the agent it was given at the
  join, registers a callback with it and sets its storage arcs. The gateway reads none of this, so these
  fields extend the record the gateway keeps. A callback acts on the world of kitsune2.
\<close>

section \<open>The agent kitsune2 holds\<close>

record 'w local_agent = proxy_agent +
  la_cb :: "('w \<Rightarrow> 'w) option"

definition local_agent_new :: "k2_api \<Rightarrow> agent_pubkey \<Rightarrow> 'w local_agent" where
  "local_agent_new k2 a = proxy_agent.extend (proxy_agent_new k2 a) \<lparr>la_cb = None\<rparr>"

definition register_cb :: "('w \<Rightarrow> 'w) \<Rightarrow> 'w local_agent \<Rightarrow> 'w local_agent" where
  "register_cb cb s = s\<lparr>la_cb := Some cb\<rparr>"

text \<open>The callback is called after the lock is released.\<close>

definition invoke_cb :: "'w local_agent \<Rightarrow> 'w \<Rightarrow> 'w" where
  "invoke_cb s w = (case la_cb s of None \<Rightarrow> w | Some cb \<Rightarrow> cb w)"

definition get_cur_storage_arc :: "'w local_agent \<Rightarrow> dht_arc" where
  "get_cur_storage_arc s = pa_cur_arc s"

definition set_cur_storage_arc :: "dht_arc \<Rightarrow> 'w local_agent \<Rightarrow> 'w local_agent" where
  "set_cur_storage_arc arc s = s\<lparr>pa_cur_arc := arc\<rparr>"

definition get_tgt_storage_arc :: "'w local_agent \<Rightarrow> dht_arc" where
  "get_tgt_storage_arc s = pa_tgt_arc s"

definition set_tgt_storage_arc_hint :: "dht_arc \<Rightarrow> 'w local_agent \<Rightarrow> 'w local_agent" where
  "set_tgt_storage_arc_hint arc s = s\<lparr>pa_tgt_arc := arc\<rparr>"

section \<open>What kitsune2 does with it\<close>

datatype 'w agent_call = RegisterCb "'w \<Rightarrow> 'w" | InvokeCb | SetCurArc dht_arc | SetTgtArc dht_arc

text \<open>What the last of some calls left in a field.\<close>

fun last_cb :: "('w \<Rightarrow> 'w) \<Rightarrow> 'w agent_call list \<Rightarrow> 'w \<Rightarrow> 'w" where
  "last_cb f [] = f"
| "last_cb f (c # cs) = last_cb (case c of RegisterCb g \<Rightarrow> g | _ \<Rightarrow> f) cs"

fun last_cur :: "dht_arc \<Rightarrow> 'w agent_call list \<Rightarrow> dht_arc" where
  "last_cur arc [] = arc"
| "last_cur arc (c # cs) = last_cur (case c of SetCurArc a \<Rightarrow> a | _ \<Rightarrow> arc) cs"

fun last_tgt :: "dht_arc \<Rightarrow> 'w agent_call list \<Rightarrow> dht_arc" where
  "last_tgt arc [] = arc"
| "last_tgt arc (c # cs) = last_tgt (case c of SetTgtArc a \<Rightarrow> a | _ \<Rightarrow> arc) cs"

text \<open>What kitsune2 relies on: an agent keeps its name, and its three fields are independent of each other.\<close>

locale agent_of_kitsune =
  fixes name :: "'s \<Rightarrow> agent_id"
    and register :: "('w \<Rightarrow> 'w) \<Rightarrow> 's \<Rightarrow> 's" and invoke :: "'s \<Rightarrow> 'w \<Rightarrow> 'w"
    and get_cur :: "'s \<Rightarrow> dht_arc" and set_cur :: "dht_arc \<Rightarrow> 's \<Rightarrow> 's"
    and get_tgt :: "'s \<Rightarrow> dht_arc" and set_tgt :: "dht_arc \<Rightarrow> 's \<Rightarrow> 's"
  assumes named [simp]: "name (register f s) = name s" "name (set_cur arc s) = name s" "name (set_tgt arc s) = name s"
    and called [simp]: "invoke (register f s) = f" "invoke (set_cur arc s) = invoke s" "invoke (set_tgt arc s) = invoke s"
    and cur [simp]: "get_cur (register f s) = get_cur s" "get_cur (set_cur arc s) = arc" "get_cur (set_tgt arc s) = get_cur s"
    and tgt [simp]: "get_tgt (register f s) = get_tgt s" "get_tgt (set_cur arc s) = get_tgt s" "get_tgt (set_tgt arc s) = arc"
begin

fun call :: "'w agent_call \<Rightarrow> 's \<times> 'w \<Rightarrow> 's \<times> 'w" where
  "call (RegisterCb f) (s, w) = (register f s, w)"
| "call InvokeCb (s, w) = (s, invoke s w)"
| "call (SetCurArc arc) (s, w) = (set_cur arc s, w)"
| "call (SetTgtArc arc) (s, w) = (set_tgt arc s, w)"

lemma calls:
  "name (fst (fold call cs (s, w))) = name s \<and> invoke (fst (fold call cs (s, w))) = last_cb (invoke s) cs \<and>
   get_cur (fst (fold call cs (s, w))) = last_cur (get_cur s) cs \<and> get_tgt (fst (fold call cs (s, w))) = last_tgt (get_tgt s) cs"
proof (induction cs arbitrary: s w)
  case (Cons c cs)
  then show ?case by (cases c) auto
qed simp

end

interpretation proxied: agent_of_kitsune pa_agent_id register_cb invoke_cb get_cur_storage_arc set_cur_storage_arc
    get_tgt_storage_arc set_tgt_storage_arc_hint
  by unfold_locales (auto simp: register_cb_def invoke_cb_def get_cur_storage_arc_def set_cur_storage_arc_def
    get_tgt_storage_arc_def set_tgt_storage_arc_hint_def)

text \<open>However kitsune2 used it, a proxy agent has the name of its key, calls the callback registered last, and has
  the arcs set last: empty ones until kitsune2 sets others, which nothing here prevents.\<close>

lemma proxy_agent_after:
  fixes cs :: "'w agent_call list" and w :: 'w and k2 :: k2_api and a :: agent_pubkey
  defines "s \<equiv> fst (fold proxied.call cs (local_agent_new k2 a, w))"
  shows "pa_agent_id s = AgentId (raw_32 k2 a)" and "invoke_cb s = last_cb (\<lambda>w. w) cs"
    and "get_cur_storage_arc s = last_cur ArcEmpty cs" and "get_tgt_storage_arc s = last_tgt ArcEmpty cs"
proof -
  have new: "pa_agent_id (local_agent_new k2 a) = AgentId (raw_32 k2 a)" "invoke_cb (local_agent_new k2 a) = (\<lambda>w :: 'w. w)"
    "get_cur_storage_arc (local_agent_new k2 a) = ArcEmpty" "get_tgt_storage_arc (local_agent_new k2 a) = ArcEmpty"
    by (auto simp: local_agent_new_def proxy_agent_new_def proxy_agent.defs invoke_cb_def get_cur_storage_arc_def
      get_tgt_storage_arc_def)
  from proxied.calls [of cs "local_agent_new k2 a" w]
  show "pa_agent_id s = AgentId (raw_32 k2 a)" "invoke_cb s = last_cb (\<lambda>w. w) cs"
    "get_cur_storage_arc s = last_cur ArcEmpty cs" "get_tgt_storage_arc s = last_tgt ArcEmpty cs"
    by (simp_all add: s_def new)
qed

end
