(* ===== verification/Runs.thy ===== *)
theory Runs imports Main begin

text \<open>
  Runs of a labelled step relation: the schedules of the concurrent parts. A property that every step
  keeps holds along a run, and runs of a relation whose steps go down in a well-founded order end.
\<close>

inductive runs :: "('l \<Rightarrow> 's \<Rightarrow> 's \<Rightarrow> bool) \<Rightarrow> 'l list \<Rightarrow> 's \<Rightarrow> 's \<Rightarrow> bool" for R where
  start: "runs R [] s s"
| step: "runs R ls s s' \<Longrightarrow> R l s' s'' \<Longrightarrow> runs R (ls @ [l]) s s''"

lemma runs_one: "R l s s' \<Longrightarrow> runs R [l] s s'"
  using runs.step [OF runs.start] by fastforce

lemma runs_trans:
  assumes "runs R ls s s'" and "runs R ks s' s''"
  shows "runs R (ls @ ks) s s''"
  using assms(2,1)
proof (induction rule: runs.induct)
  case (step ks s' s1 l s2)
  from runs.step [OF step.IH [OF step.prems] step.hyps(2)] show ?case by simp
qed simp

lemma runs_cons: "R l s s' \<Longrightarrow> runs R ls s' s'' \<Longrightarrow> runs R (l # ls) s s''"
  using runs_trans [OF runs_one] by fastforce

lemma runs_keep:
  assumes "runs R ls s s'" and "P s" and "\<And>l t t'. R l t t' \<Longrightarrow> P t \<Longrightarrow> P t'"
  shows "P s'"
  using assms(1,2) by (induction rule: runs.induct) (simp_all add: assms(3))

text \<open>A value that only goes down in a well-founded order comes to stand.\<close>

lemma comes_to_stand:
  fixes g :: "nat \<Rightarrow> 'a"
  assumes "wf r" and "\<And>n. g (Suc n) = g n \<or> (g (Suc n), g n) \<in> r"
  shows "\<exists>m. \<forall>n \<ge> m. g (Suc n) = g n"
proof -
  obtain x where x: "x \<in> range g" "\<And>y. (y, x) \<in> r \<Longrightarrow> y \<notin> range g"
    using wfE_min [OF assms(1), of "g 0" "range g"] by blast
  from x(1) obtain m where m: "g m = x" by blast
  have "g n = x" if "m \<le> n" for n
    using that
  proof (induction n rule: dec_induct)
    case (step n)
    with assms(2) [of n] x(2) show ?case by auto
  qed (rule m)
  then show ?thesis by (metis le_SucI)
qed

section \<open>Systems that come to an end\<close>

text \<open>The contract of a concurrent part: its steps keep what is well-formed, its own steps go down in a
  well-founded order, and while it has not finished it has an own step to take.\<close>

locale ending_system =
  fixes R :: "'l \<Rightarrow> 's \<Rightarrow> 's \<Rightarrow> bool"
    and ok :: "'s \<Rightarrow> bool"
    and own :: "'l \<Rightarrow> bool"
    and finished :: "'s \<Rightarrow> bool"
    and below :: "('s \<times> 's) set"
  assumes keeps: "R l s s' \<Longrightarrow> ok s \<Longrightarrow> ok s'"
    and wf_below: "wf below"
    and goes_down: "R l s s' \<Longrightarrow> own l \<Longrightarrow> (s', s) \<in> below"
    and goes_on: "ok s \<Longrightarrow> \<not> finished s \<Longrightarrow> \<exists>l s'. own l \<and> R l s s'"
begin

lemma run_keeps: "runs R ls s s' \<Longrightarrow> ok s \<Longrightarrow> ok s'"
  by (erule runs_keep [where P = ok]) (simp_all add: keeps)

text \<open>It can run to its end by itself, and has no endless run of its own steps.\<close>

lemma runs_to_end: "ok s \<Longrightarrow> \<exists>ls s'. runs R ls s s' \<and> list_all own ls \<and> finished s'"
proof (induction s rule: wf_induct_rule [OF wf_below])
  case (1 s)
  show ?case
  proof (cases "finished s")
    case True
    then show ?thesis by (intro exI [of _ "[]"]) (auto intro: runs.start)
  next
    case False
    with goes_on "1.prems" obtain l t where l: "own l" "R l s t" by blast
    from "1.IH" [OF goes_down [OF l(2,1)] keeps [OF l(2) "1.prems"]]
    obtain ls s' where ls: "runs R ls t s'" "list_all own ls" "finished s'" by blast
    from runs_cons [where R = R, OF l(2) ls(1)] l(1) ls(2,3) show ?thesis by (intro exI [of _ "l # ls"]) auto
  qed
qed

lemma no_endless_run: "\<not> (\<forall>n. own (lab n) \<and> R (lab n) (f n) (f (Suc n)))"
proof
  assume "\<forall>n. own (lab n) \<and> R (lab n) (f n) (f (Suc n))"
  then have "\<forall>n. (f (Suc n), f n) \<in> below" using goes_down by blast
  with wf_below show False unfolding wf_iff_no_infinite_down_chain by blast
qed

end

end
