(* ===== verification/Query_System.thy ===== *)
theory Query_System imports Dht_Query Websocket_Properties Runs begin

text \<open>
  Many DHT requests at once (\<open>src/dht_query.rs\<close>) on the one table of pending answers, as a step relation:
  requests of any kind begin, send, are answered or time out, their clean-up timers fire, batches arrive
  from the network and their messages are handled one at a time, in any order the scheduler picks. The
  steps are those of \<open>Dht_Query\<close> and \<open>Pending_Dht\<close>; what is shown holds of every schedule.
\<close>

section \<open>Requests of every kind\<close>

datatype query_ask =
    AskGet agent_pubkey any_dht_hash
  | AskLinks agent_pubkey wire_link_key
  | AskCount agent_pubkey wire_link_query
  | AskActivity agent_pubkey agent_pubkey chain_query_filter get_activity_options
  | AskMustGet agent_pubkey agent_pubkey chain_filter

datatype dht_answer =
    GotOps wire_ops | GotLinks wire_link_ops | GotCount count_links_response | GotActivity agent_activity_response
  | GotMustGet must_get_response

fun ask_message :: "u64 \<Rightarrow> query_ask \<Rightarrow> wire_message" where
  "ask_message i (AskGet to_agent hash) = GetReq i to_agent hash"
| "ask_message i (AskLinks to_agent key) = GetLinksReq i to_agent key"
| "ask_message i (AskCount to_agent query) = CountLinksReq i to_agent query"
| "ask_message i (AskActivity to_agent agent query options) = GetAgentActivityReq i to_agent agent query options"
| "ask_message i (AskMustGet to_agent agent chain) = MustGetAgentActivityReq i to_agent agent chain"

fun ask_expect :: "query_ask \<Rightarrow> wire_message \<Rightarrow> dht_answer option" where
  "ask_expect (AskGet _ _) m = map_option GotOps (expect_get m)"
| "ask_expect (AskLinks _ _) m = map_option GotLinks (expect_get_links m)"
| "ask_expect (AskCount _ _) m = map_option GotCount (expect_count_links m)"
| "ask_expect (AskActivity _ _ _ _) m = map_option GotActivity (expect_agent_activity m)"
| "ask_expect (AskMustGet _ _ _) m = map_option GotMustGet (expect_must_get m)"

section \<open>The system\<close>

record query_task =
  qt_id :: u64
  qt_ask :: query_ask
  qt_space :: space_id
  qt_url :: url
  qt_task :: "dht_answer dht_task"

text \<open>The tasks in the order they were spawned, the ids whose clean-up timer runs, and the messages that
  arrived and whose task has not run yet.\<close>

record 'w query_system =
  qs_proxy :: agent_proxy
  qs_pending :: pending_dht
  qs_tasks :: "query_task list"
  qs_timers :: "u64 list"
  qs_arrived :: "space_task list"
  qs_world :: 'w

definition qs_new :: "agent_proxy \<Rightarrow> 'w \<Rightarrow> 'w query_system" where
  "qs_new p w = \<lparr>qs_proxy = p, qs_pending = pd_new, qs_tasks = [], qs_timers = [], qs_arrived = [], qs_world = w\<rparr>"

datatype query_label =
    LSpawn u64 query_ask space_id url
  | LSend nat
  | LFinish nat bool
  | LTimer nat
  | LNotify space_id bytes
  | LRun nat

definition remove_at :: "nat \<Rightarrow> 'x list \<Rightarrow> 'x list" where
  "remove_at n xs = take n xs @ drop (Suc n) xs"

text \<open>A request that cannot be encoded is done before it registers, so it has no timer. The timer starts
  before the message is sent, and stays when the sending fails.\<close>

inductive qstep :: "'w ws_env \<Rightarrow> query_label \<Rightarrow> 'w query_system \<Rightarrow> 'w query_system \<Rightarrow> bool" for env where
  spawn: "qstep env (LSpawn i ask sp u) s (s\<lparr>qs_pending := pd,
      qs_tasks := qs_tasks s @ [\<lparr>qt_id = i, qt_ask = ask, qt_space = sp, qt_url = u, qt_task = t\<rparr>],
      qs_timers := qs_timers s @ (case t of RqSending _ _ _ \<Rightarrow> [i] | _ \<Rightarrow> [])\<rparr>)"
    if "request_begin (we_wire env) i (ask_message i ask) (qs_pending s) = (pd, t)"
| send: "qstep env (LSend k) s (s\<lparr>qs_tasks := (qs_tasks s)[k := (qs_tasks s ! k)\<lparr>qt_task := t\<rparr>], qs_world := w\<rparr>)"
    if "k < length (qs_tasks s)" and "qt_task (qs_tasks s ! k) = RqSending i c encoded"
    and "request_send (we_network env) (qt_space (qs_tasks s ! k)) (qt_url (qs_tasks s ! k))
      (qt_task (qs_tasks s ! k)) (qs_world s) = (w, t)"
| finish: "qstep env (LFinish k timed_out) s (s\<lparr>qs_tasks := (qs_tasks s)[k := (qs_tasks s ! k)\<lparr>qt_task := RqDone r\<rparr>]\<rparr>)"
    if "k < length (qs_tasks s)" and "qt_task (qs_tasks s ! k) = RqWaiting i c"
    and "request_finish (we_wire env) (ask_expect (qt_ask (qs_tasks s ! k))) timed_out (qt_task (qs_tasks s ! k))
      (qs_pending s) = Some r"
| timer: "qstep env (LTimer n) s (s\<lparr>qs_pending := pd_remove (qs_timers s ! n) (qs_pending s),
      qs_timers := remove_at n (qs_timers s)\<rparr>)"
    if "n < length (qs_timers s)"
| notify: "qstep env (LNotify sp data) s (s\<lparr>qs_arrived := qs_arrived s @
      recv_notify (we_hash env) (we_k2 env) (we_wire env) sp data\<rparr>)"
| run: "qstep env (LRun n) s (s\<lparr>qs_proxy := p, qs_pending := pd, qs_arrived := remove_at n (qs_arrived s)\<rparr>)"
    if "n < length (qs_arrived s)" and "run_space_task (qs_arrived s ! n) (qs_proxy s, qs_pending s) = (p, pd)"

abbreviation qreach :: "'w ws_env \<Rightarrow> query_label list \<Rightarrow> 'w query_system \<Rightarrow> 'w query_system \<Rightarrow> bool" where
  "qreach env \<equiv> runs (qstep env)"

section \<open>Well-formed systems\<close>

text \<open>A task that has registered waits on a channel of its own; every id in the table has a timer.\<close>

definition task_registered :: "pending_dht \<Rightarrow> query_task \<Rightarrow> bool" where
  "task_registered pd t \<longleftrightarrow> (case qt_task t of
     RqSending i c _ \<Rightarrow> i = qt_id t \<and> c < pd_created pd
   | RqWaiting i c \<Rightarrow> i = qt_id t \<and> c < pd_created pd
   | RqDone _ \<Rightarrow> True)"

definition qs_ok :: "'w query_system \<Rightarrow> bool" where
  "qs_ok s \<longleftrightarrow> pd_ok (qs_pending s) \<and> list_all (task_registered (qs_pending s)) (qs_tasks s) \<and>
     (\<forall>i. pd_waiting (qs_pending s) i \<noteq> None \<longrightarrow> i \<in> set (qs_timers s))"

lemma qs_new_ok: "qs_ok (qs_new p w)"
  by (simp add: qs_ok_def qs_new_def) (simp add: pd_waiting_def pd_new_def)

lemma remove_at_subset: "set (remove_at n xs) \<subseteq> set xs"
  by (auto simp: remove_at_def dest: in_set_takeD in_set_dropD)

lemma remove_at_other: "n < length xs \<Longrightarrow> x \<in> set xs \<Longrightarrow> x \<noteq> xs ! n \<Longrightarrow> x \<in> set (remove_at n xs)"
  using id_take_nth_drop [of n xs] by (auto simp: remove_at_def) (metis Un_iff insert_iff list.simps(15) set_append)

lemma length_remove_at [simp]: "n < length xs \<Longrightarrow> length (remove_at n xs) = length xs - 1"
  by (simp add: remove_at_def)

lemma registered_mono: "task_registered pd t \<Longrightarrow> pd_created pd \<le> pd_created pd' \<Longrightarrow> task_registered pd' t"
  by (auto simp: task_registered_def split: dht_task.splits)

lemma all_registered_mono:
  "list_all (task_registered pd) ts \<Longrightarrow> pd_created pd \<le> pd_created pd' \<Longrightarrow> list_all (task_registered pd') ts"
  by (auto simp: list_all_iff intro: registered_mono)

lemma list_all_update: "list_all P xs \<Longrightarrow> P x \<Longrightarrow> list_all P (xs[k := x])"
  by (auto simp: list_all_iff dest!: set_update_subset_insert [THEN subsetD])

text \<open>Handling a message is an event of the table, or leaves it alone.\<close>

lemma space_task_pending:
  "snd (run_space_task t (p, s)) = s \<or> (\<exists>i m. t = RouteResponse m \<and> get_msg_id m = Some i \<and>
     snd (run_space_task t (p, s)) = pd_deliver i m s)"
  by (cases t) (auto simp: route_response_def split: option.split)

lemma spawn_ok:
  assumes "request_begin (we_wire env) i (ask_message i ask) (qs_pending s) = (pd, t)" and "qs_ok s"
  shows "qs_ok (s\<lparr>qs_pending := pd,
      qs_tasks := qs_tasks s @ [\<lparr>qt_id = i, qt_ask = ask, qt_space = sp, qt_url = u, qt_task = t\<rparr>],
      qs_timers := qs_timers s @ (case t of RqSending _ _ _ \<Rightarrow> [i] | _ \<Rightarrow> [])\<rparr>)"
proof (cases "encode_batch (we_wire env) [ask_message i ask]")
  case (Inl e)
  with assms show ?thesis by (auto simp: request_begin_def qs_ok_def task_registered_def)
next
  case (Inr encoded)
  with assms(1) have pd: "pd = pd_register i (qs_pending s)" "t = RqSending i (pd_created (qs_pending s)) encoded"
    by (simp_all add: request_begin_def)
  have ok: "pd_ok (qs_pending s)" using assms(2) by (simp add: qs_ok_def)
  have "list_all (task_registered pd) (qs_tasks s)"
    by (rule all_registered_mono [of "qs_pending s"]) (use assms(2) pd answers.created_enroll [OF ok] in \<open>simp_all add: qs_ok_def\<close>)
  with assms(2) pd show ?thesis
    by (auto simp: qs_ok_def task_registered_def answers.invar_enroll answers.created_enroll answers.waiting_enroll)
qed

lemma timer_ok:
  assumes "n < length (qs_timers s)" and "qs_ok s"
  shows "qs_ok (s\<lparr>qs_pending := pd_remove (qs_timers s ! n) (qs_pending s), qs_timers := remove_at n (qs_timers s)\<rparr>)"
proof -
  have ok: "pd_ok (qs_pending s)" using assms(2) by (simp add: qs_ok_def)
  have "list_all (task_registered (pd_remove (qs_timers s ! n) (qs_pending s))) (qs_tasks s)"
    by (rule all_registered_mono [of "qs_pending s"])
      (use assms(2) answers.created_withdraw [OF ok] in \<open>simp_all add: qs_ok_def\<close>)
  with assms show ?thesis
    by (auto simp: qs_ok_def answers.invar_withdraw answers.waiting_withdraw intro: remove_at_other split: if_splits)
qed

lemma deliver_ok:
  assumes "qs_ok s"
  shows "qs_ok (s\<lparr>qs_proxy := p, qs_pending := pd_deliver i m (qs_pending s), qs_arrived := arr\<rparr>)"
proof -
  have ok: "pd_ok (qs_pending s)" using assms by (simp add: qs_ok_def)
  have "list_all (task_registered (pd_deliver i m (qs_pending s))) (qs_tasks s)"
    by (rule all_registered_mono [of "qs_pending s"])
      (use assms answers.created_deliver [OF ok] in \<open>simp_all add: qs_ok_def\<close>)
  with assms show ?thesis
    by (auto simp: qs_ok_def answers.invar_deliver answers.waiting_deliver split: if_splits)
qed

lemma qstep_ok:
  assumes "qstep env l s s'" and "qs_ok s"
  shows "qs_ok s'"
  using assms(1)
proof (cases rule: qstep.cases)
  case (spawn i ask pd t sp u)
  with spawn_ok [OF spawn(3) assms(2)] show ?thesis by simp
next
  case (send k i c encoded w t)
  have "task_registered (qs_pending s) (qs_tasks s ! k)" using assms(2) send(3) by (simp add: qs_ok_def list_all_length)
  with send(4,5) have "task_registered (qs_pending s) ((qs_tasks s ! k)\<lparr>qt_task := t\<rparr>)"
    by (auto simp: task_registered_def request_send_def split: prod.splits sum.splits)
  with send(2) assms(2) show ?thesis by (simp add: qs_ok_def list_all_update)
next
  case (finish k i c timed_out r)
  with assms(2) show ?thesis by (simp add: qs_ok_def list_all_update task_registered_def)
next
  case (timer n)
  with timer_ok [OF timer(3) assms(2)] show ?thesis by simp
next
  case (notify sp data)
  with assms(2) show ?thesis by (simp add: qs_ok_def)
next
  case (run n p pd)
  have "pd = qs_pending s \<or> (\<exists>i m. pd = pd_deliver i m (qs_pending s))"
    using space_task_pending [of "qs_arrived s ! n" "qs_proxy s" "qs_pending s"] run(4) by auto
  then show ?thesis
  proof (elim disjE exE)
    fix i m assume "pd = pd_deliver i m (qs_pending s)"
    with run(2) deliver_ok [OF assms(2)] show ?thesis by simp
  qed (use run(2) assms(2) in \<open>simp add: qs_ok_def\<close>)
qed

section \<open>Coming to rest\<close>

text \<open>The steps the linker takes by itself: all but a new request and a batch from the network.\<close>

definition internal :: "query_label \<Rightarrow> bool" where
  "internal l \<longleftrightarrow> (case l of LSpawn _ _ _ _ \<Rightarrow> False | LNotify _ _ \<Rightarrow> False | _ \<Rightarrow> True)"

definition task_work :: "query_task \<Rightarrow> nat" where
  "task_work t = (case qt_task t of RqSending _ _ _ \<Rightarrow> 2 | RqWaiting _ _ \<Rightarrow> 1 | RqDone _ \<Rightarrow> 0)"

definition work :: "'w query_system \<Rightarrow> nat" where
  "work s = sum_list (map task_work (qs_tasks s)) + length (qs_timers s) + length (qs_arrived s)"

definition at_rest :: "'w query_system \<Rightarrow> bool" where
  "at_rest s \<longleftrightarrow> list_all (\<lambda>t. \<exists>r. qt_task t = RqDone r) (qs_tasks s) \<and> qs_timers s = [] \<and> qs_arrived s = [] \<and>
     (\<forall>i. pd_waiting (qs_pending s) i = None)"

lemma work_update:
  assumes "k < length ts" and "task_work t < task_work (ts ! k)"
  shows "sum_list (map task_work (ts[k := t])) < sum_list (map task_work ts)"
proof -
  have "map task_work ts ! k \<le> sum_list (map task_work ts)" using assms(1) by (intro elem_le_sum_list) simp
  with assms show ?thesis by (simp add: map_update sum_list_update)
qed

lemma internal_step_works:
  assumes "qstep env l s s'" and "internal l"
  shows "work s' < work s"
  using assms(1)
proof (cases rule: qstep.cases)
  case (send k i c encoded w t)
  have "task_work ((qs_tasks s ! k)\<lparr>qt_task := t\<rparr>) < task_work (qs_tasks s ! k)"
    using send(4,5) by (auto simp: task_work_def request_send_def split: prod.splits sum.splits)
  from work_update [OF send(3) this] send(2) show ?thesis by (simp add: work_def)
next
  case (finish k i c timed_out r)
  have "task_work ((qs_tasks s ! k)\<lparr>qt_task := RqDone r\<rparr>) < task_work (qs_tasks s ! k)"
    using finish(4) by (simp add: task_work_def)
  from work_update [OF finish(3) this] finish(2) show ?thesis by (simp add: work_def)
qed (use assms(2) in \<open>auto simp: internal_def work_def\<close>)

lemma internal_run_works: "qreach env ls s s' \<Longrightarrow> list_all internal ls \<Longrightarrow> length ls + work s' \<le> work s"
proof (induction rule: runs.induct)
  case (step ls s s' l s'')
  from step have "length ls + work s' \<le> work s" by simp
  moreover have "work s'' < work s'" by (rule internal_step_works [OF step.hyps(2)]) (use step.prems in simp)
  ultimately show ?case by simp
qed simp

lemma busy_steps:
  assumes "work s \<noteq> 0"
  shows "\<exists>l s'. internal l \<and> qstep env l s s'"
proof -
  consider (task) k where "k < length (qs_tasks s)" "task_work (qs_tasks s ! k) \<noteq> 0"
    | (timer) "qs_timers s \<noteq> []" | (arrived) "qs_arrived s \<noteq> []"
    using assms by (auto simp: work_def sum_list_eq_0_iff in_set_conv_nth)
  then show ?thesis
  proof cases
    case (task k)
    show ?thesis
    proof (cases "qt_task (qs_tasks s ! k)")
      case (RqSending i c encoded)
      obtain w t where "request_send (we_network env) (qt_space (qs_tasks s ! k)) (qt_url (qs_tasks s ! k))
          (qt_task (qs_tasks s ! k)) (qs_world s) = (w, t)" by fastforce
      from qstep.send [OF task(1) RqSending this] show ?thesis
        by (intro exI [of _ "LSend k"]) (auto simp: internal_def)
    next
      case (RqWaiting i c)
      obtain r where "request_finish (we_wire env) (ask_expect (qt_ask (qs_tasks s ! k))) True (qt_task (qs_tasks s ! k))
          (qs_pending s) = Some r"
        by (cases "pd_outcome (qs_pending s) c") (auto simp: request_finish_def RqWaiting)
      from qstep.finish [OF task(1) RqWaiting this] show ?thesis
        by (intro exI [of _ "LFinish k True"]) (auto simp: internal_def)
    qed (use task(2) in \<open>simp add: task_work_def\<close>)
  next
    case timer
    then have "0 < length (qs_timers s)" by simp
    from qstep.timer [OF this] show ?thesis by (intro exI [of _ "LTimer 0"]) (auto simp: internal_def)
  next
    case arrived
    then have n: "0 < length (qs_arrived s)" by simp
    obtain p pd where "run_space_task (qs_arrived s ! 0) (qs_proxy s, qs_pending s) = (p, pd)" by (metis surj_pair)
    from qstep.run [OF n this] show ?thesis by (intro exI [of _ "LRun 0"]) (auto simp: internal_def)
  qed
qed

lemma idle_at_rest:
  assumes "qs_ok s" and "work s = 0"
  shows "at_rest s"
proof -
  have "\<exists>r. qt_task t = RqDone r" if "t \<in> set (qs_tasks s)" for t
    using assms(2) that by (cases "qt_task t") (auto simp: work_def task_work_def)
  moreover have "qs_timers s = []" "qs_arrived s = []" using assms(2) by (simp_all add: work_def)
  ultimately show ?thesis using assms(1) by (auto simp: at_rest_def list_all_iff qs_ok_def)
qed

interpretation queries: ending_system "qstep env" qs_ok internal at_rest "measure work" for env
proof
  show "\<exists>l s'. internal l \<and> qstep env l s s'" if "qs_ok s" "\<not> at_rest s" for s :: "'a query_system"
    using idle_at_rest [OF that(1)] that(2) busy_steps by blast
qed (simp_all add: qstep_ok internal_step_works)

section \<open>Where the answers come from\<close>

text \<open>The messages a batch of the trace put on the queue.\<close>

definition arrivals :: "'w ws_env \<Rightarrow> query_label list \<Rightarrow> space_task list" where
  "arrivals env ls = concat (map (\<lambda>l. case l of
     LNotify sp data \<Rightarrow> recv_notify (we_hash env) (we_k2 env) (we_wire env) sp data | _ \<Rightarrow> []) ls)"

lemma arrivals_simps [simp]:
  "arrivals env [] = []" "arrivals env (ls @ [l]) = arrivals env ls @ (case l of
     LNotify sp data \<Rightarrow> recv_notify (we_hash env) (we_k2 env) (we_wire env) sp data | _ \<Rightarrow> [])"
  by (simp_all add: arrivals_def)

text \<open>An answer with the id \<open>i\<close> that came in a batch.\<close>

definition answered_by :: "'w ws_env \<Rightarrow> query_label list \<Rightarrow> u64 \<Rightarrow> wire_message \<Rightarrow> bool" where
  "answered_by env ls i m \<longleftrightarrow> RouteResponse m \<in> set (arrivals env ls) \<and> get_msg_id m = Some i"

lemma answered_in_batch:
  "answered_by env ls i m \<longleftrightarrow> (\<exists>sp data ms. LNotify sp data \<in> set ls \<and> decode_batch (we_wire env) data = Inr ms \<and> m \<in> set ms) \<and>
     is_answer m \<and> get_msg_id m = Some i"
proof -
  have "RouteResponse m \<in> set (recv_notify h k2 wa sp data) \<longleftrightarrow>
      (\<exists>ms. decode_batch wa data = Inr ms \<and> m \<in> set ms) \<and> is_answer m" for h k2 wa sp data
    by (cases "decode_batch wa data") (auto simp: recv_notify_def routed_messages)
  then have "RouteResponse m \<in> set (arrivals env ls) \<longleftrightarrow>
      (\<exists>sp data ms. LNotify sp data \<in> set ls \<and> decode_batch (we_wire env) data = Inr ms \<and> m \<in> set ms) \<and> is_answer m"
    by (fastforce simp: arrivals_def split: query_label.splits)
  then show ?thesis by (auto simp: answered_by_def)
qed

text \<open>What a request may come to.\<close>

definition fair_result :: "'w ws_env \<Rightarrow> query_label list \<Rightarrow> u64 \<Rightarrow> query_ask \<Rightarrow> dht_answer peer_result \<Rightarrow> bool" where
  "fair_result env ls i ask r \<longleftrightarrow>
     (\<exists>m. answered_by env ls i m \<and> r = read_answer (we_wire env) (ask_expect ask) m) \<or>
     r = Inl (Internal ''Response channel closed'') \<or> r = Inl (Internal ''Request timed out'') \<or>
     (\<exists>e. r = Inl (Internal (''Failed to encode request: '' @ e))) \<or>
     (\<exists>e. r = Inl (Internal (''Failed to send request: '' @ e)))"

definition channel_fair :: "'w ws_env \<Rightarrow> query_label list \<Rightarrow> pending_dht \<Rightarrow> u64 \<Rightarrow> nat \<Rightarrow> bool" where
  "channel_fair env ls pd i c \<longleftrightarrow> c < pd_created pd \<and> (\<forall>j. pd_waiting pd j = Some c \<longrightarrow> j = i) \<and>
     (\<forall>m. pd_outcome pd c = Sent m \<longrightarrow> answered_by env ls i m)"

definition task_fair :: "'w ws_env \<Rightarrow> query_label list \<Rightarrow> pending_dht \<Rightarrow> query_task \<Rightarrow> bool" where
  "task_fair env ls pd t \<longleftrightarrow> (case qt_task t of
     RqSending i c _ \<Rightarrow> i = qt_id t \<and> channel_fair env ls pd i c
   | RqWaiting i c \<Rightarrow> i = qt_id t \<and> channel_fair env ls pd i c
   | RqDone r \<Rightarrow> fair_result env ls (qt_id t) (qt_ask t) r)"

definition trace_fair :: "'w ws_env \<Rightarrow> query_label list \<Rightarrow> 'w query_system \<Rightarrow> bool" where
  "trace_fair env ls s \<longleftrightarrow> pd_ok (qs_pending s) \<and> set (qs_arrived s) \<subseteq> set (arrivals env ls) \<and>
     list_all (task_fair env ls (qs_pending s)) (qs_tasks s)"

lemma answered_mono: "answered_by env ls i m \<Longrightarrow> answered_by env (ls @ [l]) i m"
  by (simp add: answered_by_def)

lemma channel_mono: "channel_fair env ls pd i c \<Longrightarrow> channel_fair env (ls @ [l]) pd i c"
  by (simp add: channel_fair_def answered_mono)

lemma channel_new: "pd_ok pd \<Longrightarrow> channel_fair env ls (pd_register i pd) i (pd_created pd)"
  using answers.waiting_pending [of pd] answers.waiting_pending [OF answers.invar_enroll, of pd i i "pd_created pd"]
  by (auto simp: channel_fair_def answers.created_enroll answers.waiting_enroll split: if_splits)

lemma channel_register: "pd_ok pd \<Longrightarrow> channel_fair env ls pd i c \<Longrightarrow> channel_fair env ls (pd_register j pd) i c"
  by (auto simp: channel_fair_def answers.created_enroll answers.waiting_enroll answers.outcome_enroll split: if_splits)

lemma channel_remove: "pd_ok pd \<Longrightarrow> channel_fair env ls pd i c \<Longrightarrow> channel_fair env ls (pd_remove j pd) i c"
  by (auto simp: channel_fair_def answers.created_withdraw answers.waiting_withdraw answers.outcome_withdraw split: if_splits)

lemma channel_deliver:
  "pd_ok pd \<Longrightarrow> channel_fair env ls pd i c \<Longrightarrow> answered_by env ls j m \<Longrightarrow> channel_fair env ls (pd_deliver j m pd) i c"
  by (auto simp: channel_fair_def answers.created_deliver answers.waiting_deliver answers.outcome_deliver split: if_splits)

lemmas channel_events = channel_new channel_register channel_remove channel_deliver

lemma fair_results:
  "answered_by env ls i m \<Longrightarrow> fair_result env ls i ask (read_answer (we_wire env) (ask_expect ask) m)"
  "fair_result env ls i ask (Inl (Internal ''Response channel closed''))"
  "fair_result env ls i ask (Inl (Internal ''Request timed out''))"
  "fair_result env ls i ask (Inl (Internal (''Failed to encode request: '' @ e)))"
  "fair_result env ls i ask (Inl (Internal (''Failed to send request: '' @ e)))"
  unfolding fair_result_def by blast+

lemma fair_mono:
  assumes "fair_result env ls i ask r" and "\<And>m. answered_by env ls i m \<Longrightarrow> answered_by env ls' i m"
  shows "fair_result env ls' i ask r"
  using assms unfolding fair_result_def by blast

lemma task_fair_channels:
  assumes "task_fair env ls pd t" and "\<And>i c. channel_fair env ls pd i c \<Longrightarrow> channel_fair env ls' pd' i c"
    and "\<And>i m. answered_by env ls i m \<Longrightarrow> answered_by env ls' i m"
  shows "task_fair env ls' pd' t"
  using assms by (cases "qt_task t") (auto simp: task_fair_def intro: fair_mono)

lemma done_fair:
  "fair_result env ls (qt_id q) (qt_ask q) r \<Longrightarrow> task_fair env ls pd (q\<lparr>qt_task := RqDone r\<rparr>)"
  "fair_result env ls i ask r \<Longrightarrow>
     task_fair env ls pd \<lparr>qt_id = i, qt_ask = ask, qt_space = sp, qt_url = u, qt_task = RqDone r\<rparr>"
  by (simp_all add: task_fair_def)

lemma begin_fair:
  assumes "pd_ok pd" and "request_begin (we_wire env) i (ask_message i ask) pd = (pd', t)" and "list_all (task_fair env ls pd) ts"
  shows "pd_ok pd' \<and> list_all (task_fair env ls pd') (ts @ [\<lparr>qt_id = i, qt_ask = ask, qt_space = sp, qt_url = u, qt_task = t\<rparr>])"
proof (cases "encode_batch (we_wire env) [ask_message i ask]")
  case (Inl e)
  then have "pd' = pd" "t = RqDone (Inl (Internal (''Failed to encode request: '' @ e)))"
    using assms(2) by (auto simp only: request_begin_def sum.case prod.inject)
  with assms(1,3) done_fair(2) [OF fair_results(4)] show ?thesis
    by (simp only: list_all_append list.pred_inject simp_thms)
next
  case (Inr encoded)
  with assms(2) have pd: "pd' = pd_register i pd" "t = RqSending i (pd_created pd) encoded"
    by (simp_all add: request_begin_def)
  have "task_fair env ls pd' q" if "q \<in> set ts" for q
    by (rule task_fair_channels [of env ls pd]) (use assms(1,3) that in \<open>auto simp: pd list_all_iff channel_register\<close>)
  with pd assms(1) show ?thesis
    by (simp add: list_all_iff task_fair_def answers.invar_enroll channel_new)
qed

lemma send_fair:
  assumes "task_fair env ls pd q" and "qt_task q = RqSending i c encoded"
    and "request_send net sp u (qt_task q) w = (w', t)"
  shows "task_fair env ls pd (q\<lparr>qt_task := t\<rparr>)"
proof (cases "nw_send_notify net sp u encoded w")
  case (Pair w1 o1)
  then show ?thesis
  proof (cases o1)
    case (Inl e)
    with Pair assms(2,3) have "t = RqDone (Inl (Internal (''Failed to send request: '' @ e)))"
      by (auto simp only: request_send_def dht_task.case sum.case prod.case prod.inject)
    with done_fair(1) [OF fair_results(5)] show ?thesis by blast
  qed (use Pair assms in \<open>auto simp: request_send_def task_fair_def\<close>)
qed

lemma finish_fair:
  assumes "task_fair env ls pd q" and "qt_task q = RqWaiting i c"
    and "request_finish (we_wire env) (ask_expect (qt_ask q)) timed_out (qt_task q) pd = Some r"
  shows "task_fair env ls pd (q\<lparr>qt_task := RqDone r\<rparr>)"
proof (cases "pd_outcome pd c")
  case (Sent m)
  from assms(1,2) Sent have "answered_by env ls (qt_id q) m" by (auto simp: task_fair_def channel_fair_def)
  then show ?thesis using assms(2,3) Sent fair_results(1) by (auto simp: task_fair_def request_finish_def)
next
  case Cancelled
  with assms(2,3) have "r = Inl (Internal ''Response channel closed'')"
    by (auto simp only: request_finish_def dht_task.case oneshot.case option.inject)
  with done_fair(1) [OF fair_results(2)] show ?thesis by blast
next
  case Pending
  with assms(2,3) have "r = Inl (Internal ''Request timed out'')"
    by (auto simp only: request_finish_def dht_task.case oneshot.case option.inject split: if_splits)
  with done_fair(1) [OF fair_results(3)] show ?thesis by blast
qed

lemma tasks_fair_channels:
  assumes "list_all (task_fair env ls pd) ts" and "\<And>i c. channel_fair env ls pd i c \<Longrightarrow> channel_fair env ls' pd' i c"
    and "\<And>i m. answered_by env ls i m \<Longrightarrow> answered_by env ls' i m"
  shows "list_all (task_fair env ls' pd') ts"
  using assms(1) unfolding list_all_iff using task_fair_channels [OF _ assms(2,3)] by blast

lemma trace_fair_later: "trace_fair env ls s \<Longrightarrow> trace_fair env (ls @ [l]) s"
  using tasks_fair_channels [of env ls "qs_pending s" "qs_tasks s" "ls @ [l]" "qs_pending s"]
  by (auto simp: trace_fair_def channel_mono answered_mono)

lemma run_fair:
  assumes "trace_fair env ls s" and "n < length (qs_arrived s)" and "run_space_task (qs_arrived s ! n) (qs_proxy s, qs_pending s) = (p, pd)"
  shows "pd_ok pd \<and> list_all (task_fair env ls pd) (qs_tasks s)"
proof -
  have ok: "pd_ok (qs_pending s)" and tasks: "list_all (task_fair env ls (qs_pending s)) (qs_tasks s)"
    using assms(1) by (simp_all only: trace_fair_def)
  consider "pd = qs_pending s" | i m where "qs_arrived s ! n = RouteResponse m" "get_msg_id m = Some i" "pd = pd_deliver i m (qs_pending s)"
    using space_task_pending [of "qs_arrived s ! n" "qs_proxy s" "qs_pending s"] assms(3) by auto
  then show ?thesis
  proof cases
    case 1
    with ok tasks show ?thesis by simp
  next
    case 2
    have "set (qs_arrived s) \<subseteq> set (arrivals env ls)" using assms(1) by (simp only: trace_fair_def)
    with nth_mem [OF assms(2)] 2(1) have "RouteResponse m \<in> set (arrivals env ls)" by (simp only: subset_iff)
    with 2(2) have got: "answered_by env ls i m" by (simp only: answered_by_def)
    have "list_all (task_fair env ls pd) (qs_tasks s)" unfolding 2(3)
      by (rule tasks_fair_channels [OF tasks]) (rule channel_deliver [OF ok _ got])
    with answers.invar_deliver [OF ok] show ?thesis unfolding 2(3) by simp
  qed
qed

lemma qstep_fair:
  assumes "qstep env l s s'" and "trace_fair env ls s"
  shows "trace_fair env (ls @ [l]) s'"
  using assms(1)
proof (cases rule: qstep.cases)
  note fair = trace_fair_later [OF assms(2), of l]
  have ok: "pd_ok (qs_pending s)" using assms(2) by (simp add: trace_fair_def)
  {
    case (spawn i ask pd t sp u)
    have "list_all (task_fair env (ls @ [l]) (qs_pending s)) (qs_tasks s)" using fair by (simp only: trace_fair_def)
    from begin_fair [OF ok spawn(3) this] spawn(2) fair show ?thesis by (simp add: trace_fair_def)
  next
    case (send k i c encoded w t)
    from fair send(3) have "task_fair env (ls @ [l]) (qs_pending s) (qs_tasks s ! k)" by (simp add: trace_fair_def list_all_length)
    from send_fair [OF this send(4,5)] send(2) fair show ?thesis by (simp add: trace_fair_def list_all_update)
  next
    case (finish k i c timed_out r)
    from fair finish(3) have "task_fair env (ls @ [l]) (qs_pending s) (qs_tasks s ! k)" by (simp add: trace_fair_def list_all_length)
    from finish_fair [OF this finish(4,5)] finish(2) fair show ?thesis by (simp add: trace_fair_def list_all_update)
  next
    case (timer n)
    have "list_all (task_fair env (ls @ [l]) (pd_remove (qs_timers s ! n) (qs_pending s))) (qs_tasks s)"
      by (rule tasks_fair_channels [where pd = "qs_pending s" and ls = "ls @ [l]"])
        (use fair in \<open>simp_all add: trace_fair_def channel_remove\<close>)
    with timer fair show ?thesis by (simp add: trace_fair_def answers.invar_withdraw)
  next
    case (notify sp data)
    with fair show ?thesis by (auto simp: trace_fair_def)
  next
    case (run n p pd)
    have arr: "set (remove_at n (qs_arrived s)) \<subseteq> set (arrivals env (ls @ [l]))"
      using fair remove_at_subset [of n "qs_arrived s"] by (auto simp: trace_fair_def)
    from run_fair [OF fair run(3,4)] run(2) arr show ?thesis by (simp add: trace_fair_def)
  }
qed

lemma qreach_fair: "qreach env ls s s' \<Longrightarrow> trace_fair env [] s \<Longrightarrow> trace_fair env ls s'"
  by (induction rule: runs.induct) (simp_all add: qstep_fair)

lemma new_fair: "trace_fair env [] (qs_new p w)"
  by (simp add: trace_fair_def qs_new_def)

section \<open>Properties\<close>

text \<open>C18. Requests end and leave nothing behind. From any state a run of the linker can reach, with whatever
  requests under way, timers running and messages waiting, the linker's own steps come to an end: no run of them
  is longer than the work there is, and one that cannot go on is at rest, with every request finished, every
  timer gone, every message handled and no entry left in the table of pending answers.\<close>

theorem queries_come_to_rest:
  assumes "qreach env ls (qs_new p w) s" and "qreach env ks s s'" and "list_all internal ks"
  shows "length ks + work s' \<le> work s \<and>
    (if work s' = 0 then at_rest s' \<and> (\<forall>l s''. qstep env l s' s'' \<longrightarrow> \<not> internal l)
     else \<exists>l s''. internal l \<and> qstep env l s' s'')"
proof -
  have ok: "qs_ok s'" by (intro queries.run_keeps [OF assms(2)] queries.run_keeps [OF assms(1)] qs_new_ok)
  have "\<not> internal l" if "qstep env l s' s''" and "work s' = 0" for l s''
    using internal_step_works [OF that(1)] that(2) by auto
  with idle_at_rest [OF ok] busy_steps [of s' env] internal_run_works [OF assms(2,3)] show ?thesis by auto
qed

text \<open>C17. A request gets its own answer. When a request has ended, in any run from the start: either it read an
  answer that came in a batch of that run and carries its id, as the kind of answer it asked for; or it failed,
  because it could not be encoded or sent, its channel was closed, or its time ran out.\<close>

theorem answers_are_own:
  assumes "qreach env ls (qs_new p w) s" and "t \<in> set (qs_tasks s)" and "qt_task t = RqDone r"
  shows "(\<exists>sp data ms m. LNotify sp data \<in> set ls \<and> decode_batch (we_wire env) data = Inr ms \<and> m \<in> set ms \<and>
        is_answer m \<and> get_msg_id m = Some (qt_id t) \<and> r = read_answer (we_wire env) (ask_expect (qt_ask t)) m) \<or>
    r = Inl (Internal ''Response channel closed'') \<or> r = Inl (Internal ''Request timed out'') \<or>
    (\<exists>e. r = Inl (Internal (''Failed to encode request: '' @ e))) \<or>
    (\<exists>e. r = Inl (Internal (''Failed to send request: '' @ e)))"
proof -
  have "trace_fair env ls s" by (rule qreach_fair [OF assms(1) new_fair])
  with assms(2) have "task_fair env ls (qs_pending s) t" by (simp only: trace_fair_def list_all_iff)
  with assms(3) have "fair_result env ls (qt_id t) (qt_ask t) r" by (simp only: task_fair_def dht_task.case)
  then show ?thesis unfolding fair_result_def answered_in_batch by blast
qed

section \<open>A run\<close>

text \<open>A get that is sent, answered and read; then only its timer is left.\<close>

definition getting_env :: "wire_ops \<Rightarrow> unit ws_env" where
  "getting_env ops = plain_env\<lparr>we_wire := plain_wire\<lparr>decode_batch := \<lambda>_. Inr [GetRes 4 ops]\<rparr>,
     we_network := query_network\<rparr>"

definition get_task :: "dht_answer dht_task \<Rightarrow> query_task" where
  "get_task t = \<lparr>qt_id = 4, qt_ask = AskGet (AgentPubKey [1]) (DhtEntry (EntryHash [])), qt_space = SpaceId [7],
     qt_url = ''b'', qt_task = t\<rparr>"

definition get_state :: "pending_dht \<Rightarrow> dht_answer dht_task \<Rightarrow> u64 list \<Rightarrow> space_task list \<Rightarrow> unit query_system" where
  "get_state pd t timers arrived = \<lparr>qs_proxy = ap_new, qs_pending = pd, qs_tasks = [get_task t],
     qs_timers = timers, qs_arrived = arrived, qs_world = ()\<rparr>"

definition get_trace :: "query_label list" where
  "get_trace = [LSpawn 4 (AskGet (AgentPubKey [1]) (DhtEntry (EntryHash []))) (SpaceId [7]) ''b'', LSend 0,
     LNotify (SpaceId [7]) [], LRun 0, LFinish 0 False]"

definition answered_pd :: "wire_ops \<Rightarrow> pending_dht" where
  "answered_pd ops = pd_deliver 4 (GetRes 4 ops) (pd_register 4 pd_new)"

definition got :: "wire_ops \<Rightarrow> dht_answer peer_result" where
  "got ops = Inr (Some (GotOps ops))"

lemma answered_outcome: "pd_outcome (answered_pd ops) 0 = Sent (GetRes 4 ops)"
  by (simp add: answered_pd_def pd_outcome_def pd_deliver_def pd_register_def pd_new_def table_deliver_def
    table_enroll_def drop_sender_def hm_get_def hm_insert_def hm_remove_def os_state_def os_update_def)

lemma get_run: "qreach (getting_env ops) get_trace (qs_new ap_new ()) (get_state (answered_pd ops) (RqDone (got ops)) [4] [])"
proof -
  let ?pd = "pd_register 4 pd_new"
  let ?m = "GetRes 4 ops"
  have 1: "qstep (getting_env ops) (LSpawn 4 (AskGet (AgentPubKey [1]) (DhtEntry (EntryHash []))) (SpaceId [7]) ''b'')
      (qs_new ap_new ()) (get_state ?pd (RqSending 4 0 []) [4] [])"
    using qstep.spawn [of "getting_env ops" 4 "AskGet (AgentPubKey [1]) (DhtEntry (EntryHash []))" "qs_new ap_new ()" ?pd
      "RqSending 4 0 []" "SpaceId [7]" "''b''"]
    by (simp add: qs_new_def get_state_def get_task_def request_begin_def getting_env_def plain_env_def plain_wire_def
      pd_created_def pd_new_def)
  have 2: "qstep (getting_env ops) (LSend 0) (get_state ?pd (RqSending 4 0 []) [4] []) (get_state ?pd (RqWaiting 4 0) [4] [])"
    using qstep.send [of 0 "get_state ?pd (RqSending 4 0 []) [4] []" 4 0 "[]" "getting_env ops" "()" "RqWaiting 4 0"]
    by (simp add: get_state_def get_task_def request_send_def getting_env_def plain_env_def query_network_def quiet_network_def)
  have 3: "qstep (getting_env ops) (LNotify (SpaceId [7]) []) (get_state ?pd (RqWaiting 4 0) [4] [])
      (get_state ?pd (RqWaiting 4 0) [4] [RouteResponse ?m])"
    using qstep.notify [of "getting_env ops" "SpaceId [7]" "[]" "get_state ?pd (RqWaiting 4 0) [4] []"]
    by (simp add: get_state_def recv_notify_def handle_wire_message_def getting_env_def)
  have 4: "qstep (getting_env ops) (LRun 0) (get_state ?pd (RqWaiting 4 0) [4] [RouteResponse ?m])
      (get_state (answered_pd ops) (RqWaiting 4 0) [4] [])"
    using qstep.run [of 0 "get_state ?pd (RqWaiting 4 0) [4] [RouteResponse ?m]" ap_new "answered_pd ops" "getting_env ops"]
    by (simp add: get_state_def route_response_def get_msg_id_def answered_pd_def remove_at_def)
  have 5: "qstep (getting_env ops) (LFinish 0 False) (get_state (answered_pd ops) (RqWaiting 4 0) [4] [])
      (get_state (answered_pd ops) (RqDone (got ops)) [4] [])"
    using qstep.finish [of 0 "get_state (answered_pd ops) (RqWaiting 4 0) [4] []" 4 0 "getting_env ops" False "got ops"]
    by (simp add: get_state_def get_task_def request_finish_def answered_outcome read_answer_def got_def)
  show ?thesis unfolding get_trace_def
    by (rule runs_cons, rule 1, rule runs_cons, rule 2, rule runs_cons, rule 3, rule runs_cons, rule 4, rule runs_one, rule 5)
qed

lemma get_timer: "qreach (getting_env ops) [LTimer 0] (get_state (answered_pd ops) (RqDone (got ops)) [4] [])
    (get_state (pd_remove 4 (answered_pd ops)) (RqDone (got ops)) [] [])"
  using runs_one [where R = "qstep (getting_env ops)", OF qstep.timer [of 0 "get_state (answered_pd ops) (RqDone (got ops)) [4] []" "getting_env ops"]]
  by (simp add: get_state_def remove_at_def)

theorem queries_come_to_rest_witness:
  "at_rest (get_state (pd_remove 4 (answered_pd (OpsWarrant []))) (RqDone (got (OpsWarrant []))) [] [])"
proof -
  have "work (get_state (pd_remove 4 (answered_pd (OpsWarrant []))) (RqDone (got (OpsWarrant []))) [] []) = 0"
    by (simp add: work_def get_state_def get_task_def task_work_def)
  with queries_come_to_rest [OF get_run get_timer [where ops = "OpsWarrant []"]] show ?thesis by (simp add: internal_def)
qed

theorem answers_are_own_witness:
  "\<exists>sp data m. LNotify sp data \<in> set get_trace \<and> is_answer m \<and> get_msg_id m = Some 4 \<and>
     got (OpsWarrant []) = read_answer (we_wire (getting_env (OpsWarrant []))) (ask_expect (AskGet (AgentPubKey [1]) (DhtEntry (EntryHash [])))) m"
proof -
  have "get_task (RqDone (got (OpsWarrant []))) \<in> set (qs_tasks (get_state (answered_pd (OpsWarrant [])) (RqDone (got (OpsWarrant []))) [4] []))"
    "qt_task (get_task (RqDone (got (OpsWarrant [])))) = RqDone (got (OpsWarrant []))"
    by (simp_all add: get_state_def get_task_def)
  from answers_are_own [OF get_run this]
  show ?thesis unfolding got_def get_task_def query_task.select_convs
    by (elim disjE exE conjE) (blast, simp_all)
qed

end
