(* ===== verification/Query_Reads.thy ===== *)
theory Query_Reads imports Query_System Service_Properties begin

text \<open>
  From the network to the client: the read endpoints (\<open>src/routes/dht.rs\<close>) on the queries of
  \<open>src/dht_query.rs\<close>, with the request tasks of \<open>Query_System\<close>. What a handle yields when it is joined is
  the result of the task it was spawned for; so what an endpoint answers came in a batch.
\<close>

section \<open>Handles\<close>

text \<open>The result of a task, as one of its kind of answer.\<close>

definition result_as :: "('r \<Rightarrow> dht_answer) \<Rightarrow> 'r peer_result \<Rightarrow> dht_answer peer_result" where
  "result_as kind r = map_sum id (map_option kind) r"

lemma result_as_some [simp]: "result_as kind (Inr (Some r)) = Inr (Some (kind r))"
  by (simp add: result_as_def)

text \<open>A handle that joins belongs to a finished task that asked that peer for that.\<close>

definition joins_tasks :: "'w query_system \<Rightarrow> (agent_pubkey \<Rightarrow> query_ask) \<Rightarrow> ('r \<Rightarrow> dht_answer) \<Rightarrow>
    (space_id \<Rightarrow> agent_pubkey \<times> url \<Rightarrow> 'r joined) \<Rightarrow> bool" where
  "joins_tasks s wants kind asks \<longleftrightarrow> (\<forall>sp a u r. asks sp (a, u) = Joined r \<longrightarrow>
     (\<exists>t \<in> set (qs_tasks s). qt_ask t = wants a \<and> qt_space t = sp \<and> qt_url t = u \<and>
        qt_task t = RqDone (result_as kind r)))"

section \<open>Tasks and their spawning\<close>

definition task_spawned :: "query_label list \<Rightarrow> query_task \<Rightarrow> bool" where
  "task_spawned ls t \<longleftrightarrow> LSpawn (qt_id t) (qt_ask t) (qt_space t) (qt_url t) \<in> set ls"

lemma spawned_later: "list_all (task_spawned ls) ts \<Longrightarrow> list_all (task_spawned (ls @ [l])) ts"
  by (auto simp: list_all_iff task_spawned_def)

lemma spawned_update:
  assumes "list_all (task_spawned ls) ts" and "k < length ts"
  shows "list_all (task_spawned ls) (ts[k := (ts ! k)\<lparr>qt_task := t\<rparr>])"
proof (rule list_all_update [OF assms(1)])
  have "task_spawned ls (ts ! k)" using assms by (simp add: list_all_length)
  then show "task_spawned ls ((ts ! k)\<lparr>qt_task := t\<rparr>)" by (simp add: task_spawned_def)
qed

lemma qstep_spawned:
  assumes "qstep env l s s'" and "list_all (task_spawned ls) (qs_tasks s)"
  shows "list_all (task_spawned (ls @ [l])) (qs_tasks s')"
  using assms(1) spawned_later [OF assms(2), of l]
proof (cases rule: qstep.cases)
  case (spawn i wants pd t sp u)
  with spawned_later [OF assms(2), of l] show ?thesis by (simp add: task_spawned_def)
next
  case (send k i c encoded w t)
  with spawned_update [OF spawned_later [OF assms(2)] send(3)] show ?thesis by simp
next
  case (finish k i c timed_out r)
  with spawned_update [OF spawned_later [OF assms(2)] finish(3)] show ?thesis by simp
qed simp_all

lemma qreach_spawned: "qreach env ls s s' \<Longrightarrow> list_all (task_spawned []) (qs_tasks s) \<Longrightarrow> list_all (task_spawned ls) (qs_tasks s')"
  by (induction rule: runs.induct) (simp_all add: qstep_spawned)

section \<open>What was read came in\<close>

text \<open>The answer \<open>m\<close> came in a batch, for a request the run sent to the peer \<open>a\<close> at \<open>u\<close>.\<close>

definition came_for :: "'w ws_env \<Rightarrow> query_label list \<Rightarrow> u64 \<Rightarrow> query_ask \<Rightarrow> space_id \<Rightarrow> url \<Rightarrow> wire_message \<Rightarrow> bool" where
  "came_for env ls i wants sp u m \<longleftrightarrow> LSpawn i wants sp u \<in> set ls \<and> get_msg_id m = Some i \<and>
     (\<exists>sp' data ms. LNotify sp' data \<in> set ls \<and> decode_batch (we_wire env) data = Inr ms \<and> m \<in> set ms)"

lemma task_answer_came:
  assumes "qreach env ls (qs_new p w) s" and "t \<in> set (qs_tasks s)" and "qt_task t = RqDone (Inr (Some v))"
  shows "\<exists>m. came_for env ls (qt_id t) (qt_ask t) (qt_space t) (qt_url t) m \<and>
    read_answer (we_wire env) (ask_expect (qt_ask t)) m = Inr (Some v)"
proof -
  have "list_all (task_spawned ls) (qs_tasks s)"
    by (rule qreach_spawned [OF assms(1)]) (simp add: qs_new_def)
  with assms(2) have "task_spawned ls t" by (simp add: list_all_iff)
  moreover have "trace_fair env ls s" by (rule qreach_fair [OF assms(1) new_fair])
  with assms(2) have "task_fair env ls (qs_pending s) t" by (simp only: trace_fair_def list_all_iff)
  with assms(3) have "fair_result env ls (qt_id t) (qt_ask t) (Inr (Some v))" by (simp only: task_fair_def dht_task.case)
  then obtain m where "answered_by env ls (qt_id t) m" "read_answer (we_wire env) (ask_expect (qt_ask t)) m = Inr (Some v)"
    by (auto simp: fair_result_def)
  ultimately show ?thesis unfolding answered_in_batch came_for_def task_spawned_def by blast
qed

text \<open>A peer a query for the location asks: among the first three that are live, have a URL and an arc over
  the location.\<close>

definition asked_peer :: "'w ws_env \<Rightarrow> space_id \<Rightarrow> u32 \<Rightarrow> 'w \<Rightarrow> agent_pubkey \<Rightarrow> url \<Rightarrow> bool" where
  "asked_peer env sp loc w a u \<longleftrightarrow> (\<exists>agents. nw_near (we_network env) sp loc 1024 w = Inr agents \<and>
     (a, u) \<in> set (take 3 (List.map_filter (peer_for_location (we_wire env) loc) agents)) \<and>
     (\<exists>info \<in> set agents. agent_from_k2 (we_wire env) (ai_agent info) = a \<and> ai_url info = Some u \<and>
        \<not> ai_is_tombstone info \<and> arc_contains (we_wire env) (ai_storage_arc info) loc))"

lemma asked_peerI:
  assumes "get_peers_for_location (we_wire env) (we_network env) sp loc w = Inr ps"
    and "(a, u) \<in> set (take PARALLEL_GET_AGENTS_COUNT ps)"
  shows "asked_peer env sp loc w a u"
proof -
  from assms(2) have au: "(a, u) \<in> set ps" by (rule in_set_takeD)
  from peers_for_location [OF assms(1) au] obtain agents info where near: "nw_near (we_network env) sp loc 1024 w = Inr agents"
    and info: "info \<in> set agents" "agent_from_k2 (we_wire env) (ai_agent info) = a" "ai_url info = Some u"
      "\<not> ai_is_tombstone info" "arc_contains (we_wire env) (ai_storage_arc info) loc" by metis
  from assms(1) near have "ps = List.map_filter (peer_for_location (we_wire env) loc) agents"
    by (simp add: get_peers_for_location_def)
  with assms(2) near info show ?thesis by (auto simp: asked_peer_def PARALLEL_GET_AGENTS_COUNT_def)
qed

lemma query_answer_came:
  assumes reach: "qreach env ls (qs_new p w) s" and joins: "joins_tasks s wants kind asks"
    and run: "run_query k2 (we_wire env) (we_network env) useful d loc asks g = (g', Inr (Some r))"
    and own: "spaces_ok k2 (gk_spaces g)"
  obtains a u i m where "asked_peer env (dna_to_space k2 d) loc (gk_world g') a u"
    and "came_for env ls i (wants a) (dna_to_space k2 d) u m"
    and "read_answer (we_wire env) (ask_expect (wants a)) m = Inr (Some (kind r))"
proof -
  from run obtain sp ps where sp: "get_or_create_space k2 (we_network env) d g = (g', Inr sp)"
    and ps: "get_peers_for_location (we_wire env) (we_network env) sp loc (gk_world g') = Inr ps"
    and sel: "select_response useful (map (asks sp) (take PARALLEL_GET_AGENTS_COUNT ps)) None = Inr (Some r)"
    by (auto simp: run_query_def split: prod.splits sum.splits if_splits)
  from sp have d: "sp = dna_to_space k2 d"
    by (cases rule: get_or_create_cases) (use spaces_ok_get [OF own] in auto)
  have "Joined (Inr (Some r)) \<in> set (map (asks sp) (take PARALLEL_GET_AGENTS_COUNT ps))"
    by (rule select_some [OF sel]) simp
  then obtain a u where au: "(a, u) \<in> set (take PARALLEL_GET_AGENTS_COUNT ps)" "asks sp (a, u) = Joined (Inr (Some r))"
    by auto
  from joins au(2) obtain t where t: "t \<in> set (qs_tasks s)" "qt_ask t = wants a" "qt_space t = sp" "qt_url t = u"
      "qt_task t = RqDone (Inr (Some (kind r)))"
    unfolding joins_tasks_def by (metis result_as_some)
  from task_answer_came [OF reach t(1,5)] obtain m where "came_for env ls (qt_id t) (wants a) sp u m"
    "read_answer (we_wire env) (ask_expect (wants a)) m = Inr (Some (kind r))" using t(2-4) by auto
  moreover have "asked_peer env sp loc (gk_world g') a u" by (rule asked_peerI [OF ps au(1)])
  ultimately show thesis using that d by blast
qed

text \<open>Only the answer of the right kind is read as a value.\<close>

lemma read_kinds:
  "read_answer wa (ask_expect (AskGet a hash)) m = Inr (Some (GotOps ops)) \<longleftrightarrow> (\<exists>i. m = GetRes i ops)"
  "read_answer wa (ask_expect (AskLinks a key)) m = Inr (Some (GotLinks links)) \<longleftrightarrow> (\<exists>i. m = GetLinksRes i links)"
  "read_answer wa (ask_expect (AskCount a query)) m = Inr (Some (GotCount n)) \<longleftrightarrow> (\<exists>i. m = CountLinksRes i n)"
  "read_answer wa (ask_expect (AskActivity a agent flt opts)) m = Inr (Some (GotActivity act)) \<longleftrightarrow>
     (\<exists>i. m = GetAgentActivityRes i act)"
  "read_answer wa (ask_expect (AskMustGet a agent chain)) m = Inr (Some (GotMustGet mg)) \<longleftrightarrow>
     (\<exists>i. m = MustGetAgentActivityRes i mg)"
  by (cases m; auto simp: read_answer_def)+

section \<open>What the endpoints show\<close>

text \<open>How the handles of a request to the linker end, when they are those of the query system.\<close>

definition inputs_join :: "'w query_system \<Rightarrow> inputs \<Rightarrow> bool" where
  "inputs_join s inp \<longleftrightarrow>
     (\<forall>hash. joins_tasks s (\<lambda>a. AskGet a hash) GotOps (in_get inp hash)) \<and>
     (\<forall>key. joins_tasks s (\<lambda>a. AskLinks a key) GotLinks (in_links inp key)) \<and>
     (\<forall>query. joins_tasks s (\<lambda>a. AskCount a query) GotCount (in_count inp query)) \<and>
     (\<forall>agent flt opts. joins_tasks s (\<lambda>a. AskActivity a agent flt opts) GotActivity (in_activity inp agent flt opts)) \<and>
     (\<forall>agent chain. joins_tasks s (\<lambda>a. AskMustGet a agent chain) GotMustGet (in_must_get inp agent chain))"

text \<open>The body is that of no answer, or shows the content \<open>x\<close> of an answer \<open>msg i x\<close> that came in for a
  request sent in the space of the DNA \<open>d\<close> to a peer chosen for the location.\<close>

definition shown :: "('w, 'c, 'b) service_env \<Rightarrow> query_label list \<Rightarrow> 'w gateway option \<Rightarrow> dna_hash \<Rightarrow>
    (agent_pubkey \<Rightarrow> query_ask) \<Rightarrow> u32 \<Rightarrow> (u64 \<Rightarrow> 'r \<Rightarrow> wire_message) \<Rightarrow> ('r option \<Rightarrow> json) \<Rightarrow> json \<Rightarrow> bool" where
  "shown env ls gw d wants loc msg render j \<longleftrightarrow> j = render None \<or>
     (\<exists>g a u i x. gw = Some g \<and> asked_peer (se_ws env) (dna_to_space (we_k2 (se_ws env)) d) loc (gk_world g) a u \<and>
        came_for (se_ws env) ls i (wants a) (dna_to_space (we_k2 (se_ws env)) d) u (msg i x) \<and> j = render (Some x))"

text \<open>What each read endpoint asks for, from the path, the query string and the body of its request.\<close>

fun read_shows :: "('w, 'c, 'b) service_env \<Rightarrow> query_label list \<Rightarrow> 'b request \<Rightarrow> 'w gateway option \<Rightarrow> dna_hash \<Rightarrow> route \<Rightarrow> json \<Rightarrow> bool" where
  "read_shows env ls rq gw d RDhtRecord j = (\<exists>hash. parse_any_dht_hash (we_wire (se_ws env)) (path_param rq ''hash'') = Inr hash \<and>
     shown env ls gw d (\<lambda>a. AskGet a hash) (dht_loc (we_wire (se_ws env)) hash) GetRes
       (\<lambda>r. jf_dht_value (se_json env) (case r of Some ops \<Rightarrow> wire_ops_to_record_json (we_wire (se_ws env)) ops | None \<Rightarrow> DhtNull)) j)"
| "read_shows env ls rq gw d RDhtDetails j = (\<exists>hash. parse_any_dht_hash (we_wire (se_ws env)) (path_param rq ''hash'') = Inr hash \<and>
     shown env ls gw d (\<lambda>a. AskGet a hash) (dht_loc (we_wire (se_ws env)) hash) GetRes
       (\<lambda>r. jf_dht_value (se_json env) (case r of Some ops \<Rightarrow> wire_ops_to_details_json (we_wire (se_ws env)) ops | None \<Rightarrow> DhtNull)) j)"
| "read_shows env ls rq gw d RDhtLinks j = (\<exists>q base tag types. ex_links_query (se_extract env) rq = Inr q \<and>
     parse_any_linkable_hash (we_hash (se_ws env)) (we_wire (se_ws env)) (lqp_base q) = Inr base \<and>
     decode_tag (we_k2 (se_ws env)) (lqp_tag q) = Inr tag \<and> type_query q = Inr types \<and>
     shown env ls gw d (\<lambda>a. AskLinks a \<lparr>lk_base = base, lk_type_query = types, lk_tag = tag, lk_after = None,
         lk_before = None, lk_author = None\<rparr>) (linkable_loc (we_wire (se_ws env)) base) GetLinksRes
       (\<lambda>r. jf_links (se_json env) (case r of
          Some ops \<Rightarrow> wire_link_ops_to_links (we_wire (se_ws env)) base tag ops | None \<Rightarrow> [])) j)"
| "read_shows env ls rq gw d RDhtCountLinks j = (\<exists>q base tag types. ex_links_query (se_extract env) rq = Inr q \<and>
     parse_any_linkable_hash (we_hash (se_ws env)) (we_wire (se_ws env)) (lqp_base q) = Inr base \<and>
     decode_tag (we_k2 (se_ws env)) (lqp_tag q) = Inr tag \<and> type_query q = Inr types \<and>
     shown env ls gw d (\<lambda>a. AskCount a \<lparr>lq_base = base, lq_link_type = types, lq_tag_prefix = tag, lq_before = None,
         lq_after = None, lq_author = None\<rparr>) (linkable_loc (we_wire (se_ws env)) base) CountLinksRes
       (\<lambda>r. case r of None \<Rightarrow> JNumber 0
          | Some response \<Rightarrow> (case jf_count (se_json env) response of Inr v \<Rightarrow> v | Inl _ \<Rightarrow> JNumber 0)) j)"
| "read_shows env ls rq gw d RDhtAgentActivity j = (\<exists>q agent. ex_activity_query (se_extract env) rq = Inr q \<and>
     parse_agent_pubkey (we_hash (se_ws env)) (path_param rq ''agent_hash'') = Inr agent \<and>
     shown env ls gw d (\<lambda>a. AskActivity a agent (new_chain_query (we_wire (se_ws env))) (activity_options q))
       (agent_loc (we_wire (se_ws env)) agent) GetAgentActivityRes (json_option (jf_activity (se_json env))) j)"
| "read_shows env ls rq gw d RDhtMustGetAgentActivity j = (\<exists>body agent top. ex_must_get_body (se_extract env) rq = Inr body \<and>
     parse_agent_pubkey (we_hash (se_ws env)) (mg_agent body) = Inr agent \<and>
     parse_action_hash (we_wire (se_ws env)) (mg_chain_top body) = Inr top \<and>
     shown env ls gw d (\<lambda>a. AskMustGet a agent \<lparr>cf_chain_top = top, cf_limit_conditions = ToGenesis,
         cf_include_cached_entries = mg_include_cached_entries body\<rparr>)
       (agent_loc (we_wire (se_ws env)) agent) MustGetAgentActivityRes (json_option (jf_must_get (se_json env))) j)"
| "read_shows env ls rq gw d _ j = True"

text \<open>The endpoints that read the DHT.\<close>

definition reads_dht :: "route \<Rightarrow> bool" where
  "reads_dht route \<longleftrightarrow> route \<in> {RDhtRecord, RDhtDetails, RDhtLinks, RDhtCountLinks, RDhtAgentActivity, RDhtMustGetAgentActivity}"

lemma query_shown:
  assumes reach: "qreach (se_ws env) ls (qs_new p w) s" and joins: "joins_tasks s wants kind asks"
    and run: "run_query (we_k2 (se_ws env)) (we_wire (se_ws env)) (we_network (se_ws env)) useful d loc asks g = (g', Inr r)"
    and own: "spaces_ok (we_k2 (se_ws env)) (gk_spaces g)"
    and kinds: "\<And>a m x. read_answer (we_wire (se_ws env)) (ask_expect (wants a)) m = Inr (Some (kind x)) \<Longrightarrow> \<exists>i. m = msg i x"
    and ids: "\<And>i x. get_msg_id (msg i x) = Some i"
  shows "shown env ls (Some g') d wants loc msg render (render r)"
proof (cases r)
  case (Some x)
  with run have run: "run_query (we_k2 (se_ws env)) (we_wire (se_ws env)) (we_network (se_ws env)) useful d loc asks g = (g', Inr (Some x))" by simp
  obtain a u i m where peer: "asked_peer (se_ws env) (dna_to_space (we_k2 (se_ws env)) d) loc (gk_world g') a u"
    and came: "came_for (se_ws env) ls i (wants a) (dna_to_space (we_k2 (se_ws env)) d) u m"
    and m: "read_answer (we_wire (se_ws env)) (ask_expect (wants a)) m = Inr (Some (kind x))"
    by (rule query_answer_came [OF reach joins run own])
  from kinds [OF m] obtain k where k: "m = msg k x" by blast
  with came ids have "k = i" by (auto simp: came_for_def)
  with k peer came Some show ?thesis unfolding shown_def by blast
qed (simp add: shown_def)

text \<open>A read endpoint that answers 200 answers the JSON of its query's result.\<close>

lemma read_answered:
  assumes "on_gateway (\<lambda>gw. with_query gw arguments query render) jr st = (st', resp)" and "rs_status resp = 200"
  obtains q g g' r where "arguments = Inr q" and "query q g = (g', Inr r)" and "ls_gateway st' = Some g'"
    and "ls_gateway st = Some g"
    and "resp = json_ok (jr (render q r))"
proof -
  have err: "rs_status (error_into_response e) \<noteq> 200" for e
    using error_response_shape [of e] by auto
  obtain g where g: "ls_gateway st = Some g" using assms err
    by (cases "ls_gateway st") (auto simp: on_gateway_def with_query_def result_into_response_def)
  obtain q where q: "arguments = Inr q" using assms err g
    by (cases arguments) (auto simp: on_gateway_def with_query_def result_into_response_def)
  obtain g' o' where q': "query q g = (g', o')" by (metis surj_pair)
  obtain r where r: "o' = Inr r" using assms err g q q'
    by (cases o') (auto simp: on_gateway_def with_query_def result_into_response_def)
  show thesis
    by (rule that [OF q, of g g' r]) (use assms g q q' r in \<open>auto simp: on_gateway_def with_query_def result_into_response_def\<close>)
qed

lemma json_answer_ok [simp]: "json_ok j = json_ok k \<longleftrightarrow> j = k"
  by (simp add: json_ok_def)

lemma query_endpoint_shown:
  assumes reach: "qreach (se_ws env) ls (qs_new p w) s"
    and answered: "on_gateway (\<lambda>gw. with_query gw arguments query render) jr st = (st', json_ok j)"
    and own: "pred_option (\<lambda>g. spaces_ok (we_k2 (se_ws env)) (gk_spaces g)) (ls_gateway st)"
    and runs: "\<And>q. \<exists>useful. query q = run_query (we_k2 (se_ws env)) (we_wire (se_ws env)) (we_network (se_ws env)) useful
        (dna q) (loc q) (asks q)"
    and joins: "\<And>q. joins_tasks s (wants q) kind (asks q)"
    and kinds: "\<And>q a m x. read_answer (we_wire (se_ws env)) (ask_expect (wants q a)) m = Inr (Some (kind x)) \<Longrightarrow> \<exists>i. m = msg i x"
    and ids: "\<And>i x. get_msg_id (msg i x) = Some i"
  shows "\<exists>q. arguments = Inr q \<and> shown env ls (ls_gateway st') (dna q) (wants q) (loc q) msg (\<lambda>r. jr (render q r)) j"
proof -
  have "rs_status (json_ok j) = 200" by (simp add: json_ok_def)
  from read_answered [OF answered this] obtain q g g' r where q: "arguments = Inr q" and r: "query q g = (g', Inr r)"
    and g': "ls_gateway st' = Some g'"
    and g: "ls_gateway st = Some g" and j: "json_ok j = json_ok (jr (render q r))" .
  from runs [of q] obtain useful where "query q = run_query (we_k2 (se_ws env)) (we_wire (se_ws env)) (we_network (se_ws env))
      useful (dna q) (loc q) (asks q)" by blast
  with r have run: "run_query (we_k2 (se_ws env)) (we_wire (se_ws env)) (we_network (se_ws env)) useful (dna q) (loc q) (asks q) g =
      (g', Inr r)" by simp
  have "spaces_ok (we_k2 (se_ws env)) (gk_spaces g)" using own g by simp
  from query_shown [OF reach joins run this kinds ids, where render = "\<lambda>r. jr (render q r)"] q g' j show ?thesis by auto
qed

lemma inputs_joinD:
  assumes "inputs_join s inp"
  shows "joins_tasks s (\<lambda>a. AskGet a hash) GotOps (in_get inp hash)"
    and "joins_tasks s (\<lambda>a. AskLinks a key) GotLinks (in_links inp key)"
    and "joins_tasks s (\<lambda>a. AskCount a query) GotCount (in_count inp query)"
    and "joins_tasks s (\<lambda>a. AskActivity a agent flt opts) GotActivity (in_activity inp agent flt opts)"
    and "joins_tasks s (\<lambda>a. AskMustGet a agent chain) GotMustGet (in_must_get inp agent chain)"
  using assms by (simp_all add: inputs_join_def)

text \<open>The DNA of a request's path.\<close>

abbreviation (input) path_dna :: "('w, 'c, 'b) service_env \<Rightarrow> 'b request \<Rightarrow> dna_hash linker_result" where
  "path_dna env rq \<equiv> parse_dna_hash (we_hash (se_ws env)) (path_param rq ''dna_hash'')"

definition own_spaces :: "('w, 'c, 'b) service_env \<Rightarrow> ('w, 'c, 'a) linker_state \<Rightarrow> bool" where
  "own_spaces env st \<longleftrightarrow> pred_option (\<lambda>g. spaces_ok (we_k2 (se_ws env)) (gk_spaces g)) (ls_gateway st)"

lemma record_shown:
  assumes "qreach (se_ws env) ls (qs_new p w) s" and "inputs_join s inp" and own: "own_spaces env st"
  shows "handle_route env inp RDhtRecord rq st = (st', json_ok j) \<Longrightarrow>
      \<exists>d. path_dna env rq = Inr d \<and> read_shows env ls rq (ls_gateway st') d RDhtRecord j"
    and "handle_route env inp RDhtDetails rq st = (st', json_ok j) \<Longrightarrow>
      \<exists>d. path_dna env rq = Inr d \<and> read_shows env ls rq (ls_gateway st') d RDhtDetails j"
proof -
  let ?h = "we_hash (se_ws env)" and ?wa = "we_wire (se_ws env)" and ?k2 = "we_k2 (se_ws env)"
  have shown: "\<exists>q. record_arguments ?h ?wa (record_path_of rq) = Inr q \<and>
      shown env ls (ls_gateway st') (fst q) (\<lambda>a. AskGet a (snd q)) (dht_loc ?wa (snd q)) GetRes (\<lambda>r. jr (render q r)) j"
    if "on_gateway (\<lambda>gw. with_query gw (record_arguments ?h ?wa (record_path_of rq))
      (\<lambda>(d, hash). dq_get ?k2 ?wa (we_network (se_ws env)) d hash (in_get inp hash)) render) jr st = (st', json_ok j)"
    for render jr
    by (rule query_endpoint_shown [OF assms(1) that own [unfolded own_spaces_def], where kind = GotOps and asks = "\<lambda>q. in_get inp (snd q)"])
      (use assms(2) in \<open>auto simp: dq_get_def read_kinds get_msg_id_def inputs_joinD split: prod.split\<close>)
  have path: "record_arguments ?h ?wa (record_path_of rq) = Inr q \<Longrightarrow>
      path_dna env rq = Inr (fst q) \<and> parse_any_dht_hash ?wa (path_param rq ''hash'') = Inr (snd q)" for q
    by (auto simp: record_arguments_def record_path_of_def bind_result_Inr)
  show "\<exists>d. path_dna env rq = Inr d \<and> read_shows env ls rq (ls_gateway st') d RDhtRecord j"
    if "handle_route env inp RDhtRecord rq st = (st', json_ok j)"
    using shown [OF that [unfolded handle_route.simps dht_get_record_def]] path by (metis read_shows.simps(1))
  show "\<exists>d. path_dna env rq = Inr d \<and> read_shows env ls rq (ls_gateway st') d RDhtDetails j"
    if "handle_route env inp RDhtDetails rq st = (st', json_ok j)"
    using shown [OF that [unfolded handle_route.simps dht_get_details_def]] path by (metis read_shows.simps(2))
qed

lemma links_shown:
  assumes "qreach (se_ws env) ls (qs_new p w) s" and "inputs_join s inp" and own: "own_spaces env st"
    and "handle_route env inp RDhtLinks rq st = (st', json_ok j)" and "ex_links_query (se_extract env) rq = Inr q"
  shows "\<exists>d. path_dna env rq = Inr d \<and> read_shows env ls rq (ls_gateway st') d RDhtLinks j"
proof -
  let ?args = "links_arguments (we_hash (se_ws env)) (we_k2 (se_ws env)) (we_wire (se_ws env)) (path_param rq ''dna_hash'') q"
  have "\<exists>x. ?args = Inr x \<and> shown env ls (ls_gateway st') (fst x) (\<lambda>a. AskLinks a (snd x)) (linkable_loc (we_wire (se_ws env)) (lk_base (snd x)))
      GetLinksRes (\<lambda>r. jf_links (se_json env) ((\<lambda>(d, key) result. case result of
        Some ops \<Rightarrow> wire_link_ops_to_links (we_wire (se_ws env)) (lk_base key) (lk_tag key) ops | None \<Rightarrow> []) x r)) j"
    by (rule query_endpoint_shown [OF assms(1) assms(4) [unfolded handle_route.simps assms(5) extracted_def sum.case dht_get_links_def]
        own [unfolded own_spaces_def], where kind = GotLinks and asks = "\<lambda>x. in_links inp (snd x)"])
      (use assms(2) in \<open>auto simp: dq_get_links_def read_kinds get_msg_id_def inputs_joinD split: prod.split\<close>)
  with assms(5) show ?thesis by (auto simp: links_arguments_def bind_result_Inr cong: option.case_cong)
qed

lemma count_shown:
  assumes "qreach (se_ws env) ls (qs_new p w) s" and "inputs_join s inp" and own: "own_spaces env st"
    and "handle_route env inp RDhtCountLinks rq st = (st', json_ok j)" and "ex_links_query (se_extract env) rq = Inr q"
  shows "\<exists>d. path_dna env rq = Inr d \<and> read_shows env ls rq (ls_gateway st') d RDhtCountLinks j"
proof -
  let ?args = "count_arguments (we_hash (se_ws env)) (we_k2 (se_ws env)) (we_wire (se_ws env)) (path_param rq ''dna_hash'') q"
  have "\<exists>x. ?args = Inr x \<and> shown env ls (ls_gateway st') (fst x) (\<lambda>a. AskCount a (snd x)) (linkable_loc (we_wire (se_ws env)) (lq_base (snd x)))
      CountLinksRes (count_json (jf_count (se_json env))) j"
    by (rule query_endpoint_shown [OF assms(1) assms(4) [unfolded handle_route.simps assms(5) extracted_def sum.case dht_count_links_def]
        own [unfolded own_spaces_def], where kind = GotCount and asks = "\<lambda>x. in_count inp (snd x)"])
      (use assms(2) in \<open>auto simp: dq_count_links_def read_kinds get_msg_id_def inputs_joinD split: prod.split\<close>)
  moreover have "count_json (jf_count (se_json env)) = (\<lambda>r. case r of None \<Rightarrow> JNumber 0
      | Some response \<Rightarrow> (case jf_count (se_json env) response of Inr v \<Rightarrow> v | Inl _ \<Rightarrow> JNumber 0))"
    by (rule ext) (simp add: count_json_def split: option.split sum.split)
  ultimately show ?thesis using assms(5) by (auto simp: count_arguments_def bind_result_Inr)
qed

lemma activity_shown:
  assumes "qreach (se_ws env) ls (qs_new p w) s" and "inputs_join s inp" and own: "own_spaces env st"
    and "handle_route env inp RDhtAgentActivity rq st = (st', json_ok j)" and "ex_activity_query (se_extract env) rq = Inr q"
  shows "\<exists>d. path_dna env rq = Inr d \<and> read_shows env ls rq (ls_gateway st') d RDhtAgentActivity j"
proof -
  let ?wa = "we_wire (se_ws env)"
  have "\<exists>x. bind_result (path_dna env rq) (\<lambda>d.
        bind_result (parse_agent_pubkey (we_hash (se_ws env)) (path_param rq ''agent_hash'')) (\<lambda>agent. Inr (d, agent))) = Inr x \<and>
      shown env ls (ls_gateway st') (fst x) (\<lambda>a. AskActivity a (snd x) (new_chain_query ?wa) (activity_options q)) (agent_loc ?wa (snd x))
        GetAgentActivityRes (json_option (jf_activity (se_json env))) j"
    by (rule query_endpoint_shown [OF assms(1) assms(4) [unfolded handle_route.simps assms(5) extracted_def sum.case dht_get_agent_activity_def]
        own [unfolded own_spaces_def], where kind = GotActivity and asks = "\<lambda>x. in_activity inp (snd x) (new_chain_query ?wa) (activity_options q)"])
      (use assms(2) in \<open>auto simp: dq_get_agent_activity_def read_kinds get_msg_id_def inputs_joinD split: prod.split\<close>)
  with assms(5) show ?thesis by (auto simp: bind_result_Inr)
qed

lemma must_get_shown:
  assumes "qreach (se_ws env) ls (qs_new p w) s" and "inputs_join s inp" and own: "own_spaces env st"
    and "handle_route env inp RDhtMustGetAgentActivity rq st = (st', json_ok j)" and "ex_must_get_body (se_extract env) rq = Inr b"
  shows "\<exists>d. path_dna env rq = Inr d \<and> read_shows env ls rq (ls_gateway st') d RDhtMustGetAgentActivity j"
proof -
  let ?wa = "we_wire (se_ws env)"
  let ?chain = "\<lambda>top. \<lparr>cf_chain_top = top, cf_limit_conditions = ToGenesis, cf_include_cached_entries = mg_include_cached_entries b\<rparr>"
  have "\<exists>x. bind_result (path_dna env rq) (\<lambda>d.
        bind_result (parse_agent_pubkey (we_hash (se_ws env)) (mg_agent b)) (\<lambda>agent.
        bind_result (parse_action_hash ?wa (mg_chain_top b)) (\<lambda>top. Inr (d, agent, top)))) = Inr x \<and>
      shown env ls (ls_gateway st') (fst x) (\<lambda>a. AskMustGet a (fst (snd x)) (?chain (snd (snd x)))) (agent_loc ?wa (fst (snd x)))
        MustGetAgentActivityRes (json_option (jf_must_get (se_json env))) j"
    by (rule query_endpoint_shown [OF assms(1) assms(4) [unfolded handle_route.simps assms(5) extracted_def sum.case dht_must_get_agent_activity_def]
        own [unfolded own_spaces_def], where kind = GotMustGet and asks = "\<lambda>x. in_must_get inp (fst (snd x)) (?chain (snd (snd x)))"])
      (use assms(2) in \<open>auto simp: dq_must_get_agent_activity_def read_kinds get_msg_id_def inputs_joinD split: prod.split\<close>)
  with assms(5) show ?thesis by (auto simp: bind_result_Inr)
qed

section \<open>Properties\<close>

text \<open>axum answers a request whose query string or body it cannot read with a 4xx.\<close>

definition rejections_fail :: "'b extractors \<Rightarrow> bool" where
  "rejections_fail x \<longleftrightarrow> (\<forall>rq resp. ex_links_query x rq = Inl resp \<or> ex_activity_query x rq = Inl resp \<or>
     ex_must_get_body x rq = Inl resp \<longrightarrow> 400 \<le> rs_status resp)"

lemma rejection_not_ok:
  assumes "rejections_fail x"
  shows "ex_links_query x rq \<noteq> Inl (json_ok j)" and "ex_activity_query x rq \<noteq> Inl (json_ok j)"
    and "ex_must_get_body x rq \<noteq> Inl (json_ok j)"
proof -
  have "\<not> 400 \<le> rs_status (json_ok j)" by (simp add: json_ok_def)
  with assms show "ex_links_query x rq \<noteq> Inl (json_ok j)" "ex_activity_query x rq \<noteq> Inl (json_ok j)"
    "ex_must_get_body x rq \<noteq> Inl (json_ok j)" unfolding rejections_fail_def by blast+
qed

text \<open>C7. From the network to the client. Whatever requests are under way at once and in whatever order their
  steps, timers and the batches of the network come: what a read endpoint (record, details, links, link count,
  agent activity, must-get agent activity) answers with a 200 is its empty answer, or shows the content of a
  message of the kind asked for that came in a batch and carries the id of a request that was sent in the space
  of the DNA in the request's path, for the hash, base and filters or agent of the HTTP request, to one of the
  three first live peers whose arc covers the location. (A link count is shown as the network's response
  serializes, and as the number zero when there is none. What a handle yields is the result of the task spawned
  for that peer and question: this is \<open>inputs_join\<close>.)\<close>

theorem reads_show_answers:
  assumes "qreach (se_ws env) ls (qs_new p w) s" and "inputs_join s inp" and "rejections_fail (se_extract env)"
    and "own_spaces env st" and "reads_dht route" and "handle_route env inp route rq st = (st', json_ok j)"
  shows "\<exists>d. parse_dna_hash (we_hash (se_ws env)) (path_param rq ''dna_hash'') = Inr d \<and>
    read_shows env ls rq (ls_gateway st') d route j"
proof (cases route)
  case RDhtLinks
  from assms(3,6) RDhtLinks rejection_not_ok(1) obtain q where "ex_links_query (se_extract env) rq = Inr q"
    by (cases "ex_links_query (se_extract env) rq") (auto simp: extracted_def)
  with links_shown [OF assms(1,2,4)] assms(6) RDhtLinks show ?thesis by blast
next
  case RDhtCountLinks
  from assms(3,6) RDhtCountLinks rejection_not_ok(1) obtain q where "ex_links_query (se_extract env) rq = Inr q"
    by (cases "ex_links_query (se_extract env) rq") (auto simp: extracted_def)
  with count_shown [OF assms(1,2,4)] assms(6) RDhtCountLinks show ?thesis by blast
next
  case RDhtAgentActivity
  from assms(3,6) RDhtAgentActivity rejection_not_ok(2) obtain q where "ex_activity_query (se_extract env) rq = Inr q"
    by (cases "ex_activity_query (se_extract env) rq") (auto simp: extracted_def)
  with activity_shown [OF assms(1,2,4)] assms(6) RDhtAgentActivity show ?thesis by blast
next
  case RDhtMustGetAgentActivity
  from assms(3,6) RDhtMustGetAgentActivity rejection_not_ok(3) obtain b where "ex_must_get_body (se_extract env) rq = Inr b"
    by (cases "ex_must_get_body (se_extract env) rq") (auto simp: extracted_def)
  with must_get_shown [OF assms(1,2,4)] assms(6) RDhtMustGetAgentActivity show ?thesis by blast
next
  case RDhtRecord
  with record_shown(1) [OF assms(1,2,4)] assms(6) show ?thesis by blast
next
  case RDhtDetails
  with record_shown(2) [OF assms(1,2,4)] assms(6) show ?thesis by blast
qed (use assms(5) in \<open>simp_all add: reads_dht_def\<close>)

section \<open>A read\<close>

text \<open>A record asked for over HTTP while the request of \<open>get_run\<close> was answered.\<close>

definition read_extract :: "unit extractors" where
  "read_extract = (let bad = (\<lambda>_. reply BAD_REQUEST EmptyBody) in
     \<lparr>ex_links_query = Inl \<circ> bad, ex_activity_query = Inl \<circ> bad, ex_must_get_body = Inl \<circ> bad,
      ex_publish_body = Inl \<circ> bad, ex_payload = Inl \<circ> bad, ex_test_signal = Inl \<circ> bad,
      ex_add_agent = Inl \<circ> bad, ex_remove_agent = Inl \<circ> bad, ex_upgrade = Inl \<circ> bad\<rparr>)"

definition record_json :: json_forms where
  "record_json = plain_json\<lparr>jf_dht_value := \<lambda>v. JBool (v \<noteq> DhtNull)\<rparr>"

definition reading_service :: "(unit, nat, unit) service_env" where
  "reading_service = \<lparr>se_ws = getting_env sample_record_ops, se_ops = plain_ops, se_zome = plain_zome,
     se_conductor = sample_conductor, se_extract = read_extract, se_json = record_json,
     se_space_b64 = (\<lambda>s. Inr (bytes_of_text s)), se_version = ''0''\<rparr>"

definition record_request :: "unit request" where
  "record_request = \<lparr>rq_method = GET, rq_path = [], rq_headers = [],
     rq_params = [(''dna_hash'', ''d'' @ text_of_bytes [7]), (''hash'', ''e'')], rq_context = None, rq_body = ()\<rparr>"

definition get_inputs :: inputs where
  "get_inputs = silent_inputs\<lparr>in_get := \<lambda>hash sp (a, u).
     if hash = DhtEntry (EntryHash []) \<and> sp = SpaceId [7] \<and> a = AgentPubKey [1] \<and> u = ''b''
     then Joined (Inr (Some sample_record_ops)) else JoinFailed\<rparr>"

lemma get_inputs_join: "inputs_join (get_state pd (RqDone (got sample_record_ops)) ts ms) get_inputs"
  by (auto simp: inputs_join_def joins_tasks_def get_inputs_def silent_inputs_def get_state_def get_task_def got_def
    split: if_splits)

lemma record_query: "dq_get plain_k2 (we_wire (getting_env ops)) query_network dna_a (DhtEntry (EntryHash []))
    (in_get get_inputs (DhtEntry (EntryHash []))) (gk_new ()) =
    (\<lparr>gk_spaces = [(dna_a, SpaceId [7])], gk_agents = [], gk_world = ()\<rparr>, Inr (Some sample_record_ops))"
  by (simp add: dq_get_def run_query_def get_or_create_space_def gk_new_def plain_k2_def dna_a_def query_network_def
    quiet_network_def Let_def hm_insert_def hm_remove_def get_peers_for_location_def List.map_filter_def
    peer_for_location_def peer_at_def getting_env_def plain_env_def plain_wire_def get_inputs_def
    PARALLEL_GET_AGENTS_COUNT_def is_wire_ops_empty_def sample_record_ops_def)

lemma record_request_arguments:
  "record_arguments plain_holo_hash (we_wire (getting_env ops)) (record_path_of record_request) =
     Inr (dna_a, DhtEntry (EntryHash []))"
  by (simp add: record_arguments_def record_path_of_def record_request_def path_param_def parse_dna_hash_def
    plain_holo_hash_def dna_a_def parse_any_dht_hash_def getting_env_def plain_env_def plain_wire_def bytes_of_text_def
    text_of_bytes_def)

lemma record_answer: "handle_route reading_service get_inputs RDhtRecord record_request fresh_linker =
    (fresh_linker\<lparr>ls_gateway := Some \<lparr>gk_spaces = [(dna_a, SpaceId [7])], gk_agents = [], gk_world = ()\<rparr>\<rparr>, json_ok (JBool True))"
proof -
  have env: "se_ws reading_service = getting_env sample_record_ops" "we_hash (getting_env ops) = plain_holo_hash"
    "we_k2 (getting_env ops) = plain_k2" "we_network (getting_env ops) = query_network" for ops
    by (simp_all add: reading_service_def getting_env_def plain_env_def)
  have shown: "wire_ops_to_record_json wa sample_record_ops \<noteq> DhtNull" for wa
    by (simp add: wire_ops_to_record_json_def wire_record_ops_to_record_def sample_record_ops_def)
  have start: "ls_gateway fresh_linker = Some (gk_new ())" by (simp add: fresh_linker_def)
  show ?thesis
    by (simp add: env start on_gateway_def dht_get_record_def with_query_def record_request_arguments record_query
      result_into_response_def) (simp add: reading_service_def record_json_def shown)
qed

theorem reads_show_answers_witness:
  "\<exists>a u i ops. came_for (getting_env sample_record_ops) get_trace i (AskGet a (DhtEntry (EntryHash []))) (SpaceId [7]) u (GetRes i ops)"
proof -
  have env: "se_ws reading_service = getting_env sample_record_ops" "se_json reading_service = record_json"
    by (simp_all add: reading_service_def)
  have rej: "rejections_fail (se_extract reading_service)"
    by (simp add: reading_service_def read_extract_def rejections_fail_def Let_def)
  have own: "own_spaces reading_service fresh_linker"
    by (simp add: own_spaces_def fresh_linker_def gk_new_def spaces_ok_def)
  have hash: "parse_any_dht_hash (we_wire (getting_env sample_record_ops)) (path_param record_request ''hash'') =
      Inr (DhtEntry (EntryHash []))"
    by (simp add: record_request_def path_param_def parse_any_dht_hash_def getting_env_def plain_env_def plain_wire_def
      bytes_of_text_def)
  have dna: "parse_dna_hash (we_hash (getting_env sample_record_ops)) (path_param record_request ''dna_hash'') = Inr dna_a"
    using record_request_arguments by (auto simp: record_arguments_def record_path_of_def bind_result_Inr getting_env_def plain_env_def)
  have space: "dna_to_space (we_k2 (getting_env sample_record_ops)) dna_a = SpaceId [7]"
    by (simp add: getting_env_def plain_env_def plain_k2_def dna_a_def)
  from reads_show_answers [OF get_run [where ops = sample_record_ops, folded env(1)] get_inputs_join rej own _ record_answer]
  obtain a u i ops where
    "came_for (getting_env sample_record_ops) get_trace i (AskGet a (DhtEntry (EntryHash []))) (SpaceId [7]) u (GetRes i ops)"
    by (auto simp: reads_dht_def env hash dna space shown_def record_json_def)
  then show ?thesis by blast
qed

end
