(* ===== verification/Zome_System.thy ===== *)
theory Zome_System imports Zome_Call Runs "HOL-Library.Multiset" begin

text \<open>
  Zome calls at once (\<open>src/conductor/app_conn.rs\<close>, \<open>src/conductor/admin_conn.rs\<close>). A call is a task cut
  where it awaits the conductor or a lock; tasks share the admin handle, the cached list of apps and the
  cached connections, and their steps interleave in any order. A task that connects to an app holds the
  write lock of the connections for the whole of it, so that no other task reads or writes them. A client
  that goes away drops its task, at any point, with the lock it may hold.
\<close>

section \<open>Tasks\<close>

record zome_job =
  zj_dna :: dna_hash
  zj_zome :: string
  zj_fn :: string
  zj_payload :: bytes

text \<open>Where \<open>connect_app\<close> is: the call of the conductor it is about to make.\<close>

datatype connect_stage =
    NeedAdmin
  | NeedToken admin_ws
  | NeedInterfaces admin_ws bytes
  | NeedAttach admin_ws bytes
  | NeedSocket admin_ws bytes nat
  | NeedCredentials admin_ws app_ws "cell_info list" "(cell_id \<times> bytes) list"

datatype zome_task =
    ZtSearch
  | ZtList nat
  | ZtListing nat admin_ws
  | ZtReset nat
  | ZtStore "app_info list"
  | ZtConnect string cell_id
  | ZtConnecting string cell_id connect_stage
  | ZtCall string app_connection cell_id
  | ZtDone "bytes linker_result"
  | ZtDropped

text \<open>The result of a call of the conductor sends the task on, or ends it.\<close>

definition go_on :: "('a \<Rightarrow> zome_task) \<Rightarrow> 'c app_conn \<times> 'a linker_result \<Rightarrow> 'c app_conn \<times> zome_task" where
  "go_on next_task sr = (case sr of (s, Inl e) \<Rightarrow> (s, ZtDone (Inl e)) | (s, Inr x) \<Rightarrow> (s, next_task x))"

fun connect_step :: "'c conductor \<Rightarrow> string \<Rightarrow> cell_id \<Rightarrow> connect_stage \<Rightarrow> 'c app_conn \<Rightarrow> 'c app_conn \<times> zome_task" where
  "connect_step cd a c NeedAdmin s = go_on (\<lambda>admin. ZtConnecting a c (NeedToken admin)) (admin_get_or_connect cd s)"
| "connect_step cd a c (NeedToken admin) s =
     go_on (\<lambda>token. ZtConnecting a c (NeedInterfaces admin token)) (ask (cd_issue_token cd admin a) holochain_error s)"
| "connect_step cd a c (NeedInterfaces admin token) s =
     go_on (\<lambda>ifaces. ZtConnecting a c (case find (\<lambda>i. if_allowed i GATEWAY_ORIGIN) ifaces of
          Some i \<Rightarrow> NeedSocket admin token (if_port i) | None \<Rightarrow> NeedAttach admin token))
       (ask (cd_list_app_interfaces cd admin) holochain_error s)"
| "connect_step cd a c (NeedAttach admin token) s =
     go_on (\<lambda>port. ZtConnecting a c (NeedSocket admin token port))
       (ask (cd_attach_app_interface cd admin GATEWAY_ORIGIN) holochain_error s)"
| "connect_step cd a c (NeedSocket admin token port) s =
     go_on (\<lambda>ws. ZtConnecting a c (NeedCredentials admin ws (concat (map snd (an_cell_info (cd_cached_app_info cd ws)))) []))
       (ask (cd_connect_app cd port GATEWAY_ORIGIN token) (\<lambda>_. UpstreamUnavailable) s)"
| "connect_step cd a c (NeedCredentials admin ws (Provisioned i # cells) creds) s =
     go_on (\<lambda>cr. ZtConnecting a c (NeedCredentials admin ws cells (creds @ [(i, cr)])))
       (ask (cd_authorize cd admin i) holochain_error s)"
| "connect_step cd a c (NeedCredentials admin ws (OtherCell _ # cells) creds) s =
     (s, ZtConnecting a c (NeedCredentials admin ws cells creds))"
| "connect_step cd a c (NeedCredentials admin ws [] creds) s =
     (let aw = \<lparr>aw_ws = ws, aw_credentials = creds\<rparr>
      in (s\<lparr>ac_connections := hm_insert a aw (ac_connections s)\<rparr>, ZtCall a aw c))"

text \<open>A task's next step. \<open>ZtConnect\<close> is \<open>get_or_connect\<close> once the lock is its own.\<close>

fun zt_step :: "holo_hash_api \<Rightarrow> 'c conductor \<Rightarrow> zome_job \<Rightarrow> zome_task \<Rightarrow> 'c app_conn \<Rightarrow> 'c app_conn \<times> zome_task" where
  "zt_step h cd j ZtSearch s = (s, case find_in_apps (ac_app_info_cache s) (zj_dna j) of
     Some (app, c) \<Rightarrow> ZtConnect (an_installed_app_id app) c | None \<Rightarrow> ZtList 2)"
| "zt_step h cd j (ZtList 0) s = (s, ZtDone (Inl UpstreamUnavailable))"
| "zt_step h cd j (ZtList (Suc n)) s = go_on (ZtListing n) (admin_get_or_connect cd s)"
| "zt_step h cd j (ZtListing n ws) s = (case cd_list_apps cd ws (ac_conductor s) of
     (w, Inr apps) \<Rightarrow> (s\<lparr>ac_conductor := w\<rparr>, ZtStore apps)
   | (w, Inl (WebsocketError _)) \<Rightarrow> (s\<lparr>ac_conductor := w\<rparr>, ZtReset n)
   | (w, Inl e) \<Rightarrow> (s\<lparr>ac_conductor := w\<rparr>, ZtDone (Inl (holochain_error e))))"
| "zt_step h cd j (ZtReset n) s = (s\<lparr>ac_admin_handle := None\<rparr>, ZtList n)"
| "zt_step h cd j (ZtStore apps) s = (s\<lparr>ac_app_info_cache := apps\<rparr>, case find_in_apps apps (zj_dna j) of
     Some (app, c) \<Rightarrow> ZtConnect (an_installed_app_id app) c
   | None \<Rightarrow> ZtDone (Inl (NotFound (''No app found with DNA '' @ dna_to_string h (zj_dna j)))))"
| "zt_step h cd j (ZtConnect a c) s = (s, case hm_get (ac_connections s) a of
     Some aw \<Rightarrow> ZtCall a aw c | None \<Rightarrow> ZtConnecting a c NeedAdmin)"
| "zt_step h cd j (ZtConnecting a c stage) s = connect_step cd a c stage s"
| "zt_step h cd j (ZtCall a aw c) s = (case ask (cd_call_zome cd aw c (zj_zome j) (zj_fn j) (zj_payload j)) holochain_error s of
     (s', r) \<Rightarrow> (s', ZtDone r))"
| "zt_step h cd j (ZtDone r) s = (s, ZtDone r)"
| "zt_step h cd j ZtDropped s = (s, ZtDropped)"

section \<open>The system\<close>

fun ended :: "zome_task \<Rightarrow> bool" where
  "ended (ZtDone _) = True"
| "ended ZtDropped = True"
| "ended _ = False"

fun holds_lock :: "zome_task \<Rightarrow> bool" where
  "holds_lock (ZtConnecting _ _ _) = True"
| "holds_lock _ = False"

fun wants_lock :: "zome_task \<Rightarrow> bool" where
  "wants_lock (ZtConnect _ _) = True"
| "wants_lock _ = False"

record 'c zome_system =
  zs_conn :: "'c app_conn"
  zs_tasks :: "(zome_job \<times> zome_task) list"

definition zs_new :: "'c \<Rightarrow> 'c zome_system" where
  "zs_new w = \<lparr>zs_conn = app_conn_new w, zs_tasks = []\<rparr>"

text \<open>Besides the tasks, the conductor may change by itself at any time.\<close>

datatype 'c zome_label = ZArrive zome_job | ZRun nat | ZDrop nat | ZWorld 'c

definition lock_free :: "'c zome_system \<Rightarrow> bool" where
  "lock_free z \<longleftrightarrow> \<not> list_ex (\<lambda>jt. holds_lock (snd jt)) (zs_tasks z)"

inductive zstep :: "holo_hash_api \<Rightarrow> 'c conductor \<Rightarrow> 'c zome_label \<Rightarrow> 'c zome_system \<Rightarrow> 'c zome_system \<Rightarrow> bool" for h cd where
  arrive: "zstep h cd (ZArrive j) z (z\<lparr>zs_tasks := zs_tasks z @ [(j, ZtSearch)]\<rparr>)"
| run: "zstep h cd (ZRun k) z \<lparr>zs_conn = s, zs_tasks = (zs_tasks z)[k := (j, t')]\<rparr>"
    if "k < length (zs_tasks z)" and "zs_tasks z ! k = (j, t)" and "\<not> ended t" and "wants_lock t \<longrightarrow> lock_free z"
    and "zt_step h cd j t (zs_conn z) = (s, t')"
| dropped: "zstep h cd (ZDrop k) z (z\<lparr>zs_tasks := (zs_tasks z)[k := (j, ZtDropped)]\<rparr>)"
    if "k < length (zs_tasks z)" and "zs_tasks z ! k = (j, t)" and "\<not> ended t"
| outside: "zstep h cd (ZWorld w) z (z\<lparr>zs_conn := (zs_conn z)\<lparr>ac_conductor := w\<rparr>\<rparr>)"

section \<open>What holds of every task\<close>

fun task_ok :: "'c conductor \<Rightarrow> 'c app_conn \<Rightarrow> zome_job \<Rightarrow> zome_task \<Rightarrow> bool" where
  "task_ok cd s j (ZtConnect a c) \<longleftrightarrow> ci_dna_hash c = zj_dna j"
| "task_ok cd s j (ZtConnecting a c stage) \<longleftrightarrow> ci_dna_hash c = zj_dna j \<and> hm_get (ac_connections s) a = None \<and>
     (case stage of NeedCredentials admin ws cells creds \<Rightarrow> map fst creds @
        List.map_filter (\<lambda>c. case c of Provisioned i \<Rightarrow> Some i | OtherCell _ \<Rightarrow> None) cells = provisioned (cd_cached_app_info cd ws)
      | _ \<Rightarrow> True)"
| "task_ok cd s j (ZtCall a aw c) \<longleftrightarrow> ci_dna_hash c = zj_dna j \<and> hm_get (ac_connections s) a = Some aw"
| "task_ok cd s j _ \<longleftrightarrow> True"

definition zs_ok :: "'c conductor \<Rightarrow> 'c zome_system \<Rightarrow> bool" where
  "zs_ok cd z \<longleftrightarrow> (\<forall>a aw. hm_get (ac_connections (zs_conn z)) a = Some aw \<longrightarrow> authorised_connection cd aw) \<and>
     (\<forall>(j, t) \<in> set (zs_tasks z). task_ok cd (zs_conn z) j t) \<and>
     length (filter (\<lambda>jt. holds_lock (snd jt)) (zs_tasks z)) \<le> 1"

lemma zs_new_ok: "zs_ok cd (zs_new w)"
  by (simp add: zs_ok_def zs_new_def app_conn_new_def hm_get_def)

text \<open>What one step does to the connections: nothing, or the lock's holder adds its own.\<close>

lemma go_on_fst [simp]: "fst (go_on g sr) = fst sr"
  by (auto simp: go_on_def split: prod.split sum.split)

lemma ask_connections [simp]: "ac_connections (fst (ask f err s)) = ac_connections s"
  using keeps_ask [of f err] by (simp add: keeps_connections_def)

lemma ask_connectionsD: "ask f err s = (t, r) \<Longrightarrow> ac_connections t = ac_connections s"
  by (rule keepsD [OF keeps_ask])

lemma admin_connections [simp]: "ac_connections (fst (admin_get_or_connect cd s)) = ac_connections s"
  using keeps_admin [of cd] by (simp add: keeps_connections_def)

text \<open>The lock's holder leaves the connections alone, or adds its own as its last step.\<close>

lemma connect_step_connections:
  "ac_connections (fst (connect_step cd a c stage s)) = ac_connections s \<or>
     (\<exists>admin ws creds. stage = NeedCredentials admin ws [] creds)"
  by (cases "(cd, a, c, stage, s)" rule: connect_step.cases) auto

lemma zt_step_connections:
  "ac_connections (fst (zt_step h cd j t s)) = ac_connections s \<or>
     (\<exists>a c admin ws creds. t = ZtConnecting a c (NeedCredentials admin ws [] creds))"
proof (cases "(h, cd, j, t, s)" rule: zt_step.cases)
  case (8 h cd j a c stage s)
  with connect_step_connections [of cd a c stage s] show ?thesis by auto
qed (auto split: prod.split sum.split conductor_api_error.split dest: ask_connectionsD)

text \<open>What a task's step makes of the task, given the connections it leaves.\<close>

lemma connect_step_ok:
  assumes "task_ok cd s j (ZtConnecting a c stage)" and "connect_step cd a c stage s = (s', t')"
  shows "task_ok cd s' j t'"
proof -
  have step: "task_ok cd s' j t'"
    if "go_on (\<lambda>x. ZtConnecting a c (f x)) sr = (s', t')" and "ac_connections (fst sr) = ac_connections s"
      and "\<And>x. task_ok cd s j (ZtConnecting a c (f x))" for f :: "'x \<Rightarrow> connect_stage" and sr
    using that by (cases sr; cases "snd sr") (auto simp: go_on_def)
  show ?thesis
    using assms
  proof (cases "(cd, a, c, stage, s)" rule: connect_step.cases)
    case (8 cd a c admin ws creds s)
    with assms show ?thesis by (auto simp: Let_def)
  qed (auto intro!: step simp: List.map_filter_simps provisioned_def split: option.split)
qed

lemma zt_step_ok:
  assumes "task_ok cd s j t" and "zt_step h cd j t s = (s', t')"
  shows "task_ok cd s' j t'"
  using assms
proof (cases "(h, cd, j, t, s)" rule: zt_step.cases)
  case (1 h cd j s)
  with assms show ?thesis by (auto split: option.splits dest: find_in_apps_dna)
next
  case (6 h cd j apps s)
  with assms show ?thesis by (auto split: option.splits dest: find_in_apps_dna)
next
  case (8 h cd j a c stage s)
  with assms show ?thesis by (auto intro: connect_step_ok)
qed (auto simp: go_on_def split: option.splits prod.splits sum.splits conductor_api_error.splits)

text \<open>A step of one task keeps what holds of the others: only the lock's holder changes the connections,
  and of an app that no other task is connecting to.\<close>

lemma zt_step_connects:
  assumes "zt_step h cd j t s = (s', t')" and "task_ok cd s j t" and "ac_connections s' \<noteq> ac_connections s"
  obtains a aw where "holds_lock t" and "hm_get (ac_connections s) a = None" and "authorised_connection cd aw"
    and "ac_connections s' = hm_insert a aw (ac_connections s)"
proof -
  from zt_step_connections [of h cd j t s] assms(1,3) obtain a c admin ws creds
    where t: "t = ZtConnecting a c (NeedCredentials admin ws [] creds)" by auto
  with assms(1) have "ac_connections s' = hm_insert a \<lparr>aw_ws = ws, aw_credentials = creds\<rparr> (ac_connections s)"
    by (auto simp: Let_def)
  moreover have "authorised_connection cd \<lparr>aw_ws = ws, aw_credentials = creds\<rparr>"
    using assms(2) t by (simp add: authorised_connection_def List.map_filter_simps)
  ultimately show thesis using that assms(2) t by auto
qed

lemma other_task_ok:
  assumes "task_ok cd s j t" and "\<not> holds_lock t" and "zt_step h cd i u s = (s', u')" and "task_ok cd s i u"
  shows "task_ok cd s' j t"
proof (cases "ac_connections s' = ac_connections s")
  case True
  with assms(1) show ?thesis by (cases t) auto
next
  case False
  from zt_step_connects [OF assms(3,4) False] obtain a aw
    where "hm_get (ac_connections s) a = None" and "ac_connections s' = hm_insert a aw (ac_connections s)" by blast
  with assms(1,2) show ?thesis by (cases t) auto
qed

lemma unlocked_task_ok:
  assumes "task_ok cd s j t" and "ac_connections s' = ac_connections s"
  shows "task_ok cd s' j t"
  using assms by (cases t) auto

text \<open>At most one task holds the lock.\<close>

definition holders :: "'c zome_system \<Rightarrow> nat" where
  "holders z = length (filter (\<lambda>jt. holds_lock (snd jt)) (zs_tasks z))"

lemma filter_update_length:
  assumes "k < length xs"
  shows "length (filter P (xs[k := x])) + (if P (xs ! k) then 1 else 0) = length (filter P xs) + (if P x then 1 else 0)"
proof -
  have "length (filter P xs) = length (filter P (take k xs @ xs ! k # drop (Suc k) xs))"
    by (rule arg_cong [where f = "\<lambda>ys. length (filter P ys)"]) (rule id_take_nth_drop [OF assms])
  then show ?thesis unfolding upd_conv_take_nth_drop [OF assms] by simp
qed

lemma two_holders:
  assumes "n < length (zs_tasks z)" and "k < length (zs_tasks z)" and "n \<noteq> k"
    and "holds_lock (snd (zs_tasks z ! n))" and "holds_lock (snd (zs_tasks z ! k))"
  shows "2 \<le> holders z"
proof -
  let ?ts = "(zs_tasks z)[k := (fst (zs_tasks z ! k), ZtDropped)]"
  have "?ts ! n \<in> set (filter (\<lambda>jt. holds_lock (snd jt)) ?ts)"
    using assms by (auto simp: in_set_conv_nth)
  then have "0 < length (filter (\<lambda>jt. holds_lock (snd jt)) ?ts)" by (rule length_pos_if_in_set)
  with filter_update_length [OF assms(2), of "\<lambda>jt. holds_lock (snd jt)" "(fst (zs_tasks z ! k), ZtDropped)"] assms(5)
  show ?thesis by (simp add: holders_def del: length_greater_0_conv)
qed

lemma lock_free_holders: "lock_free z \<longleftrightarrow> holders z = 0"
  by (auto simp: lock_free_def holders_def list_ex_iff filter_empty_conv)

lemma takes_lock: "zt_step h cd j t s = (s', t') \<Longrightarrow> holds_lock t' \<Longrightarrow> holds_lock t \<or> wants_lock t"
  by (cases "(h, cd, j, t, s)" rule: zt_step.cases)
    (auto simp: go_on_def split: option.splits prod.splits sum.splits conductor_api_error.splits)

lemma zs_okI:
  assumes "zs_ok cd z" and "\<And>a aw. hm_get (ac_connections (zs_conn z')) a = Some aw \<Longrightarrow>
      hm_get (ac_connections (zs_conn z)) a = Some aw \<or> authorised_connection cd aw"
    and "\<And>j t. (j, t) \<in> set (zs_tasks z') \<Longrightarrow> task_ok cd (zs_conn z') j t" and "holders z' \<le> 1"
  shows "zs_ok cd z'"
  using assms unfolding zs_ok_def holders_def by (fastforce split: prod.splits)

lemma zs_okD:
  assumes "zs_ok cd z"
  shows "hm_get (ac_connections (zs_conn z)) a = Some aw \<Longrightarrow> authorised_connection cd aw"
    and "(j, t) \<in> set (zs_tasks z) \<Longrightarrow> task_ok cd (zs_conn z) j t" and "holders z \<le> 1"
  using assms by (auto simp: zs_ok_def holders_def)

lemma zstep_run_ok:
  assumes ok: "zs_ok cd z" and k: "k < length (zs_tasks z)" "zs_tasks z ! k = (j, t)"
    and lock: "wants_lock t \<longrightarrow> lock_free z" and step: "zt_step h cd j t (zs_conn z) = (s, t')"
  shows "zs_ok cd \<lparr>zs_conn = s, zs_tasks = (zs_tasks z)[k := (j, t')]\<rparr>"
proof (rule zs_okI [OF ok])
  let ?z = "\<lparr>zs_conn = s, zs_tasks = (zs_tasks z)[k := (j, t')]\<rparr>"
  have mem: "(i, u) \<in> set (zs_tasks z)" if "n < length (zs_tasks z)" "zs_tasks z ! n = (i, u)" for n i u
    using that by (metis nth_mem)
  note t_ok = zs_okD(2) [OF ok mem [OF k]]
  fix a aw assume get: "hm_get (ac_connections (zs_conn ?z)) a = Some aw"
  show "hm_get (ac_connections (zs_conn z)) a = Some aw \<or> authorised_connection cd aw"
  proof (cases "ac_connections s = ac_connections (zs_conn z)")
    case False
    from zt_step_connects [OF step t_ok False] obtain a0 aw0 where "authorised_connection cd aw0"
      and "ac_connections s = hm_insert a0 aw0 (ac_connections (zs_conn z))" by blast
    with get show ?thesis by (cases "a = a0") simp_all
  qed (use get in simp)
next
  fix i u assume "(i, u) \<in> set (zs_tasks \<lparr>zs_conn = s, zs_tasks = (zs_tasks z)[k := (j, t')]\<rparr>)"
  then obtain n where n: "n < length (zs_tasks z)" "(zs_tasks z)[k := (j, t')] ! n = (i, u)"
    by (auto simp: in_set_conv_nth)
  have mem: "(i, u) \<in> set (zs_tasks z)" if "n < length (zs_tasks z)" "zs_tasks z ! n = (i, u)" for n i u
    using that by (metis nth_mem)
  note t_ok = zs_okD(2) [OF ok mem [OF k]]
  show "task_ok cd (zs_conn \<lparr>zs_conn = s, zs_tasks = (zs_tasks z)[k := (j, t')]\<rparr>) i u"
  proof (cases "n = k")
    case True
    with n k zt_step_ok [OF t_ok step] show ?thesis by simp
  next
    case False
    with n(2) have u: "zs_tasks z ! n = (i, u)" by simp
    note u_ok = zs_okD(2) [OF ok mem [OF n(1) u]]
    have "holds_lock t \<Longrightarrow> \<not> holds_lock u"
      using two_holders [OF n(1) k(1) False] zs_okD(3) [OF ok] u k(2) by auto
    then show ?thesis
      using other_task_ok [OF u_ok _ step t_ok] unlocked_task_ok [OF u_ok] zt_step_connects [OF step t_ok]
      by (metis zome_system.select_convs(1))
  qed
next
  have "holders \<lparr>zs_conn = s, zs_tasks = (zs_tasks z)[k := (j, t')]\<rparr> + (if holds_lock t then 1 else 0) =
      holders z + (if holds_lock t' then 1 else 0)"
    using filter_update_length [OF k(1), of "\<lambda>jt. holds_lock (snd jt)" "(j, t')"] k(2) by (simp add: holders_def)
  then show "holders \<lparr>zs_conn = s, zs_tasks = (zs_tasks z)[k := (j, t')]\<rparr> \<le> 1"
    using zs_okD(3) [OF ok] takes_lock [OF step] lock lock_free_holders [of z] by (auto split: if_splits)
qed

lemma zstep_ok:
  assumes "zstep h cd l z z'" and "zs_ok cd z"
  shows "zs_ok cd z'"
  using assms(1)
proof (cases rule: zstep.cases)
  case (arrive j)
  show ?thesis
    by (rule zs_okI [OF assms(2)]) (use arrive zs_okD [OF assms(2)] in \<open>auto simp: holders_def\<close>)
next
  case (run k j t s t')
  from zstep_run_ok [OF assms(2) run(3,4,6,7)] run(2) show ?thesis by simp
next
  case (dropped k j t)
  have "holders z' \<le> holders z"
    using filter_update_length [OF dropped(3), of "\<lambda>jt. holds_lock (snd jt)" "(j, ZtDropped)"] dropped(2)
    by (simp add: holders_def)
  then show ?thesis
    by (intro zs_okI [OF assms(2)])
      (use dropped(2) zs_okD [OF assms(2)] set_update_subset_insert [of "zs_tasks z" k] in force)+
next
  case (outside w)
  show ?thesis
    by (rule zs_okI [OF assms(2)])
      (use outside zs_okD [OF assms(2)] in \<open>auto simp: holders_def intro: unlocked_task_ok [where s = "zs_conn z"]\<close>)
qed

text \<open>A cached connection stays.\<close>

lemma zstep_keeps_cached:
  assumes "zstep h cd l z z'" and "zs_ok cd z" and "hm_get (ac_connections (zs_conn z)) a = Some aw"
  shows "hm_get (ac_connections (zs_conn z')) a = Some aw"
  using assms(1)
proof (cases rule: zstep.cases)
  case (run k j t s t')
  have "(j, t) \<in> set (zs_tasks z)" using run(3,4) by (metis nth_mem)
  note t_ok = zs_okD(2) [OF assms(2) this]
  show ?thesis
  proof (cases "ac_connections s = ac_connections (zs_conn z)")
    case False
    from zt_step_connects [OF run(7) t_ok False] obtain b bw where "hm_get (ac_connections (zs_conn z)) b = None"
      and "ac_connections s = hm_insert b bw (ac_connections (zs_conn z))" by blast
    with run(2) assms(3) show ?thesis by (cases "a = b") simp_all
  qed (use run(2) assms(3) in simp)
qed (use assms(3) in simp_all)

lemma zruns_ok: "runs (zstep h cd) ls z z' \<Longrightarrow> zs_ok cd z \<Longrightarrow> zs_ok cd z'"
  by (erule runs_keep [where P = "zs_ok cd"]) (simp_all add: zstep_ok)

lemma zruns_keep_cached:
  assumes "runs (zstep h cd) ls z z'" and "zs_ok cd z" and "hm_get (ac_connections (zs_conn z)) a = Some aw"
  shows "hm_get (ac_connections (zs_conn z')) a = Some aw"
  by (rule runs_keep [where P = "\<lambda>z. zs_ok cd z \<and> hm_get (ac_connections (zs_conn z)) a = Some aw", OF assms(1), THEN conjunct2])
    (use assms(2,3) zstep_ok zstep_keeps_cached in \<open>blast+\<close>)

end
