(* ===== verification/Zome_Properties.thy ===== *)
theory Zome_Properties imports Zome_System begin

text \<open>
  What holds of zome calls at once: every app has one connection, which is authorised for all its cells and
  stays; and calls neither block each other for good nor go on for ever. A lemma ties the tasks to the
  sequential \<open>call_zome\<close> of \<open>Zome_Call\<close>: a task that is not disturbed comes to what it computes.
\<close>

section \<open>Calls end\<close>

fun stage_rank :: "connect_stage \<Rightarrow> nat \<times> nat" where
  "stage_rank NeedAdmin = (7, 0)"
| "stage_rank (NeedToken _) = (6, 0)"
| "stage_rank (NeedInterfaces _ _) = (5, 0)"
| "stage_rank (NeedAttach _ _) = (4, 0)"
| "stage_rank (NeedSocket _ _ _) = (3, 0)"
| "stage_rank (NeedCredentials _ _ cells _) = (2, length cells)"

fun task_rank :: "zome_task \<Rightarrow> nat \<times> nat" where
  "task_rank ZtSearch = (17, 0)"
| "task_rank (ZtList n) = (10 + 3 * n, 0)"
| "task_rank (ZtListing n _) = (12 + 3 * n, 0)"
| "task_rank (ZtReset n) = (11 + 3 * n, 0)"
| "task_rank (ZtStore _) = (9, 0)"
| "task_rank (ZtConnect _ _) = (8, 0)"
| "task_rank (ZtConnecting _ _ stage) = stage_rank stage"
| "task_rank (ZtCall _ _ _) = (1, 0)"
| "task_rank (ZtDone _) = (0, 0)"
| "task_rank ZtDropped = (0, 0)"

definition rank_less :: "((nat \<times> nat) \<times> (nat \<times> nat)) set" where
  "rank_less = less_than <*lex*> less_than"

definition zs_rank :: "'c zome_system \<Rightarrow> (nat \<times> nat) multiset" where
  "zs_rank z = mset (map (\<lambda>jt. task_rank (snd jt)) (zs_tasks z))"

lemma wf_rank: "wf (mult rank_less)"
  unfolding rank_less_def by (intro wf_mult wf_lex_prod wf_less_than)

lemma connect_step_rank:
  "connect_step cd a c stage s = (s', t') \<Longrightarrow> (task_rank t', stage_rank stage) \<in> rank_less"
  by (cases "(cd, a, c, stage, s)" rule: connect_step.cases)
    (auto simp: go_on_def rank_less_def Let_def split: prod.splits sum.splits option.splits)

lemma zt_step_rank:
  assumes "zt_step h cd j t s = (s', t')" and "\<not> ended t"
  shows "(task_rank t', task_rank t) \<in> rank_less"
  using assms
proof (cases "(h, cd, j, t, s)" rule: zt_step.cases)
  case (8 h cd j a c stage s)
  with assms show ?thesis by (auto intro: connect_step_rank)
qed (auto simp: go_on_def rank_less_def split: prod.splits sum.splits option.splits conductor_api_error.splits)

lemma rank_update:
  assumes "k < length (zs_tasks z)" and "zs_tasks z ! k = (j, t)" and "(task_rank t', task_rank t) \<in> rank_less"
    and "zs_tasks z' = (zs_tasks z)[k := (j, t')]"
  shows "(zs_rank z', zs_rank z) \<in> mult rank_less"
proof -
  let ?f = "\<lambda>jt. task_rank (snd jt)"
  let ?xs = "map ?f (zs_tasks z)"
  have k: "k < length ?xs" "?xs ! k = task_rank t" using assms(1,2) by simp_all
  have "zs_rank z' = mset ?xs - {#task_rank t#} + {#task_rank t'#}"
    using k assms(4) by (simp add: zs_rank_def map_update mset_update)
  moreover have "zs_rank z = add_mset (task_rank t) (mset ?xs - {#task_rank t#})"
    using k nth_mem [OF k(1)] by (simp add: zs_rank_def insert_DiffM)
  ultimately have "(zs_rank z', zs_rank z) \<in> mult1 rank_less"
    using assms(3) by (intro mult1I [where K = "{#task_rank t'#}"]) auto
  then show ?thesis unfolding mult_def by (rule r_into_trancl)
qed

lemma dropped_rank: "\<not> ended t \<Longrightarrow> (task_rank ZtDropped, task_rank t) \<in> rank_less"
proof (cases t)
  case (ZtConnecting a c stage)
  then show ?thesis by (cases stage) (simp_all add: rank_less_def)
qed (simp_all add: rank_less_def)

lemma zstep_rank:
  assumes "zstep h cd l z z'"
  shows "case l of ZArrive _ \<Rightarrow> True | ZWorld _ \<Rightarrow> zs_rank z' = zs_rank z | _ \<Rightarrow> (zs_rank z', zs_rank z) \<in> mult rank_less"
  using assms
proof (cases rule: zstep.cases)
  case (run k j t s t')
  then have tasks: "zs_tasks z' = (zs_tasks z)[k := (j, t')]" by simp
  from rank_update [OF run(3,4) zt_step_rank [OF run(7,5)] tasks] run(1) show ?thesis by simp
next
  case (dropped k j t)
  then have tasks: "zs_tasks z' = (zs_tasks z)[k := (j, ZtDropped)]" by simp
  from rank_update [OF dropped(3,4) dropped_rank [OF dropped(5)] tasks] dropped(1) show ?thesis by simp
qed (simp_all add: zs_rank_def)

text \<open>There is always a task that can go on: the lock's holder, or any one.\<close>

lemma unended_runs:
  assumes "\<not> list_all (\<lambda>jt. ended (snd jt)) (zs_tasks z)"
  shows "\<exists>k z'. zstep h cd (ZRun k) z z'"
proof -
  obtain k where k: "k < length (zs_tasks z)" "\<not> ended (snd (zs_tasks z ! k))"
      "wants_lock (snd (zs_tasks z ! k)) \<longrightarrow> lock_free z"
  proof (cases "lock_free z")
    case False
    then obtain k where "k < length (zs_tasks z)" "holds_lock (snd (zs_tasks z ! k))"
      by (auto simp: lock_free_def list_ex_length)
    then show ?thesis by (intro that [of k]) (auto elim: holds_lock.elims)
  qed (use assms that in \<open>auto simp: list_all_length\<close>)
  obtain s t' where "zt_step h cd (fst (zs_tasks z ! k)) (snd (zs_tasks z ! k)) (zs_conn z) = (s, t')" by fastforce
  from zstep.run [OF k(1) prod.collapse [symmetric] k(2,3) this] show ?thesis by blast
qed

definition task_step :: "'c zome_label \<Rightarrow> bool" where
  "task_step l \<longleftrightarrow> (\<exists>k. l = ZRun k)"

definition all_ended :: "'c zome_system \<Rightarrow> bool" where
  "all_ended z \<longleftrightarrow> list_all (\<lambda>jt. ended (snd jt)) (zs_tasks z)"

interpretation zome: ending_system "zstep h cd" "zs_ok cd" task_step all_ended "inv_image (mult rank_less) zs_rank" for h cd
proof
  show "wf (inv_image (mult rank_less) zs_rank)" by (intro wf_inv_image wf_rank)
  show "(z', z) \<in> inv_image (mult rank_less) zs_rank" if "zstep h cd l z z'" "task_step l" for l z z'
    using zstep_rank [OF that(1)] that(2) by (auto simp: task_step_def)
  show "\<exists>l z'. task_step l \<and> zstep h cd l z z'" if "\<not> all_ended z" for z :: "'a zome_system"
    using unended_runs [of z h cd] that by (auto simp: all_ended_def task_step_def)
qed (rule zstep_ok)

section \<open>A call by itself\<close>

text \<open>A task none disturbs goes through \<open>call_zome\<close>.\<close>

definition alone_step :: "holo_hash_api \<Rightarrow> 'c conductor \<Rightarrow> zome_job \<Rightarrow> 'c app_conn \<times> zome_task \<Rightarrow> 'c app_conn \<times> zome_task" where
  "alone_step h cd j = (\<lambda>(s, t). zt_step h cd j t s)"

definition gets_to :: "holo_hash_api \<Rightarrow> 'c conductor \<Rightarrow> zome_job \<Rightarrow> 'c app_conn \<times> zome_task \<Rightarrow> 'c app_conn \<times> zome_task \<Rightarrow> bool" where
  "gets_to h cd j x y \<longleftrightarrow> (\<exists>n. (alone_step h cd j ^^ n) x = y)"

lemma gets_refl [simp]: "gets_to h cd j x x"
  unfolding gets_to_def by (rule exI [of _ 0]) simp

lemma gets_trans: "gets_to h cd j x y \<Longrightarrow> gets_to h cd j y z \<Longrightarrow> gets_to h cd j x z"
  unfolding gets_to_def by (metis funpow_add comp_apply)

lemma gets_step: "gets_to h cd j (zt_step h cd j t s) y \<Longrightarrow> gets_to h cd j (s, t) y"
  by (rule gets_trans [of h cd j _ "zt_step h cd j t s"])
    (simp_all add: gets_to_def alone_step_def exI [of _ "Suc 0"])

text \<open>Going on with the value of a fallible step, or ending with its error.\<close>

definition settle :: "('a \<Rightarrow> 'c app_conn \<Rightarrow> 'c app_conn \<times> zome_task) \<Rightarrow> 'c app_conn \<times> 'a linker_result \<Rightarrow> 'c app_conn \<times> zome_task" where
  "settle k sr = (case sr of (s, Inl e) \<Rightarrow> (s, ZtDone (Inl e)) | (s, Inr x) \<Rightarrow> k x s)"

lemma settle_simps [simp]: "settle k (s, Inl e) = (s, ZtDone (Inl e))" "settle k (s, Inr x) = k x s"
  by (simp_all add: settle_def)

lemma settle_and_then: "settle k (and_then f g s) = settle (\<lambda>x s'. settle k (g x s')) (f s)"
  by (auto simp: and_then_def split: prod.split sum.split)

lemma settle_returns [simp]: "settle k (returns x s) = k x s"
  by (simp add: returns_def)

lemma go_on_settle: "go_on g sr = settle (\<lambda>x s. (s, g x)) sr"
  by (simp add: go_on_def settle_def)

lemma gets_settle:
  assumes "\<And>x s. gets_to h cd j (f x s) (g x s)"
  shows "gets_to h cd j (settle f sr) (settle g sr)"
  using assms by (cases sr; cases "snd sr") auto

lemma gets_credentials:
  "gets_to h cd j (s, ZtConnecting a c (NeedCredentials admin ws cells creds))
     (settle (\<lambda>cr s'. let aw = \<lparr>aw_ws = ws, aw_credentials = cr\<rparr>
        in (s'\<lparr>ac_connections := hm_insert a aw (ac_connections s')\<rparr>, ZtCall a aw c)) (authorize_cells cd admin cells creds s))"
proof (induction cells arbitrary: creds s)
  case Nil
  show ?case by (rule gets_step) (simp add: Let_def)
next
  case (Cons cell cells)
  show ?case
  proof (cases cell)
    case (Provisioned i)
    show ?thesis unfolding Provisioned authorize_cells.simps settle_and_then
      by (rule gets_step) (simp add: go_on_settle gets_settle Cons.IH)
  next
    case (OtherCell b)
    show ?thesis unfolding OtherCell authorize_cells.simps
      by (rule gets_step) (simp add: Cons.IH)
  qed
qed

lemma gets_port:
  "gets_to h cd j (s, ZtConnecting a c (NeedInterfaces admin token))
     (settle (\<lambda>port s'. (s', ZtConnecting a c (NeedSocket admin token port))) (get_app_port cd admin s))"
proof (rule gets_step)
  have "gets_to h cd j (s', ZtConnecting a c (case find (\<lambda>i. if_allowed i GATEWAY_ORIGIN) ifaces of
        Some i \<Rightarrow> NeedSocket admin token (if_port i) | None \<Rightarrow> NeedAttach admin token))
      (settle (\<lambda>port s'. (s', ZtConnecting a c (NeedSocket admin token port)))
        ((case find (\<lambda>i. if_allowed i GATEWAY_ORIGIN) ifaces of Some i \<Rightarrow> returns (if_port i)
          | None \<Rightarrow> ask (cd_attach_app_interface cd admin GATEWAY_ORIGIN) holochain_error) s'))" for ifaces s'
  proof (cases "find (\<lambda>i. if_allowed i GATEWAY_ORIGIN) ifaces")
    case None
    show ?thesis unfolding None option.case by (rule gets_step) (simp add: go_on_settle)
  qed simp
  then show "gets_to h cd j (zt_step h cd j (ZtConnecting a c (NeedInterfaces admin token)) s)
      (settle (\<lambda>port s'. (s', ZtConnecting a c (NeedSocket admin token port))) (get_app_port cd admin s))"
    unfolding get_app_port_def settle_and_then zt_step.simps connect_step.simps go_on_settle by (rule gets_settle)
qed

lemma gets_connection:
  "gets_to h cd j (s, ZtConnect a c) (settle (\<lambda>aw s'. (s', ZtCall a aw c)) (app_get_or_connect cd a s))"
proof (cases "hm_get (ac_connections s) a")
  case None
  have "gets_to h cd j (s, ZtConnecting a c NeedAdmin)
      (settle (\<lambda>aw s'. (s'\<lparr>ac_connections := hm_insert a aw (ac_connections s')\<rparr>, ZtCall a aw c)) (connect_app cd a s))"
    unfolding connect_app_def settle_and_then
    apply (rule gets_step, simp add: go_on_settle, rule gets_settle)
    apply (rule gets_step, simp add: go_on_settle, rule gets_settle)
    apply (rule gets_trans [OF gets_port], rule gets_settle)
    apply (rule gets_step, simp add: go_on_settle, rule gets_settle)
    using gets_credentials by (simp add: Let_def)
  moreover have "settle (\<lambda>aw s'. (s', ZtCall a aw c)) (app_get_or_connect cd a s) =
      settle (\<lambda>aw s'. (s'\<lparr>ac_connections := hm_insert a aw (ac_connections s')\<rparr>, ZtCall a aw c)) (connect_app cd a s)"
    by (simp add: app_get_or_connect_def None split: prod.split sum.split)
  ultimately show ?thesis by (intro gets_step) (simp add: None)
next
  case (Some aw)
  show ?thesis by (rule gets_step) (simp add: Some app_get_or_connect_def)
qed

lemma gets_list: "gets_to h cd j (s, ZtList n) (settle (\<lambda>apps s'. (s', ZtStore apps)) (list_apps_tries cd n s))"
proof (induction n arbitrary: s)
  case 0
  show ?case by (rule gets_step) simp
next
  case (Suc n)
  obtain s1 r where c: "admin_get_or_connect cd s = (s1, r)" by fastforce
  show ?case
  proof (cases r)
    case (Inr ws)
    obtain w o' where l: "cd_list_apps cd ws (ac_conductor s1) = (w, o')" by fastforce
    have "gets_to h cd j (s1, ZtListing n ws) (settle (\<lambda>apps s'. (s', ZtStore apps)) (list_apps_tries cd (Suc n) s))"
    proof (cases o')
      case (Inl e)
      show ?thesis
      proof (cases e)
        case (WebsocketError m)
        show ?thesis
          by (rule gets_step, simp add: c Inr l Inl WebsocketError, rule gets_step) (use Suc.IH in simp)
      qed (rule gets_step, simp add: c Inr l Inl)
    qed (rule gets_step, simp add: c Inr l)
    then show ?thesis by (intro gets_step) (simp add: c Inr go_on_def)
  qed (rule gets_step, simp add: c go_on_def)
qed

lemma gets_found:
  "gets_to h cd j (s, ZtSearch)
     (settle (\<lambda>(app, c) s'. (s', ZtConnect (an_installed_app_id app) c)) (find_app_with_dna h cd (zj_dna j) s))"
proof (cases "find_in_apps (ac_app_info_cache s) (zj_dna j)")
  case None
  have "gets_to h cd j (settle (\<lambda>apps s'. (s', ZtStore apps)) (admin_list_apps cd s))
      (settle (\<lambda>apps s'. zt_step h cd j (ZtStore apps) s') (admin_list_apps cd s))"
    by (rule gets_settle) (rule gets_step, rule gets_refl)
  moreover have "settle (\<lambda>apps s'. zt_step h cd j (ZtStore apps) s') (admin_list_apps cd s) =
      settle (\<lambda>(app, c) s'. (s', ZtConnect (an_installed_app_id app) c)) (find_app_with_dna h cd (zj_dna j) s)"
    by (auto simp: find_app_with_dna_def None ok_or_def settle_def split: prod.split sum.split option.split)
  moreover have "gets_to h cd j (s, ZtSearch) (settle (\<lambda>apps s'. (s', ZtStore apps)) (admin_list_apps cd s))"
    by (rule gets_step) (use gets_list [of h cd j s 2] in \<open>simp add: None admin_list_apps_def\<close>)
  ultimately show ?thesis using gets_trans by metis
next
  case (Some x)
  obtain app c where "x = (app, c)" by (cases x)
  then show ?thesis by (intro gets_step) (simp add: Some find_app_with_dna_def)
qed

lemma gets_call:
  "gets_to h cd j (s, ZtSearch) (case call_zome h cd (zj_dna j) (zj_zome j) (zj_fn j) (zj_payload j) s of (s', r) \<Rightarrow> (s', ZtDone r))"
proof -
  let ?call = "\<lambda>c aw. ask (cd_call_zome cd aw c (zj_zome j) (zj_fn j) (zj_payload j)) holochain_error"
  have settled: "(case sr of (s', r) \<Rightarrow> (s', ZtDone r)) = settle (\<lambda>x s'. (s', ZtDone (Inr x))) sr" for sr :: "'c app_conn \<times> bytes linker_result"
    by (auto simp: settle_def split: prod.split sum.split)
  have call: "gets_to h cd j (s', ZtCall a aw c) (settle (\<lambda>x s'. (s', ZtDone (Inr x))) (?call c aw s'))" for a aw c s'
    by (rule gets_step) (simp add: settled)
  have connect: "gets_to h cd j (s', ZtConnect a c)
      (settle (\<lambda>x s'. (s', ZtDone (Inr x))) (and_then (app_get_or_connect cd a) (?call c) s'))" for a c s'
    unfolding settle_and_then by (rule gets_trans [OF gets_connection]) (rule gets_settle, rule call)
  show ?thesis unfolding settled call_zome_def settle_and_then
    by (rule gets_trans [OF gets_found], rule gets_settle) (use connect in \<open>auto split: prod.split\<close>)
qed

text \<open>The same in the system, when no other task holds the lock.\<close>

lemma lock_free_update:
  assumes "k < length (zs_tasks z)" and "lock_free z" and "\<not> holds_lock t"
  shows "lock_free \<lparr>zs_conn = s, zs_tasks = (zs_tasks z)[k := (j, t)]\<rparr>"
  using assms by (auto simp: lock_free_def list_ex_length nth_list_update)

lemma alone_in_system:
  assumes "k < length (zs_tasks z)" and "lock_free z" and "(alone_step h cd j ^^ n) (s, t) = (s', t')" and "ended t'"
  shows "\<exists>m. runs (zstep h cd) (replicate m (ZRun k)) \<lparr>zs_conn = s, zs_tasks = (zs_tasks z)[k := (j, t)]\<rparr>
    \<lparr>zs_conn = s', zs_tasks = (zs_tasks z)[k := (j, t')]\<rparr>"
  using assms(3)
proof (induction n arbitrary: s t)
  case 0
  then show ?case by (intro exI [of _ 0]) (simp add: runs.start)
next
  case (Suc n)
  let ?z = "\<lambda>s t. \<lparr>zs_conn = s, zs_tasks = (zs_tasks z)[k := (j, t)]\<rparr>"
  obtain s1 t1 where one: "zt_step h cd j t s = (s1, t1)" by fastforce
  with Suc.prems have "(alone_step h cd j ^^ n) (s1, t1) = (s', t')"
    by (simp add: funpow_Suc_right alone_step_def del: funpow.simps)
  from Suc.IH [OF this] obtain m where m: "runs (zstep h cd) (replicate m (ZRun k)) (?z s1 t1) (?z s' t')" by blast
  show ?case
  proof (cases "ended t")
    case True
    with one have "s1 = s \<and> t1 = t" by (cases t) simp_all
    with m show ?thesis by blast
  next
    case False
    have "wants_lock t \<longrightarrow> lock_free (?z s t)"
      using lock_free_update [OF assms(1,2), of t s j] by (cases t) auto
    from zstep.run [of k "?z s t" j t, OF _ _ False this, of h cd s1 t1] one assms(1)
    have "zstep h cd (ZRun k) (?z s t) (?z s1 t1)" by simp
    from runs_cons [where R = "zstep h cd", OF this m] show ?thesis by (intro exI [of _ "Suc m"]) simp
  qed
qed

lemma call_in_system:
  assumes "lock_free z"
  obtains n where "runs (zstep h cd) (ZArrive j # replicate n (ZRun (length (zs_tasks z)))) z
    \<lparr>zs_conn = fst (call_zome h cd (zj_dna j) (zj_zome j) (zj_fn j) (zj_payload j) (zs_conn z)),
      zs_tasks = zs_tasks z @ [(j, ZtDone (snd (call_zome h cd (zj_dna j) (zj_zome j) (zj_fn j) (zj_payload j) (zs_conn z))))]\<rparr>"
proof -
  let ?z = "z\<lparr>zs_tasks := zs_tasks z @ [(j, ZtSearch)]\<rparr>"
  let ?r = "call_zome h cd (zj_dna j) (zj_zome j) (zj_fn j) (zj_payload j) (zs_conn z)"
  obtain n where n: "(alone_step h cd j ^^ n) (zs_conn z, ZtSearch) = (fst ?r, ZtDone (snd ?r))"
    using gets_call [of h cd j "zs_conn z"] by (auto simp: gets_to_def split: prod.splits)
  have update: "z\<lparr>zs_tasks := ts\<rparr> = \<lparr>zs_conn = zs_conn z, zs_tasks = ts\<rparr>" for ts by (cases z) simp
  have free: "lock_free ?z" using assms by (simp add: lock_free_def)
  obtain m where m: "runs (zstep h cd) (replicate m (ZRun (length (zs_tasks z)))) ?z
      \<lparr>zs_conn = fst ?r, zs_tasks = zs_tasks z @ [(j, ZtDone (snd ?r))]\<rparr>"
    using alone_in_system [OF _ free n, of "length (zs_tasks z)"] by (auto simp: update)
  show thesis by (rule that, rule runs_cons [where R = "zstep h cd"], rule zstep.arrive, rule m)
qed

section \<open>Properties\<close>

text \<open>C29. One connection to an app, whatever calls come and go at once and whatever the conductor answers: at
  any time at most one call connects, and only to an app that has no connection; a cached connection has
  signing credentials for exactly the provisioned cells of its app, in their order, and stays as it is; and
  a call is only ever made over its app's cached connection, to a cell of the DNA it named. A connection
  whose authorization failed half-way, or whose client went away, is not cached.\<close>

theorem one_connection_per_app:
  assumes "runs (zstep h cd) ls (zs_new w) z" and "runs (zstep h cd) ks z z'"
  shows "length (filter (\<lambda>jt. holds_lock (snd jt)) (zs_tasks z)) \<le> 1 \<and>
    (\<forall>a aw. hm_get (ac_connections (zs_conn z)) a = Some aw \<longrightarrow>
      map fst (aw_credentials aw) = provisioned (cd_cached_app_info cd (aw_ws aw)) \<and>
      hm_get (ac_connections (zs_conn z')) a = Some aw) \<and>
    (\<forall>(j, t) \<in> set (zs_tasks z). case t of
       ZtConnecting a c _ \<Rightarrow> hm_get (ac_connections (zs_conn z)) a = None \<and> ci_dna_hash c = zj_dna j
     | ZtCall a aw c \<Rightarrow> hm_get (ac_connections (zs_conn z)) a = Some aw \<and> ci_dna_hash c = zj_dna j
     | _ \<Rightarrow> True)"
proof (intro conjI allI impI)
  have ok: "zs_ok cd z" by (rule zruns_ok [OF assms(1) zs_new_ok])
  then show "length (filter (\<lambda>jt. holds_lock (snd jt)) (zs_tasks z)) \<le> 1" by (simp add: zs_ok_def)
  have "case t of ZtConnecting a c _ \<Rightarrow> hm_get (ac_connections (zs_conn z)) a = None \<and> ci_dna_hash c = zj_dna j
      | ZtCall a aw c \<Rightarrow> hm_get (ac_connections (zs_conn z)) a = Some aw \<and> ci_dna_hash c = zj_dna j | _ \<Rightarrow> True"
    if "(j, t) \<in> set (zs_tasks z)" for j t
    using zs_okD(2) [OF ok that] by (cases t) simp_all
  then show "\<forall>(j, t) \<in> set (zs_tasks z). case t of
       ZtConnecting a c _ \<Rightarrow> hm_get (ac_connections (zs_conn z)) a = None \<and> ci_dna_hash c = zj_dna j
     | ZtCall a aw c \<Rightarrow> hm_get (ac_connections (zs_conn z)) a = Some aw \<and> ci_dna_hash c = zj_dna j
     | _ \<Rightarrow> True" by blast
  fix a aw assume a: "hm_get (ac_connections (zs_conn z)) a = Some aw"
  show "map fst (aw_credentials aw) = provisioned (cd_cached_app_info cd (aw_ws aw))"
    using zs_okD(1) [OF ok a] by (simp add: authorised_connection_def)
  show "hm_get (ac_connections (zs_conn z')) a = Some aw" by (rule zruns_keep_cached [OF assms(2) ok a])
qed

text \<open>C30. Calls end. While no new call comes, tasks take only finitely many steps, however the conductor
  changes meanwhile; as long as a call has not ended, one can go on (the holder of the lock, if there is one);
  so from any state the calls can run to their end.\<close>

theorem zome_calls_finish:
  assumes "runs (zstep h cd) ls (zs_new w) z"
  shows "\<not> (\<exists>f lab. (\<forall>n. zstep h cd (lab n) (f n) (f (Suc n)) \<and> (\<forall>j. lab n \<noteq> ZArrive j)) \<and>
      (\<forall>m. \<exists>n k. m \<le> n \<and> lab n = ZRun k)) \<and>
   (all_ended z \<or> (\<exists>k z'. zstep h cd (ZRun k) z z')) \<and>
   (\<exists>ks z'. runs (zstep h cd) ks z z' \<and> list_all task_step ks \<and> all_ended z')"
proof (intro conjI)
  have ok: "zs_ok cd z" by (rule zome.run_keeps [OF assms zs_new_ok])
  from zome.runs_to_end [OF ok] show "\<exists>ks z'. runs (zstep h cd) ks z z' \<and> list_all task_step ks \<and> all_ended z'" .
  from zome.goes_on [OF ok] show "all_ended z \<or> (\<exists>k z'. zstep h cd (ZRun k) z z')" by (auto simp: task_step_def)
  show "\<not> (\<exists>f lab. (\<forall>n. zstep h cd (lab n) (f n) (f (Suc n)) \<and> (\<forall>j. lab n \<noteq> ZArrive j)) \<and>
      (\<forall>m. \<exists>n k. m \<le> n \<and> lab n = ZRun k))"
  proof (intro notI, elim exE conjE)
    fix f lab
    assume steps: "\<forall>n. zstep h cd (lab n) (f n) (f (Suc n)) \<and> (\<forall>j. lab n \<noteq> ZArrive j)"
      and often: "\<forall>m. \<exists>n k. m \<le> n \<and> lab n = ZRun k"
    have down: "zs_rank (f (Suc n)) = zs_rank (f n) \<or> (zs_rank (f (Suc n)), zs_rank (f n)) \<in> mult rank_less" for n
    proof -
      have "zstep h cd (lab n) (f n) (f (Suc n))" and "\<And>j. lab n \<noteq> ZArrive j" using steps by blast+
      from zstep_rank [OF this(1)] this(2) show ?thesis by (cases "lab n") auto
    qed
    from comes_to_stand [where g = "\<lambda>n. zs_rank (f n)", OF wf_rank down] obtain m where m: "\<And>n. m \<le> n \<Longrightarrow> zs_rank (f (Suc n)) = zs_rank (f n)" by blast
    from often obtain n k where n: "m \<le> n" "lab n = ZRun k" by blast
    have "(zs_rank (f n), zs_rank (f n)) \<in> mult rank_less"
      using zstep_rank [of h cd "lab n" "f n" "f (Suc n)"] spec [OF steps, of n] n m [OF n(1)] by simp
    with wf_rank show False by (simp add: wf_not_refl)
  qed
qed

text \<open>A call that no other disturbs comes to what \<open>call_zome\<close> computes, with the same calls of the conductor
  and the same caches left: the steps of the task are those of the sequential definition.\<close>

lemma undisturbed_call:
  assumes "lock_free z"
  shows "\<exists>n. runs (zstep h cd) (ZArrive j # replicate n (ZRun (length (zs_tasks z)))) z
    \<lparr>zs_conn = fst (call_zome h cd (zj_dna j) (zj_zome j) (zj_fn j) (zj_payload j) (zs_conn z)),
      zs_tasks = zs_tasks z @ [(j, ZtDone (snd (call_zome h cd (zj_dna j) (zj_zome j) (zj_fn j) (zj_payload j) (zs_conn z))))]\<rparr>"
  using call_in_system [OF assms] by blast

section \<open>A run\<close>

definition sample_job :: zome_job where
  "sample_job = \<lparr>zj_dna = DnaHash [7], zj_zome = ''z'', zj_fn = ''f'', zj_payload = []\<rparr>"

definition sample_connection :: app_connection where
  "sample_connection = \<lparr>aw_ws = 0, aw_credentials = [(\<lparr>ci_dna_hash = DnaHash [8], ci_agent_pubkey = AgentPubKey [1]\<rparr>, []),
     (\<lparr>ci_dna_hash = DnaHash [7], ci_agent_pubkey = AgentPubKey [1]\<rparr>, [])]\<rparr>"

lemma sample_call_effect:
  "hm_get (ac_connections (fst (call_zome plain_holo_hash sample_conductor (DnaHash [7]) ''z'' ''f'' [] (app_conn_new 0)))) ''app'' =
     Some sample_connection \<and>
   snd (call_zome plain_holo_hash sample_conductor (DnaHash [7]) ''z'' ''f'' [] (app_conn_new 0)) = Inr [7]"
  by (simp add: call_zome_def find_app_with_dna_def app_conn_new_def admin_list_apps_def numeral_2_eq_2 admin_get_or_connect_def
    sample_conductor_def and_then_def app_get_or_connect_def connect_app_def ask_def get_app_port_def sample_app_def sample_cells_def
    hm_get_Cons sample_connection_def hm_insert_def hm_remove_def)

lemma new_lock_free: "lock_free (zs_new w)"
  by (simp add: lock_free_def zs_new_def)

lemma sample_run:
  "\<exists>ls s. runs (zstep plain_holo_hash sample_conductor) ls (zs_new 0)
     \<lparr>zs_conn = s, zs_tasks = [(sample_job, ZtDone (Inr [7]))]\<rparr> \<and> hm_get (ac_connections s) ''app'' = Some sample_connection"
  by (rule call_in_system [OF new_lock_free, of plain_holo_hash sample_conductor sample_job 0])
    (use sample_call_effect in \<open>auto simp: sample_job_def zs_new_def\<close>)

theorem one_connection_per_app_witness:
  "\<exists>aw :: app_connection. map fst (aw_credentials aw) = provisioned (cd_cached_app_info sample_conductor (aw_ws aw)) \<and> length (aw_credentials aw) = 2"
proof -
  obtain ls s where run: "runs (zstep plain_holo_hash sample_conductor) ls (zs_new 0)
      \<lparr>zs_conn = s, zs_tasks = [(sample_job, ZtDone (Inr [7]))]\<rparr>" and app: "hm_get (ac_connections s) ''app'' = Some sample_connection"
    using sample_run by blast
  from one_connection_per_app [OF run runs.start] app
  have "map fst (aw_credentials sample_connection) = provisioned (cd_cached_app_info sample_conductor (aw_ws sample_connection))"
    by simp
  then show ?thesis by (intro exI [of _ sample_connection]) (simp add: sample_connection_def)
qed

lemma undisturbed_call_example:
  "\<exists>ls s. runs (zstep plain_holo_hash sample_conductor) ls (zs_new 0)
     \<lparr>zs_conn = s, zs_tasks = [(sample_job, ZtDone (Inr [7]))]\<rparr> \<and> hm_get (ac_connections s) ''app'' = Some sample_connection"
  using undisturbed_call [OF new_lock_free, of plain_holo_hash sample_conductor sample_job 0] sample_call_effect
  by (auto simp: sample_job_def zs_new_def)

theorem zome_calls_finish_witness:
  "\<exists>ks z'. runs (zstep plain_holo_hash sample_conductor) ks
     \<lparr>zs_conn = app_conn_new 0, zs_tasks = [(sample_job, ZtSearch), (sample_job, ZtSearch)]\<rparr> z' \<and>
     list_all task_step ks \<and> all_ended z'"
proof -
  have "runs (zstep plain_holo_hash sample_conductor) [ZArrive sample_job, ZArrive sample_job] (zs_new 0)
      \<lparr>zs_conn = app_conn_new 0, zs_tasks = [(sample_job, ZtSearch), (sample_job, ZtSearch)]\<rparr>"
  proof (rule runs_cons, rule zstep.arrive)
    show "runs (zstep plain_holo_hash sample_conductor) [ZArrive sample_job]
        ((zs_new 0)\<lparr>zs_tasks := zs_tasks (zs_new 0) @ [(sample_job, ZtSearch)]\<rparr>)
        \<lparr>zs_conn = app_conn_new 0, zs_tasks = [(sample_job, ZtSearch), (sample_job, ZtSearch)]\<rparr>"
      using zstep.arrive [of plain_holo_hash sample_conductor sample_job "\<lparr>zs_conn = app_conn_new 0, zs_tasks = [(sample_job, ZtSearch)]\<rparr>"]
      by (intro runs_one) (simp add: zs_new_def)
  qed
  from zome_calls_finish [OF this] show ?thesis by blast
qed

end
