(* ===== verification/Spec2Isabelle.thy ===== *)
theory Spec2Isabelle
  imports Service_Properties Linker_Properties Published_Ops Op_Lifetime Local_Agent Query_Reads Zome_Properties
    Auth_Answers Gateway_System Sections
begin

text \<open>
  A model of the linker (the crate under \<open>src/src\<close>), a gateway between browser agents that hold no
  part of the DHT and a Holochain network. A browser authenticates over a WebSocket with a signed
  challenge, registers its agents for DNAs, receives their signals and signs for them; over HTTP it
  reads and publishes with the session the WebSocket login gave it. File names below are relative to
  \<open>src/src\<close>.

  The parts and their theories.

  Foundations. \<open>Linker_Prelude\<close>: hashes, the standard \<open>HashMap\<close> as an association list with distinct
  keys (its order stands for the order of the run; where a loop over a map is observable the order is an
  argument), fallible state transformers. \<open>Text\<close>: printing and parsing of unsigned integers.
  \<open>Http\<close>: requests, responses, \<open>error.rs\<close>. \<open>Messages\<close>: the WebSocket messages and the kitsune2 types.
  \<open>One_Shot\<close>: the locale of a table of pending one-shot channels, with the lemma that the first event
  for a request decides it; \<open>Agent_Proxy\<close> and \<open>Pending_Dht\<close> interpret it.

  Sessions. \<open>Auth_Types\<close> (\<open>auth/types.rs\<close>), \<open>Session_Store\<close> (\<open>auth/session_store.rs\<close>: the trait's
  methods as relations on an abstract store, and the locale clients rely on), \<open>Memory_Store\<close> and
  \<open>Sqlite_Store\<close> with \<open>Sqlite_Refinement\<close> (the two backends, both interpretations of the locale; the
  second runs its statements one by one, any of which may fail), \<open>Auth_Store\<close> (\<open>auth/store.rs\<close>),
  \<open>Auth_Answers\<close> (the answer of every call on it, exact unless a statement of the call failed).
  \<open>Auth_Gate\<close> and \<open>Router\<close>: the middleware, the admin handlers (\<open>auth/middleware.rs\<close>,
  \<open>auth/admin.rs\<close>) and the routing tables (\<open>router.rs\<close>).

  Browsers. \<open>Agent_Proxy\<close> (\<open>agent_proxy.rs\<close>: registrations, bounded channels, signals, remote
  signatures cut at their awaits), \<open>Websocket\<close> (\<open>routes/websocket.rs\<close>: every client message and the
  cleanup), \<open>Websocket_System\<close> (the socket loop and many connections on one linker, as lists of events
  in any interleaving), \<open>Websocket_Safety\<close> (its invariant), \<open>Websocket_Properties\<close>.

  The network. \<open>Gateway_Kitsune\<close> (\<open>gateway_kitsune.rs\<close>, \<open>proxy_agent.rs\<close>: spaces, agents, signals,
  publishing), \<open>Gateway_System\<close> (joins, leaves and uses of spaces cut at their awaits, in any interleaving),
  \<open>Local_Agent\<close> (the agent kitsune2 is given, as kitsune2 uses it), \<open>Wire\<close> (the wire types the code takes apart), \<open>Wire_Json\<close> (answers to JSON, in
  \<open>routes/dht.rs\<close>), \<open>Pending_Dht\<close> and \<open>Dht_Query\<close> (\<open>dht_query.rs\<close>: routing of answers, requests cut at
  their awaits, the choice among peers), \<open>Query_System\<close> (any number of requests at once on the table of
  pending answers, as a step relation over every schedule), \<open>Dht_Routes\<close> (the read endpoints of \<open>routes/dht.rs\<close>),
  \<open>Temp_Op_Store\<close> and \<open>Op_Lifetime\<close> (\<open>temp_op_store.rs\<close>; its cleanup task in time), \<open>Publish\<close> (\<open>routes/publish.rs\<close>), \<open>Wire_Preflight\<close>
  (\<open>wire_preflight.rs\<close>), \<open>Kitsune_Routes\<close> (\<open>routes/kitsune.rs\<close>, \<open>routes/test_signal.rs\<close>,
  \<open>routes/health.rs\<close>).

  The whole. \<open>Endpoints\<close>: the application state (\<open>AppState\<close> in \<open>service.rs\<close>), what each endpoint takes out
  of a request and how it renders its answer, and the table of endpoints the router serves.
  \<open>Service_System\<close>: HTTP requests, the connections they upgrade to, the network and the clean-up task on
  that state, in any interleaving, as a refinement of \<open>Websocket_System\<close>; \<open>Service_Properties\<close>.
  \<open>Shapes\<close> and \<open>Service_Types\<close>: what is well-formed in the state and that every event keeps it; \<open>Sections\<close>:
  that the critical sections of handlers cut at their awaits keep it too. \<open>Kitsune_Builder\<close>: kitsune2's
  set-up (\<open>KitsuneProxy\<close> and its builder in \<open>gateway_kitsune.rs\<close>, and \<open>kitsune.rs\<close>). \<open>Linker_Service\<close>:
  \<open>LinkerService::new\<close> and \<open>run\<close> and \<open>main\<close> (\<open>service.rs\<close>, \<open>bin/h2hc-linker.rs\<close>); \<open>Linker_Properties\<close>,
  \<open>Published_Ops\<close>. \<open>Query_Reads\<close>: the read endpoints on the requests of \<open>Query_System\<close>.

  The rest. \<open>Config\<close> (\<open>config.rs\<close>), \<open>Identity\<close> (\<open>identity.rs\<close>), \<open>Registration\<close> (\<open>registration.rs\<close>),
  \<open>Linker_Report\<close> (\<open>linker_report.rs\<close>), \<open>Zome_Call\<close> (\<open>routes/zome_call.rs\<close>, \<open>conductor/*.rs\<close>:
  one call as a function), \<open>Zome_System\<close> and \<open>Zome_Properties\<close> (any number of calls at once, as tasks on the shared
  locks and caches). \<open>Runs\<close> holds what the step relations share.

  How code becomes definitions. A struct is a record, an enum a datatype, a method a definition of the
  same name (with the prefix of its component where the name is taken). A \<open>Result\<close> is a sum with the
  error on the left. Locks are held for one definition; where a method takes a lock twice and the gap
  matters (creating a session, the preflight cache) the two halves are definitions of their own. An
  asynchronous method that awaits another task is cut at the await into definitions on a task value;
  where an endpoint is served over the whole state it is one step again, and what its awaits brought comes
  with the request. In the runs of \<open>Websocket_System\<close> and \<open>Service_System\<close> a message or a request is one event:
  there creating a session, joining and leaving are done with nothing in between. What can come in between is
  shown apart: at the end of \<open>Auth_Store\<close> for the two locks of \<open>memory_store.rs\<close>'s
  \<open>create_session\<close>, \<open>Gateway_System\<close> for joins and leaves (with the race in which a joined agent loses its
  space), and \<open>Sections\<close> for what stays well-formed whatever interleaves. A signing request is three events
  in those runs: begun, sent, finished. An \<open>Arc\<close> shared between parts is a number, so that who shares what is a fact of the
  model.
  Integers that wrap are words; byte and op counts that cannot reach their width are naturals. Random
  values, clocks and what a crate computes (hashes, codecs, signatures, kitsune2 itself, the conductor, the
  file system, the HTTP client) are arguments, with what the proofs need of them as named predicates
  such as \<open>holo_hash_ok\<close>, \<open>preflight_ok\<close> or \<open>fs_ok\<close>, each of which has a concrete instance.

  What is shown. Over every run of the whole linker: it refines the system of connections; a DHT endpoint runs
  for a request only when the key was proved, the capability granted and the DNA asked for; without a
  token nothing changes but a test signal's queue and the conductor's connection; every part stays well-formed,
  however handlers interleave; an op reported as published is served for its
  time to live; what a read endpoint shows came in for a request to a peer chosen for the location. Of its
  start and end: the parts are wired to each other, a start fails cleanly, a clean exit deregisters. Over every interleaving of connections: signals and sessions rest on proved keys, tokens
  carry no more than an administrator granted and only DNAs a proved connection asked for. The gates:
  a request that does not pass never reaches its handler, one that passes does. The stores: both
  backends refine the abstract store, answer by answer, but for the calls in which a statement failed; a
  removed agent stays out. Messages to browsers: each reaches the connection its agent was registered with, once
  and in order. The gateway: a joined agent has its space unless its join clashes with a leave; \<open>shutdown\<close> tells the
  network of every agent, but nothing in the program calls it. Requests over channels:
  the first answer, a withdrawal or the timeout decides, and nothing else. DHT reads: which peers are
  asked, which answer is taken, what becomes of it; every request gets an answer of its own id or fails, and
  all of them end and leave the table empty. Publishing: what is stored, for how long at least and at
  most it can be fetched, what counts as published. Zome calls at once: one connection to
  an app, no deadlock, an end; and a call after a first one is a single request to the conductor. The handshake, the status endpoints, the reports, the heartbeats
  and the key file: each theory states its own.

  Bounds. No definition needs fuel: loops are recursion on lists or on numbers, and waiting is an event.
  Two tries of \<open>list_apps\<close> are a counter of two, as in the code. A channel to a browser holds 32 messages,
  that of the reports 4096.

  Not modelled: the framing, CORS and body limit of the HTTP server, the JSON and MessagePack encodings
  of whole messages (crates), what kitsune2's own builder makes of the calls on it, the signal handlers,
  logging, and the time-outs inside the client libraries. In \<open>Endpoints\<close> a zome call is one step.
\<close>

end
